(* ===== verification/Prelude.thy ===== *)
theory Prelude
  imports Main "HOL-Library.Word" "HOL-Library.Monad_Syntax"
begin

unbundle bit_operations_syntax

text \<open>
  Shared vocabulary of the development: the machine types of the C++ code, reads of
  memory that may fall outside the allocated block, and the facts about bytes and words
  that the codec theories use.

  A function that may run into undefined behaviour (a read past the allocated memory, a
  call through a null pointer) returns an \<open>option\<close>: \<open>None\<close> is undefined behaviour,
  so a theorem that such a function returns \<open>Some\<close> is a memory-safety theorem.
\<close>

type_synonym byte = "8 word"
type_synonym u32 = "32 word"
type_synonym u64 = "64 word"

text \<open>\<open>int32\<close> values keep their two's complement bits; \<open>s32_neg v\<close> is \<open>v < 0\<close>.\<close>

type_synonym i32 = "32 word"

definition INT_MAX :: int where
  "INT_MAX = 2147483647"

definition s32_neg :: "i32 \<Rightarrow> bool" where
  "s32_neg v \<longleftrightarrow> sint v < 0"

named_theorems byte_simps
named_theorems ub_simps

subsection \<open>Reads that may leave the block\<close>

definition mem_at :: "byte list \<Rightarrow> nat \<Rightarrow> byte option" where
  "mem_at m i = (if i < length m then Some (m ! i) else None)"

lemma mem_at_Cons_0 [simp]: "mem_at (b # bs) 0 = Some b"
  by (simp add: mem_at_def)

lemma mem_at_Cons_Suc [simp]: "mem_at (b # bs) (Suc i) = mem_at bs i"
  by (simp add: mem_at_def)

lemma mem_at_Cons_numeral [simp]: "mem_at (b # bs) (numeral n) = mem_at bs (pred_numeral n)"
  by (simp add: numeral_eq_Suc)

lemma mem_at_Nil [simp]: "mem_at [] i = None"
  by (simp add: mem_at_def)

subsection \<open>Bytes and words as numbers\<close>

lemma unat_of_nat_byte [byte_simps]: "unat (of_nat n :: byte) = n mod 256"
  by (simp add: unat_of_nat)

lemma of_nat_byte_eq_iff [byte_simps]:
  "m < 256 \<Longrightarrow> n < 256 \<Longrightarrow> (of_nat m :: byte) = of_nat n \<longleftrightarrow> m = n"
  by (metis mod_less unat_of_nat_byte)

lemma byte_lt_256: "unat (b :: byte) < 256"
  using unsigned_less [of b] by simp

lemma u32_lt_2p32: "unat (w :: u32) < 4294967296"
  using unsigned_less [of w] by simp

lemma u64_lt_2p64: "unat (w :: u64) < 18446744073709551616"
  using unsigned_less [of w] by simp

lemma byte_and_0x80 [byte_simps]: "(b :: byte) AND 0x80 = 0 \<longleftrightarrow> unat b < 128"
proof -
  have "(b AND 0x80 = 0) = (\<not> bit b 7)"
    using and_exp_eq_0_iff_not_bit [of b 7] by simp
  also have "\<dots> = (\<not> bit (unat b) 7)"
    by (simp add: bit_unsigned_iff)
  also have "\<dots> = (even (unat b div 128))"
    by (simp add: bit_iff_odd)
  also have "\<dots> = (unat b < 128)"
  proof (cases "unat b < 128")
    case False
    then have "unat b div 128 = 1"
      using byte_lt_256 [of b] by linarith
    with False show ?thesis by simp
  qed simp
  finally show ?thesis .
qed

lemma u32_byte_and_0x80 [byte_simps]: "(ucast (b :: byte) :: u32) AND 0x80 = 0 \<longleftrightarrow> unat b < 128"
proof -
  have "((ucast b :: u32) AND 0x80 = 0) = (\<not> bit (ucast b :: u32) 7)"
    using and_exp_eq_0_iff_not_bit [of "ucast b :: u32" 7] by simp
  also have "\<dots> = (b AND 0x80 = 0)"
    using and_exp_eq_0_iff_not_bit [of b 7] by (simp add: bit_ucast_iff)
  finally show ?thesis by (simp add: byte_and_0x80)
qed

lemma byte_less_0x80 [byte_simps]: "(b :: byte) < 0x80 \<longleftrightarrow> unat b < 128"
  by (simp add: word_less_nat_alt)

lemma take_bit_7_or: "take_bit 8 n OR 0x80 = n mod 128 + (128 :: nat)"
proof -
  have "take_bit 8 n OR 0x80 = take_bit 7 n OR (0x80 :: nat)"
  proof (rule bit_eqI)
    fix k
    have "bit (0x80 :: nat) k = (k = 7)"
      using bit_exp_iff [of 7 k, where ?'a = nat] by simp
    then show "bit (take_bit 8 n OR 0x80) k = bit (take_bit 7 n OR 0x80) k"
      by (auto simp: bit_take_bit_iff bit_or_iff)
  qed
  also have "\<dots> = take_bit 7 n + 0x80"
  proof (rule disjunctive_add_eq_or [symmetric])
    show "take_bit 7 n AND 0x80 = (0 :: nat)"
    proof (rule bit_eqI)
      fix k
      have "bit (0x80 :: nat) k = (k = 7)"
        using bit_exp_iff [of 7 k, where ?'a = nat] by simp
      then show "bit (take_bit 7 n AND 0x80) k = bit (0 :: nat) k"
        by (auto simp: bit_and_iff bit_take_bit_iff)
    qed
  qed
  finally show ?thesis by (simp add: take_bit_eq_mod)
qed

lemma ucast_eq_of_nat: "(ucast (w :: 'a::len word) :: 'b::len word) = of_nat (unat w)"
  by (metis of_nat_unat unsigned_of_nat)

lemma byte_eqI: "unat (x :: byte) = n mod 256 \<Longrightarrow> x = of_nat n"
  by (simp add: word_unat_eq_iff unat_of_nat_byte)

text \<open>\<open>cont_byte n\<close>: the low seven bits of \<open>n\<close> with the continuation bit set.\<close>

definition cont_byte :: "nat \<Rightarrow> byte" where
  "cont_byte n = of_nat (n mod 128 + 128)"

lemma unat_cont_byte [byte_simps]: "unat (cont_byte n) = n mod 128 + 128"
  unfolding cont_byte_def by (simp only: unat_of_nat_byte) simp

lemma cont_byte_mod [byte_simps]: "cont_byte (n mod 128) = cont_byte n"
  by (simp add: cont_byte_def)

lemma cont_byteI: "unat b = n mod 128 + 128 \<Longrightarrow> b = cont_byte n"
  by (simp add: word_unat_eq_iff unat_cont_byte)

lemma ucast_or_0x80 [byte_simps]:
  assumes "8 \<le> LENGTH('a::len)"
  shows "(ucast ((w :: 'a word) OR 0x80) :: byte) = cont_byte (unat w)"
proof (rule cont_byteI)
  have "(128 :: nat) < 2 ^ LENGTH('a)"
    using power_increasing [OF assms, of "2 :: nat"] by simp
  then have "unat (0x80 :: 'a word) = 0x80"
    by (simp add: unat_numeral take_bit_nat_eq_self)
  then show "unat (ucast (w OR 0x80) :: byte) = unat w mod 128 + 128"
    by (simp add: unsigned_ucast_eq unsigned_or_eq take_bit_7_or)
qed

lemma cont_byte_and_0x7F [byte_simps]: "cont_byte n AND 0x7F = of_nat (n mod 128)"
proof (rule byte_eqI)
  have "unat (cont_byte n AND 0x7F) = (n mod 128 + 128) AND mask 7"
    by (simp add: unsigned_and_eq unat_cont_byte mask_eq_exp_minus_1)
  also have "\<dots> = n mod 128"
    by (simp flip: take_bit_eq_mask add: take_bit_eq_mod)
  finally show "unat (cont_byte n AND 0x7F) = n mod 128 mod 256"
    by simp
qed

lemma ucast_and_0x7F [byte_simps]:
  "(ucast (w :: 'a::len word) :: byte) AND 0x7F = of_nat (unat w mod 128)"
proof (rule byte_eqI)
  have "unat ((ucast w :: byte) AND 0x7F) = take_bit 8 (unat w) AND mask 7"
    by (simp add: unsigned_and_eq unsigned_ucast_eq mask_eq_exp_minus_1)
  also have "\<dots> = unat w mod 128"
    by (simp flip: take_bit_eq_mask add: take_bit_eq_mod mod_mod_cancel)
  finally show "unat ((ucast w :: byte) AND 0x7F) = unat w mod 128 mod 256"
    by simp
qed

lemma byte_mod_or_0x80 [byte_simps]: "(of_nat (n mod 128) :: byte) OR 0x80 = cont_byte n"
proof (rule cont_byteI)
  have "unat (of_nat (n mod 128) :: byte) = n mod 128"
    by (simp only: unat_of_nat_byte) simp
  then have "unat ((of_nat (n mod 128) :: byte) OR 0x80) = (n mod 128) OR 0x80"
    by (simp only: unsigned_or_eq) simp
  also have "\<dots> = take_bit 8 (n mod 128) OR take_bit 8 0x80"
    by (simp add: take_bit_eq_mod)
  finally show "unat ((of_nat (n mod 128) :: byte) OR 0x80) = n mod 128 + 128"
    by (simp add: take_bit_7_or)
qed

lemma unat_drop_bit [byte_simps]: "unat (drop_bit n (w :: 'a::len word)) = unat w div 2 ^ n"
  by (simp only: unat_drop_bit_eq) (simp add: drop_bit_eq_div)

lemma ucast_drop_bit [byte_simps]:
  "(ucast (drop_bit n (w :: 'a::len word)) :: 'b::len word) = of_nat (unat w div 2 ^ n)"
  by (simp only: unat_drop_bit [symmetric] ucast_eq_of_nat)

end
