(* ===== verification/ZeroCopy.thy ===== *)
theory ZeroCopy
  imports Prelude
begin

text \<open>
  The interface of \<^verbatim>\<open>google/protobuf/io/zero_copy_stream.h\<close> for output: the virtual methods
  of \<open>ZeroCopyOutputStream\<close> as a record of functions (its vtable), and the contract its
  comments give as the locale \<open>zero_copy_output\<close>.

  A stream owns the memory that \<open>Next\<close> lends, so a pointer is an offset into that memory and
  \<open>zc_store\<close> is the client's \<open>memcpy\<close> to it. As everywhere, \<open>None\<close> is a call that does not
  return in a defined state: undefined behaviour, a failed \<open>GOOGLE_CHECK\<close>, or no return.
\<close>

record 'z zero_copy_output_ops =
  zc_Next :: "'z \<Rightarrow> ((nat \<times> int) option \<times> 'z) option"
  zc_BackUp :: "int \<Rightarrow> 'z \<Rightarrow> 'z option"
  zc_ByteCount :: "'z \<Rightarrow> int"
  zc_AllowsAliasing :: "'z \<Rightarrow> bool"
  zc_WriteAliasedRaw :: "byte list \<Rightarrow> 'z \<Rightarrow> (bool \<times> 'z) option"
  zc_store :: "nat \<Rightarrow> byte list \<Rightarrow> 'z \<Rightarrow> 'z option"

text \<open>The bodies in the interface class itself: \<open>GOOGLE_LOG(FATAL)\<close> aborts.\<close>

definition default_AllowsAliasing :: "'z \<Rightarrow> bool" where
  "default_AllowsAliasing z = False"

definition default_WriteAliasedRaw :: "byte list \<Rightarrow> 'z \<Rightarrow> (bool \<times> 'z) option" where
  "default_WriteAliasedRaw data z = None"

text \<open>The block size of the copying adaptors.\<close>

definition kDefaultBlockSize :: int where
  "kDefaultBlockSize = 8192"

subsection \<open>Overwriting part of a block\<close>

definition overwrite :: "nat \<Rightarrow> 'a list \<Rightarrow> 'a list \<Rightarrow> 'a list" where
  "overwrite i ys xs = take i xs @ ys @ drop (i + length ys) xs"

lemma length_overwrite [simp]:
  "i + length ys \<le> length xs \<Longrightarrow> length (overwrite i ys xs) = length xs"
  by (simp add: overwrite_def)

lemma take_overwrite_before [simp]:
  "i + length ys \<le> length xs \<Longrightarrow> k \<le> i \<Longrightarrow> take k (overwrite i ys xs) = take k xs"
  by (simp add: overwrite_def min_def)

lemma take_overwrite_after:
  "i + length ys \<le> length xs \<Longrightarrow> k = i + length ys
    \<Longrightarrow> take k (overwrite i ys xs) = take i xs @ ys"
  by (simp add: overwrite_def)

lemma take_overwrite_whole:
  "i + length ys \<le> n \<Longrightarrow> n \<le> length xs
    \<Longrightarrow> take n (overwrite i ys xs) = overwrite i ys (take n xs)"
  by (cases "n = i") (auto simp: overwrite_def take_drop min_def)

lemma take_minus_nat:
  "0 \<le> a \<Longrightarrow> 0 \<le> b \<Longrightarrow> nat (a + b) \<le> length xs
    \<Longrightarrow> take (length (take (nat (a + b)) xs) - nat b) (take (nat (a + b)) xs) = take (nat a) xs"
  by (simp add: nat_add_distrib)

lemma overwrite_append2:
  "length xs \<le> i \<Longrightarrow> overwrite i ys (xs @ zs) = xs @ overwrite (i - length xs) ys zs"
  by (simp add: overwrite_def)

lemma overwrite_Nil [simp]: "overwrite i [] xs = xs"
  by (simp add: overwrite_def)

text \<open>A \<open>memcpy\<close> into a block: undefined outside it.\<close>

definition store_block :: "nat \<Rightarrow> byte list \<Rightarrow> byte list \<Rightarrow> byte list option" where
  "store_block i data block =
     (if i + length data \<le> length block then Some (overwrite i data block) else None)"

subsection \<open>The contract\<close>

text \<open>
  \<open>lends z p n\<close>: the stream is well formed and the last \<open>n\<close> bytes of what it has handed out,
  at the pointer \<open>p\<close>, still belong to the client. \<open>content z\<close> is everything handed out, the
  lent bytes included; \<open>sound z\<close> is false once bytes of the content may be lost; the stream
  promises that \<open>room z\<close> further bytes can be had from \<open>Next\<close>.
\<close>

locale zero_copy_output =
  fixes ops :: "'z zero_copy_output_ops"
    and lends :: "'z \<Rightarrow> nat \<Rightarrow> nat \<Rightarrow> bool"
    and content :: "'z \<Rightarrow> byte list"
    and sound :: "'z \<Rightarrow> bool"
    and room :: "'z \<Rightarrow> int"
  assumes lends_length: "lends z p n \<Longrightarrow> n \<le> length (content z)"
    and lends_shrink: "lends z p n \<Longrightarrow> j \<le> n \<Longrightarrow> lends z (p + j) (n - j)"
    and next_returns: "lends z p n \<Longrightarrow> \<exists>r z'. zc_Next ops z = Some (r, z')"
    and next_block: "lends z p n \<Longrightarrow> zc_Next ops z = Some (Some (q, k), z')
      \<Longrightarrow> 0 < k \<and> lends z' q (nat k) \<and> room z \<le> room z' + k \<and> sound z' = sound z
        \<and> (sound z \<longrightarrow> take (length (content z') - nat k) (content z') = content z)"
    and next_fails: "lends z p n \<Longrightarrow> zc_Next ops z = Some (None, z')
      \<Longrightarrow> room z \<le> 0 \<and> room z \<le> room z' \<and> (\<exists>q. lends z' q 0) \<and> (sound z' \<longrightarrow> sound z \<and> content z' = content z)"
    and backup: "lends z p n \<Longrightarrow> 0 < k \<Longrightarrow> nat k \<le> n
      \<Longrightarrow> \<exists>z' q. zc_BackUp ops k z = Some z' \<and> lends z' q 0 \<and> sound z' = sound z
        \<and> room z + k \<le> room z' \<and> content z' = take (length (content z) - nat k) (content z)"
    and store: "lends z p n \<Longrightarrow> i + length bs \<le> n
      \<Longrightarrow> \<exists>z'. zc_store ops (p + i) bs z = Some z' \<and> lends z' p n \<and> sound z' = sound z
        \<and> room z' = room z \<and> content z' = overwrite (length (content z) - n + i) bs (content z)"
    and aliasing_fixed: "zc_AllowsAliasing ops z = zc_AllowsAliasing ops z'"
    and aliased: "lends z p 0 \<Longrightarrow> zc_AllowsAliasing ops z
      \<Longrightarrow> \<exists>r z' q. zc_WriteAliasedRaw ops bs z = Some (r, z') \<and> lends z' q 0
        \<and> (r \<longrightarrow> sound z' = sound z \<and> (sound z \<longrightarrow> content z' = content z @ bs))
        \<and> (int (length bs) \<le> room z \<longrightarrow> r \<and> room z \<le> room z' + int (length bs))"

end
