(* ===== verification/OutStreams.thy ===== *)
theory OutStreams
  imports ZeroCopy
begin

text \<open>
  The output streams of \<^verbatim>\<open>google/protobuf/io/zero_copy_stream_impl_lite.cc\<close>:
  \<open>ArrayOutputStream\<close>, \<open>StringOutputStream\<close> and \<open>CopyingOutputStreamAdaptor\<close>, each shown to
  keep the contract \<open>zero_copy_output\<close>.
\<close>

subsection \<open>ArrayOutputStream\<close>

text \<open>\<open>ao_data\<close> is the caller's memory at \<open>data_\<close>.\<close>

record array_output =
  ao_data :: "byte list"
  ao_size :: int
  ao_block_size :: int
  ao_position :: int
  ao_last_returned_size :: int

definition ArrayOutputStream_new :: "byte list \<Rightarrow> int \<Rightarrow> int \<Rightarrow> array_output" where
  "ArrayOutputStream_new data sz block_size =
     \<lparr>ao_data = data, ao_size = sz, ao_block_size = (if block_size > 0 then block_size else sz),
      ao_position = 0, ao_last_returned_size = 0\<rparr>"

definition ArrayOutputStream_Next :: "array_output \<Rightarrow> ((nat \<times> int) option \<times> array_output) option" where
  "ArrayOutputStream_Next z =
     (if ao_position z < ao_size z then
        let last = min (ao_block_size z) (ao_size z - ao_position z)
        in Some (Some (nat (ao_position z), last),
                 z\<lparr>ao_last_returned_size := last, ao_position := ao_position z + last\<rparr>)
      else Some (None, z\<lparr>ao_last_returned_size := 0\<rparr>))"

definition ArrayOutputStream_BackUp :: "int \<Rightarrow> array_output \<Rightarrow> array_output option" where
  "ArrayOutputStream_BackUp count z =
     (if ao_last_returned_size z > 0 \<and> count \<le> ao_last_returned_size z \<and> count \<ge> 0
      then Some (z\<lparr>ao_position := ao_position z - count, ao_last_returned_size := 0\<rparr>) else None)"

definition ArrayOutputStream_ByteCount :: "array_output \<Rightarrow> int" where
  "ArrayOutputStream_ByteCount z = ao_position z"

definition ArrayOutputStream_store :: "nat \<Rightarrow> byte list \<Rightarrow> array_output \<Rightarrow> array_output option" where
  "ArrayOutputStream_store p bs z =
     map_option (\<lambda>block. z\<lparr>ao_data := block\<rparr>) (store_block p bs (ao_data z))"

definition array_output_ops :: "array_output zero_copy_output_ops" where
  "array_output_ops =
     \<lparr>zc_Next = ArrayOutputStream_Next, zc_BackUp = ArrayOutputStream_BackUp,
      zc_ByteCount = ArrayOutputStream_ByteCount, zc_AllowsAliasing = default_AllowsAliasing,
      zc_WriteAliasedRaw = default_WriteAliasedRaw, zc_store = ArrayOutputStream_store\<rparr>"

text \<open>The size of the array and the memory behind it stay as they were.\<close>

definition array_lends :: "int \<Rightarrow> byte list \<Rightarrow> array_output \<Rightarrow> nat \<Rightarrow> nat \<Rightarrow> bool" where
  "array_lends sz rest z p n \<longleftrightarrow>
     ao_size z = sz \<and> drop (nat sz) (ao_data z) = rest \<and> 0 \<le> ao_position z \<and> ao_position z \<le> ao_size z \<and> ao_size z \<le> int (length (ao_data z))
     \<and> (0 < ao_size z \<longrightarrow> 0 < ao_block_size z)
     \<and> ao_last_returned_size z \<le> ao_position z \<and> 0 \<le> ao_last_returned_size z
     \<and> int n \<le> ao_last_returned_size z \<and> int p + int n = ao_position z"

definition array_content :: "array_output \<Rightarrow> byte list" where
  "array_content z = take (nat (ao_position z)) (ao_data z)"

definition array_room :: "array_output \<Rightarrow> int" where
  "array_room z = ao_size z - ao_position z"

lemma length_array_content:
  "array_lends sz rest z p n \<Longrightarrow> length (array_content z) = nat (ao_position z)"
  by (auto simp: array_lends_def array_content_def)

lemmas array_output_defs = array_output_ops_def ArrayOutputStream_Next_def ArrayOutputStream_BackUp_def
  ArrayOutputStream_ByteCount_def ArrayOutputStream_store_def default_AllowsAliasing_def store_block_def

interpretation array_out: zero_copy_output array_output_ops "array_lends sz rest" array_content "\<lambda>z. True" array_room
  for sz :: int and rest :: "byte list"
proof (unfold_locales, goal_cases)
  case (1 z p n) then show ?case by (auto simp: length_array_content) (auto simp: array_lends_def)
next
  case (2 z p n k) then show ?case by (auto simp: array_lends_def)
next
  case (3 z p n) then show ?case by (auto simp: array_output_defs Let_def)
next
  case (4 z p n q k z')
  let ?b = "min (ao_block_size z) (ao_size z - ao_position z)"
  from 4 have z': "q = nat (ao_position z)" "k = ?b" "ao_position z < ao_size z"
      "z' = z\<lparr>ao_last_returned_size := ?b, ao_position := ao_position z + ?b\<rparr>"
    by (auto simp: array_output_defs Let_def split: if_splits)
  from 4(1) z'(3) have b: "0 < ?b" "0 \<le> ao_position z" "ao_position z + ?b \<le> int (length (ao_data z))"
    by (auto simp: array_lends_def)
  have "take (length (array_content z') - nat ?b) (array_content z') = array_content z"
    using take_minus_nat [of "ao_position z" ?b "ao_data z"] b by (simp add: array_content_def z'(4))
  moreover have "array_room z \<le> array_room z' + ?b"
    unfolding array_room_def z'(4) by simp
  ultimately show ?case
    using 4(1) b by (auto simp: z' array_lends_def)
next
  case (5 z p n z')
  then have "array_lends sz rest z' (nat (ao_position z)) 0" "array_content z' = array_content z"
      "array_room z \<le> 0" "array_room z \<le> array_room z'"
    by (auto simp: array_output_defs array_lends_def array_content_def array_room_def Let_def split: if_splits)
  then show ?case by blast
next
  case (6 z p n k) then show ?case
    by (auto simp: array_output_defs array_lends_def array_content_def array_room_def nat_diff_distrib
        intro: exI [of _ "nat (ao_position z - k)"])
next
  case (7 z p n i bs)
  then have "nat (ao_position z) = p + n" "p + n \<le> length (ao_data z)" "nat (ao_position z) \<le> nat sz"
    by (auto simp: array_lends_def intro: nat_mono)
  with 7(2) have pos: "nat (ao_position z) = p + n" "p + n \<le> length (ao_data z)" "p + i + length bs \<le> nat sz"
      "p + i + length bs \<le> length (ao_data z)"
    by simp_all
  then have tail: "drop (nat sz) (overwrite (p + i) bs (ao_data z)) = drop (nat sz) (ao_data z)"
    using 7(2) by (simp add: overwrite_def min_def)
  let ?z = "z\<lparr>ao_data := overwrite (p + i) bs (ao_data z)\<rparr>"
  have "array_lends sz rest ?z p n"
    using 7(1) pos tail by (simp add: array_lends_def)
  moreover have "array_content ?z = overwrite (p + i) bs (array_content z)"
    using 7(2) pos by (simp add: array_content_def take_overwrite_whole)
  moreover have "length (array_content z) - n + i = p + i"
    using 7(1) pos by (simp add: length_array_content)
  moreover have "zc_store array_output_ops (p + i) bs z = Some ?z"
    using 7(2) pos by (simp add: array_output_defs)
  ultimately show ?case
    by (intro exI [of _ ?z]) (simp add: array_room_def)
next
  case (8 z z') then show ?case by (simp add: array_output_defs)
next
  case (9 z p bs) then show ?case by (simp add: array_output_defs)
qed

subsection \<open>StringOutputStream\<close>

text \<open>
  \<open>so_target\<close> is the \<open>std::string\<close>, \<open>so_capacity\<close> its capacity and \<open>so_grow\<close> the library's
  growth policy: the capacity it would choose for a required size. A size that does not fit
  an \<open>int\<close> is converted to an unspecified value, so it is \<open>None\<close>.
\<close>

record string_output =
  so_target :: "byte list"
  so_capacity :: nat
  so_grow :: "nat \<Rightarrow> nat \<Rightarrow> nat"

definition kMinimumSize :: nat where
  "kMinimumSize = 16"

definition string_resize :: "nat \<Rightarrow> string_output \<Rightarrow> string_output" where
  \<comment> \<open>\<open>STLStringResizeUninitialized\<close>, and \<open>std::string::resize\<close>\<close>
  "string_resize n z =
     z\<lparr>so_target := take n (so_target z) @ replicate (n - length (so_target z)) 0,
       so_capacity := (if n \<le> so_capacity z then so_capacity z
                       else max n (so_grow z (so_capacity z) n))\<rparr>"

definition lend_string_tail :: "nat \<Rightarrow> string_output \<Rightarrow> ((nat \<times> int) option \<times> string_output) option" where
  \<comment> \<open>\<open>*data\<close> and \<open>*size\<close> at the end of \<open>Next\<close>\<close>
  "lend_string_tail old_size z =
     (let n = length (so_target z) - old_size
      in if int n \<le> INT_MAX then Some (Some (old_size, int n), z) else None)"

definition StringOutputStream_Next :: "string_output \<Rightarrow> ((nat \<times> int) option \<times> string_output) option" where
  "StringOutputStream_Next z =
     (let old_size = length (so_target z)
      in if int old_size > INT_MAX then None
         else if old_size < so_capacity z then
           lend_string_tail old_size (string_resize (so_capacity z) z)
         else if int old_size > INT_MAX div 2 then Some (None, z)
         else lend_string_tail old_size (string_resize (max (old_size * 2) kMinimumSize) z))"

definition StringOutputStream_BackUp :: "int \<Rightarrow> string_output \<Rightarrow> string_output option" where
  "StringOutputStream_BackUp count z =
     (if count \<ge> 0 \<and> count \<le> int (length (so_target z))
      then Some (string_resize (length (so_target z) - nat count) z) else None)"

definition StringOutputStream_ByteCount :: "string_output \<Rightarrow> int" where
  "StringOutputStream_ByteCount z = int (length (so_target z))"

definition StringOutputStream_store :: "nat \<Rightarrow> byte list \<Rightarrow> string_output \<Rightarrow> string_output option" where
  "StringOutputStream_store p bs z =
     map_option (\<lambda>block. z\<lparr>so_target := block\<rparr>) (store_block p bs (so_target z))"

definition string_output_ops :: "string_output zero_copy_output_ops" where
  "string_output_ops =
     \<lparr>zc_Next = StringOutputStream_Next, zc_BackUp = StringOutputStream_BackUp,
      zc_ByteCount = StringOutputStream_ByteCount, zc_AllowsAliasing = default_AllowsAliasing,
      zc_WriteAliasedRaw = default_WriteAliasedRaw, zc_store = StringOutputStream_store\<rparr>"

definition string_lends :: "string_output \<Rightarrow> nat \<Rightarrow> nat \<Rightarrow> bool" where
  "string_lends z p n \<longleftrightarrow>
     length (so_target z) \<le> so_capacity z \<and> int (so_capacity z) \<le> INT_MAX
     \<and> (\<forall>c k. int k \<le> INT_MAX \<longrightarrow> int (so_grow z c k) \<le> INT_MAX)
     \<and> p + n = length (so_target z)"

definition string_room :: "string_output \<Rightarrow> int" where
  "string_room z = max (int (so_capacity z)) (INT_MAX div 2 + 1) - int (length (so_target z))"

lemmas string_output_defs = string_output_ops_def StringOutputStream_Next_def StringOutputStream_BackUp_def
  StringOutputStream_ByteCount_def StringOutputStream_store_def default_AllowsAliasing_def store_block_def

lemma string_resize_target:
  "length (so_target z) \<le> n \<Longrightarrow> length (so_target (string_resize n z)) = n
    \<and> take (length (so_target z)) (so_target (string_resize n z)) = so_target z"
  by (simp add: string_resize_def)

lemma string_resize_lends:
  assumes "string_lends z p k" "int n \<le> INT_MAX" "q \<le> n"
  shows "string_lends (string_resize n z) q (n - q)"
  using assms by (auto simp: string_lends_def string_resize_def max_def)

lemma string_room_resize:
  "length (so_target z) \<le> m \<Longrightarrow> m \<le> so_capacity z \<or> int (so_capacity z) \<le> INT_MAX div 2 + 1
    \<Longrightarrow> string_room z \<le> string_room (string_resize m z) + int (m - length (so_target z))"
  using string_resize_target [of z m]
  by (auto simp: string_room_def string_resize_def)

lemma StringOutputStream_Next_cases:
  assumes "string_lends z p n" "StringOutputStream_Next z = r"
  obtains "r = Some (None, z)" "string_room z \<le> 0"
  | m where "string_room z \<le> string_room (string_resize m z) + int (m - length (so_target z))" "length (so_target z) < m" "int m \<le> INT_MAX"
      "r = Some (Some (length (so_target z), int (m - length (so_target z))), string_resize m z)"
proof -
  have t: "length (so_target z) \<le> so_capacity z" "int (so_capacity z) \<le> INT_MAX"
    using assms(1) by (auto simp: string_lends_def)
  have "lend_string_tail (length (so_target z)) (string_resize m z)
      = Some (Some (length (so_target z), int (m - length (so_target z))), string_resize m z)"
    if "length (so_target z) < m" "int m \<le> INT_MAX" for m
    using that string_resize_target [of z m] by (simp add: lend_string_tail_def Let_def)
  note tail = this
  consider "length (so_target z) < so_capacity z"
    | "\<not> length (so_target z) < so_capacity z" "int (length (so_target z)) > INT_MAX div 2"
    | "\<not> length (so_target z) < so_capacity z" "int (length (so_target z)) \<le> INT_MAX div 2"
    by linarith
  then show thesis
  proof cases
    case 1
    with t tail string_room_resize [of z "so_capacity z"] show thesis
      by (intro that(2) [of "so_capacity z"]) (simp_all add: assms(2) [symmetric] StringOutputStream_Next_def Let_def)
  next
    case 2
    with t show thesis
      by (intro that(1)) (simp_all add: assms(2) [symmetric] StringOutputStream_Next_def string_room_def Let_def)
  next
    case 3
    then have "length (so_target z) < max (length (so_target z) * 2) kMinimumSize"
        "int (max (length (so_target z) * 2) kMinimumSize) \<le> INT_MAX"
        "int (so_capacity z) \<le> INT_MAX div 2 + 1"
      by (auto simp: kMinimumSize_def INT_MAX_def)
    with 3 t tail string_room_resize [of z "max (length (so_target z) * 2) kMinimumSize"] show thesis
      by (intro that(2) [of "max (length (so_target z) * 2) kMinimumSize"])
        (simp_all add: assms(2) [symmetric] StringOutputStream_Next_def Let_def)
  qed
qed

interpretation string_out: zero_copy_output string_output_ops string_lends so_target "\<lambda>z. True" string_room
proof (unfold_locales, goal_cases)
  case (1 z p n) then show ?case by (auto simp: string_lends_def)
next
  case (2 z p n k) then show ?case by (auto simp: string_lends_def)
next
  case (3 z p n) then show ?case
    by (auto simp: string_output_ops_def elim: StringOutputStream_Next_cases [OF _ refl])
next
  case (4 z p n q k z')
  from 4(2) have "StringOutputStream_Next z = Some (Some (q, k), z')" by (simp add: string_output_ops_def)
  with 4(1) obtain m where room: "string_room z \<le> string_room (string_resize m z) + int (m - length (so_target z))"
    and m: "length (so_target z) < m" "int m \<le> INT_MAX" "q = length (so_target z)"
      "k = int (m - length (so_target z))" "z' = string_resize m z"
    by (auto elim: StringOutputStream_Next_cases)
  then have k: "nat k = m - length (so_target z)" "0 < k"
    by auto
  show ?case
    unfolding k(1) using string_resize_target [of z m] string_resize_lends [OF 4(1) m(2), of q] m k(2) room
    by simp
next
  case (5 z p n z')
  from 5(2) have "StringOutputStream_Next z = Some (None, z')" by (simp add: string_output_ops_def)
  with 5(1) have "z' = z \<and> string_room z \<le> 0" by (auto elim: StringOutputStream_Next_cases)
  with 5(1) show ?case by (auto simp: string_lends_def)
next
  case (6 z p n k)
  then have "nat k \<le> length (so_target z)" "k \<le> int (length (so_target z))"
    by (auto simp: string_lends_def)
  with 6 show ?case
    by (auto simp: string_output_defs string_lends_def string_room_def string_resize_def)
next
  case (7 z p n i bs)
  then have "length (so_target z) - n + i = p + i"
    by (auto simp: string_lends_def)
  then show ?case
    unfolding \<open>length (so_target z) - n + i = p + i\<close> using 7
    by (auto simp: string_output_defs string_lends_def string_room_def)
next
  case (8 z z') then show ?case by (simp add: string_output_defs)
next
  case (9 z p bs) then show ?case by (simp add: string_output_defs)
qed

subsection \<open>CopyingOutputStreamAdaptor\<close>

text \<open>
  \<open>cp_stream\<close> is the \<open>CopyingOutputStream\<close> behind \<open>copying_stream_\<close>; its virtual \<open>Write\<close> is
  the argument \<open>Write\<close>. Fresh memory from \<open>new uint8[n]\<close> has the value zero here.
\<close>

record 's copying_output =
  cp_stream :: 's
  cp_failed :: bool
  cp_position :: int
  cp_buffer :: "byte list option"
  cp_buffer_size :: int
  cp_buffer_used :: int

definition CopyingOutputStreamAdaptor_new :: "'s \<Rightarrow> int \<Rightarrow> 's copying_output" where
  "CopyingOutputStreamAdaptor_new copying_stream block_size =
     \<lparr>cp_stream = copying_stream, cp_failed = False, cp_position = 0, cp_buffer = None,
      cp_buffer_size = (if block_size > 0 then block_size else kDefaultBlockSize), cp_buffer_used = 0\<rparr>"

definition out_AllocateBufferIfNeeded :: "'s copying_output \<Rightarrow> 's copying_output" where
  "out_AllocateBufferIfNeeded z =
     (if cp_buffer z = None then z\<lparr>cp_buffer := Some (replicate (nat (cp_buffer_size z)) 0)\<rparr> else z)"

definition out_FreeBuffer :: "'s copying_output \<Rightarrow> 's copying_output" where
  "out_FreeBuffer z = z\<lparr>cp_buffer_used := 0, cp_buffer := None\<rparr>"

definition cp_block :: "'s copying_output \<Rightarrow> byte list" where
  "cp_block z = (case cp_buffer z of None \<Rightarrow> [] | Some block \<Rightarrow> block)"

definition WriteBuffer :: "(byte list \<Rightarrow> 's \<Rightarrow> bool \<times> 's) \<Rightarrow> 's copying_output \<Rightarrow> bool \<times> 's copying_output" where
  "WriteBuffer Write z =
     (if cp_failed z then (False, z)
      else if cp_buffer_used z = 0 then (True, z)
      else
        let (ok, stream) = Write (take (nat (cp_buffer_used z)) (cp_block z)) (cp_stream z);
            z = z\<lparr>cp_stream := stream\<rparr>
        in if ok then (True, z\<lparr>cp_position := cp_position z + cp_buffer_used z, cp_buffer_used := 0\<rparr>)
           else (False, out_FreeBuffer (z\<lparr>cp_failed := True\<rparr>)))"

definition CopyingOutputStreamAdaptor_Flush ::
    "(byte list \<Rightarrow> 's \<Rightarrow> bool \<times> 's) \<Rightarrow> 's copying_output \<Rightarrow> bool \<times> 's copying_output" where
  "CopyingOutputStreamAdaptor_Flush Write z = WriteBuffer Write z"

definition CopyingOutputStreamAdaptor_Next ::
    "(byte list \<Rightarrow> 's \<Rightarrow> bool \<times> 's) \<Rightarrow> 's copying_output
      \<Rightarrow> ((nat \<times> int) option \<times> 's copying_output) option" where
  "CopyingOutputStreamAdaptor_Next Write z =
     (let (ok, z) = (if cp_buffer_used z = cp_buffer_size z then WriteBuffer Write z else (True, z))
      in if \<not> ok then Some (None, z)
         else
           let z = out_AllocateBufferIfNeeded z
           in Some (Some (nat (cp_buffer_used z), cp_buffer_size z - cp_buffer_used z),
                    z\<lparr>cp_buffer_used := cp_buffer_size z\<rparr>))"

definition CopyingOutputStreamAdaptor_BackUp :: "int \<Rightarrow> 's copying_output \<Rightarrow> 's copying_output option" where
  "CopyingOutputStreamAdaptor_BackUp count z =
     (if count \<ge> 0 \<and> cp_buffer_used z = cp_buffer_size z \<and> count \<le> cp_buffer_used z
      then Some (z\<lparr>cp_buffer_used := cp_buffer_used z - count\<rparr>) else None)"

definition CopyingOutputStreamAdaptor_ByteCount :: "'s copying_output \<Rightarrow> int" where
  "CopyingOutputStreamAdaptor_ByteCount z = cp_position z + cp_buffer_used z"

definition CopyingOutputStreamAdaptor_store :: "nat \<Rightarrow> byte list \<Rightarrow> 's copying_output \<Rightarrow> 's copying_output option" where
  "CopyingOutputStreamAdaptor_store p bs z =
     (case cp_buffer z of
        None \<Rightarrow> if bs = [] then Some z else None
      | Some block \<Rightarrow> map_option (\<lambda>block. z\<lparr>cp_buffer := Some block\<rparr>) (store_block p bs block))"

definition copying_output_ops :: "(byte list \<Rightarrow> 's \<Rightarrow> bool \<times> 's) \<Rightarrow> 's copying_output zero_copy_output_ops" where
  "copying_output_ops Write =
     \<lparr>zc_Next = CopyingOutputStreamAdaptor_Next Write, zc_BackUp = CopyingOutputStreamAdaptor_BackUp,
      zc_ByteCount = CopyingOutputStreamAdaptor_ByteCount, zc_AllowsAliasing = default_AllowsAliasing,
      zc_WriteAliasedRaw = default_WriteAliasedRaw, zc_store = CopyingOutputStreamAdaptor_store\<rparr>"

text \<open>What the adaptor relies on: a \<open>Write\<close> that returns true has appended its data.\<close>

locale copying_output_stream =
  fixes Write :: "byte list \<Rightarrow> 's \<Rightarrow> bool \<times> 's"
    and sink :: "'s \<Rightarrow> byte list"
    and space :: "'s \<Rightarrow> nat"
  assumes write_appends: "Write bs s = (True, s') \<Longrightarrow> sink s' = sink s @ bs"
    and write_takes: "bs \<noteq> [] \<Longrightarrow> length bs \<le> space s \<Longrightarrow> \<exists>s'. Write bs s = (True, s') \<and> space s \<le> space s' + length bs"

definition copying_lends :: "'s copying_output \<Rightarrow> nat \<Rightarrow> nat \<Rightarrow> bool" where
  "copying_lends z p n \<longleftrightarrow>
     0 < cp_buffer_size z \<and> 0 \<le> cp_buffer_used z \<and> cp_buffer_used z \<le> cp_buffer_size z
     \<and> (cp_buffer z = None \<longrightarrow> cp_buffer_used z = 0)
     \<and> (cp_buffer z \<noteq> None \<longrightarrow> length (cp_block z) = nat (cp_buffer_size z))
     \<and> n \<le> nat (cp_buffer_used z) \<and> p \<le> nat (cp_buffer_used z)
     \<and> (0 < n \<longrightarrow> cp_buffer_used z = cp_buffer_size z \<and> int p + int n = cp_buffer_size z)"

definition copying_content :: "('s \<Rightarrow> byte list) \<Rightarrow> 's copying_output \<Rightarrow> byte list" where
  "copying_content sink z = sink (cp_stream z) @ take (nat (cp_buffer_used z)) (cp_block z)"

definition copying_room :: "('s \<Rightarrow> nat) \<Rightarrow> 's copying_output \<Rightarrow> int" where
  "copying_room space z =
     (if cp_failed z then 0 else int (space (cp_stream z))) - cp_buffer_used z"

lemmas copying_output_defs = copying_output_ops_def CopyingOutputStreamAdaptor_Next_def
  CopyingOutputStreamAdaptor_BackUp_def CopyingOutputStreamAdaptor_ByteCount_def
  CopyingOutputStreamAdaptor_store_def default_AllowsAliasing_def store_block_def

lemma copying_block_length:
  "copying_lends z p n \<Longrightarrow> nat (cp_buffer_used z) \<le> length (cp_block z)"
  by (cases "cp_buffer z") (auto simp: copying_lends_def cp_block_def)

lemma copying_alloc:
  assumes "copying_lends z p n"
  shows "copying_lends (out_AllocateBufferIfNeeded z) p n"
    "copying_content sink (out_AllocateBufferIfNeeded z) = copying_content sink z"
    "length (cp_block (out_AllocateBufferIfNeeded z)) = nat (cp_buffer_size z)"
  using assms by (auto simp: out_AllocateBufferIfNeeded_def copying_lends_def copying_content_def cp_block_def)

context copying_output_stream
begin

lemma WriteBuffer_cases:
  assumes "copying_lends z p n" "WriteBuffer Write z = (ok, z')"
  shows "copying_lends z' 0 0" "\<not> cp_failed z' \<Longrightarrow> \<not> cp_failed z \<and> ok"
    "ok \<Longrightarrow> \<not> cp_failed z'"
    "\<not> cp_failed z' \<Longrightarrow> copying_content sink z' = copying_content sink z"
    "ok \<Longrightarrow> cp_buffer_used z' = 0 \<and> sink (cp_stream z') = copying_content sink z"
    "cp_buffer_size z' = cp_buffer_size z"
  using assms write_appends
  by (auto simp: WriteBuffer_def copying_lends_def copying_content_def out_FreeBuffer_def cp_block_def
      Let_def split: if_splits prod.splits option.splits)

lemma WriteBuffer_takes:
  assumes "copying_lends z p n" "cp_buffer_used z \<noteq> 0" "nat (cp_buffer_used z) \<le> space (cp_stream z)"
  shows "\<exists>s'. Write (take (nat (cp_buffer_used z)) (cp_block z)) (cp_stream z) = (True, s')
    \<and> int (space (cp_stream z)) - cp_buffer_used z \<le> int (space s')"
proof -
  let ?bs = "take (nat (cp_buffer_used z)) (cp_block z)"
  have len: "length ?bs = nat (cp_buffer_used z)" "0 \<le> cp_buffer_used z"
    using copying_block_length [OF assms(1)] assms(1) by (auto simp: copying_lends_def)
  with assms(2) have "?bs \<noteq> []" by (metis list.size(3) nat_0_iff order.antisym)
  from write_takes [OF this, of "cp_stream z"] assms(3) len show ?thesis by auto
qed

lemma WriteBuffer_flushes:
  assumes "copying_lends z p n" "\<not> cp_failed z" "0 \<le> copying_room space z"
  shows "fst (WriteBuffer Write z)"
proof -
  have "nat (cp_buffer_used z) \<le> space (cp_stream z)"
    using assms by (simp add: copying_room_def)
  then show ?thesis
    using WriteBuffer_takes [OF assms(1)] assms(2)
    by (cases "cp_buffer_used z = 0") (auto simp: WriteBuffer_def Let_def split: prod.splits)
qed

lemma WriteBuffer_room:
  assumes "copying_lends z p n" "WriteBuffer Write z = (ok, z')"
  shows "ok \<Longrightarrow> copying_room space z \<le> copying_room space z'"
    "\<not> ok \<Longrightarrow> cp_buffer_used z = cp_buffer_size z
      \<Longrightarrow> copying_room space z \<le> 0 \<and> copying_room space z \<le> copying_room space z'"
proof -
  have len: "0 \<le> cp_buffer_used z"
    using assms(1) by (auto simp: copying_lends_def)
  note takes = WriteBuffer_takes [OF assms(1)]
  show "ok \<Longrightarrow> copying_room space z \<le> copying_room space z'"
    using assms(2) takes len
    by (cases "nat (cp_buffer_used z) \<le> space (cp_stream z)")
      (auto simp: WriteBuffer_def copying_room_def Let_def split: if_splits prod.splits)
  show "\<not> ok \<Longrightarrow> cp_buffer_used z = cp_buffer_size z
      \<Longrightarrow> copying_room space z \<le> 0 \<and> copying_room space z \<le> copying_room space z'"
    using assms(2) takes len
    by (cases "nat (cp_buffer_used z) \<le> space (cp_stream z)")
      (auto simp: WriteBuffer_def copying_room_def out_FreeBuffer_def Let_def split: if_splits prod.splits)
qed

end

sublocale copying_output_stream \<subseteq> adaptor: zero_copy_output "copying_output_ops Write" copying_lends
  "copying_content sink" "\<lambda>z. \<not> cp_failed z" "copying_room space"
proof (unfold_locales, goal_cases)
  case (1 z p n) then show ?case
    using copying_block_length [OF 1] by (auto simp: copying_lends_def copying_content_def)
next
  case (2 z p n k) then show ?case by (auto simp: copying_lends_def)
next
  case (3 z p n) then show ?case by (auto simp: copying_output_defs Let_def split: prod.splits)
next
  case (4 z p n q k z')
  from 4(2) obtain z1 where z1: "(if cp_buffer_used z = cp_buffer_size z then WriteBuffer Write z
        else (True, z)) = (True, z1)"
      "q = nat (cp_buffer_used (out_AllocateBufferIfNeeded z1))"
      "k = cp_buffer_size (out_AllocateBufferIfNeeded z1) - cp_buffer_used (out_AllocateBufferIfNeeded z1)"
      "z' = (out_AllocateBufferIfNeeded z1)\<lparr>cp_buffer_used := cp_buffer_size (out_AllocateBufferIfNeeded z1)\<rparr>"
    by (auto simp: copying_output_defs Let_def split: prod.splits if_splits)
  have keeps: "copying_lends z1 0 0 \<and> cp_buffer_used z1 < cp_buffer_size z1
      \<and> cp_failed z1 = cp_failed z
      \<and> (\<not> cp_failed z1 \<longrightarrow> copying_content sink z1 = copying_content sink z)
      \<and> copying_room space z \<le> copying_room space z1"
  proof (cases "cp_buffer_used z = cp_buffer_size z")
    case True
    with z1(1) have w: "WriteBuffer Write z = (True, z1)" by simp
    note W = WriteBuffer_cases [OF 4(1) w]
    from W(1) have "0 < cp_buffer_size z1" by (auto simp: copying_lends_def)
    with W WriteBuffer_room [OF 4(1) w] show ?thesis by auto
  next
    case False
    with z1(1) 4(1) show ?thesis by (auto simp: copying_lends_def)
  qed
  let ?a = "out_AllocateBufferIfNeeded z1"
  have a: "copying_lends ?a 0 0" "copying_content sink ?a = copying_content sink z1"
      "length (cp_block ?a) = nat (cp_buffer_size z1)" "cp_buffer_used ?a = cp_buffer_used z1"
      "cp_buffer_size ?a = cp_buffer_size z1" "cp_failed ?a = cp_failed z1" "cp_buffer ?a \<noteq> None"
    using keeps copying_alloc [of z1 0 0] by (auto simp: out_AllocateBufferIfNeeded_def)
  have c: "copying_content sink z' = sink (cp_stream ?a) @ cp_block ?a"
    using a(3,5) by (simp add: copying_content_def z1(4) cp_block_def)
  have "nat (cp_buffer_size z1) - (nat (cp_buffer_size z1) - nat (cp_buffer_used z1)) = nat (cp_buffer_used z1)"
    using keeps by (intro diff_diff_cancel nat_mono) simp
  then have "take (length (copying_content sink z') - nat k) (copying_content sink z') = copying_content sink ?a"
    unfolding c z1(3) using a keeps by (simp add: copying_content_def nat_diff_distrib copying_lends_def)
  moreover have "copying_room space z1 \<le> copying_room space z' + k"
    using a by (simp add: copying_room_def z1(3,4) out_AllocateBufferIfNeeded_def)
  ultimately show ?case
    using a keeps by (auto simp: z1(2-4) copying_lends_def cp_block_def)
next
  case (5 z p n z')
  then have "WriteBuffer Write z = (False, z')" "cp_buffer_used z = cp_buffer_size z"
    by (auto simp: copying_output_defs Let_def split: prod.splits if_splits)
  from WriteBuffer_cases [OF 5(1) this(1)] WriteBuffer_room(2) [OF 5(1) this(1) _ this(2)]
  show ?case by blast
next
  case (6 z p n k)
  then have "nat (cp_buffer_used z) \<le> length (cp_block z)" "k \<le> cp_buffer_used z"
    using copying_block_length by (auto simp: copying_lends_def)
  with 6 show ?case
    by (auto simp: copying_output_defs copying_lends_def copying_content_def copying_room_def cp_block_def nat_diff_distrib)
next
  case (7 z p n i bs)
  show ?case
  proof (cases "n = 0")
    case True
    with 7 show ?thesis
      by (cases "cp_buffer z") (auto simp: copying_output_defs copying_lends_def copying_content_def copying_room_def cp_block_def)
  next
    case False
    with 7 obtain block where block: "cp_buffer z = Some block" "length block = nat (cp_buffer_size z)"
        "p + n = length block" "cp_buffer_used z = cp_buffer_size z" "p + i + length bs \<le> length block"
      by (auto simp: copying_lends_def cp_block_def)
    let ?z = "z\<lparr>cp_buffer := Some (overwrite (p + i) bs block)\<rparr>"
    have "zc_store (copying_output_ops Write) (p + i) bs z = Some ?z"
      using block by (simp add: copying_output_defs)
    moreover have "copying_lends ?z p n"
      using 7(1) block by (simp add: copying_lends_def cp_block_def)
    moreover have "copying_content sink ?z
        = overwrite (length (copying_content sink z) - n + i) bs (copying_content sink z)"
    proof -
      have "length (copying_content sink z) - n + i = length (sink (cp_stream z)) + (p + i)"
        using block by (simp add: copying_content_def cp_block_def)
      then show ?thesis
        using block by (simp add: copying_content_def cp_block_def overwrite_append2)
    qed
    ultimately show ?thesis by (auto simp: copying_room_def)
  qed
next
  case (8 z z') then show ?case by (simp add: copying_output_defs)
next
  case (9 z p bs) then show ?case by (simp add: copying_output_defs)
qed

subsection \<open>OstreamOutputStream\<close>

text \<open>
  \<open>std::ostream\<close>: the bytes written, \<open>good()\<close>, and how many more bytes the device behind it
  takes (a write past that sets \<open>badbit\<close>; a device without a limit is any number large enough).
\<close>

record ostream =
  os_data :: "byte list"
  os_good :: bool
  os_space :: nat

definition ostream_write :: "byte list \<Rightarrow> ostream \<Rightarrow> ostream" where
  "ostream_write bs s =
     (if os_good s then
        s\<lparr>os_data := os_data s @ take (os_space s) bs, os_space := os_space s - length bs,
          os_good := (length bs \<le> os_space s)\<rparr>
      else s)"

definition ostream_room :: "ostream \<Rightarrow> nat" where
  "ostream_room s = (if os_good s then os_space s else 0)"

definition CopyingOstreamOutputStream_Write :: "byte list \<Rightarrow> ostream \<Rightarrow> bool \<times> ostream" where
  "CopyingOstreamOutputStream_Write bs s = (let s = ostream_write bs s in (os_good s, s))"

definition OstreamOutputStream_Next ::
    "ostream copying_output \<Rightarrow> ((nat \<times> int) option \<times> ostream copying_output) option" where
  "OstreamOutputStream_Next z = CopyingOutputStreamAdaptor_Next CopyingOstreamOutputStream_Write z"

definition OstreamOutputStream_BackUp :: "int \<Rightarrow> ostream copying_output \<Rightarrow> ostream copying_output option" where
  "OstreamOutputStream_BackUp count z = CopyingOutputStreamAdaptor_BackUp count z"

definition OstreamOutputStream_ByteCount :: "ostream copying_output \<Rightarrow> int" where
  "OstreamOutputStream_ByteCount z = CopyingOutputStreamAdaptor_ByteCount z"

definition OstreamOutputStream_delete :: "ostream copying_output \<Rightarrow> ostream" where
  \<comment> \<open>the destructor flushes, and the \<open>ostream\<close> remains\<close>
  "OstreamOutputStream_delete z =
     cp_stream (snd (CopyingOutputStreamAdaptor_Flush CopyingOstreamOutputStream_Write z))"

interpretation ostream_out: copying_output_stream CopyingOstreamOutputStream_Write os_data ostream_room
  by unfold_locales
    (auto simp: CopyingOstreamOutputStream_Write_def ostream_write_def ostream_room_def Let_def split: if_splits)

definition ostream_output_ops :: "ostream copying_output zero_copy_output_ops" where
  "ostream_output_ops =
     \<lparr>zc_Next = OstreamOutputStream_Next, zc_BackUp = OstreamOutputStream_BackUp,
      zc_ByteCount = OstreamOutputStream_ByteCount, zc_AllowsAliasing = default_AllowsAliasing,
      zc_WriteAliasedRaw = default_WriteAliasedRaw, zc_store = CopyingOutputStreamAdaptor_store\<rparr>"

lemma ostream_output_ops_copying: "ostream_output_ops = copying_output_ops CopyingOstreamOutputStream_Write"
  by (simp add: ostream_output_ops_def copying_output_ops_def fun_eq_iff OstreamOutputStream_Next_def
      OstreamOutputStream_BackUp_def OstreamOutputStream_ByteCount_def)

end
