(* ===== verification/Varint.thy ===== *)
theory Varint
  imports Prelude
begin

text \<open>
  The array-level codec of \<^verbatim>\<open>google/protobuf/io/coded_stream.{h,cc}\<close>: base-128 varints and
  little-endian integers.

  A writer \<open>WriteXToArray(value, target)\<close> of the source stores bytes from \<open>target\<close> on and
  returns the pointer past them; its model returns the list of those bytes. A reader takes
  the memory from its pointer to the end of the allocated block and returns the value with
  the number of bytes it advanced; a read past the block is \<open>None\<close>.

  The unrolled fast paths are proved equal to the loops, the loops to a specification on
  natural numbers, the size functions to the lengths, and reading inverts writing.
\<close>

subsection \<open>The specification\<close>

function varint_bytes :: "nat \<Rightarrow> byte list" where
  "varint_bytes n =
     (if n < 128 then [of_nat n] else cont_byte n # varint_bytes (n div 128))"
  by pat_completeness auto
termination
  by (relation "measure id") auto

declare varint_bytes.simps [simp del]

datatype scan_result =
    Scanned nat nat   \<comment> \<open>value, number of bytes\<close>
  | Too_Long
  | Truncated

fun varint_scan :: "nat \<Rightarrow> byte list \<Rightarrow> scan_result" where
  "varint_scan 0 bs = Too_Long"
| "varint_scan (Suc k) [] = Truncated"
| "varint_scan (Suc k) (b # bs) =
     (if unat b < 128 then Scanned (unat b) 1
      else case varint_scan k bs of
             Scanned v n \<Rightarrow> Scanned (unat b - 128 + 128 * v) (Suc n)
           | r \<Rightarrow> r)"

definition kMaxVarintBytes :: nat where "kMaxVarintBytes = 10"
definition kMaxVarint32Bytes :: nat where "kMaxVarint32Bytes = 5"

subsection \<open>Writing\<close>

definition WriteVarint32FallbackToArrayInline :: "u32 \<Rightarrow> byte list" where
  "WriteVarint32FallbackToArrayInline value =
    (let t0 = ucast (value OR 0x80) :: byte in
     if value \<ge> push_bit 7 1 then
       let t1 = ucast (drop_bit 7 value OR 0x80) :: byte in
       if value \<ge> push_bit 14 1 then
         let t2 = ucast (drop_bit 14 value OR 0x80) :: byte in
         if value \<ge> push_bit 21 1 then
           let t3 = ucast (drop_bit 21 value OR 0x80) :: byte in
           if value \<ge> push_bit 28 1 then
             let t4 = ucast (drop_bit 28 value) :: byte in
             [t0, t1, t2, t3, t4]
           else [t0, t1, t2, t3 AND 0x7F]
         else [t0, t1, t2 AND 0x7F]
       else [t0, t1 AND 0x7F]
     else [t0 AND 0x7F])"

definition WriteVarint32FallbackToArray :: "u32 \<Rightarrow> byte list" where
  "WriteVarint32FallbackToArray value = WriteVarint32FallbackToArrayInline value"

definition WriteVarint32ToArray :: "u32 \<Rightarrow> byte list" where
  "WriteVarint32ToArray value =
     (if value < 0x80 then [ucast value] else WriteVarint32FallbackToArray value)"

definition WriteTagToArray :: "u32 \<Rightarrow> byte list" where
  "WriteTagToArray value =
     (if value < push_bit 7 1 then [ucast value]
      else if value < push_bit 14 1 then [ucast (value OR 0x80), ucast (drop_bit 7 value)]
      else WriteVarint32FallbackToArray value)"

text \<open>
  The slow path of \<open>WriteVarint32\<close> and \<open>WriteVarint64\<close>: the loop that fills the local
  \<open>bytes\<close> array before \<open>WriteRaw\<close>.
\<close>

function WriteVarint32_loop :: "u32 \<Rightarrow> byte list" where
  "WriteVarint32_loop value =
     (if value > 0x7F then ((ucast value AND 0x7F) OR 0x80) # WriteVarint32_loop (drop_bit 7 value)
      else [ucast value AND 0x7F])"
  by pat_completeness auto
termination
  by (relation "measure unat") (auto simp: word_less_nat_alt byte_simps)

function WriteVarint64_loop :: "u64 \<Rightarrow> byte list" where
  "WriteVarint64_loop value =
     (if value > 0x7F then ((ucast value AND 0x7F) OR 0x80) # WriteVarint64_loop (drop_bit 7 value)
      else [ucast value AND 0x7F])"
  by pat_completeness auto
termination
  by (relation "measure unat") (auto simp: word_less_nat_alt byte_simps)

declare WriteVarint32_loop.simps [simp del] WriteVarint64_loop.simps [simp del]

text \<open>
  \<open>WriteVarint64ToArrayInline\<close>: the decision tree computes the size, the \<open>goto\<close> targets
  fall through from byte \<open>size - 1\<close> down to byte \<open>0\<close>, and the last byte is masked.
\<close>

definition WriteVarint64ToArrayInline :: "u64 \<Rightarrow> byte list" where
  "WriteVarint64ToArrayInline value =
    (let part0 = ucast value :: u32;
         part1 = ucast (drop_bit 28 value) :: u32;
         part2 = ucast (drop_bit 56 value) :: u32;
         size = (if part2 = 0 then
                   if part1 = 0 then
                     if part0 < push_bit 14 1 then (if part0 < push_bit 7 1 then 1 else 2)
                     else (if part0 < push_bit 21 1 then 3 else 4)
                   else
                     if part1 < push_bit 14 1 then (if part1 < push_bit 7 1 then 5 else 6)
                     else (if part1 < push_bit 21 1 then 7 else 8)
                 else (if part2 < push_bit 7 1 then 9 else 10)) :: nat;
         target = [ucast (part0 OR 0x80),
                   ucast (drop_bit 7 part0 OR 0x80),
                   ucast (drop_bit 14 part0 OR 0x80),
                   ucast (drop_bit 21 part0 OR 0x80),
                   ucast (part1 OR 0x80),
                   ucast (drop_bit 7 part1 OR 0x80),
                   ucast (drop_bit 14 part1 OR 0x80),
                   ucast (drop_bit 21 part1 OR 0x80),
                   ucast (part2 OR 0x80),
                   ucast (drop_bit 7 part2 OR 0x80)] :: byte list
     in (take size target)[size - 1 := target ! (size - 1) AND 0x7F])"

definition WriteVarint64ToArray :: "u64 \<Rightarrow> byte list" where
  "WriteVarint64ToArray value = WriteVarint64ToArrayInline value"

definition WriteVarint32SignExtendedToArray :: "i32 \<Rightarrow> byte list" where
  "WriteVarint32SignExtendedToArray value =
     (if s32_neg value then WriteVarint64ToArray (scast value) else WriteVarint32ToArray value)"

definition WriteLittleEndian32ToArray :: "u32 \<Rightarrow> byte list" where
  "WriteLittleEndian32ToArray value =
     [ucast value, ucast (drop_bit 8 value), ucast (drop_bit 16 value), ucast (drop_bit 24 value)]"

definition WriteLittleEndian64ToArray :: "u64 \<Rightarrow> byte list" where
  "WriteLittleEndian64ToArray value =
     (let part0 = ucast value :: u32; part1 = ucast (drop_bit 32 value) :: u32
      in [ucast part0, ucast (drop_bit 8 part0), ucast (drop_bit 16 part0), ucast (drop_bit 24 part0),
          ucast part1, ucast (drop_bit 8 part1), ucast (drop_bit 16 part1), ucast (drop_bit 24 part1)])"

definition WriteRawToArray :: "byte list \<Rightarrow> byte list" where
  "WriteRawToArray data = data"

definition WriteStringToArray :: "byte list \<Rightarrow> byte list" where
  "WriteStringToArray str = WriteRawToArray str"

definition WriteStringWithSizeToArray :: "byte list \<Rightarrow> byte list" where
  "WriteStringWithSizeToArray str =
     WriteVarint32ToArray (of_nat (length str)) @ WriteStringToArray str"

subsection \<open>Sizes\<close>

definition VarintSize32Fallback :: "u32 \<Rightarrow> int" where
  "VarintSize32Fallback value =
     (if value < push_bit 7 1 then 1
      else if value < push_bit 14 1 then 2
      else if value < push_bit 21 1 then 3
      else if value < push_bit 28 1 then 4
      else 5)"

definition VarintSize32 :: "u32 \<Rightarrow> int" where
  "VarintSize32 value = (if value < push_bit 7 1 then 1 else VarintSize32Fallback value)"

definition VarintSize64 :: "u64 \<Rightarrow> int" where
  "VarintSize64 value =
     (if value < push_bit 35 1 then
        if value < push_bit 7 1 then 1
        else if value < push_bit 14 1 then 2
        else if value < push_bit 21 1 then 3
        else if value < push_bit 28 1 then 4
        else 5
      else
        if value < push_bit 42 1 then 6
        else if value < push_bit 49 1 then 7
        else if value < push_bit 56 1 then 8
        else if value < push_bit 63 1 then 9
        else 10)"

definition VarintSize32SignExtended :: "i32 \<Rightarrow> int" where
  "VarintSize32SignExtended value = (if s32_neg value then 10 else VarintSize32 value)"

subsection \<open>The specification's own laws\<close>

lemma varint_bytes_small: "n < 128 \<Longrightarrow> varint_bytes n = [of_nat n]"
  by (subst varint_bytes.simps) simp

lemma varint_bytes_step:
  "128 \<le> n \<Longrightarrow> varint_bytes n = cont_byte n # varint_bytes (n div 128)"
  by (subst varint_bytes.simps) simp

lemma varint_bytes_nonempty [simp]: "varint_bytes n \<noteq> []"
  by (subst varint_bytes.simps) simp

lemma length_varint_bytes_pos [simp]: "0 < length (varint_bytes n)"
  by simp

lemma length_varint_bytes_le: "n < 128 ^ Suc k \<Longrightarrow> length (varint_bytes n) \<le> Suc k"
proof (induction k arbitrary: n)
  case 0
  then show ?case by (simp add: varint_bytes_small)
next
  case (Suc k)
  show ?case
  proof (cases "n < 128")
    case False
    have "n div 128 < 128 ^ Suc k"
      using Suc.prems by (intro less_mult_imp_div_less) (simp add: mult.commute)
    then have "length (varint_bytes (n div 128)) \<le> Suc k"
      by (rule Suc.IH)
    with False show ?thesis by (simp add: varint_bytes_step)
  qed (simp add: varint_bytes_small)
qed

lemma length_varint_bytes_ge: "128 ^ k \<le> n \<Longrightarrow> k < length (varint_bytes n)"
proof (induction k arbitrary: n)
  case (Suc k)
  have "(128 :: nat) \<le> 128 ^ Suc k"
    by simp
  with Suc.prems have n: "128 \<le> n" by linarith
  have "128 ^ k \<le> n div 128"
    using Suc.prems by (simp add: less_eq_div_iff_mult_less_eq mult.commute)
  then have "k < length (varint_bytes (n div 128))"
    by (rule Suc.IH)
  with n show ?case by (simp add: varint_bytes_step)
qed simp

lemma length_varint_bytes_eqI:
  "128 ^ k \<le> n \<Longrightarrow> n < 128 ^ Suc k \<Longrightarrow> length (varint_bytes n) = Suc k"
  by (intro antisym length_varint_bytes_le Suc_leI length_varint_bytes_ge)

lemma varint_scan_bytes:
  "n < 128 ^ Suc k \<Longrightarrow> varint_scan (Suc k) (varint_bytes n @ bs) = Scanned n (length (varint_bytes n))"
proof (induction k arbitrary: n)
  case 0
  then show ?case by (simp add: varint_bytes_small byte_simps)
next
  case (Suc k)
  show ?case
  proof (cases "n < 128")
    case True
    then show ?thesis by (simp add: varint_bytes_small byte_simps)
  next
    case False
    have "n div 128 < 128 ^ Suc k"
      using Suc.prems by (intro less_mult_imp_div_less) (simp add: mult.commute)
    then have IH: "varint_scan (Suc k) (varint_bytes (n div 128) @ bs)
        = Scanned (n div 128) (length (varint_bytes (n div 128)))"
      by (rule Suc.IH)
    have d: "varint_bytes n = cont_byte n # varint_bytes (n div 128)"
      using False by (simp add: varint_bytes_step)
    show ?thesis
      unfolding d append_Cons varint_scan.simps(3) unat_cont_byte IH by simp
  qed
qed

lemma varint_scan_length: "varint_scan k bs = Scanned v n \<Longrightarrow> 0 < n \<and> n \<le> k \<and> n \<le> length bs"
  by (induction k bs arbitrary: v n rule: varint_scan.induct)
     (auto split: if_splits scan_result.splits)

lemma varint_scan_bound: "varint_scan k bs = Scanned v n \<Longrightarrow> v < 128 ^ k"
proof (induction k bs arbitrary: v n rule: varint_scan.induct)
  case (3 k b bs)
  show ?case
  proof (cases "unat b < 128")
    case True
    have "(128 :: nat) \<le> 128 ^ Suc k" by simp
    with True 3 show ?thesis by auto
  next
    case False
    with 3 obtain w m where w: "varint_scan k bs = Scanned w m" and v: "v = unat b - 128 + 128 * w"
      by (auto split: scan_result.splits)
    from "3.IH" [OF False w] have "w + 1 \<le> 128 ^ k" by simp
    then have "128 * (w + 1) \<le> 128 * 128 ^ k" by (rule mult_le_mono2)
    with v byte_lt_256 [of b] False show ?thesis by simp
  qed
qed simp_all

subsection \<open>Writers compute the specification\<close>

lemma WriteVarint32_loop_eq: "WriteVarint32_loop v = varint_bytes (unat v)"
proof (induction v rule: WriteVarint32_loop.induct)
  case (1 v)
  have c: "0x7F < v \<longleftrightarrow> 128 \<le> unat v"
    by (auto simp: word_less_nat_alt)
  show ?case
  proof (cases "0x7F < v")
    case True
    with 1 c show ?thesis
      by (subst WriteVarint32_loop.simps) (simp add: varint_bytes_step byte_simps)
  next
    case False
    with c show ?thesis
      by (subst WriteVarint32_loop.simps) (simp add: varint_bytes_small byte_simps)
  qed
qed

lemma WriteVarint64_loop_eq: "WriteVarint64_loop v = varint_bytes (unat v)"
proof (induction v rule: WriteVarint64_loop.induct)
  case (1 v)
  have c: "0x7F < v \<longleftrightarrow> 128 \<le> unat v"
    by (auto simp: word_less_nat_alt)
  show ?case
  proof (cases "0x7F < v")
    case True
    with 1 c show ?thesis
      by (subst WriteVarint64_loop.simps) (simp add: varint_bytes_step byte_simps)
  next
    case False
    with c show ?thesis
      by (subst WriteVarint64_loop.simps) (simp add: varint_bytes_small byte_simps)
  qed
qed


lemmas word_compare_simps = word_less_nat_alt word_le_nat_alt linorder_not_less linorder_not_le

lemma mod_pow_div_mod:
  fixes n :: nat
  assumes "k + 7 \<le> m"
  shows "n mod 2 ^ m div 2 ^ k mod 128 = n div 2 ^ k mod 128"
proof -
  have "n mod 2 ^ m div 2 ^ k = n div 2 ^ k mod 2 ^ (m - k)"
    using assms by (simp flip: take_bit_eq_mod drop_bit_eq_div add: drop_bit_take_bit)
  moreover have "(128 :: nat) dvd 2 ^ (m - k)"
    using le_imp_power_dvd [of 7 "m - k" "2 :: nat"] assms by simp
  ultimately show ?thesis by (simp add: mod_mod_cancel)
qed

lemma varint_bytes_closed:
  "128 ^ k \<le> n \<or> k = 0 \<Longrightarrow> n < 128 ^ Suc k \<Longrightarrow>
     varint_bytes n = map (\<lambda>i. cont_byte (n div 2 ^ (7 * i))) [0..<k] @ [of_nat (n div 2 ^ (7 * k))]"
proof (induction k arbitrary: n)
  case 0
  then show ?case by (simp add: varint_bytes_small)
next
  case (Suc k)
  have n: "128 ^ Suc k \<le> n" using Suc.prems(1) by simp
  have "(128 :: nat) \<le> 128 ^ Suc k" by simp
  with n have ge: "128 \<le> n" by linarith
  have "128 ^ k \<le> n div 128"
    using n by (simp add: less_eq_div_iff_mult_less_eq mult.commute)
  moreover have "n div 128 < 128 ^ Suc k"
    using Suc.prems(2) by (intro less_mult_imp_div_less) (simp add: mult.commute)
  ultimately have IH: "varint_bytes (n div 128)
      = map (\<lambda>i. cont_byte (n div 128 div 2 ^ (7 * i))) [0..<k]
        @ [of_nat (n div 128 div 2 ^ (7 * k))]"
    using Suc.IH by blast
  have d: "n div 128 div 2 ^ (7 * i) = n div 2 ^ (7 * Suc i)" for i
    by (simp add: div_mult2_eq [symmetric] power_add)
  show ?case
    using ge unfolding upt_conv_Cons [OF zero_less_Suc] map_Suc_upt [symmetric]
    by (simp add: varint_bytes_step IH d del: upt_Suc)
qed

lemma nat_size_cases:
  fixes n :: nat
  assumes "n < 128 ^ Suc k"
  obtains j where "j \<le> k" "128 ^ j \<le> n \<or> j = 0" "n < 128 ^ Suc j"
  using assms
proof (induction k arbitrary: thesis)
  case (Suc k)
  then show ?case
    by (metis le_Suc_eq linorder_not_less)
qed auto

lemma le_num_cases:
  "(j :: nat) \<le> 4 \<longleftrightarrow> j = 0 \<or> j = 1 \<or> j = 2 \<or> j = 3 \<or> j = 4"
  "(j :: nat) \<le> 9 \<longleftrightarrow> j = 0 \<or> j = 1 \<or> j = 2 \<or> j = 3 \<or> j = 4 \<or> j = 5 \<or> j = 6 \<or> j = 7 \<or> j = 8 \<or> j = 9"
  by auto

lemma upt_numerals:
  "[0..<1] = [0]" "[0..<2] = [0, 1]" "[0..<3] = [0, 1, 2]" "[0..<4] = [0, 1, 2, 3]"
  "[0..<5] = [0, 1, 2, 3, 4]" "[0..<6] = [0, 1, 2, 3, 4, 5]" "[0..<7] = [0, 1, 2, 3, 4, 5, 6]"
  "[0..<8] = [0, 1, 2, 3, 4, 5, 6, 7]" "[0..<9] = [0, 1, 2, 3, 4, 5, 6, 7, 8]"
  "[0..<10] = [0, 1, 2, 3, 4, 5, 6, 7, 8, 9]"
  by (simp_all add: upt_rec [of _ "numeral _"] upt_rec [of _ "1 :: nat"])

lemmas varint_writer_simps =
  word_less_nat_alt word_le_nat_alt ucast_or_0x80 cont_byte_and_0x7F ucast_and_0x7F unat_drop_bit
  ucast_drop_bit upt_numerals

lemma WriteVarint32FallbackToArrayInline_eq:
  "WriteVarint32FallbackToArrayInline v = varint_bytes (unat v)"
proof -
  have b: "unat v < 128 ^ Suc 4" using u32_lt_2p32 [of v] by simp
  then obtain j where j: "j \<le> 4" "128 ^ j \<le> unat v \<or> j = 0" "unat v < 128 ^ Suc j"
    by (rule nat_size_cases)
  note c = varint_bytes_closed [OF j(2,3)]
  from j(1) consider "j = 0" | "j = 1" | "j = 2" | "j = 3" | "j = 4" by linarith
  then show ?thesis
  proof cases
    case 1
    with j show ?thesis unfolding c WriteVarint32FallbackToArrayInline_def Let_def
      by (simp add: varint_writer_simps)
  next
    case 2
    with j show ?thesis unfolding c WriteVarint32FallbackToArrayInline_def Let_def
      by (simp add: varint_writer_simps)
  next
    case 3
    with j show ?thesis unfolding c WriteVarint32FallbackToArrayInline_def Let_def
      by (simp add: varint_writer_simps)
  next
    case 4
    with j show ?thesis unfolding c WriteVarint32FallbackToArrayInline_def Let_def
      by (simp add: varint_writer_simps)
  next
    case 5
    with j show ?thesis unfolding c WriteVarint32FallbackToArrayInline_def Let_def
      by (simp add: varint_writer_simps)
  qed
qed

lemma WriteVarint32ToArray_eq: "WriteVarint32ToArray v = varint_bytes (unat v)"
  by (simp add: WriteVarint32ToArray_def WriteVarint32FallbackToArray_def
      WriteVarint32FallbackToArrayInline_eq varint_bytes_small word_less_nat_alt)

lemma WriteTagToArray_eq: "WriteTagToArray v = varint_bytes (unat v)"
proof -
  have two: "varint_bytes (unat v) = [cont_byte (unat v), of_nat (unat v div 128)]"
    if "128 \<le> unat v" "unat v < 16384"
    using that varint_bytes_closed [of 1 "unat v"] by (simp add: upt_numerals)
  show ?thesis
    using two
    by (simp add: WriteTagToArray_def WriteVarint32FallbackToArray_def varint_writer_simps
        WriteVarint32FallbackToArrayInline_eq varint_bytes_small)
qed

lemma varint64_part_bytes:
  fixes v :: u64
  shows "cont_byte (unat (ucast v :: u32)) = cont_byte (unat v)"
    "k \<le> 21 \<Longrightarrow> cont_byte (unat (ucast v :: u32) div 2 ^ k) = cont_byte (unat v div 2 ^ k)"
    "k \<le> 21 \<Longrightarrow> cont_byte (unat (ucast (drop_bit m v) :: u32) div 2 ^ k)
       = cont_byte (unat v div 2 ^ (m + k))"
    "cont_byte (unat (ucast (drop_bit m v) :: u32)) = cont_byte (unat v div 2 ^ m)"
proof -
  have m: "n mod 4294967296 div 2 ^ k mod 128 = n div 2 ^ k mod 128" if "k \<le> 21" for n k :: nat
    using mod_pow_div_mod [of k 32 n] that by simp
  have u: "unat (ucast w :: u32) = unat w mod 4294967296" for w :: u64
    by (simp add: unsigned_ucast_eq take_bit_eq_mod)
  show "k \<le> 21 \<Longrightarrow> cont_byte (unat (ucast (drop_bit m v) :: u32) div 2 ^ k)
       = cont_byte (unat v div 2 ^ (m + k))"
    by (simp add: cont_byte_def u unat_drop_bit m power_add div_mult2_eq)
  then show "k \<le> 21 \<Longrightarrow> cont_byte (unat (ucast v :: u32) div 2 ^ k) = cont_byte (unat v div 2 ^ k)"
    by (simp add: cont_byte_def u m)
  show "cont_byte (unat (ucast v :: u32)) = cont_byte (unat v)"
    by (simp add: cont_byte_def u mod_mod_cancel)
  show "cont_byte (unat (ucast (drop_bit m v) :: u32)) = cont_byte (unat v div 2 ^ m)"
    by (simp add: cont_byte_def u mod_mod_cancel unat_drop_bit)
qed

lemma WriteVarint64ToArrayInline_eq: "WriteVarint64ToArrayInline v = varint_bytes (unat v)"
proof -
  have b: "unat v < 18446744073709551616" by (rule u64_lt_2p64)
  then have "unat v < 128 ^ Suc 9" by simp
  then obtain j where j: "j \<le> 9" "128 ^ j \<le> unat v \<or> j = 0" "unat v < 128 ^ Suc j"
    by (rule nat_size_cases)
  note c = varint_bytes_closed [OF j(2,3)]
  define p0 where "p0 = unat v mod 4294967296"
  define p1 where "p1 = unat v div 268435456 mod 4294967296"
  define p2 where "p2 = unat v div 72057594037927936"
  define size where "size = (if p2 = 0 then if p1 = 0 then
      if p0 < 16384 then (if p0 < 128 then 1 else 2) else (if p0 < 2097152 then 3 else 4)
      else if p1 < 16384 then (if p1 < 128 then 5 else 6) else (if p1 < 2097152 then 7 else 8)
      else (if p2 < 128 then 9 else 10 :: nat))"
  have p2: "unat (ucast (drop_bit 56 v) :: u32) = p2"
  proof -
    have "p2 < 4294967296" using b by (simp add: p2_def less_mult_imp_div_less)
    then show ?thesis by (simp add: p2_def unsigned_ucast_eq take_bit_eq_mod unat_drop_bit)
  qed
  define T where "T = map (\<lambda>i. cont_byte (unat v div 2 ^ (7 * i))) [0..<10]"
  have u0: "unat (ucast v :: u32) = p0"
    by (simp add: p0_def unsigned_ucast_eq take_bit_eq_mod)
  have u1: "unat (ucast (drop_bit 28 v) :: u32) = p1"
    by (simp add: p1_def unsigned_ucast_eq take_bit_eq_mod unat_drop_bit)
  have z: "(w :: u32) = 0 \<longleftrightarrow> unat w = 0" for w
    by (simp add: unat_0_iff)
  have lt: "(w :: u32) < push_bit 7 1 \<longleftrightarrow> unat w < 128"
    "(w :: u32) < push_bit 14 1 \<longleftrightarrow> unat w < 16384"
    "(w :: u32) < push_bit 21 1 \<longleftrightarrow> unat w < 2097152" for w
    by (simp_all add: word_less_nat_alt)
  have W: "WriteVarint64ToArrayInline v = (take size T)[size - 1 := T ! (size - 1) AND 0x7F]"
  proof -
    have "[ucast (ucast v OR 0x80 :: u32), ucast (drop_bit 7 (ucast v) OR 0x80 :: u32),
           ucast (drop_bit 14 (ucast v) OR 0x80 :: u32), ucast (drop_bit 21 (ucast v) OR 0x80 :: u32),
           ucast (ucast (drop_bit 28 v) OR 0x80 :: u32), ucast (drop_bit 7 (ucast (drop_bit 28 v)) OR 0x80 :: u32),
           ucast (drop_bit 14 (ucast (drop_bit 28 v)) OR 0x80 :: u32),
           ucast (drop_bit 21 (ucast (drop_bit 28 v)) OR 0x80 :: u32),
           ucast (ucast (drop_bit 56 v) OR 0x80 :: u32),
           ucast (drop_bit 7 (ucast (drop_bit 56 v)) OR 0x80 :: u32)] = T"
      by (simp add: T_def upt_numerals ucast_or_0x80 unat_drop_bit
          varint64_part_bytes(1,4) varint64_part_bytes(2) [where k = 7, simplified]
          varint64_part_bytes(2) [where k = 14, simplified] varint64_part_bytes(2) [where k = 21, simplified]
          varint64_part_bytes(3) [where k = 7, simplified] varint64_part_bytes(3) [where k = 14, simplified]
          varint64_part_bytes(3) [where k = 21, simplified] flip: div_mult2_eq)
    then show ?thesis
      unfolding WriteVarint64ToArrayInline_def Let_def size_def z lt u0 u1 p2 by simp
  qed
  have size: "size = Suc j"
  proof -
    consider "j \<le> 3" | "4 \<le> j \<and> j \<le> 7" | "j = 8" | "j = 9" using j(1) by linarith
    then show ?thesis
    proof cases
      case 1
      then have "unat v < 128 ^ Suc 3"
        using j(3) power_increasing [of "Suc j" "Suc 3" "128 :: nat"] by linarith
      then have "p0 = unat v" "p1 = 0" "p2 = 0" by (simp_all add: p0_def p1_def p2_def)
      moreover from 1 have "j = 0 \<or> j = 1 \<or> j = 2 \<or> j = 3" by linarith
      ultimately show ?thesis using j by (auto simp: size_def)
    next
      case 2
      then have "unat v < 128 ^ Suc 7"
        using j(3) power_increasing [of "Suc j" "Suc 7" "128 :: nat"] by linarith
      then have "p1 = unat v div 268435456" "p2 = 0"
        by (simp_all add: p1_def p2_def less_mult_imp_div_less)
      moreover from 2 have "j = 4 \<or> j = 5 \<or> j = 6 \<or> j = 7" by linarith
      ultimately show ?thesis using j by (auto simp: size_def)
    next
      case 3
      with j have "128 ^ 8 \<le> unat v" "unat v < 128 ^ 9" by simp_all
      then have "1 \<le> p2" "p2 < 128" by (simp_all add: p2_def)
      with 3 show ?thesis by (simp add: size_def)
    next
      case 4
      with j have "128 ^ 9 \<le> unat v" by simp
      then have "128 \<le> p2" by (simp add: p2_def)
      with 4 show ?thesis by (simp add: size_def)
    qed
  qed
  have len: "j < length T" using j(1) by (simp add: T_def)
  have "take (Suc j) T = map (\<lambda>i. cont_byte (unat v div 2 ^ (7 * i))) [0..<j] @ [T ! j]"
    using len by (simp add: take_Suc_conv_app_nth T_def take_map)
  moreover have "T ! j AND 0x7F = of_nat (unat v div 2 ^ (7 * j))"
  proof -
    have "unat v div 2 ^ (7 * j) < 128"
      using j(3) by (intro less_mult_imp_div_less) (simp add: power_mult)
    with j(1) show ?thesis by (simp add: T_def cont_byte_and_0x7F)
  qed
  ultimately show ?thesis
    unfolding W size c by (simp add: list_update_append)
qed

lemma WriteVarint64ToArray_eq: "WriteVarint64ToArray v = varint_bytes (unat v)"
  by (simp add: WriteVarint64ToArray_def WriteVarint64ToArrayInline_eq)

lemma length_varint_bytes_cases:
  assumes "n < 128 ^ Suc k"
  obtains j where "j \<le> k" "128 ^ j \<le> n \<or> j = 0" "n < 128 ^ Suc j" "length (varint_bytes n) = Suc j"
proof -
  obtain j where j: "j \<le> k" "128 ^ j \<le> n \<or> j = 0" "n < 128 ^ Suc j"
    using assms by (rule nat_size_cases)
  moreover have "length (varint_bytes n) = Suc j"
    using varint_bytes_closed [OF j(2,3)] by simp
  ultimately show thesis by (rule that)
qed

lemma VarintSize32_eq: "VarintSize32 v = int (length (varint_bytes (unat v)))"
proof -
  have "unat v < 128 ^ Suc 4" using u32_lt_2p32 [of v] by simp
  then obtain j where j: "j \<le> 4" "128 ^ j \<le> unat v \<or> j = 0" "unat v < 128 ^ Suc j"
    and l: "length (varint_bytes (unat v)) = Suc j" by (rule length_varint_bytes_cases)
  from j(1) have "j = 0 \<or> j = 1 \<or> j = 2 \<or> j = 3 \<or> j = 4" by linarith
  then show ?thesis
    using j by (auto simp: l VarintSize32_def VarintSize32Fallback_def word_less_nat_alt)
qed

lemma VarintSize64_eq: "VarintSize64 v = int (length (varint_bytes (unat v)))"
proof -
  have "unat v < 128 ^ Suc 9" using u64_lt_2p64 [of v] by simp
  then obtain j where j: "j \<le> 9" "128 ^ j \<le> unat v \<or> j = 0" "unat v < 128 ^ Suc j"
    and l: "length (varint_bytes (unat v)) = Suc j" by (rule length_varint_bytes_cases)
  from j(1) have "j = 0 \<or> j = 1 \<or> j = 2 \<or> j = 3 \<or> j = 4 \<or> j = 5 \<or> j = 6 \<or> j = 7 \<or> j = 8 \<or> j = 9"
    by (simp only: le_num_cases)
  then show ?thesis
    using j by (auto simp: l VarintSize64_def word_less_nat_alt)
qed

lemma s32_neg_scast_bound:
  assumes "s32_neg v"
  shows "2 ^ 63 \<le> unat (scast v :: u64)"
proof -
  from assms have n: "sint v < 0" by (simp add: s32_neg_def)
  have l: "- (2 ^ 31) \<le> sint v" using sint_greater_eq [of v] by simp
  have "uint (scast v :: u64) = uint (word_of_int (sint v) :: u64)" by (simp only: scast_eq)
  also have "\<dots> = sint v mod 2 ^ 64" by (simp only: uint_word_of_int) simp
  also have "\<dots> = (sint v + 2 ^ 64) mod 2 ^ 64" by simp
  also have "\<dots> = sint v + 2 ^ 64" using n l by (intro mod_pos_pos_trivial) simp_all
  finally have "2 ^ 63 \<le> uint (scast v :: u64)" using l by simp
  then have "int (2 ^ 63) \<le> int (unat (scast v :: u64))" by (simp only: uint_nat) simp
  then show ?thesis by (simp only: of_nat_le_iff)
qed

lemma length_WriteVarint32SignExtendedToArray:
  "int (length (WriteVarint32SignExtendedToArray v)) = VarintSize32SignExtended v"
proof (cases "s32_neg v")
  case True
  let ?w = "scast v :: u64"
  have "unat ?w < 128 ^ Suc 9" "128 ^ 9 \<le> unat ?w"
    using u64_lt_2p64 [of ?w] s32_neg_scast_bound [OF True] by simp_all
  then have "length (varint_bytes (unat ?w)) = Suc 9"
    by (metis length_varint_bytes_ge length_varint_bytes_le le_antisym Suc_leI)
  with True show ?thesis
    by (simp add: WriteVarint32SignExtendedToArray_def VarintSize32SignExtended_def WriteVarint64ToArray_eq)
qed (simp add: WriteVarint32SignExtendedToArray_def VarintSize32SignExtended_def
       VarintSize32_eq WriteVarint32ToArray_eq)

subsection \<open>Properties\<close>

text \<open>
  The unrolled varint writers produce byte for byte what the plain loops
  of \<open>WriteVarint32\<close> and \<open>WriteVarint64\<close> produce, and a 32-bit value has the same encoding
  at both widths.
\<close>
theorem varint_writers_agree:
  "WriteVarint32FallbackToArray v = WriteVarint32_loop v
   \<and> WriteVarint32ToArray v = WriteVarint32_loop v
   \<and> WriteTagToArray v = WriteVarint32_loop v
   \<and> WriteVarint64ToArray w = WriteVarint64_loop w
   \<and> WriteVarint64ToArray (ucast v) = WriteVarint32ToArray v"
proof -
  have "unat (ucast v :: u64) = unat v"
    using u32_lt_2p32 [of v] by (simp add: unsigned_ucast_eq take_bit_nat_eq_self)
  then show ?thesis
    by (simp add: WriteVarint32FallbackToArray_def WriteVarint32FallbackToArrayInline_eq
        WriteVarint32ToArray_eq WriteTagToArray_eq WriteVarint32_loop_eq
        WriteVarint64ToArray_eq WriteVarint64_loop_eq)
qed

text \<open>
  The size functions give exactly the number of bytes the writers
  produce, between 1 and 5 for 32-bit values and between 1 and 10 for 64-bit values; a negative
  \<open>int32\<close> always takes the ten bytes of its sign-extended form.
\<close>
theorem varint_sizes_exact:
  "VarintSize32 v = int (length (WriteVarint32ToArray v))
   \<and> VarintSize64 w = int (length (WriteVarint64ToArray w))
   \<and> VarintSize32SignExtended i = int (length (WriteVarint32SignExtendedToArray i))
   \<and> 1 \<le> VarintSize32 v \<and> VarintSize32 v \<le> int kMaxVarint32Bytes
   \<and> 1 \<le> VarintSize64 w \<and> VarintSize64 w \<le> int kMaxVarintBytes"
proof -
  have "unat v < 128 ^ Suc 4" "unat w < 128 ^ Suc 9"
    using u32_lt_2p32 [of v] u64_lt_2p64 [of w] by simp_all
  note le = this [THEN length_varint_bytes_le]
  have "1 \<le> length (varint_bytes n)" for n
    using length_varint_bytes_pos [of n] by linarith
  with le show ?thesis
    by (simp add: VarintSize32_eq VarintSize64_eq WriteVarint32ToArray_eq WriteVarint64ToArray_eq
        length_WriteVarint32SignExtendedToArray kMaxVarint32Bytes_def kMaxVarintBytes_def)
qed

end
