(* ===== verification/VarintRead.thy ===== *)
theory VarintRead
  imports Varint
begin

text \<open>
  The array readers of \<^verbatim>\<open>coded_stream.cc\<close>: the unrolled varint readers and the
  little-endian readers. The argument is the memory from the read pointer to the end of the
  block; the result is \<open>None\<close> for a read past it, \<open>Some None\<close> where the source returns
  \<open>NULL\<close> or false, and \<open>Some (Some (value, n))\<close> where it stores \<open>value\<close> and advances by \<open>n\<close>.
\<close>

fun skip_high_bytes :: "byte list \<Rightarrow> u32 \<Rightarrow> nat \<Rightarrow> nat \<Rightarrow> (u32 \<times> nat) option option" where
  \<comment> \<open>the loop \<open>for (int i = 0; i < kMaxVarintBytes - kMaxVarint32Bytes; i++)\<close>\<close>
  "skip_high_bytes mem result pos 0 = Some None"
| "skip_high_bytes mem result pos (Suc i) =
     do { b \<leftarrow> mem_at mem pos;
          if (ucast b :: u32) AND 0x80 = 0 then Some (Some (result, Suc pos))
          else skip_high_bytes mem result (Suc pos) i }"

definition ReadVarint32FromArray :: "byte list \<Rightarrow> (u32 \<times> nat) option option" where
  "ReadVarint32FromArray mem =
     do { b0 \<leftarrow> mem_at mem 0; let b = (ucast b0 :: u32); let result = b;
          if b AND 0x80 = 0 then Some (Some (result, 1)) else
     do { let result = result - 0x80;
          b1 \<leftarrow> mem_at mem 1; let b = ucast b1; let result = result + push_bit 7 b;
          if b AND 0x80 = 0 then Some (Some (result, 2)) else
     do { let result = result - push_bit 7 0x80;
          b2 \<leftarrow> mem_at mem 2; let b = ucast b2; let result = result + push_bit 14 b;
          if b AND 0x80 = 0 then Some (Some (result, 3)) else
     do { let result = result - push_bit 14 0x80;
          b3 \<leftarrow> mem_at mem 3; let b = ucast b3; let result = result + push_bit 21 b;
          if b AND 0x80 = 0 then Some (Some (result, 4)) else
     do { let result = result - push_bit 21 0x80;
          b4 \<leftarrow> mem_at mem 4; let b = ucast b4; let result = result + push_bit 28 b;
          if b AND 0x80 = 0 then Some (Some (result, 5)) else
          skip_high_bytes mem result 5 (kMaxVarintBytes - kMaxVarint32Bytes) }}}}}"

text \<open>The fast path of \<open>ReadVarint64Fallback\<close>, from the pointer \<open>ptr = buffer_\<close>.\<close>

definition combine_parts :: "u32 \<Rightarrow> u32 \<Rightarrow> u32 \<Rightarrow> u64" where
  "combine_parts part0 part1 part2 =
     ucast part0 OR push_bit 28 (ucast part1) OR push_bit 56 (ucast part2)"

definition ReadVarint64FromArray :: "byte list \<Rightarrow> (u64 \<times> nat) option option" where
  "ReadVarint64FromArray mem =
     do { b0 \<leftarrow> mem_at mem 0; let b = (ucast b0 :: u32); let part0 = b;
          if b AND 0x80 = 0 then Some (Some (combine_parts part0 0 0, 1)) else
     do { let part0 = part0 - 0x80;
          b1 \<leftarrow> mem_at mem 1; let b = ucast b1; let part0 = part0 + push_bit 7 b;
          if b AND 0x80 = 0 then Some (Some (combine_parts part0 0 0, 2)) else
     do { let part0 = part0 - push_bit 7 0x80;
          b2 \<leftarrow> mem_at mem 2; let b = ucast b2; let part0 = part0 + push_bit 14 b;
          if b AND 0x80 = 0 then Some (Some (combine_parts part0 0 0, 3)) else
     do { let part0 = part0 - push_bit 14 0x80;
          b3 \<leftarrow> mem_at mem 3; let b = ucast b3; let part0 = part0 + push_bit 21 b;
          if b AND 0x80 = 0 then Some (Some (combine_parts part0 0 0, 4)) else
     do { let part0 = part0 - push_bit 21 0x80;
          b4 \<leftarrow> mem_at mem 4; let b = ucast b4; let part1 = b;
          if b AND 0x80 = 0 then Some (Some (combine_parts part0 part1 0, 5)) else
     do { let part1 = part1 - 0x80;
          b5 \<leftarrow> mem_at mem 5; let b = ucast b5; let part1 = part1 + push_bit 7 b;
          if b AND 0x80 = 0 then Some (Some (combine_parts part0 part1 0, 6)) else
     do { let part1 = part1 - push_bit 7 0x80;
          b6 \<leftarrow> mem_at mem 6; let b = ucast b6; let part1 = part1 + push_bit 14 b;
          if b AND 0x80 = 0 then Some (Some (combine_parts part0 part1 0, 7)) else
     do { let part1 = part1 - push_bit 14 0x80;
          b7 \<leftarrow> mem_at mem 7; let b = ucast b7; let part1 = part1 + push_bit 21 b;
          if b AND 0x80 = 0 then Some (Some (combine_parts part0 part1 0, 8)) else
     do { let part1 = part1 - push_bit 21 0x80;
          b8 \<leftarrow> mem_at mem 8; let b = ucast b8; let part2 = b;
          if b AND 0x80 = 0 then Some (Some (combine_parts part0 part1 part2, 9)) else
     do { let part2 = part2 - 0x80;
          b9 \<leftarrow> mem_at mem 9; let b = ucast b9; let part2 = part2 + push_bit 7 b;
          if b AND 0x80 = 0 then Some (Some (combine_parts part0 part1 part2, 10)) else
          Some None }}}}}}}}}}"

definition ReadLittleEndian32FromArray :: "byte list \<Rightarrow> (u32 \<times> nat) option" where
  "ReadLittleEndian32FromArray mem =
     do { b0 \<leftarrow> mem_at mem 0; b1 \<leftarrow> mem_at mem 1; b2 \<leftarrow> mem_at mem 2; b3 \<leftarrow> mem_at mem 3;
          Some (ucast b0 OR push_bit 8 (ucast b1) OR push_bit 16 (ucast b2) OR push_bit 24 (ucast b3), 4) }"

definition ReadLittleEndian64FromArray :: "byte list \<Rightarrow> (u64 \<times> nat) option" where
  "ReadLittleEndian64FromArray mem =
     do { b0 \<leftarrow> mem_at mem 0; b1 \<leftarrow> mem_at mem 1; b2 \<leftarrow> mem_at mem 2; b3 \<leftarrow> mem_at mem 3;
          b4 \<leftarrow> mem_at mem 4; b5 \<leftarrow> mem_at mem 5; b6 \<leftarrow> mem_at mem 6; b7 \<leftarrow> mem_at mem 7;
          let part0 = (ucast b0 OR push_bit 8 (ucast b1) OR push_bit 16 (ucast b2)
                       OR push_bit 24 (ucast b3) :: u32);
          let part1 = (ucast b4 OR push_bit 8 (ucast b5) OR push_bit 16 (ucast b6)
                       OR push_bit 24 (ucast b7) :: u32);
          Some (ucast part0 OR push_bit 32 (ucast part1), 8) }"

fun ExpectTagFromArray :: "byte list \<Rightarrow> u32 \<Rightarrow> nat option option" where
  "ExpectTagFromArray mem expected =
     (if expected < push_bit 7 1 then
        do { b0 \<leftarrow> mem_at mem 0;
             Some (if ucast b0 = expected then Some 1 else None) }
      else if expected < push_bit 14 1 then
        do { b0 \<leftarrow> mem_at mem 0;
             if b0 = ucast (expected OR 0x80) then
               do { b1 \<leftarrow> mem_at mem 1;
                    Some (if b1 = ucast (drop_bit 7 expected) then Some 2 else None) }
             else Some None }
      else Some None)"

subsection \<open>The unrolled readers compute the specification\<close>

text \<open>What a reader that yields words of type \<open>'a\<close> must return on a scan result.\<close>

fun scan_read :: "scan_result \<Rightarrow> ('a::len word \<times> nat) option option" where
  "scan_read (Scanned v n) = Some (Some (of_nat v, n))"
| "scan_read Too_Long = Some None"
| "scan_read Truncated = None"

lemma skip_high_bytes_eq:
  "skip_high_bytes mem result pos i =
     (case varint_scan i (drop pos mem) of
        Scanned v n \<Rightarrow> Some (Some (result, pos + n))
      | Too_Long \<Rightarrow> Some None
      | Truncated \<Rightarrow> None)"
proof (induction i arbitrary: pos)
  case (Suc i)
  show ?case
  proof (cases "pos < length mem")
    case True
    then have d: "drop pos mem = mem ! pos # drop (Suc pos) mem"
      by (rule Cons_nth_drop_Suc [symmetric])
    show ?thesis
      using True by (auto simp: mem_at_def d u32_byte_and_0x80 Suc.IH split: scan_result.splits)
  qed (simp add: mem_at_def)
qed simp

lemma of_nat_high_byte:
  "\<not> unat b < 128 \<Longrightarrow> (of_nat (unat (b :: byte) - 128) :: 'a::len word) = ucast b - 128"
  by (simp only: of_nat_diff ucast_eq_of_nat not_less of_nat_numeral)

lemma varint_scan_drop:
  "varint_scan (Suc k) (drop i mem) =
     (case mem_at mem i of
        None \<Rightarrow> Truncated
      | Some b \<Rightarrow>
          if unat b < 128 then Scanned (unat b) 1
          else case varint_scan k (drop (Suc i) mem) of
                 Scanned v n \<Rightarrow> Scanned (unat b - 128 + 128 * v) (Suc n)
               | r \<Rightarrow> r)"
proof (cases "i < length mem")
  case True
  then have "drop i mem = mem ! i # drop (Suc i) mem"
    by (rule Cons_nth_drop_Suc [symmetric])
  with True show ?thesis by (simp add: mem_at_def)
qed (simp add: mem_at_def)

lemmas varint_scan_steps =
  varint_scan_drop [of 9 0, simplified] varint_scan_drop [of 8 "Suc 0", simplified, folded numeral_2_eq_2]
  varint_scan_drop [of 7 2, simplified] varint_scan_drop [of 6 3, simplified]
  varint_scan_drop [of 5 4, simplified] varint_scan_drop [of 4 5, simplified]
  varint_scan_drop [of 3 6, simplified] varint_scan_drop [of 2 7, simplified]
  varint_scan_drop [of 1 8, simplified] varint_scan_drop [of 0 9, simplified]

lemma ReadVarint32FromArray_eq: "ReadVarint32FromArray mem = scan_read (varint_scan 10 mem)"
proof -
  have km: "kMaxVarintBytes - kMaxVarint32Bytes = 5"
    by (simp add: kMaxVarintBytes_def kMaxVarint32Bytes_def)
  have z: "(34359738368 :: u32) = 0" by simp
  show ?thesis
    unfolding ReadVarint32FromArray_def km skip_high_bytes_eq
    by (simp add: varint_scan_steps(1-5) u32_byte_and_0x80 of_nat_high_byte push_bit_eq_mult
        algebra_simps Let_def z split: option.split scan_result.split)
qed

text \<open>The pieces of the 64-bit reader stay below 28 bits, so \<open>OR\<close> joins them as a sum.\<close>

lemma combine_parts_eq:
  assumes "unat p0 < 2 ^ 28" "unat p1 < 2 ^ 28"
  shows "combine_parts p0 p1 p2 = of_nat (unat p0 + 2 ^ 28 * unat p1 + 2 ^ 56 * unat p2)"
proof -
  have nb: "\<not> bit p n" if "unat p < 2 ^ 28" "28 \<le> n" for p :: u32 and n
  proof -
    have "unat p < 2 ^ n"
      using that power_increasing [of 28 n "2 :: nat"] by linarith
    then have "\<not> bit (unat p) n" by (simp add: bit_iff_odd)
    then show ?thesis by (simp add: bit_unsigned_iff)
  qed
  note b0 = nb [OF assms(1)] and b1 = nb [OF assms(2)]
  have d1: "(ucast p0 :: u64) AND push_bit 28 (ucast p1) = 0"
    by (rule bit_eqI) (auto simp: bit_simps dest: b0)
  have d2: "((ucast p0 :: u64) OR push_bit 28 (ucast p1)) AND push_bit 56 (ucast p2) = 0"
    by (rule bit_eqI) (auto simp: bit_simps b0 b1)
  have "combine_parts p0 p1 p2 = ucast p0 + push_bit 28 (ucast p1) + push_bit 56 (ucast p2)"
    unfolding combine_parts_def
    using disjunctive_add_eq_or [OF d1] disjunctive_add_eq_or [OF d2] by (simp add: or.assoc)
  also have "\<dots> = of_nat (unat p0 + 2 ^ 28 * unat p1 + 2 ^ 56 * unat p2)"
    by (simp add: push_bit_eq_mult mult.commute)
  finally show ?thesis .
qed

text \<open>
  The 64-bit reader works on pieces of at most four bytes. \<open>high_bits m bs\<close> is what \<open>m\<close>
  continuation bytes contribute; a scan of \<open>m + k\<close> bytes is a scan of \<open>m\<close> and then one of \<open>k\<close>.
\<close>

fun high_bits :: "nat \<Rightarrow> byte list \<Rightarrow> nat" where
  "high_bits (Suc m) (b # bs) = unat b - 128 + 128 * high_bits m bs"
| "high_bits m bs = 0"

lemma high_bits_bound: "high_bits m bs < 128 ^ m"
proof (induction m bs rule: high_bits.induct)
  case (1 m b bs)
  then have "128 * (high_bits m bs + 1) \<le> 128 * 128 ^ m" by (intro mult_le_mono2) simp
  moreover have "unat b - 128 < 128" using byte_lt_256 [of b] by linarith
  ultimately show ?case by simp
qed simp_all

lemma varint_scan_split:
  "varint_scan (m + k) bs =
     (case varint_scan m bs of
        Too_Long \<Rightarrow>
          (case varint_scan k (drop m bs) of
             Scanned v n \<Rightarrow> Scanned (high_bits m bs + 128 ^ m * v) (m + n)
           | r \<Rightarrow> r)
      | r \<Rightarrow> r)"
proof (induction m bs rule: varint_scan.induct)
  case (1 bs)
  then show ?case by (simp split: scan_result.split)
next
  case (2 m)
  then show ?case by simp
next
  case (3 m b bs)
  then show ?case by (auto split: scan_result.split)
qed

definition read_piece :: "byte list \<Rightarrow> nat \<Rightarrow> (u32 \<times> nat + u32) option" where
  "read_piece mem i =
     do { b0 \<leftarrow> mem_at mem i; let b = (ucast b0 :: u32); let part = b;
          if b AND 0x80 = 0 then Some (Inl (part, 1)) else
     do { let part = part - 0x80;
          b1 \<leftarrow> mem_at mem (i + 1); let b = ucast b1; let part = part + push_bit 7 b;
          if b AND 0x80 = 0 then Some (Inl (part, 2)) else
     do { let part = part - push_bit 7 0x80;
          b2 \<leftarrow> mem_at mem (i + 2); let b = ucast b2; let part = part + push_bit 14 b;
          if b AND 0x80 = 0 then Some (Inl (part, 3)) else
     do { let part = part - push_bit 14 0x80;
          b3 \<leftarrow> mem_at mem (i + 3); let b = ucast b3; let part = part + push_bit 21 b;
          if b AND 0x80 = 0 then Some (Inl (part, 4)) else
          Some (Inr (part - push_bit 21 0x80)) }}}}"

lemma high_bits_drop:
  "mem_at mem i = Some b \<Longrightarrow> high_bits (Suc m) (drop i mem) = unat b - 128 + 128 * high_bits m (drop (Suc i) mem)"
  by (auto simp: mem_at_def Cons_nth_drop_Suc [symmetric] split: if_splits)

lemma read_piece_eq:
  "read_piece mem i =
     (case varint_scan 4 (drop i mem) of
        Scanned v n \<Rightarrow> Some (Inl (of_nat v, n))
      | Too_Long \<Rightarrow> Some (Inr (of_nat (high_bits 4 (drop i mem))))
      | Truncated \<Rightarrow> None)"
proof -
  have four: "(4 :: nat) = Suc (Suc (Suc (Suc 0)))" by simp
  have idx: "i + 1 = Suc i" "i + 2 = Suc (Suc i)" "i + 3 = Suc (Suc (Suc i))" by simp_all
  show ?thesis
    unfolding read_piece_def idx four varint_scan_drop
    by (simp add: u32_byte_and_0x80 of_nat_high_byte push_bit_eq_mult high_bits_drop
        algebra_simps Let_def split: option.split)
qed

lemma ReadVarint64FromArray_pieces:
  "ReadVarint64FromArray mem =
     do { r0 \<leftarrow> read_piece mem 0;
          case r0 of
            Inl (p0, n) \<Rightarrow> Some (Some (combine_parts p0 0 0, n))
          | Inr p0 \<Rightarrow>
              do { r1 \<leftarrow> read_piece mem 4;
                   case r1 of
                     Inl (p1, n) \<Rightarrow> Some (Some (combine_parts p0 p1 0, 4 + n))
                   | Inr p1 \<Rightarrow>
                       do { b8 \<leftarrow> mem_at mem 8;
                            if (ucast b8 :: u32) AND 0x80 = 0
                            then Some (Some (combine_parts p0 p1 (ucast b8), 9))
                            else do { b9 \<leftarrow> mem_at mem 9;
                                      if (ucast b9 :: u32) AND 0x80 = 0
                                      then Some (Some (combine_parts p0 p1 (ucast b8 - 0x80 + push_bit 7 (ucast b9)), 10))
                                      else Some None } } } }"
  unfolding ReadVarint64FromArray_def read_piece_def Let_def
  by (simp add: if_distrib [of "\<lambda>x. Option.bind x _"] numeral_2_eq_2 cong: if_cong)

lemma combine_parts_of_nat:
  assumes "a < 2 ^ 28" "b < 2 ^ 28" "c < 2 ^ 32"
  shows "combine_parts (of_nat a) (of_nat b) (of_nat c) = of_nat (a + 2 ^ 28 * b + 2 ^ 56 * c)"
proof -
  have u: "unat (of_nat n :: u32) = n" if "n < 2 ^ 32" for n
    using that by (simp add: unat_of_nat)
  have "unat (of_nat a :: u32) = a" "unat (of_nat b :: u32) = b" "unat (of_nat c :: u32) = c"
    using assms by (auto intro!: u)
  with assms show ?thesis
    by (subst combine_parts_eq) simp_all
qed

lemma ReadVarint64FromArray_eq: "ReadVarint64FromArray mem = scan_read (varint_scan 10 mem)"
proof -
  have ten: "varint_scan 10 mem = varint_scan (4 + (4 + Suc (Suc 0))) (drop 0 mem)" by simp
  let ?h0 = "high_bits 4 mem" and ?h1 = "high_bits 4 (drop 4 mem)"
  have h: "?h0 < 2 ^ 28" "?h1 < 2 ^ 28"
    using high_bits_bound [of 4 mem] high_bits_bound [of 4 "drop 4 mem"] by simp_all
  show ?thesis
  proof (cases "varint_scan 4 mem")
    case (Scanned v n)
    then have "v < 2 ^ 28" using varint_scan_bound [OF Scanned] by simp
    then have "combine_parts (of_nat v) 0 0 = of_nat v"
      using combine_parts_of_nat [of v 0 0] by simp
    with Scanned show ?thesis
      unfolding ReadVarint64FromArray_pieces ten varint_scan_split read_piece_eq by simp
  next
    case Truncated
    then show ?thesis
      unfolding ReadVarint64FromArray_pieces ten varint_scan_split read_piece_eq by simp
  next
    case l0: Too_Long
    show ?thesis
    proof (cases "varint_scan 4 (drop 4 mem)")
      case (Scanned v n)
      then have "v < 2 ^ 28" using varint_scan_bound [OF Scanned] by simp
      then have "combine_parts (of_nat ?h0) (of_nat v) 0 = of_nat (?h0 + 2 ^ 28 * v)"
        using combine_parts_of_nat [of ?h0 v 0] h by simp
      with Scanned l0 show ?thesis
        unfolding ReadVarint64FromArray_pieces ten varint_scan_split read_piece_eq by simp
    next
      case Truncated
      with l0 show ?thesis
        unfolding ReadVarint64FromArray_pieces ten varint_scan_split read_piece_eq by simp
    next
      case l1: Too_Long
      have two: "Suc (Suc 0) = 2" by simp
      have rest: "varint_scan 10 mem =
          (case varint_scan (Suc (Suc 0)) (drop 8 mem) of
             Scanned v n \<Rightarrow> Scanned (?h0 + 2 ^ 28 * (?h1 + 2 ^ 28 * v)) (8 + n)
           | r \<Rightarrow> r)"
        unfolding two using l0 l1 varint_scan_split [of 4 6 mem] varint_scan_split [of 4 2 "drop 4 mem"]
        by (simp split: scan_result.split)
      have c8: "combine_parts (of_nat ?h0) (of_nat ?h1) (ucast b) = of_nat (?h0 + 2 ^ 28 * (?h1 + 2 ^ 28 * unat b))"
        for b :: byte
        using combine_parts_of_nat [OF h, of "unat b"] byte_lt_256 [of b]
        by (simp add: algebra_simps)
      have c9: "combine_parts (of_nat ?h0) (of_nat ?h1) (ucast b - 128 + push_bit 7 (ucast c))
          = of_nat (?h0 + 2 ^ 28 * (?h1 + 2 ^ 28 * (unat b - 128 + 128 * unat c)))"
        if "\<not> unat b < 128" for b c :: byte
      proof -
        have "unat b - 128 + 128 * unat c < 2 ^ 32"
          using byte_lt_256 [of b] byte_lt_256 [of c] by simp
        from combine_parts_of_nat [OF h this] show ?thesis
          by (simp add: of_nat_high_byte [OF that] push_bit_eq_mult algebra_simps)
      qed
      show ?thesis
        unfolding ReadVarint64FromArray_pieces read_piece_eq rest varint_scan_drop
        using l0 l1
        by (simp add: u32_byte_and_0x80 c8 c9 del: push_bit_eq_mult of_nat_add of_nat_mult split: option.split)
    qed
  qed
qed

subsection \<open>Reading inverts writing\<close>

lemma ReadVarint32FromArray_write:
  "ReadVarint32FromArray (WriteVarint32ToArray v @ rest) = Some (Some (v, length (WriteVarint32ToArray v)))"
proof -
  have "unat v < 128 ^ Suc 9" using u32_lt_2p32 [of v] by simp
  then show ?thesis
    by (simp add: ReadVarint32FromArray_eq WriteVarint32ToArray_eq varint_scan_bytes [of _ 9, simplified])
qed

lemma ReadVarint64FromArray_write:
  "ReadVarint64FromArray (WriteVarint64ToArray v @ rest) = Some (Some (v, length (WriteVarint64ToArray v)))"
proof -
  have "unat v < 128 ^ Suc 9" using u64_lt_2p64 [of v] by simp
  then show ?thesis
    by (simp add: ReadVarint64FromArray_eq WriteVarint64ToArray_eq varint_scan_bytes [of _ 9, simplified])
qed

lemma u32_from_bytes:
  "(ucast (ucast (w :: u32) :: byte) :: u32) OR push_bit 8 (ucast (ucast (drop_bit 8 w) :: byte))
      OR push_bit 16 (ucast (ucast (drop_bit 16 w) :: byte))
      OR push_bit 24 (ucast (ucast (drop_bit 24 w) :: byte)) = w"
proof (rule bit_eqI)
  fix n :: nat
  consider "n < 8" | "8 \<le> n" "n < 16" | "16 \<le> n" "n < 24" | "24 \<le> n" by linarith
  then show "bit ((ucast (ucast w :: byte) :: u32) OR push_bit 8 (ucast (ucast (drop_bit 8 w) :: byte))
      OR push_bit 16 (ucast (ucast (drop_bit 16 w) :: byte))
      OR push_bit 24 (ucast (ucast (drop_bit 24 w) :: byte))) n = bit w n"
    by cases (auto simp: bit_simps dest: bit_imp_le_length)
qed

lemma ReadLittleEndian32FromArray_write:
  "ReadLittleEndian32FromArray (WriteLittleEndian32ToArray v @ rest) = Some (v, 4)"
  using u32_from_bytes [of v]
  by (simp add: ReadLittleEndian32FromArray_def WriteLittleEndian32ToArray_def del: ucast_drop_bit)

lemma ReadLittleEndian64FromArray_write:
  "ReadLittleEndian64FromArray (WriteLittleEndian64ToArray v @ rest) = Some (v, 8)"
proof -
  have "ucast (ucast v :: u32) OR push_bit 32 (ucast (ucast (drop_bit 32 v) :: u32)) = v"
    by (rule bit_eqI) (auto simp: bit_simps)
  with u32_from_bytes [of "ucast v"] u32_from_bytes [of "ucast (drop_bit 32 v)"] show ?thesis
    by (simp add: ReadLittleEndian64FromArray_def WriteLittleEndian64ToArray_def Let_def del: ucast_drop_bit)
qed

subsection \<open>Properties\<close>

text \<open>
  C29: reading back what the array writers wrote gives the value and the
  number of bytes written, whatever follows; the 32-bit reader applied to a 64-bit encoding
  (a sign-extended negative \<open>int32\<close>) gives the low 32 bits and consumes all its bytes.
\<close>
theorem varint_array_roundtrip:
  "ReadVarint32FromArray (WriteVarint32ToArray v @ rest) = Some (Some (v, length (WriteVarint32ToArray v)))
   \<and> ReadVarint64FromArray (WriteVarint64ToArray w @ rest) = Some (Some (w, length (WriteVarint64ToArray w)))
   \<and> ReadVarint32FromArray (WriteVarint64ToArray w @ rest) = Some (Some (ucast w, length (WriteVarint64ToArray w)))"
proof -
  have "unat w < 128 ^ Suc 9" using u64_lt_2p64 [of w] by simp
  moreover have "(of_nat (unat w) :: u32) = ucast w" by (simp add: of_nat_unat)
  ultimately have "ReadVarint32FromArray (WriteVarint64ToArray w @ rest)
      = Some (Some (ucast w, length (WriteVarint64ToArray w)))"
    by (simp add: ReadVarint32FromArray_eq WriteVarint64ToArray_eq varint_scan_bytes [of _ 9, simplified])
  then show ?thesis by (simp add: ReadVarint32FromArray_write ReadVarint64FromArray_write)
qed

text \<open>
  On any memory, the unrolled readers (three 28-bit parts for 64 bits, and
  the loop that discards the bytes past the fifth for 32 bits) compute the function
  \<open>varint_scan\<close>: they fail exactly when ten bytes have the continuation bit, and leave the
  block exactly when it ends inside a varint.
\<close>
theorem varint_unrolled_readers:
  "ReadVarint64FromArray mem = scan_read (varint_scan kMaxVarintBytes mem)
   \<and> ReadVarint32FromArray mem = scan_read (varint_scan kMaxVarintBytes mem)"
  by (simp add: ReadVarint64FromArray_eq ReadVarint32FromArray_eq kMaxVarintBytes_def)

text \<open>
  The little-endian writers and readers are inverse and occupy four and
  eight bytes.
\<close>
theorem fixed_array_roundtrip:
  "ReadLittleEndian32FromArray (WriteLittleEndian32ToArray v @ rest) = Some (v, 4)
   \<and> ReadLittleEndian64FromArray (WriteLittleEndian64ToArray w @ rest) = Some (w, 8)
   \<and> length (WriteLittleEndian32ToArray v) = 4 \<and> length (WriteLittleEndian64ToArray w) = 8"
proof -
  have "length (WriteLittleEndian32ToArray v) = 4" "length (WriteLittleEndian64ToArray w) = 8"
    by (simp_all add: WriteLittleEndian32ToArray_def WriteLittleEndian64ToArray_def Let_def)
  then show ?thesis
    by (simp add: ReadLittleEndian32FromArray_write ReadLittleEndian64FromArray_write)
qed

end
