(* ===== verification/CodedInput.thy ===== *)
theory CodedInput
  imports VarintRead
begin

text \<open>
  \<open>CodedInputStream\<close> of \<^verbatim>\<open>google/protobuf/io/coded_stream.{h,cc}\<close>.

  \<open>ci_input\<close> is the underlying \<open>ZeroCopyInputStream\<close>: the blocks its \<open>Next\<close> has still to
  return, or \<open>None\<close> for the null pointer of a flat stream. \<open>ci_block\<close> is the memory that
  \<open>buffer_\<close> and \<open>buffer_end_\<close> point into, and these are offsets in it; a null buffer is the
  empty block. C++ \<open>int\<close> members are \<open>int\<close>. Every operation returns \<open>None\<close> where the C++
  behaviour is undefined: memory outside the block, or a call through a null \<open>input_\<close>.
\<close>

subsection \<open>State\<close>

record coded_input =
  ci_input :: "byte list list option"
  ci_block :: "byte list"
  ci_buffer :: int
  ci_buffer_end :: int
  ci_total_bytes_read :: int
  ci_overflow_bytes :: int
  ci_last_tag :: u32
  ci_legitimate_message_end :: bool
  ci_current_limit :: int
  ci_buffer_size_after_limit :: int
  ci_total_bytes_limit :: int
  ci_total_bytes_warning_threshold :: int
  ci_recursion_depth :: int
  ci_recursion_limit :: int

definition kDefaultTotalBytesLimit :: int where
  "kDefaultTotalBytesLimit = 64 * 2 ^ 20"

definition kDefaultTotalBytesWarningThreshold :: int where
  "kDefaultTotalBytesWarningThreshold = 32 * 2 ^ 20"

definition default_recursion_limit :: int where
  "default_recursion_limit = 100"

definition BufferSize :: "coded_input \<Rightarrow> int" where
  "BufferSize s = ci_buffer_end s - ci_buffer s"

definition Advance :: "int \<Rightarrow> coded_input \<Rightarrow> coded_input" where
  "Advance amount s = s\<lparr>ci_buffer := ci_buffer s + amount\<rparr>"

definition CurrentPosition :: "coded_input \<Rightarrow> int" where
  "CurrentPosition s = ci_total_bytes_read s - (BufferSize s + ci_buffer_size_after_limit s)"

text \<open>Memory accesses: the byte at an offset, \<open>n\<close> bytes from \<open>buffer_\<close>, all from \<open>buffer_\<close> on.\<close>

definition ci_at :: "coded_input \<Rightarrow> int \<Rightarrow> byte option" where
  "ci_at s i = (if 0 \<le> i then mem_at (ci_block s) (nat i) else None)"

definition ci_bytes :: "coded_input \<Rightarrow> int \<Rightarrow> byte list option" where
  "ci_bytes s n =
     (if 0 \<le> n \<and> 0 \<le> ci_buffer s \<and> ci_buffer s + n \<le> int (length (ci_block s))
      then Some (take (nat n) (drop (nat (ci_buffer s)) (ci_block s))) else None)"

definition ci_mem :: "coded_input \<Rightarrow> byte list option" where
  "ci_mem s = (if 0 \<le> ci_buffer s \<and> ci_buffer s \<le> int (length (ci_block s))
               then Some (drop (nat (ci_buffer s)) (ci_block s)) else None)"

subsection \<open>Limits\<close>

definition closest_limit :: "coded_input \<Rightarrow> int" where
  "closest_limit s = min (ci_current_limit s) (ci_total_bytes_limit s)"

definition RecomputeBufferLimits :: "coded_input \<Rightarrow> coded_input" where
  "RecomputeBufferLimits s =
     (let s = s\<lparr>ci_buffer_end := ci_buffer_end s + ci_buffer_size_after_limit s\<rparr>;
          closest = closest_limit s
      in if closest < ci_total_bytes_read s then
           let after = ci_total_bytes_read s - closest
           in s\<lparr>ci_buffer_size_after_limit := after, ci_buffer_end := ci_buffer_end s - after\<rparr>
         else s\<lparr>ci_buffer_size_after_limit := 0\<rparr>)"

definition PushLimit :: "int \<Rightarrow> coded_input \<Rightarrow> int \<times> coded_input" where
  "PushLimit byte_limit s =
     (let current_position = CurrentPosition s;
          old_limit = ci_current_limit s;
          new_limit = (if byte_limit \<ge> 0 \<and> byte_limit \<le> INT_MAX - current_position
                       then current_position + byte_limit else INT_MAX)
      in (old_limit, RecomputeBufferLimits (s\<lparr>ci_current_limit := min new_limit old_limit\<rparr>)))"

definition PopLimit :: "int \<Rightarrow> coded_input \<Rightarrow> coded_input" where
  "PopLimit limit s =
     (RecomputeBufferLimits (s\<lparr>ci_current_limit := limit\<rparr>))\<lparr>ci_legitimate_message_end := False\<rparr>"

definition BytesUntilLimit :: "coded_input \<Rightarrow> int" where
  "BytesUntilLimit s =
     (if ci_current_limit s = INT_MAX then - 1 else ci_current_limit s - CurrentPosition s)"

definition SetTotalBytesLimit :: "int \<Rightarrow> int \<Rightarrow> coded_input \<Rightarrow> coded_input" where
  "SetTotalBytesLimit total_bytes_limit warning_threshold s =
     (let current_position = CurrentPosition s
      in RecomputeBufferLimits
           (s\<lparr>ci_total_bytes_limit := max current_position total_bytes_limit,
              ci_total_bytes_warning_threshold :=
                (if warning_threshold \<ge> 0 then warning_threshold else - 1)\<rparr>))"

definition BytesUntilTotalBytesLimit :: "coded_input \<Rightarrow> int" where
  "BytesUntilTotalBytesLimit s =
     (if ci_total_bytes_limit s = INT_MAX then - 1 else ci_total_bytes_limit s - CurrentPosition s)"

definition SetRecursionLimit :: "int \<Rightarrow> coded_input \<Rightarrow> coded_input" where
  "SetRecursionLimit limit s = s\<lparr>ci_recursion_limit := limit\<rparr>"

definition IncrementRecursionDepth :: "coded_input \<Rightarrow> bool \<times> coded_input" where
  "IncrementRecursionDepth s =
     (let s = s\<lparr>ci_recursion_depth := ci_recursion_depth s + 1\<rparr>
      in (ci_recursion_depth s \<le> ci_recursion_limit s, s))"

definition DecrementRecursionDepth :: "coded_input \<Rightarrow> coded_input" where
  "DecrementRecursionDepth s =
     (if ci_recursion_depth s > 0 then s\<lparr>ci_recursion_depth := ci_recursion_depth s - 1\<rparr> else s)"

subsection \<open>The underlying stream and the refill\<close>

text \<open>\<open>NextNonEmpty\<close>: the first non-empty block and the blocks after it.\<close>

fun NextNonEmpty :: "byte list list \<Rightarrow> (byte list \<times> byte list list) option" where
  "NextNonEmpty [] = None"
| "NextNonEmpty (b # bs) = (if b = [] then NextNonEmpty bs else Some (b, bs))"

text \<open>\<open>ZeroCopyInputStream::Skip\<close>: false when the input ends first.\<close>

fun input_skip :: "nat \<Rightarrow> byte list list \<Rightarrow> bool \<times> byte list list" where
  "input_skip n [] = (n = 0, [])"
| "input_skip n (b # bs) =
     (if n < length b then (True, drop n b # bs) else input_skip (n - length b) bs)"

definition null_buffer :: "coded_input \<Rightarrow> coded_input" where
  "null_buffer s = s\<lparr>ci_block := [], ci_buffer := 0, ci_buffer_end := 0\<rparr>"

definition Refresh :: "coded_input \<Rightarrow> (bool \<times> coded_input) option" where
  "Refresh s =
     (if ci_buffer_size_after_limit s > 0 \<or> ci_overflow_bytes s > 0
         \<or> ci_total_bytes_read s = ci_current_limit s
      then Some (False, s)
      else
        let s = (if ci_total_bytes_warning_threshold s \<ge> 0
                    \<and> ci_total_bytes_read s \<ge> ci_total_bytes_warning_threshold s
                 then s\<lparr>ci_total_bytes_warning_threshold := - 2\<rparr> else s)
        in case ci_input s of
             None \<Rightarrow> None
           | Some input \<Rightarrow>
               (case NextNonEmpty input of
                  Some (block, input) \<Rightarrow>
                    let size = int (length block);
                        s = s\<lparr>ci_input := Some input, ci_block := block, ci_buffer := 0,
                              ci_buffer_end := size\<rparr>;
                        s = (if ci_total_bytes_read s \<le> INT_MAX - size
                             then s\<lparr>ci_total_bytes_read := ci_total_bytes_read s + size\<rparr>
                             else let overflow = ci_total_bytes_read s - (INT_MAX - size)
                                  in s\<lparr>ci_overflow_bytes := overflow,
                                       ci_buffer_end := ci_buffer_end s - overflow,
                                       ci_total_bytes_read := INT_MAX\<rparr>)
                    in Some (True, RecomputeBufferLimits s)
                | None \<Rightarrow> Some (False, (null_buffer s)\<lparr>ci_input := Some []\<rparr>)))"

definition BackUpInputToCurrentPosition :: "coded_input \<Rightarrow> coded_input option" where
  "BackUpInputToCurrentPosition s =
     (let backup_bytes = BufferSize s + ci_buffer_size_after_limit s + ci_overflow_bytes s
      in if backup_bytes > 0 then
           case ci_input s of
             None \<Rightarrow> None
           | Some input \<Rightarrow>
               if backup_bytes > int (length (ci_block s)) then None
               else Some (s\<lparr>ci_input := Some (drop (length (ci_block s) - nat backup_bytes) (ci_block s) # input),
                            ci_total_bytes_read := ci_total_bytes_read s
                              - (BufferSize s + ci_buffer_size_after_limit s),
                            ci_buffer_end := ci_buffer s,
                            ci_buffer_size_after_limit := 0,
                            ci_overflow_bytes := 0\<rparr>)
         else Some s)"

definition CodedInputStream_new :: "byte list list \<Rightarrow> coded_input option" where
  "CodedInputStream_new input =
     map_option snd (Refresh \<lparr>ci_input = Some input, ci_block = [], ci_buffer = 0, ci_buffer_end = 0,
       ci_total_bytes_read = 0, ci_overflow_bytes = 0, ci_last_tag = 0,
       ci_legitimate_message_end = False, ci_current_limit = INT_MAX,
       ci_buffer_size_after_limit = 0, ci_total_bytes_limit = kDefaultTotalBytesLimit,
       ci_total_bytes_warning_threshold = kDefaultTotalBytesWarningThreshold,
       ci_recursion_depth = 0, ci_recursion_limit = default_recursion_limit\<rparr>)"

definition CodedInputStream_flat :: "byte list \<Rightarrow> coded_input" where
  "CodedInputStream_flat buffer =
     (let size = int (length buffer)
      in \<lparr>ci_input = None, ci_block = buffer, ci_buffer = 0, ci_buffer_end = size,
          ci_total_bytes_read = size, ci_overflow_bytes = 0, ci_last_tag = 0,
          ci_legitimate_message_end = False, ci_current_limit = size,
          ci_buffer_size_after_limit = 0, ci_total_bytes_limit = kDefaultTotalBytesLimit,
          ci_total_bytes_warning_threshold = kDefaultTotalBytesWarningThreshold,
          ci_recursion_depth = 0, ci_recursion_limit = default_recursion_limit\<rparr>)"

lemma NextNonEmpty_length: "NextNonEmpty bs = Some (b, bs') \<Longrightarrow> length bs' < length bs"
  by (induction bs) (auto split: if_splits)

text \<open>A refill that succeeds takes a block, so the loops around it end.\<close>

definition blocks_left :: "coded_input \<Rightarrow> nat" where
  "blocks_left s = (case ci_input s of None \<Rightarrow> 0 | Some bs \<Rightarrow> length bs)"

lemma RecomputeBufferLimits_input [simp]:
  "ci_input (RecomputeBufferLimits s) = ci_input s"
  "ci_block (RecomputeBufferLimits s) = ci_block s"
  "ci_buffer (RecomputeBufferLimits s) = ci_buffer s"
  "ci_total_bytes_read (RecomputeBufferLimits s) = ci_total_bytes_read s"
  "ci_overflow_bytes (RecomputeBufferLimits s) = ci_overflow_bytes s"
  "ci_last_tag (RecomputeBufferLimits s) = ci_last_tag s"
  "ci_current_limit (RecomputeBufferLimits s) = ci_current_limit s"
  "ci_total_bytes_limit (RecomputeBufferLimits s) = ci_total_bytes_limit s"
  "ci_recursion_depth (RecomputeBufferLimits s) = ci_recursion_depth s"
  "ci_recursion_limit (RecomputeBufferLimits s) = ci_recursion_limit s"
  "ci_legitimate_message_end (RecomputeBufferLimits s) = ci_legitimate_message_end s"
  by (simp_all add: RecomputeBufferLimits_def Let_def)

lemma Refresh_blocks_left:
  assumes "Refresh s = Some (True, s')"
  shows "blocks_left s' < blocks_left s"
  using assms
  by (auto simp: Refresh_def blocks_left_def Let_def dest!: NextNonEmpty_length
      split: if_splits option.splits)

function refresh_while_empty :: "coded_input \<Rightarrow> (bool \<times> coded_input) option" where
  \<comment> \<open>\<open>while (buffer_ == buffer_end_) if (!Refresh()) return false;\<close>\<close>
  "refresh_while_empty s =
     (if ci_buffer s = ci_buffer_end s then
        case Refresh s of
          None \<Rightarrow> None
        | Some (ok, s') \<Rightarrow> if ok then refresh_while_empty s' else Some (False, s')
      else Some (True, s))"
  by pat_completeness auto
termination
  by (relation "measure blocks_left") (auto dest: Refresh_blocks_left)

declare refresh_while_empty.simps [simp del]

subsection \<open>Reading\<close>

definition Skip :: "int \<Rightarrow> coded_input \<Rightarrow> (bool \<times> coded_input) option" where
  "Skip count s =
     (if count < 0 then Some (False, s) else
      let original_buffer_size = BufferSize s
      in if count \<le> original_buffer_size then Some (True, Advance count s)
         else if ci_buffer_size_after_limit s > 0 then Some (False, Advance original_buffer_size s)
         else
           let count = count - original_buffer_size;
               s = null_buffer s;
               closest = closest_limit s;
               bytes_until_limit = closest - ci_total_bytes_read s
           in if bytes_until_limit < count then
                if bytes_until_limit > 0 then
                  case ci_input s of
                    None \<Rightarrow> None
                  | Some input \<Rightarrow>
                      Some (False, s\<lparr>ci_total_bytes_read := closest,
                                     ci_input := Some (snd (input_skip (nat bytes_until_limit) input))\<rparr>)
                else Some (False, s)
              else
                case ci_input s of
                  None \<Rightarrow> None
                | Some input \<Rightarrow>
                    Some (fst (input_skip (nat count) input),
                          s\<lparr>ci_total_bytes_read := ci_total_bytes_read s + count,
                            ci_input := Some (snd (input_skip (nat count) input))\<rparr>))"

definition GetDirectBufferPointer :: "coded_input \<Rightarrow> ((byte list \<times> int) option \<times> coded_input) option" where
  "GetDirectBufferPointer s =
     do { (ok, s) \<leftarrow> (if BufferSize s = 0 then Refresh s else Some (True, s));
          if \<not> ok then Some (None, s)
          else do { mem \<leftarrow> ci_mem s; Some (Some (mem, BufferSize s), s) } }"

function ReadRaw :: "int \<Rightarrow> coded_input \<Rightarrow> ((byte list \<times> bool) \<times> coded_input) option" where
  \<comment> \<open>the bytes stored through \<open>buffer\<close>, and the result\<close>
  "ReadRaw sz s =
     (let current_buffer_size = BufferSize s
      in if current_buffer_size < sz then
           case ci_bytes s current_buffer_size of
             None \<Rightarrow> None
           | Some bytes \<Rightarrow>
               (case Refresh (Advance current_buffer_size s) of
                  None \<Rightarrow> None
                | Some (ok, s') \<Rightarrow>
                    if ok then
                      case ReadRaw (sz - current_buffer_size) s' of
                        None \<Rightarrow> None
                      | Some ((rest, r), s') \<Rightarrow> Some ((bytes @ rest, r), s')
                    else Some ((bytes, False), s'))
         else
           case ci_bytes s sz of
             None \<Rightarrow> None
           | Some bytes \<Rightarrow> Some ((bytes, True), Advance sz s))"
  by pat_completeness auto
termination
  by (relation "measure (\<lambda>(sz, s). blocks_left s)")
     (auto dest!: Refresh_blocks_left simp: Advance_def blocks_left_def)

declare ReadRaw.simps [simp del]

text \<open>
  \<open>ReadStringFallback\<close> appends what \<open>ReadRaw\<close> would copy; the string it leaves on failure is
  the bytes read so far. \<open>reserve\<close> has no effect on the value.
\<close>

function ReadStringFallback_loop ::
    "byte list \<Rightarrow> int \<Rightarrow> coded_input \<Rightarrow> ((byte list \<times> bool) \<times> coded_input) option" where
  "ReadStringFallback_loop buffer sz s =
     (let current_buffer_size = BufferSize s
      in if current_buffer_size < sz then
           case (if current_buffer_size \<noteq> 0
                 then map_option (\<lambda>bytes. buffer @ bytes) (ci_bytes s current_buffer_size)
                 else Some buffer) of
             None \<Rightarrow> None
           | Some buffer \<Rightarrow>
               (case Refresh (Advance current_buffer_size s) of
                  None \<Rightarrow> None
                | Some (ok, s') \<Rightarrow>
                    if ok then ReadStringFallback_loop buffer (sz - current_buffer_size) s'
                    else Some ((buffer, False), s'))
         else
           case ci_bytes s sz of
             None \<Rightarrow> None
           | Some bytes \<Rightarrow> Some ((buffer @ bytes, True), Advance sz s))"
  by pat_completeness auto
termination
  by (relation "measure (\<lambda>(buffer, sz, s). blocks_left s)")
     (auto dest!: Refresh_blocks_left simp: Advance_def blocks_left_def)

declare ReadStringFallback_loop.simps [simp del]

definition ReadStringFallback :: "int \<Rightarrow> coded_input \<Rightarrow> ((byte list \<times> bool) \<times> coded_input) option" where
  "ReadStringFallback sz s = ReadStringFallback_loop [] sz s"

definition InternalReadStringInline ::
    "byte list \<Rightarrow> int \<Rightarrow> coded_input \<Rightarrow> ((byte list \<times> bool) \<times> coded_input) option" where
  "InternalReadStringInline buffer sz s =
     (if sz < 0 then Some ((buffer, False), s)
      else if BufferSize s \<ge> sz then
        if sz > 0 then do { bytes \<leftarrow> ci_bytes s sz; Some ((bytes, True), Advance sz s) }
        else Some (([], True), s)
      else ReadStringFallback sz s)"

definition ReadString ::
    "byte list \<Rightarrow> int \<Rightarrow> coded_input \<Rightarrow> ((byte list \<times> bool) \<times> coded_input) option" where
  "ReadString buffer sz s =
     (if sz < 0 then Some ((buffer, False), s) else InternalReadStringInline buffer sz s)"

text \<open>
  The byte before \<open>buffer_end_\<close> ends a varint, or ten bytes are there: the unrolled readers
  cannot leave the buffer.
\<close>

definition varint_fits :: "coded_input \<Rightarrow> bool option" where
  "varint_fits s =
     (if BufferSize s \<ge> int kMaxVarintBytes then Some True
      else if ci_buffer_end s > ci_buffer s
      then map_option (\<lambda>b. b AND 0x80 = 0) (ci_at s (ci_buffer_end s - 1))
      else Some False)"

fun ReadVarint64Slow_loop :: "nat \<Rightarrow> u64 \<Rightarrow> nat \<Rightarrow> coded_input \<Rightarrow> (u64 option \<times> coded_input) option" where
  \<comment> \<open>the first argument is \<open>kMaxVarintBytes - count\<close>\<close>
  "ReadVarint64Slow_loop 0 result count s = Some (None, s)"
| "ReadVarint64Slow_loop (Suc k) result count s =
     do { (ok, s) \<leftarrow> refresh_while_empty s;
          if \<not> ok then Some (None, s) else
          do { b8 \<leftarrow> ci_at s (ci_buffer s);
               let b = (ucast b8 :: u32);
               let result = result OR push_bit (7 * count) (ucast (b AND 0x7F));
               let s = Advance 1 s;
               if b AND 0x80 \<noteq> 0 then ReadVarint64Slow_loop k result (Suc count) s
               else Some (Some result, s) } }"

definition ReadVarint64Slow :: "coded_input \<Rightarrow> (u64 option \<times> coded_input) option" where
  "ReadVarint64Slow s = ReadVarint64Slow_loop kMaxVarintBytes 0 0 s"

definition ReadVarint64Fallback :: "coded_input \<Rightarrow> (u64 option \<times> coded_input) option" where
  "ReadVarint64Fallback s =
     do { fits \<leftarrow> varint_fits s;
          if fits then
            do { mem \<leftarrow> ci_mem s;
                 r \<leftarrow> ReadVarint64FromArray mem;
                 case r of
                   None \<Rightarrow> Some (None, s)
                 | Some (v, n) \<Rightarrow> Some (Some v, Advance (int n) s) }
          else ReadVarint64Slow s }"

definition ReadVarint64 :: "coded_input \<Rightarrow> (u64 option \<times> coded_input) option" where
  "ReadVarint64 s =
     do { b \<leftarrow> (if ci_buffer s < ci_buffer_end s then map_option Some (ci_at s (ci_buffer s)) else Some None);
          case b of
            Some b \<Rightarrow> if b < 0x80 then Some (Some (ucast b), Advance 1 s) else ReadVarint64Fallback s
          | None \<Rightarrow> ReadVarint64Fallback s }"

definition ReadVarint32Slow :: "coded_input \<Rightarrow> (u32 option \<times> coded_input) option" where
  "ReadVarint32Slow s =
     do { (r, s) \<leftarrow> ReadVarint64Fallback s; Some (map_option ucast r, s) }"

definition ReadVarint32Fallback :: "coded_input \<Rightarrow> (u32 option \<times> coded_input) option" where
  "ReadVarint32Fallback s =
     do { fits \<leftarrow> varint_fits s;
          if fits then
            do { mem \<leftarrow> ci_mem s;
                 r \<leftarrow> ReadVarint32FromArray mem;
                 case r of
                   None \<Rightarrow> Some (None, s)
                 | Some (v, n) \<Rightarrow> Some (Some v, Advance (int n) s) }
          else ReadVarint32Slow s }"

definition ReadVarint32 :: "coded_input \<Rightarrow> (u32 option \<times> coded_input) option" where
  "ReadVarint32 s =
     do { b \<leftarrow> (if ci_buffer s < ci_buffer_end s then map_option Some (ci_at s (ci_buffer s)) else Some None);
          case b of
            Some b \<Rightarrow> if b < 0x80 then Some (Some (ucast b), Advance 1 s) else ReadVarint32Fallback s
          | None \<Rightarrow> ReadVarint32Fallback s }"

definition ReadLittleEndian32Fallback :: "coded_input \<Rightarrow> (u32 option \<times> coded_input) option" where
  "ReadLittleEndian32Fallback s =
     (if BufferSize s \<ge> 4 then
        do { mem \<leftarrow> ci_mem s; (v, n) \<leftarrow> ReadLittleEndian32FromArray mem; Some (Some v, Advance 4 s) }
      else
        do { ((bytes, ok), s) \<leftarrow> ReadRaw 4 s;
             if \<not> ok then Some (None, s)
             else do { (v, n) \<leftarrow> ReadLittleEndian32FromArray bytes; Some (Some v, s) } })"

definition ReadLittleEndian64Fallback :: "coded_input \<Rightarrow> (u64 option \<times> coded_input) option" where
  "ReadLittleEndian64Fallback s =
     (if BufferSize s \<ge> 8 then
        do { mem \<leftarrow> ci_mem s; (v, n) \<leftarrow> ReadLittleEndian64FromArray mem; Some (Some v, Advance 8 s) }
      else
        do { ((bytes, ok), s) \<leftarrow> ReadRaw 8 s;
             if \<not> ok then Some (None, s)
             else do { (v, n) \<leftarrow> ReadLittleEndian64FromArray bytes; Some (Some v, s) } })"

text \<open>The portable branch of the inline readers (\<open>PROTOBUF_LITTLE_ENDIAN\<close> undefined).\<close>

definition ReadLittleEndian32 :: "coded_input \<Rightarrow> (u32 option \<times> coded_input) option" where
  "ReadLittleEndian32 s = ReadLittleEndian32Fallback s"

definition ReadLittleEndian64 :: "coded_input \<Rightarrow> (u64 option \<times> coded_input) option" where
  "ReadLittleEndian64 s = ReadLittleEndian64Fallback s"

subsection \<open>Tags\<close>

definition ReadTagSlow :: "coded_input \<Rightarrow> (u32 \<times> coded_input) option" where
  "ReadTagSlow s =
     do { (ok, s) \<leftarrow> (if ci_buffer s = ci_buffer_end s then Refresh s else Some (True, s));
          if \<not> ok then
            let current_position = ci_total_bytes_read s - ci_buffer_size_after_limit s
            in Some (0, s\<lparr>ci_legitimate_message_end :=
                  (if current_position \<ge> ci_total_bytes_limit s
                   then ci_current_limit s = ci_total_bytes_limit s else True)\<rparr>)
          else
            do { (r, s) \<leftarrow> ReadVarint64 s;
                 Some (case r of None \<Rightarrow> 0 | Some v \<Rightarrow> ucast v, s) } }"

definition ReadTagFallback :: "coded_input \<Rightarrow> (u32 \<times> coded_input) option" where
  "ReadTagFallback s =
     do { fits \<leftarrow> varint_fits s;
          if fits then
            do { mem \<leftarrow> ci_mem s;
                 r \<leftarrow> ReadVarint32FromArray mem;
                 case r of
                   None \<Rightarrow> Some (0, s)
                 | Some (tag, n) \<Rightarrow> Some (tag, Advance (int n) s) }
          else if BufferSize s = 0
                  \<and> (ci_buffer_size_after_limit s > 0 \<or> ci_total_bytes_read s = ci_current_limit s)
                  \<and> ci_total_bytes_read s - ci_buffer_size_after_limit s < ci_total_bytes_limit s
          then Some (0, s\<lparr>ci_legitimate_message_end := True\<rparr>)
          else ReadTagSlow s }"

definition ReadTag :: "coded_input \<Rightarrow> (u32 \<times> coded_input) option" where
  "ReadTag s =
     do { b \<leftarrow> (if ci_buffer s < ci_buffer_end s then map_option Some (ci_at s (ci_buffer s)) else Some None);
          case b of
            Some b \<Rightarrow>
              if b < 0x80 then Some (ucast b, Advance 1 (s\<lparr>ci_last_tag := ucast b\<rparr>))
              else do { (tag, s) \<leftarrow> ReadTagFallback s; Some (tag, s\<lparr>ci_last_tag := tag\<rparr>) }
          | None \<Rightarrow> do { (tag, s) \<leftarrow> ReadTagFallback s; Some (tag, s\<lparr>ci_last_tag := tag\<rparr>) } }"

definition ReadTagWithCutoff :: "u32 \<Rightarrow> coded_input \<Rightarrow> ((u32 \<times> bool) \<times> coded_input) option" where
  "ReadTagWithCutoff cutoff s =
     (let slow = (do { (tag, s) \<leftarrow> ReadTagFallback s;
                       Some ((tag, tag - 1 < cutoff), s\<lparr>ci_last_tag := tag\<rparr>) })
      in if ci_buffer s < ci_buffer_end s then
           do { b0 \<leftarrow> ci_at s (ci_buffer s);
                if sint b0 > 0 then
                  let tag = ucast b0
                  in Some ((tag, cutoff \<ge> 0x7F \<or> tag \<le> cutoff), Advance 1 (s\<lparr>ci_last_tag := tag\<rparr>))
                else if cutoff \<ge> 0x80 \<and> ci_buffer s + 1 < ci_buffer_end s then
                  do { b1 \<leftarrow> ci_at s (ci_buffer s + 1);
                       if (b0 AND NOT b1) \<ge> 0x80 then
                         let tag = push_bit 7 1 * ucast b1 + (ucast b0 - 0x80)
                         in Some ((tag, cutoff \<ge> push_bit 7 0x7F + 0x7F \<or> tag \<le> cutoff),
                                  Advance 2 (s\<lparr>ci_last_tag := tag\<rparr>))
                       else slow }
                else slow }
         else slow)"

definition LastTagWas :: "u32 \<Rightarrow> coded_input \<Rightarrow> bool" where
  "LastTagWas expected s \<longleftrightarrow> ci_last_tag s = expected"

definition ConsumedEntireMessage :: "coded_input \<Rightarrow> bool" where
  "ConsumedEntireMessage s = ci_legitimate_message_end s"

definition ExpectTag :: "u32 \<Rightarrow> coded_input \<Rightarrow> (bool \<times> coded_input) option" where
  "ExpectTag expected s =
     (if expected < push_bit 7 1 then
        if ci_buffer s < ci_buffer_end s then
          do { b0 \<leftarrow> ci_at s (ci_buffer s);
               Some (if ucast b0 = expected then (True, Advance 1 s) else (False, s)) }
        else Some (False, s)
      else if expected < push_bit 14 1 then
        if BufferSize s \<ge> 2 then
          do { b0 \<leftarrow> ci_at s (ci_buffer s);
               if b0 = ucast (expected OR 0x80) then
                 do { b1 \<leftarrow> ci_at s (ci_buffer s + 1);
                      Some (if b1 = ucast (drop_bit 7 expected) then (True, Advance 2 s) else (False, s)) }
               else Some (False, s) }
        else Some (False, s)
      else Some (False, s))"

definition ExpectAtEnd :: "coded_input \<Rightarrow> bool \<times> coded_input" where
  "ExpectAtEnd s =
     (if ci_buffer s = ci_buffer_end s
         \<and> (ci_buffer_size_after_limit s \<noteq> 0 \<or> ci_total_bytes_read s = ci_current_limit s)
      then (True, s\<lparr>ci_last_tag := 0, ci_legitimate_message_end := True\<rparr>)
      else (False, s))"

end
