(* ===== verification/WireFormat.thy ===== *)
theory WireFormat
  imports CodedInput
begin

text \<open>
  \<^verbatim>\<open>google/protobuf/wire_format_lite{.h,_inl.h,.cc}\<close>, \<^verbatim>\<open>wire_format.cc\<close> and
  \<^verbatim>\<open>unknown_field_set.{h,cc}\<close>: tags and wire types, the \<open>WriteXToArray\<close> and \<open>XSize\<close>
  families, \<open>ReadPrimitive\<close>, \<open>ReadBytes\<close>, unknown fields, and the routines that skip, store and
  write unknown fields.

  Field numbers are the \<open>uint32\<close> that \<open>UnknownField\<close> stores. \<open>SkipField\<close> and \<open>SkipMessage\<close>
  call each other; the first argument is fuel, and running out of it is \<open>None\<close>.
\<close>

subsection \<open>Tags\<close>

definition kTagTypeBits :: nat where "kTagTypeBits = 3"
definition kTagTypeMask :: u32 where "kTagTypeMask = push_bit kTagTypeBits 1 - 1"

definition WIRETYPE_VARINT :: u32 where "WIRETYPE_VARINT = 0"
definition WIRETYPE_FIXED64 :: u32 where "WIRETYPE_FIXED64 = 1"
definition WIRETYPE_LENGTH_DELIMITED :: u32 where "WIRETYPE_LENGTH_DELIMITED = 2"
definition WIRETYPE_START_GROUP :: u32 where "WIRETYPE_START_GROUP = 3"
definition WIRETYPE_END_GROUP :: u32 where "WIRETYPE_END_GROUP = 4"
definition WIRETYPE_FIXED32 :: u32 where "WIRETYPE_FIXED32 = 5"

lemmas wire_types = WIRETYPE_VARINT_def WIRETYPE_FIXED64_def WIRETYPE_LENGTH_DELIMITED_def
  WIRETYPE_START_GROUP_def WIRETYPE_END_GROUP_def WIRETYPE_FIXED32_def

definition MakeTag :: "u32 \<Rightarrow> u32 \<Rightarrow> u32" where
  "MakeTag field_number type = push_bit kTagTypeBits field_number OR type"

definition GetTagWireType :: "u32 \<Rightarrow> u32" where
  "GetTagWireType tag = tag AND kTagTypeMask"

definition GetTagFieldNumber :: "u32 \<Rightarrow> u32" where
  "GetTagFieldNumber tag = drop_bit kTagTypeBits tag"

datatype field_type =
    TYPE_DOUBLE | TYPE_FLOAT | TYPE_INT64 | TYPE_UINT64 | TYPE_INT32 | TYPE_FIXED64
  | TYPE_FIXED32 | TYPE_BOOL | TYPE_STRING | TYPE_GROUP | TYPE_MESSAGE | TYPE_BYTES
  | TYPE_UINT32 | TYPE_ENUM | TYPE_SFIXED32 | TYPE_SFIXED64 | TYPE_SINT32 | TYPE_SINT64

fun kWireTypeForFieldType :: "field_type \<Rightarrow> u32" where
  "kWireTypeForFieldType TYPE_DOUBLE = WIRETYPE_FIXED64"
| "kWireTypeForFieldType TYPE_FLOAT = WIRETYPE_FIXED32"
| "kWireTypeForFieldType TYPE_INT64 = WIRETYPE_VARINT"
| "kWireTypeForFieldType TYPE_UINT64 = WIRETYPE_VARINT"
| "kWireTypeForFieldType TYPE_INT32 = WIRETYPE_VARINT"
| "kWireTypeForFieldType TYPE_FIXED64 = WIRETYPE_FIXED64"
| "kWireTypeForFieldType TYPE_FIXED32 = WIRETYPE_FIXED32"
| "kWireTypeForFieldType TYPE_BOOL = WIRETYPE_VARINT"
| "kWireTypeForFieldType TYPE_STRING = WIRETYPE_LENGTH_DELIMITED"
| "kWireTypeForFieldType TYPE_GROUP = WIRETYPE_START_GROUP"
| "kWireTypeForFieldType TYPE_MESSAGE = WIRETYPE_LENGTH_DELIMITED"
| "kWireTypeForFieldType TYPE_BYTES = WIRETYPE_LENGTH_DELIMITED"
| "kWireTypeForFieldType TYPE_UINT32 = WIRETYPE_VARINT"
| "kWireTypeForFieldType TYPE_ENUM = WIRETYPE_VARINT"
| "kWireTypeForFieldType TYPE_SFIXED32 = WIRETYPE_FIXED32"
| "kWireTypeForFieldType TYPE_SFIXED64 = WIRETYPE_FIXED64"
| "kWireTypeForFieldType TYPE_SINT32 = WIRETYPE_VARINT"
| "kWireTypeForFieldType TYPE_SINT64 = WIRETYPE_VARINT"

definition TagSize :: "u32 \<Rightarrow> field_type \<Rightarrow> int" where
  "TagSize field_number type =
     (let result = VarintSize32 (push_bit kTagTypeBits field_number)
      in if type = TYPE_GROUP then result * 2 else result)"

subsection \<open>ZigZag\<close>

definition ZigZagEncode32 :: "32 word \<Rightarrow> 32 word" where
  "ZigZagEncode32 n = push_bit 1 n XOR signed_drop_bit 31 n"

definition ZigZagDecode32 :: "32 word \<Rightarrow> 32 word" where
  "ZigZagDecode32 n = drop_bit 1 n XOR (- (n AND 1))"

definition ZigZagEncode64 :: "64 word \<Rightarrow> 64 word" where
  "ZigZagEncode64 n = push_bit 1 n XOR signed_drop_bit 63 n"

definition ZigZagDecode64 :: "64 word \<Rightarrow> 64 word" where
  "ZigZagDecode64 n = drop_bit 1 n XOR (- (n AND 1))"

subsection \<open>Writing\<close>

definition WriteTagToArray_wf :: "u32 \<Rightarrow> u32 \<Rightarrow> byte list" where
  \<comment> \<open>\<open>WireFormatLite::WriteTagToArray\<close>\<close>
  "WriteTagToArray_wf field_number type = WriteTagToArray (MakeTag field_number type)"

definition WriteInt32NoTagToArray :: "i32 \<Rightarrow> byte list" where
  "WriteInt32NoTagToArray value = WriteVarint32SignExtendedToArray value"
definition WriteInt64NoTagToArray :: "64 word \<Rightarrow> byte list" where
  "WriteInt64NoTagToArray value = WriteVarint64ToArray value"
definition WriteUInt32NoTagToArray :: "u32 \<Rightarrow> byte list" where
  "WriteUInt32NoTagToArray value = WriteVarint32ToArray value"
definition WriteUInt64NoTagToArray :: "u64 \<Rightarrow> byte list" where
  "WriteUInt64NoTagToArray value = WriteVarint64ToArray value"
definition WriteSInt32NoTagToArray :: "i32 \<Rightarrow> byte list" where
  "WriteSInt32NoTagToArray value = WriteVarint32ToArray (ZigZagEncode32 value)"
definition WriteSInt64NoTagToArray :: "64 word \<Rightarrow> byte list" where
  "WriteSInt64NoTagToArray value = WriteVarint64ToArray (ZigZagEncode64 value)"
definition WriteFixed32NoTagToArray :: "u32 \<Rightarrow> byte list" where
  "WriteFixed32NoTagToArray value = WriteLittleEndian32ToArray value"
definition WriteFixed64NoTagToArray :: "u64 \<Rightarrow> byte list" where
  "WriteFixed64NoTagToArray value = WriteLittleEndian64ToArray value"
definition WriteSFixed32NoTagToArray :: "i32 \<Rightarrow> byte list" where
  "WriteSFixed32NoTagToArray value = WriteLittleEndian32ToArray value"
definition WriteSFixed64NoTagToArray :: "64 word \<Rightarrow> byte list" where
  "WriteSFixed64NoTagToArray value = WriteLittleEndian64ToArray value"
definition WriteBoolNoTagToArray :: "bool \<Rightarrow> byte list" where
  "WriteBoolNoTagToArray value = WriteVarint32ToArray (if value then 1 else 0)"
definition WriteEnumNoTagToArray :: "i32 \<Rightarrow> byte list" where
  "WriteEnumNoTagToArray value = WriteVarint32SignExtendedToArray value"

definition WriteInt32ToArray :: "u32 \<Rightarrow> i32 \<Rightarrow> byte list" where
  "WriteInt32ToArray field_number value =
     WriteTagToArray_wf field_number WIRETYPE_VARINT @ WriteInt32NoTagToArray value"
definition WriteInt64ToArray :: "u32 \<Rightarrow> 64 word \<Rightarrow> byte list" where
  "WriteInt64ToArray field_number value =
     WriteTagToArray_wf field_number WIRETYPE_VARINT @ WriteInt64NoTagToArray value"
definition WriteUInt32ToArray :: "u32 \<Rightarrow> u32 \<Rightarrow> byte list" where
  "WriteUInt32ToArray field_number value =
     WriteTagToArray_wf field_number WIRETYPE_VARINT @ WriteUInt32NoTagToArray value"
definition WriteUInt64ToArray :: "u32 \<Rightarrow> u64 \<Rightarrow> byte list" where
  "WriteUInt64ToArray field_number value =
     WriteTagToArray_wf field_number WIRETYPE_VARINT @ WriteUInt64NoTagToArray value"
definition WriteSInt32ToArray :: "u32 \<Rightarrow> i32 \<Rightarrow> byte list" where
  "WriteSInt32ToArray field_number value =
     WriteTagToArray_wf field_number WIRETYPE_VARINT @ WriteSInt32NoTagToArray value"
definition WriteSInt64ToArray :: "u32 \<Rightarrow> 64 word \<Rightarrow> byte list" where
  "WriteSInt64ToArray field_number value =
     WriteTagToArray_wf field_number WIRETYPE_VARINT @ WriteSInt64NoTagToArray value"
definition WriteFixed32ToArray :: "u32 \<Rightarrow> u32 \<Rightarrow> byte list" where
  "WriteFixed32ToArray field_number value =
     WriteTagToArray_wf field_number WIRETYPE_FIXED32 @ WriteFixed32NoTagToArray value"
definition WriteFixed64ToArray :: "u32 \<Rightarrow> u64 \<Rightarrow> byte list" where
  "WriteFixed64ToArray field_number value =
     WriteTagToArray_wf field_number WIRETYPE_FIXED64 @ WriteFixed64NoTagToArray value"
definition WriteSFixed32ToArray :: "u32 \<Rightarrow> i32 \<Rightarrow> byte list" where
  "WriteSFixed32ToArray field_number value =
     WriteTagToArray_wf field_number WIRETYPE_FIXED32 @ WriteSFixed32NoTagToArray value"
definition WriteSFixed64ToArray :: "u32 \<Rightarrow> 64 word \<Rightarrow> byte list" where
  "WriteSFixed64ToArray field_number value =
     WriteTagToArray_wf field_number WIRETYPE_FIXED64 @ WriteSFixed64NoTagToArray value"
definition WriteBoolToArray :: "u32 \<Rightarrow> bool \<Rightarrow> byte list" where
  "WriteBoolToArray field_number value =
     WriteTagToArray_wf field_number WIRETYPE_VARINT @ WriteBoolNoTagToArray value"
definition WriteEnumToArray :: "u32 \<Rightarrow> i32 \<Rightarrow> byte list" where
  "WriteEnumToArray field_number value =
     WriteTagToArray_wf field_number WIRETYPE_VARINT @ WriteEnumNoTagToArray value"
definition WriteStringToArray_wf :: "u32 \<Rightarrow> byte list \<Rightarrow> byte list" where
  \<comment> \<open>\<open>WireFormatLite::WriteStringToArray\<close>\<close>
  "WriteStringToArray_wf field_number value =
     WriteTagToArray_wf field_number WIRETYPE_LENGTH_DELIMITED @ WriteStringWithSizeToArray value"
definition WriteBytesToArray :: "u32 \<Rightarrow> byte list \<Rightarrow> byte list" where
  "WriteBytesToArray field_number value =
     WriteTagToArray_wf field_number WIRETYPE_LENGTH_DELIMITED @ WriteStringWithSizeToArray value"

text \<open>
  A nested message: its cached size and its bytes, which the caller passes. A group: its
  bytes between the start and the end tag.
\<close>

definition WriteMessageNoVirtualToArray :: "u32 \<Rightarrow> int \<Rightarrow> byte list \<Rightarrow> byte list" where
  "WriteMessageNoVirtualToArray field_number cached_size bytes =
     WriteTagToArray_wf field_number WIRETYPE_LENGTH_DELIMITED
     @ WriteVarint32ToArray (word_of_int cached_size) @ bytes"

definition WriteGroupNoVirtualToArray :: "u32 \<Rightarrow> byte list \<Rightarrow> byte list" where
  "WriteGroupNoVirtualToArray field_number bytes =
     WriteTagToArray_wf field_number WIRETYPE_START_GROUP @ bytes
     @ WriteTagToArray_wf field_number WIRETYPE_END_GROUP"

subsection \<open>Sizes\<close>

definition Int32Size :: "i32 \<Rightarrow> int" where
  "Int32Size value = VarintSize32SignExtended value"
definition Int64Size :: "64 word \<Rightarrow> int" where
  "Int64Size value = VarintSize64 value"
definition UInt32Size :: "u32 \<Rightarrow> int" where
  "UInt32Size value = VarintSize32 value"
definition UInt64Size :: "u64 \<Rightarrow> int" where
  "UInt64Size value = VarintSize64 value"
definition SInt32Size :: "i32 \<Rightarrow> int" where
  "SInt32Size value = VarintSize32 (ZigZagEncode32 value)"
definition SInt64Size :: "64 word \<Rightarrow> int" where
  "SInt64Size value = VarintSize64 (ZigZagEncode64 value)"
definition EnumSize :: "i32 \<Rightarrow> int" where
  "EnumSize value = VarintSize32SignExtended value"
definition StringSize :: "byte list \<Rightarrow> int" where
  "StringSize value = VarintSize32 (of_nat (length value)) + int (length value)"
definition BytesSize :: "byte list \<Rightarrow> int" where
  "BytesSize value = VarintSize32 (of_nat (length value)) + int (length value)"
definition LengthDelimitedSize :: "int \<Rightarrow> int" where
  "LengthDelimitedSize len = VarintSize32 (word_of_int len) + len"
definition MessageSizeNoVirtual :: "int \<Rightarrow> int" where
  \<comment> \<open>from the message's \<open>ByteSize()\<close>\<close>
  "MessageSizeNoVirtual byte_size = LengthDelimitedSize byte_size"

subsection \<open>Unknown fields\<close>

datatype unknown_field =
    Unknown_Varint u32 u64
  | Unknown_Fixed32 u32 u32
  | Unknown_Fixed64 u32 u64
  | Unknown_LengthDelimited u32 "byte list"
  | Unknown_Group u32 "unknown_field list"

type_synonym unknown_field_set = "unknown_field list"

fun uf_number :: "unknown_field \<Rightarrow> u32" where
  "uf_number (Unknown_Varint n v) = n"
| "uf_number (Unknown_Fixed32 n v) = n"
| "uf_number (Unknown_Fixed64 n v) = n"
| "uf_number (Unknown_LengthDelimited n v) = n"
| "uf_number (Unknown_Group n v) = n"

definition AddVarint :: "u32 \<Rightarrow> u64 \<Rightarrow> unknown_field_set \<Rightarrow> unknown_field_set" where
  "AddVarint number value ufs = ufs @ [Unknown_Varint number value]"
definition AddFixed32 :: "u32 \<Rightarrow> u32 \<Rightarrow> unknown_field_set \<Rightarrow> unknown_field_set" where
  "AddFixed32 number value ufs = ufs @ [Unknown_Fixed32 number value]"
definition AddFixed64 :: "u32 \<Rightarrow> u64 \<Rightarrow> unknown_field_set \<Rightarrow> unknown_field_set" where
  "AddFixed64 number value ufs = ufs @ [Unknown_Fixed64 number value]"
definition AddLengthDelimited :: "u32 \<Rightarrow> byte list \<Rightarrow> unknown_field_set \<Rightarrow> unknown_field_set" where
  \<comment> \<open>the added field, once the string it returns has been filled\<close>
  "AddLengthDelimited number value ufs = ufs @ [Unknown_LengthDelimited number value]"
definition AddGroup :: "u32 \<Rightarrow> unknown_field_set \<Rightarrow> unknown_field_set \<Rightarrow> unknown_field_set" where
  \<comment> \<open>the added group, once the set it returns has been filled\<close>
  "AddGroup number grp ufs = ufs @ [Unknown_Group number grp]"
definition AddField :: "unknown_field \<Rightarrow> unknown_field_set \<Rightarrow> unknown_field_set" where
  "AddField field ufs = ufs @ [field]"

fun UnknownFieldSet_MergeFrom :: "unknown_field_set \<Rightarrow> unknown_field_set \<Rightarrow> unknown_field_set" where
  "UnknownFieldSet_MergeFrom [] ufs = ufs"
| "UnknownFieldSet_MergeFrom (f # other) ufs = UnknownFieldSet_MergeFrom other (AddField f ufs)"

definition DeleteSubrange :: "nat \<Rightarrow> nat \<Rightarrow> unknown_field_set \<Rightarrow> unknown_field_set option" where
  "DeleteSubrange start num ufs =
     (if start + num \<le> length ufs then Some (take start ufs @ drop (start + num) ufs) else None)"

text \<open>
  \<open>DeleteByNumber\<close>: \<open>left\<close> and \<open>i\<close> run over the vector, kept fields move down to \<open>left\<close>;
  \<open>resize(left)\<close> at the end.
\<close>

fun DeleteByNumber_loop :: "nat \<Rightarrow> u32 \<Rightarrow> nat \<Rightarrow> nat \<Rightarrow> unknown_field_set \<Rightarrow> unknown_field_set" where
  "DeleteByNumber_loop 0 n i left ufs = take left ufs"
| "DeleteByNumber_loop (Suc k) n i left ufs =
     (if uf_number (ufs ! i) = n then DeleteByNumber_loop k n (Suc i) left ufs
      else DeleteByNumber_loop k n (Suc i) (Suc left)
             (if i \<noteq> left then ufs[left := ufs ! i] else ufs))"

definition DeleteByNumber :: "u32 \<Rightarrow> unknown_field_set \<Rightarrow> unknown_field_set" where
  "DeleteByNumber n ufs = DeleteByNumber_loop (length ufs) n 0 0 ufs"

function SerializeUnknownFieldsToArray :: "unknown_field_set \<Rightarrow> byte list" where
  "SerializeUnknownFieldsToArray [] = []"
| "SerializeUnknownFieldsToArray (Unknown_Varint n v # fs) =
     WriteInt64ToArray n v @ SerializeUnknownFieldsToArray fs"
| "SerializeUnknownFieldsToArray (Unknown_Fixed32 n v # fs) =
     WriteFixed32ToArray n v @ SerializeUnknownFieldsToArray fs"
| "SerializeUnknownFieldsToArray (Unknown_Fixed64 n v # fs) =
     WriteFixed64ToArray n v @ SerializeUnknownFieldsToArray fs"
| "SerializeUnknownFieldsToArray (Unknown_LengthDelimited n v # fs) =
     WriteBytesToArray n v @ SerializeUnknownFieldsToArray fs"
| "SerializeUnknownFieldsToArray (Unknown_Group n g # fs) =
     WriteTagToArray_wf n WIRETYPE_START_GROUP @ SerializeUnknownFieldsToArray g
     @ WriteTagToArray_wf n WIRETYPE_END_GROUP @ SerializeUnknownFieldsToArray fs"
  by pat_completeness auto
termination
  by (relation "measure (size_list size)") auto

function ComputeUnknownFieldsSize :: "unknown_field_set \<Rightarrow> int" where
  "ComputeUnknownFieldsSize [] = 0"
| "ComputeUnknownFieldsSize (Unknown_Varint n v # fs) =
     VarintSize32 (MakeTag n WIRETYPE_VARINT) + VarintSize64 v + ComputeUnknownFieldsSize fs"
| "ComputeUnknownFieldsSize (Unknown_Fixed32 n v # fs) =
     VarintSize32 (MakeTag n WIRETYPE_FIXED32) + 4 + ComputeUnknownFieldsSize fs"
| "ComputeUnknownFieldsSize (Unknown_Fixed64 n v # fs) =
     VarintSize32 (MakeTag n WIRETYPE_FIXED64) + 8 + ComputeUnknownFieldsSize fs"
| "ComputeUnknownFieldsSize (Unknown_LengthDelimited n v # fs) =
     VarintSize32 (MakeTag n WIRETYPE_LENGTH_DELIMITED) + VarintSize32 (of_nat (length v))
     + int (length v) + ComputeUnknownFieldsSize fs"
| "ComputeUnknownFieldsSize (Unknown_Group n g # fs) =
     VarintSize32 (MakeTag n WIRETYPE_START_GROUP) + ComputeUnknownFieldsSize g
     + VarintSize32 (MakeTag n WIRETYPE_END_GROUP) + ComputeUnknownFieldsSize fs"
  by pat_completeness auto
termination
  by (relation "measure (size_list size)") auto

subsection \<open>Reading\<close>

definition ReadPrimitive_INT32 :: "coded_input \<Rightarrow> (i32 option \<times> coded_input) option" where
  "ReadPrimitive_INT32 s = ReadVarint32 s"

definition ReadPrimitive_ENUM :: "coded_input \<Rightarrow> (i32 option \<times> coded_input) option" where
  "ReadPrimitive_ENUM s = ReadVarint32 s"

definition ReadBytes :: "byte list \<Rightarrow> coded_input \<Rightarrow> ((byte list \<times> bool) \<times> coded_input) option" where
  "ReadBytes old s =
     do { (len, s) \<leftarrow> ReadVarint32 s;
          case len of
            None \<Rightarrow> Some ((old, False), s)
          | Some len \<Rightarrow> InternalReadStringInline old (sint len) s }"

text \<open>\<open>unknown_fields\<close> may be null: \<open>None\<close>, and nothing is stored.\<close>

abbreviation store :: "('a \<Rightarrow> 'a) \<Rightarrow> 'a option \<Rightarrow> 'a option" where
  "store \<equiv> map_option"

fun SkipField :: "nat \<Rightarrow> u32 \<Rightarrow> unknown_field_set option \<Rightarrow> coded_input
      \<Rightarrow> ((bool \<times> unknown_field_set option) \<times> coded_input) option"
  and SkipMessage :: "nat \<Rightarrow> unknown_field_set option \<Rightarrow> coded_input
      \<Rightarrow> ((bool \<times> unknown_field_set option) \<times> coded_input) option" where
  "SkipField 0 tag unknown_fields s = None"
| "SkipField (Suc fuel) tag unknown_fields s =
    (let number = GetTagFieldNumber tag; type = GetTagWireType tag
     in if type = WIRETYPE_VARINT then
          do { (r, s) \<leftarrow> ReadVarint64 s;
               case r of
                 None \<Rightarrow> Some ((False, unknown_fields), s)
               | Some v \<Rightarrow> Some ((True, store (AddVarint number v) unknown_fields), s) }
        else if type = WIRETYPE_FIXED64 then
          do { (r, s) \<leftarrow> ReadLittleEndian64 s;
               case r of
                 None \<Rightarrow> Some ((False, unknown_fields), s)
               | Some v \<Rightarrow> Some ((True, store (AddFixed64 number v) unknown_fields), s) }
        else if type = WIRETYPE_LENGTH_DELIMITED then
          do { (r, s) \<leftarrow> ReadVarint32 s;
               case r of
                 None \<Rightarrow> Some ((False, unknown_fields), s)
               | Some len \<Rightarrow>
                   if unknown_fields = None then
                     do { (ok, s) \<leftarrow> Skip (sint len) s; Some ((ok, unknown_fields), s) }
                   else
                     do { ((bytes, ok), s) \<leftarrow> ReadString [] (sint len) s;
                          Some ((ok, store (AddLengthDelimited number bytes) unknown_fields), s) } }
        else if type = WIRETYPE_START_GROUP then
          (let (ok, s) = IncrementRecursionDepth s
           in if \<not> ok then Some ((False, unknown_fields), s) else
              do { ((ok, grp), s) \<leftarrow> SkipMessage fuel (store (\<lambda>_. []) unknown_fields) s;
                   let unknown_fields = store (AddGroup number (case grp of None \<Rightarrow> [] | Some g \<Rightarrow> g)) unknown_fields;
                   if \<not> ok then Some ((False, unknown_fields), s) else
                   let s = DecrementRecursionDepth s
                   in Some ((LastTagWas (MakeTag (GetTagFieldNumber tag) WIRETYPE_END_GROUP) s,
                             unknown_fields), s) })
        else if type = WIRETYPE_END_GROUP then Some ((False, unknown_fields), s)
        else if type = WIRETYPE_FIXED32 then
          do { (r, s) \<leftarrow> ReadLittleEndian32 s;
               case r of
                 None \<Rightarrow> Some ((False, unknown_fields), s)
               | Some v \<Rightarrow> Some ((True, store (AddFixed32 number v) unknown_fields), s) }
        else Some ((False, unknown_fields), s))"
| "SkipMessage 0 unknown_fields s = None"
| "SkipMessage (Suc fuel) unknown_fields s =
     do { (tag, s) \<leftarrow> ReadTag s;
          if tag = 0 then Some ((True, unknown_fields), s)
          else if GetTagWireType tag = WIRETYPE_END_GROUP then Some ((True, unknown_fields), s)
          else do { ((ok, unknown_fields), s) \<leftarrow> SkipField fuel tag unknown_fields s;
                    if \<not> ok then Some ((False, unknown_fields), s)
                    else SkipMessage fuel unknown_fields s } }"

end
