(* ===== verification/StreamSafety.thy ===== *)
theory StreamSafety
  imports CodedInput
begin

text \<open>
  What \<open>CodedInputStream\<close> promises. \<open>ci_inv\<close> is the class invariant; \<open>avail s\<close> is the
  abstract state, the bytes that may still be read before the closest limit; \<open>adv n s s'\<close>
  says that an operation consumed exactly \<open>n\<close> of them and changed no limit. Each operation
  is proved total (no undefined behaviour) and related to \<open>avail\<close>.
\<close>

subsection \<open>Invariant and abstraction\<close>

definition pending :: "coded_input \<Rightarrow> byte list" where
  "pending s = (case ci_input s of None \<Rightarrow> [] | Some bs \<Rightarrow> concat bs)"

definition ci_raw :: "coded_input \<Rightarrow> byte list" where
  "ci_raw s = drop (nat (ci_buffer s)) (ci_block s) @ pending s"

definition avail :: "coded_input \<Rightarrow> byte list" where
  "avail s = take (nat (closest_limit s - CurrentPosition s)) (ci_raw s)"

definition buf :: "coded_input \<Rightarrow> byte list" where
  "buf s = take (nat (BufferSize s)) (drop (nat (ci_buffer s)) (ci_block s))"

definition ci_inv :: "coded_input \<Rightarrow> bool" where
  "ci_inv s \<longleftrightarrow>
     0 \<le> ci_buffer s \<and> ci_buffer s \<le> ci_buffer_end s
   \<and> ci_buffer_end s + ci_buffer_size_after_limit s = int (length (ci_block s))
   \<and> ci_overflow_bytes s = 0
   \<and> int (length (ci_block s)) \<le> ci_total_bytes_read s
   \<and> ci_total_bytes_read s + int (length (pending s)) \<le> INT_MAX
   \<and> CurrentPosition s \<le> closest_limit s
   \<and> ci_buffer_size_after_limit s = max 0 (ci_total_bytes_read s - closest_limit s)
   \<and> ci_current_limit s \<le> INT_MAX \<and> ci_total_bytes_limit s \<le> INT_MAX
   \<and> (ci_input s = None \<longrightarrow> ci_current_limit s \<le> ci_total_bytes_read s)"

definition ci_frame :: "coded_input \<Rightarrow> coded_input \<Rightarrow> bool" where
  "ci_frame s s' \<longleftrightarrow>
     ci_inv s' \<and> ci_current_limit s' = ci_current_limit s
   \<and> ci_total_bytes_limit s' = ci_total_bytes_limit s
   \<and> ci_recursion_depth s' = ci_recursion_depth s
   \<and> ci_recursion_limit s' = ci_recursion_limit s
   \<and> (ci_input s' = None \<longleftrightarrow> ci_input s = None)
   \<and> ci_total_bytes_read s \<le> ci_total_bytes_read s'
   \<and> (\<exists>n. ci_raw s' = drop n (ci_raw s) \<and> CurrentPosition s + int n \<le> CurrentPosition s')"

definition adv :: "nat \<Rightarrow> coded_input \<Rightarrow> coded_input \<Rightarrow> bool" where
  "adv n s s' \<longleftrightarrow>
     ci_frame s s' \<and> ci_raw s' = drop n (ci_raw s)
   \<and> CurrentPosition s' = CurrentPosition s + int n \<and> n \<le> length (avail s)"

lemma buf_length: "ci_inv s \<Longrightarrow> int (length (buf s)) = BufferSize s"
  by (auto simp: ci_inv_def buf_def BufferSize_def)

lemma avail_buf:
  assumes "ci_inv s"
  shows "avail s = buf s @ take (nat (closest_limit s - ci_total_bytes_read s)) (pending s)"
proof -
  let ?d = "drop (nat (ci_buffer s)) (ci_block s)"
  have l: "int (length ?d) = BufferSize s + ci_buffer_size_after_limit s"
    using assms by (auto simp: ci_inv_def BufferSize_def)
  show ?thesis
  proof (cases "ci_total_bytes_read s \<le> closest_limit s")
    case True
    then have a: "ci_buffer_size_after_limit s = 0" using assms by (auto simp: ci_inv_def)
    with l have "nat (closest_limit s - CurrentPosition s)
        = length ?d + nat (closest_limit s - ci_total_bytes_read s)"
      using True by (simp add: CurrentPosition_def)
    moreover from a l have "buf s = ?d" by (simp add: buf_def)
    ultimately show ?thesis by (simp add: avail_def ci_raw_def)
  next
    case False
    then have "ci_buffer_size_after_limit s = ci_total_bytes_read s - closest_limit s"
      using assms by (auto simp: ci_inv_def)
    then have "closest_limit s - CurrentPosition s = BufferSize s"
      by (simp add: CurrentPosition_def)
    moreover have "nat (BufferSize s) \<le> length ?d"
      using l assms by (simp add: ci_inv_def)
    ultimately show ?thesis
      using False by (simp add: avail_def ci_raw_def buf_def)
  qed
qed

lemma buf_le_avail: "ci_inv s \<Longrightarrow> nat (BufferSize s) \<le> length (avail s)"
  using avail_buf [of s] buf_length [of s] by simp

lemma BufferSize_nonneg: "ci_inv s \<Longrightarrow> 0 \<le> BufferSize s"
  by (simp add: ci_inv_def BufferSize_def)

lemma ci_frame_raw:
  "ci_raw s' = drop n (ci_raw s) \<Longrightarrow> CurrentPosition s + int n \<le> CurrentPosition s'
    \<Longrightarrow> \<exists>n. ci_raw s' = drop n (ci_raw s) \<and> CurrentPosition s + int n \<le> CurrentPosition s'"
  by blast

lemma ci_frame_length: "ci_frame s s' \<Longrightarrow> length (avail s') \<le> length (avail s)"
  by (auto simp: ci_frame_def avail_def closest_limit_def)

lemma ci_frame_pos: "ci_frame s s' \<Longrightarrow> CurrentPosition s \<le> CurrentPosition s'"
  by (auto simp: ci_frame_def)

lemma adv_inv: "adv n s s' \<Longrightarrow> ci_inv s'"
  by (simp add: adv_def ci_frame_def)

lemma ci_frame_inv: "ci_frame s s' \<Longrightarrow> ci_inv s'"
  by (simp add: ci_frame_def)

lemma adv_frame: "adv n s s' \<Longrightarrow> ci_frame s s'"
  by (simp add: adv_def)

lemma adv_avail: "adv n s s' \<Longrightarrow> avail s' = drop n (avail s)"
proof -
  have "nat (x - int m) = nat x - m" for x m by simp
  then show "adv n s s' \<Longrightarrow> avail s' = drop n (avail s)"
    by (simp add: adv_def ci_frame_def avail_def closest_limit_def drop_take flip: diff_diff_eq)
qed

lemma adv_length: "adv n s s' \<Longrightarrow> n \<le> length (avail s)"
  by (simp add: adv_def)

lemma adv_refl: "ci_inv s \<Longrightarrow> adv 0 s s"
  by (simp add: adv_def ci_frame_def)

lemma ci_frame_refl: "ci_inv s \<Longrightarrow> ci_frame s s"
  by (simp add: ci_frame_def)

lemma ci_frame_trans:
  assumes "ci_frame s t" "ci_frame t u"
  shows "ci_frame s u"
proof -
  obtain m n where "ci_raw t = drop m (ci_raw s)" "CurrentPosition s + int m \<le> CurrentPosition t"
    "ci_raw u = drop n (ci_raw t)" "CurrentPosition t + int n \<le> CurrentPosition u"
    using assms by (auto simp: ci_frame_def)
  then have "\<exists>n. ci_raw u = drop n (ci_raw s) \<and> CurrentPosition s + int n \<le> CurrentPosition u"
    by (intro ci_frame_raw [of _ "n + m"]) simp_all
  with assms show ?thesis by (simp add: ci_frame_def)
qed

lemma adv_trans:
  assumes "adv m s t" "adv n t u"
  shows "adv (m + n) s u"
proof -
  have "n \<le> length (avail s) - m" using adv_length [OF assms(2)] adv_avail [OF assms(1)] by simp
  with adv_length [OF assms(1)] have "m + n \<le> length (avail s)" by simp
  with assms show ?thesis
    by (auto simp: adv_def add.commute intro: ci_frame_trans)
qed

lemma adv_0_trans: "adv 0 s t \<Longrightarrow> adv n t u \<Longrightarrow> adv n s u"
  using adv_trans [of 0] by simp

text \<open>The tag and end-of-message marks are no part of the invariant.\<close>

lemma ci_marks [simp]:
  "ci_inv (s\<lparr>ci_last_tag := t\<rparr>) = ci_inv s"
  "ci_inv (s\<lparr>ci_legitimate_message_end := b\<rparr>) = ci_inv s"
  "avail (s\<lparr>ci_last_tag := t\<rparr>) = avail s"
  "avail (s\<lparr>ci_legitimate_message_end := b\<rparr>) = avail s"
  "adv n s (s'\<lparr>ci_last_tag := t\<rparr>) = adv n s s'"
  "adv n s (s'\<lparr>ci_legitimate_message_end := b\<rparr>) = adv n s s'"
  "adv n (s\<lparr>ci_last_tag := t\<rparr>) s' = adv n s s'"
  "adv n (s\<lparr>ci_legitimate_message_end := b\<rparr>) s' = adv n s s'"
  "ci_frame s (s'\<lparr>ci_last_tag := t\<rparr>) = ci_frame s s'"
  "ci_frame s (s'\<lparr>ci_legitimate_message_end := b\<rparr>) = ci_frame s s'"
  by (simp_all add: ci_inv_def avail_def adv_def ci_frame_def closest_limit_def CurrentPosition_def
      BufferSize_def ci_raw_def pending_def)

lemma Advance_fields [simp]:
  "ci_last_tag (Advance n s) = ci_last_tag s"
  "ci_legitimate_message_end (Advance n s) = ci_legitimate_message_end s"
  "ci_block (Advance n s) = ci_block s"
  "ci_buffer (Advance n s) = ci_buffer s + n"
  "ci_buffer_end (Advance n s) = ci_buffer_end s"
  "BufferSize (Advance n s) = BufferSize s - n"
  by (simp_all add: Advance_def BufferSize_def)

lemma Advance_pos [simp]:
  "CurrentPosition (Advance n s) = CurrentPosition s + n"
  "ci_input (Advance n s) = ci_input s"
  "ci_current_limit (Advance n s) = ci_current_limit s"
  "ci_total_bytes_limit (Advance n s) = ci_total_bytes_limit s"
  "ci_total_bytes_read (Advance n s) = ci_total_bytes_read s"
  "ci_recursion_depth (Advance n s) = ci_recursion_depth s"
  "ci_recursion_limit (Advance n s) = ci_recursion_limit s"
  "ci_buffer_size_after_limit (Advance n s) = ci_buffer_size_after_limit s"
  "ci_overflow_bytes (Advance n s) = ci_overflow_bytes s"
  "closest_limit (Advance n s) = closest_limit s"
  "pending (Advance n s) = pending s"
  by (simp_all add: Advance_def CurrentPosition_def BufferSize_def closest_limit_def pending_def)

lemma Advance_inv:
  assumes "ci_inv s" "0 \<le> n" "n \<le> BufferSize s"
  shows "ci_inv (Advance n s)"
proof -
  have "ci_total_bytes_read s - closest_limit s \<le> ci_buffer_size_after_limit s"
    using assms by (simp add: ci_inv_def)
  then have "CurrentPosition s + n \<le> closest_limit s"
    using assms(3) by (simp add: CurrentPosition_def)
  moreover have "ci_buffer s + n \<le> ci_buffer_end s"
    using assms by (simp add: BufferSize_def)
  ultimately show ?thesis
    using assms by (simp add: ci_inv_def)
qed

lemma Advance_adv:
  assumes "ci_inv s" "0 \<le> n" "n \<le> BufferSize s"
  shows "adv (nat n) s (Advance n s)"
proof -
  have l: "nat n \<le> length (avail s)"
    using assms buf_le_avail [of s] by linarith
  have "0 \<le> ci_buffer s" "0 \<le> ci_buffer_size_after_limit s"
    "ci_buffer_end s + ci_buffer_size_after_limit s = int (length (ci_block s))"
    using assms by (auto simp: ci_inv_def)
  then have "nat n \<le> length (drop (nat (ci_buffer s)) (ci_block s))"
    using assms by (simp add: BufferSize_def)
  then have "ci_raw (Advance n s) = drop (nat n) (ci_raw s)"
    using assms \<open>0 \<le> ci_buffer s\<close> by (simp add: ci_raw_def nat_add_distrib add.commute)
  with l Advance_inv [OF assms] assms(2) show ?thesis
    by (auto simp: adv_def ci_frame_def intro: ci_frame_raw [of _ "nat n"])
qed

subsection \<open>Limits\<close>

text \<open>After the limits changed, \<open>RecomputeBufferLimits\<close> restores the invariant.\<close>

lemma RecomputeBufferLimits_pos [simp]:
  "CurrentPosition (RecomputeBufferLimits s) = CurrentPosition s"
  "ci_raw (RecomputeBufferLimits s) = ci_raw s"
  "closest_limit (RecomputeBufferLimits s) = closest_limit s"
  "pending (RecomputeBufferLimits s) = pending s"
  by (simp_all add: RecomputeBufferLimits_def CurrentPosition_def BufferSize_def ci_raw_def
      pending_def closest_limit_def Let_def)

lemma RecomputeBufferLimits_inv:
  assumes "0 \<le> ci_buffer s"
    "ci_buffer_end s + ci_buffer_size_after_limit s = int (length (ci_block s))"
    "ci_buffer s \<le> int (length (ci_block s))"
    "ci_overflow_bytes s = 0"
    "int (length (ci_block s)) \<le> ci_total_bytes_read s"
    "ci_total_bytes_read s + int (length (pending s)) \<le> INT_MAX"
    "CurrentPosition s \<le> closest_limit s"
    "ci_current_limit s \<le> INT_MAX" "ci_total_bytes_limit s \<le> INT_MAX"
    "ci_input s = None \<longrightarrow> ci_current_limit s \<le> ci_total_bytes_read s"
  shows "ci_inv (RecomputeBufferLimits s)"
  using assms
  by (auto simp: ci_inv_def RecomputeBufferLimits_def Let_def CurrentPosition_def BufferSize_def
      closest_limit_def pending_def)

lemma CurrentPosition_bounds:
  "ci_inv s \<Longrightarrow> 0 \<le> CurrentPosition s \<and> CurrentPosition s \<le> ci_current_limit s
     \<and> CurrentPosition s \<le> ci_total_bytes_limit s"
  by (auto simp: ci_inv_def CurrentPosition_def BufferSize_def closest_limit_def)

definition pushed_limit :: "int \<Rightarrow> coded_input \<Rightarrow> int" where
  "pushed_limit n s =
     min (if 0 \<le> n \<and> n \<le> INT_MAX - CurrentPosition s then CurrentPosition s + n else INT_MAX)
         (ci_current_limit s)"

lemma PushLimit_eq:
  "PushLimit n s = (ci_current_limit s, RecomputeBufferLimits (s\<lparr>ci_current_limit := pushed_limit n s\<rparr>))"
  by (simp add: PushLimit_def Let_def pushed_limit_def)

lemma ci_limit_upd [simp]:
  "CurrentPosition (s\<lparr>ci_current_limit := l\<rparr>) = CurrentPosition s"
  "ci_raw (s\<lparr>ci_current_limit := l\<rparr>) = ci_raw s"
  "pending (s\<lparr>ci_current_limit := l\<rparr>) = pending s"
  by (simp_all add: CurrentPosition_def BufferSize_def ci_raw_def pending_def)

lemma PushLimit_inv:
  assumes "ci_inv s"
  shows "ci_inv (snd (PushLimit n s))"
  unfolding PushLimit_eq snd_conv
  by (rule RecomputeBufferLimits_inv)
     (use assms CurrentPosition_bounds [OF assms] in
       \<open>auto simp: ci_inv_def closest_limit_def pushed_limit_def\<close>)

lemma PushLimit_avail:
  assumes "ci_inv s" "0 \<le> n" "nat n \<le> length (avail s)"
  shows "avail (snd (PushLimit n s)) = take (nat n) (avail s)"
proof -
  have l: "n \<le> closest_limit s - CurrentPosition s"
    using assms by (auto simp: avail_def ci_inv_def)
  then have "closest_limit (snd (PushLimit n s)) = CurrentPosition s + n"
    using assms by (auto simp: PushLimit_eq closest_limit_def pushed_limit_def ci_inv_def)
  moreover have "CurrentPosition (snd (PushLimit n s)) = CurrentPosition s"
    "ci_raw (snd (PushLimit n s)) = ci_raw s"
    by (simp_all add: PushLimit_eq)
  ultimately show ?thesis
    using l by (simp add: avail_def min_def)
qed

lemma PopLimit_inv:
  assumes "ci_inv s" "CurrentPosition s \<le> l" "l \<le> INT_MAX"
    "ci_input s = None \<longrightarrow> l \<le> ci_total_bytes_read s"
  shows "ci_inv (PopLimit l s)"
proof -
  have "ci_inv (RecomputeBufferLimits (s\<lparr>ci_current_limit := l\<rparr>))"
    by (rule RecomputeBufferLimits_inv)
       (use assms CurrentPosition_bounds [OF assms(1)] in \<open>auto simp: ci_inv_def closest_limit_def\<close>)
  then show ?thesis by (simp add: PopLimit_def)
qed

text \<open>
  \<open>PushLimit\<close>, any operations and \<open>PopLimit\<close> of the old limit: on the whole an advance.
\<close>

lemma PushLimit_PopLimit:
  assumes "ci_inv s" "0 \<le> n" "nat n \<le> length (avail s)"
    and "adv m (snd (PushLimit n s)) t"
  shows "adv m s (PopLimit (fst (PushLimit n s)) t)"
proof -
  let ?p = "snd (PushLimit n s)"
  have p: "CurrentPosition ?p = CurrentPosition s" "ci_raw ?p = ci_raw s"
    "ci_input ?p = ci_input s" "ci_total_bytes_read ?p = ci_total_bytes_read s"
    "ci_total_bytes_limit ?p = ci_total_bytes_limit s"
    "ci_recursion_depth ?p = ci_recursion_depth s" "ci_recursion_limit ?p = ci_recursion_limit s"
    "fst (PushLimit n s) = ci_current_limit s"
    by (simp_all add: PushLimit_eq)
  have t: "ci_inv t" "CurrentPosition t = CurrentPosition s + int m" "ci_raw t = drop m (ci_raw s)"
    "ci_input t = None \<longleftrightarrow> ci_input s = None" "ci_total_bytes_read s \<le> ci_total_bytes_read t"
    "ci_total_bytes_limit t = ci_total_bytes_limit s"
    "ci_recursion_depth t = ci_recursion_depth s" "ci_recursion_limit t = ci_recursion_limit s"
    using assms(4) by (auto simp: adv_def ci_frame_def p)
  have m: "m \<le> nat n" "m \<le> length (avail s)"
    using adv_length [OF assms(4)] PushLimit_avail [OF assms(1-3)] assms(3) by auto
  then have "int m \<le> closest_limit s - CurrentPosition s"
    using CurrentPosition_bounds [OF assms(1)] by (auto simp: avail_def closest_limit_def)
  then have pos: "CurrentPosition t \<le> ci_current_limit s" using t by (simp add: closest_limit_def)
  then have "ci_inv (PopLimit (ci_current_limit s) t)"
    using assms(1) t by (intro PopLimit_inv) (auto simp: ci_inv_def)
  moreover have "CurrentPosition (PopLimit l t) = CurrentPosition t"
      "ci_raw (PopLimit l t) = ci_raw t" "ci_input (PopLimit l t) = ci_input t"
      "ci_current_limit (PopLimit l t) = l"
      "ci_total_bytes_read (PopLimit l t) = ci_total_bytes_read t"
      "ci_total_bytes_limit (PopLimit l t) = ci_total_bytes_limit t"
      "ci_recursion_depth (PopLimit l t) = ci_recursion_depth t"
      "ci_recursion_limit (PopLimit l t) = ci_recursion_limit t" for l
    by (simp_all add: PopLimit_def CurrentPosition_def BufferSize_def ci_raw_def pending_def
        RecomputeBufferLimits_def closest_limit_def Let_def)
  ultimately show ?thesis
    using m t by (auto simp: adv_def ci_frame_def p intro: ci_frame_raw [of _ m])
qed

subsection \<open>The refill\<close>

lemma NextNonEmpty_Some:
  "NextNonEmpty bs = Some (b, bs') \<Longrightarrow> b \<noteq> [] \<and> concat bs = b @ concat bs'"
  by (induction bs) (auto split: if_splits)

lemma NextNonEmpty_None: "NextNonEmpty bs = None \<Longrightarrow> concat bs = []"
  by (induction bs) (auto split: if_splits)

text \<open>Where \<open>Refresh\<close> goes to the input: nothing is buffered, and the closest limit is not passed.\<close>

lemma Refresh_guard:
  assumes "ci_inv s" "BufferSize s = 0" "\<not> ci_buffer_size_after_limit s > 0"
  shows "ci_buffer s = int (length (ci_block s))" "ci_total_bytes_read s \<le> closest_limit s"
    "ci_raw s = pending s" "CurrentPosition s = ci_total_bytes_read s"
  using assms by (auto simp: ci_inv_def BufferSize_def ci_raw_def CurrentPosition_def)

definition refill :: "byte list \<Rightarrow> byte list list \<Rightarrow> coded_input \<Rightarrow> coded_input" where
  "refill b bs s = s\<lparr>ci_input := Some bs, ci_block := b, ci_buffer := 0,
     ci_buffer_end := int (length b), ci_total_bytes_read := ci_total_bytes_read s + int (length b)\<rparr>"

lemma refill_adv:
  assumes "ci_inv s" "BufferSize s = 0" "\<not> ci_buffer_size_after_limit s > 0"
    "ci_input s = Some input" "NextNonEmpty input = Some (b, bs)"
  shows "adv 0 s (RecomputeBufferLimits (refill b bs s))"
proof -
  note g = Refresh_guard [OF assms(1-3)]
  note n = NextNonEmpty_Some [OF assms(5)]
  have a: "ci_buffer_size_after_limit s = 0" using assms(1,3) by (auto simp: ci_inv_def)
  have p: "CurrentPosition (refill b bs s) = CurrentPosition s"
    "closest_limit (refill b bs s) = closest_limit s" "pending (refill b bs s) = concat bs"
    "ci_raw (refill b bs s) = ci_raw s" "pending s = b @ concat bs"
    using g n a assms(4)
    by (simp_all add: refill_def CurrentPosition_def BufferSize_def closest_limit_def pending_def ci_raw_def)
  have "ci_inv (RecomputeBufferLimits (refill b bs s))"
    by (rule RecomputeBufferLimits_inv)
       (use p a assms(1) in \<open>simp_all add: refill_def ci_inv_def\<close>)
  with p assms(4) show ?thesis
    by (simp add: adv_def ci_frame_def) (auto simp: refill_def intro: ci_frame_raw [of _ 0])
qed

definition warned :: "coded_input \<Rightarrow> coded_input" where
  "warned s = (if ci_total_bytes_warning_threshold s \<ge> 0
                  \<and> ci_total_bytes_read s \<ge> ci_total_bytes_warning_threshold s
               then s\<lparr>ci_total_bytes_warning_threshold := - 2\<rparr> else s)"

lemma warned_simps [simp]:
  "ci_inv (warned s) = ci_inv s" "adv n (warned s) t = adv n s t" "BufferSize (warned s) = BufferSize s"
  "ci_buffer_size_after_limit (warned s) = ci_buffer_size_after_limit s"
  "ci_input (warned s) = ci_input s" "ci_raw (warned s) = ci_raw s"
  "ci_total_bytes_read (warned s) = ci_total_bytes_read s" "ci_last_tag (warned s) = ci_last_tag s"
  by (simp_all add: warned_def ci_inv_def adv_def ci_frame_def avail_def closest_limit_def
      CurrentPosition_def BufferSize_def ci_raw_def pending_def)

lemma Refresh_warned:
  assumes "ci_inv s"
  shows "Refresh s =
     (if ci_buffer_size_after_limit s > 0 \<or> ci_total_bytes_read s = ci_current_limit s
      then Some (False, s)
      else case ci_input s of
             None \<Rightarrow> None
           | Some input \<Rightarrow>
               (case NextNonEmpty input of
                  Some (b, bs) \<Rightarrow> Some (True, RecomputeBufferLimits (refill b bs (warned s)))
                | None \<Rightarrow> Some (False, (null_buffer (warned s))\<lparr>ci_input := Some []\<rparr>)))"
proof -
  have o: "ci_overflow_bytes s = 0" using assms by (simp add: ci_inv_def)
  have l: "ci_total_bytes_read s \<le> INT_MAX - int (length b)"
    if "ci_input s = Some input" "NextNonEmpty input = Some (b, bs)" for input b bs
    using assms that NextNonEmpty_Some [OF that(2)] by (auto simp: ci_inv_def pending_def)
  show ?thesis
    by (auto simp: Refresh_def o Let_def warned_def refill_def dest: l split: option.split)
qed

lemma null_adv:
  assumes "ci_inv s" "BufferSize s = 0" "\<not> ci_buffer_size_after_limit s > 0"
    "ci_input s = Some input" "NextNonEmpty input = None"
  shows "adv 0 s ((null_buffer s)\<lparr>ci_input := Some []\<rparr>)" "avail s = []"
proof -
  note g = Refresh_guard [OF assms(1-3)]
  have "pending s = []" using assms(4,5) NextNonEmpty_None by (simp add: pending_def)
  with g assms(4) show "avail s = []" by (simp add: avail_def)
  show "adv 0 s ((null_buffer s)\<lparr>ci_input := Some []\<rparr>)"
    using g assms \<open>pending s = []\<close>
    by (auto simp: adv_def ci_frame_def ci_inv_def null_buffer_def CurrentPosition_def BufferSize_def
        closest_limit_def ci_raw_def pending_def)
qed

lemma Refresh_cases:
  assumes "ci_inv s" "BufferSize s = 0"
  obtains ok s' where "Refresh s = Some (ok, s')" "adv 0 s s'" "\<not> ok \<Longrightarrow> avail s = []"
    "ci_last_tag s' = ci_last_tag s"
proof -
  have e: "avail s = []" if "ci_buffer_size_after_limit s > 0 \<or> ci_total_bytes_read s = ci_current_limit s"
  proof -
    have "closest_limit s \<le> ci_total_bytes_read s"
      using that assms(1) by (auto simp: ci_inv_def closest_limit_def)
    with assms show ?thesis by (simp add: avail_buf buf_def)
  qed
  show thesis
  proof (cases "ci_buffer_size_after_limit s > 0 \<or> ci_total_bytes_read s = ci_current_limit s")
    case True
    with e show thesis
      using assms by (intro that [of False s]) (simp_all add: Refresh_warned adv_refl)
  next
    case False
    have a: "ci_buffer_size_after_limit s = 0" using False assms(1) by (auto simp: ci_inv_def)
    have "ci_input s \<noteq> None"
      using assms False by (auto simp: ci_inv_def closest_limit_def)
    then obtain input where i: "ci_input s = Some input" by blast
    show thesis
    proof (cases "NextNonEmpty input")
      case None
      with null_adv [of "warned s" input] null_adv(2) [of s input] assms False i show thesis
        by (intro that [of False "(null_buffer (warned s))\<lparr>ci_input := Some []\<rparr>"])
           (simp_all add: Refresh_warned, simp add: null_buffer_def warned_def)
    next
      case (Some p)
      then obtain b bs where "NextNonEmpty input = Some (b, bs)" by (cases p) auto
      with refill_adv [of "warned s" input b bs] assms False i show thesis
        by (intro that [of True "RecomputeBufferLimits (refill b bs (warned s))"])
           (simp_all add: Refresh_warned, simp add: refill_def warned_def)
    qed
  qed
qed

lemma refresh_while_empty_cases:
  assumes "ci_inv s"
  obtains ok s' where "refresh_while_empty s = Some (ok, s')" "adv 0 s s'"
    "\<not> ok \<Longrightarrow> avail s = []" "ok \<Longrightarrow> ci_buffer s' < ci_buffer_end s'"
    "ci_last_tag s' = ci_last_tag s"
  using assms
proof (induction s arbitrary: thesis rule: refresh_while_empty.induct)
  case (1 s)
  show thesis
  proof (cases "ci_buffer s = ci_buffer_end s")
    case True
    then have "BufferSize s = 0" by (simp add: BufferSize_def)
    with "1.prems"(2) obtain ok t where t: "Refresh s = Some (ok, t)" "adv 0 s t"
      "\<not> ok \<Longrightarrow> avail s = []" "ci_last_tag t = ci_last_tag s"
      by (rule Refresh_cases) blast
    show thesis
    proof (cases ok)
      case False
      with True t show thesis
        by (intro "1.prems"(1) [of False t]) (simp_all add: refresh_while_empty.simps [of s])
    next
      case ok: True
      obtain ok' u where u: "refresh_while_empty t = Some (ok', u)" "adv 0 t u"
        "\<not> ok' \<Longrightarrow> avail t = []" "ok' \<Longrightarrow> ci_buffer u < ci_buffer_end u"
        "ci_last_tag u = ci_last_tag t"
        using "1.IH" [OF True t(1) refl ok] adv_inv [OF t(2)] by metis
      have "adv 0 s u" using t(2) u(2) by (rule adv_0_trans)
      with True ok t u adv_avail [OF t(2)] show thesis
        by (intro "1.prems"(1) [of ok' u]) (simp_all add: refresh_while_empty.simps [of s])
    qed
  next
    case False
    with "1.prems" show thesis
      by (intro "1.prems"(1) [of True s])
         (auto simp: refresh_while_empty.simps [of s] adv_refl ci_inv_def)
  qed
qed

subsection \<open>The constructors\<close>

lemma CodedInputStream_flat_inv:
  assumes "int (length data) \<le> kDefaultTotalBytesLimit"
  shows "ci_inv (CodedInputStream_flat data)" "avail (CodedInputStream_flat data) = data"
  using assms
  by (auto simp: CodedInputStream_flat_def Let_def ci_inv_def avail_def closest_limit_def CurrentPosition_def
      BufferSize_def ci_raw_def pending_def kDefaultTotalBytesLimit_def INT_MAX_def)

definition fresh_input :: "byte list list \<Rightarrow> coded_input" where
  "fresh_input input = \<lparr>ci_input = Some input, ci_block = [], ci_buffer = 0, ci_buffer_end = 0,
       ci_total_bytes_read = 0, ci_overflow_bytes = 0, ci_last_tag = 0,
       ci_legitimate_message_end = False, ci_current_limit = INT_MAX,
       ci_buffer_size_after_limit = 0, ci_total_bytes_limit = kDefaultTotalBytesLimit,
       ci_total_bytes_warning_threshold = kDefaultTotalBytesWarningThreshold,
       ci_recursion_depth = 0, ci_recursion_limit = default_recursion_limit\<rparr>"

lemma CodedInputStream_new_inv:
  assumes "int (length (concat input)) \<le> INT_MAX"
  obtains s where "CodedInputStream_new input = Some s" "ci_inv s"
    "avail s = take (nat kDefaultTotalBytesLimit) (concat input)"
proof -
  let ?s = "fresh_input input"
  have inv: "ci_inv ?s" "BufferSize ?s = 0"
    "avail ?s = take (nat kDefaultTotalBytesLimit) (concat input)"
    using assms by (auto simp: fresh_input_def ci_inv_def avail_def closest_limit_def CurrentPosition_def
      BufferSize_def ci_raw_def pending_def kDefaultTotalBytesLimit_def INT_MAX_def)
  obtain ok s' where s': "Refresh ?s = Some (ok, s')" "adv 0 ?s s'"
    using inv(1,2) by (rule Refresh_cases) blast
  show thesis
    by (rule that [of s'])
       (use s' adv_inv [OF s'(2)] adv_avail [OF s'(2)] inv(3) in
         \<open>simp_all add: CodedInputStream_new_def fresh_input_def\<close>)
qed

end
