(* ===== verification/StreamReads.thy ===== *)
theory StreamReads
  imports StreamSafety
begin

text \<open>
  Every read of \<open>CodedInputStream\<close> against the abstraction \<open>avail\<close>: it returns (no
  undefined behaviour), its result is a function of the bytes up to the limit, and it
  consumes exactly the bytes it decoded.
\<close>

subsection \<open>Raw bytes and strings\<close>

lemma ci_bytes_buf:
  assumes "ci_inv s" "0 \<le> n" "n \<le> BufferSize s"
  shows "ci_bytes s n = Some (take (nat n) (avail s))"
proof -
  have "0 \<le> ci_buffer_size_after_limit s" using assms(1) by (auto simp: ci_inv_def)
  then have "ci_buffer s + n \<le> int (length (ci_block s))" "0 \<le> ci_buffer s"
    using assms by (auto simp: ci_inv_def BufferSize_def)
  moreover have "nat n \<le> length (buf s)" "nat n \<le> nat (BufferSize s)"
    using assms buf_length [of s] by linarith+
  ultimately show ?thesis
    using assms by (simp add: ci_bytes_def avail_buf) (simp add: buf_def min_def)
qed

lemma ReadRaw_avail:
  assumes "ci_inv s" "0 \<le> n"
  shows "\<exists>s'. ReadRaw n s =
           Some ((take (nat n) (avail s), n \<le> int (length (avail s))), s')
         \<and> adv (min (nat n) (length (avail s))) s s'"
  using assms
proof (induction n s rule: ReadRaw.induct)
  case (1 n s)
  note inv = "1.prems"(1)
  let ?c = "BufferSize s"
  show ?case
  proof (cases "?c < n")
    case True
    have c: "0 \<le> ?c" by (rule BufferSize_nonneg [OF inv])
    note a = Advance_adv [OF inv c order_refl]
    have "ci_inv (Advance ?c s)" "BufferSize (Advance ?c s) = 0"
      using adv_inv [OF a] by simp_all
    then obtain ok t where t: "Refresh (Advance ?c s) = Some (ok, t)"
      "adv 0 (Advance ?c s) t" "\<not> ok \<Longrightarrow> avail (Advance ?c s) = []"
      by (rule Refresh_cases) blast
    have st: "adv (nat ?c) s t" using adv_trans [OF a t(2)] by simp
    have av: "avail (Advance ?c s) = drop (nat ?c) (avail s)" "avail t = drop (nat ?c) (avail s)"
      using adv_avail [OF a] adv_avail [OF st] by simp_all
    note bytes = ci_bytes_buf [OF inv c order_refl]
    have le: "nat ?c \<le> length (avail s)" by (rule buf_le_avail [OF inv])
    show ?thesis
    proof (cases ok)
      case False
      with t(3) av have l: "length (avail s) = nat ?c" using le by simp
      with True c False t bytes st show ?thesis
        by (subst ReadRaw.simps) (auto simp: Let_def min_def)
    next
      case ok: True
      obtain u where u: "ReadRaw (n - ?c) t =
           Some ((take (nat (n - ?c)) (avail t), n - ?c \<le> int (length (avail t))), u)"
         "adv (min (nat (n - ?c)) (length (avail t))) t u"
        using "1.IH" [OF refl True bytes t(1) refl ok adv_inv [OF st]] True by auto
      have n: "nat n = nat ?c + nat (n - ?c)" using True c by simp
      have tk: "take (nat ?c) (avail s) @ take (nat (n - ?c)) (avail t) = take (nat n) (avail s)"
        unfolding n av by (rule take_add [symmetric])
      have iff: "n - ?c \<le> int (length (avail t)) \<longleftrightarrow> n \<le> int (length (avail s))"
        using le c av by (auto simp: nat_le_iff)
      have m: "nat ?c + min (nat (n - ?c)) (length (avail t)) = min (nat n) (length (avail s))"
      proof -
        have "length (avail t) = length (avail s) - nat ?c" using av by simp
        then show ?thesis using le c True by arith
      qed
      show ?thesis
        using True ok t bytes u(1) tk iff adv_trans [OF st u(2)] m
        by (subst ReadRaw.simps) (simp add: Let_def)
    qed
  next
    case False
    then have "nat n \<le> length (avail s)" using buf_le_avail [OF inv] by linarith
    with False "1.prems" Advance_adv [OF inv, of n] ci_bytes_buf [OF inv, of n] show ?thesis
      by (subst ReadRaw.simps) (simp add: Let_def min_absorb1)
  qed
qed

text \<open>The string loop appends to \<open>buffer\<close> what \<open>ReadRaw\<close> would copy.\<close>

lemma ReadStringFallback_loop_eq:
  assumes "ci_inv s" "0 \<le> n"
  shows "ReadStringFallback_loop buffer n s =
           map_option (\<lambda>((bytes, ok), s'). ((buffer @ bytes, ok), s')) (ReadRaw n s)"
  using assms
proof (induction buffer n s rule: ReadStringFallback_loop.induct)
  case (1 buffer n s)
  note inv = "1.prems"(1)
  let ?c = "BufferSize s"
  show ?case
  proof (cases "?c < n")
    case True
    have c: "0 \<le> ?c" by (rule BufferSize_nonneg [OF inv])
    note a = Advance_adv [OF inv c order_refl]
    have "ci_inv (Advance ?c s)" "BufferSize (Advance ?c s) = 0"
      using adv_inv [OF a] by simp_all
    then obtain ok t where t: "Refresh (Advance ?c s) = Some (ok, t)" "adv 0 (Advance ?c s) t"
      by (rule Refresh_cases) blast
    note bytes = ci_bytes_buf [OF inv c order_refl]
    let ?b = "take (nat ?c) (avail s)"
    have e: "(if ?c \<noteq> 0 then map_option (\<lambda>bytes. buffer @ bytes) (ci_bytes s ?c) else Some buffer)
        = Some (buffer @ ?b)"
      using bytes by simp
    have IH: "ok \<Longrightarrow> ReadStringFallback_loop (buffer @ ?b) (n - ?c) t
        = map_option (\<lambda>((bytes, ok), s'). (((buffer @ ?b) @ bytes, ok), s')) (ReadRaw (n - ?c) t)"
      using "1.IH" [OF refl True e t(1) refl _ adv_inv [OF t(2)]] True by simp
    show ?thesis
      using True t(1) IH e bytes
      by (subst ReadStringFallback_loop.simps, subst ReadRaw.simps)
         (auto simp: Let_def split: option.split)
  next
    case False
    then show ?thesis
      by (subst ReadStringFallback_loop.simps, subst ReadRaw.simps)
         (auto simp: Let_def split: option.split)
  qed
qed

lemma ReadString_avail:
  assumes "ci_inv s" "0 \<le> n"
  shows "\<exists>s'. ReadString b n s = Some ((take (nat n) (avail s), n \<le> int (length (avail s))), s')
         \<and> adv (min (nat n) (length (avail s))) s s'"
proof -
  have le: "n \<le> BufferSize s \<Longrightarrow> nat n \<le> length (avail s)"
    using buf_le_avail [OF assms(1)] by linarith
  show ?thesis
  proof (cases "n \<le> BufferSize s")
    case True
    with assms le Advance_adv [OF assms(1), of n] ci_bytes_buf [OF assms(1), of n]
      adv_refl [OF assms(1)] show ?thesis
      by (auto simp: ReadString_def InternalReadStringInline_def min_absorb1)
  next
    case False
    with assms ReadStringFallback_loop_eq [OF assms, of "[]"] ReadRaw_avail [OF assms] show ?thesis
      by (auto simp: ReadString_def InternalReadStringInline_def ReadStringFallback_def)
  qed
qed

lemma ReadString_neg: "n < 0 \<Longrightarrow> ReadString b n s = Some ((b, False), s)"
  by (simp add: ReadString_def)

subsection \<open>Skip\<close>

lemma input_skip_concat:
  "concat (snd (input_skip n bs)) = drop n (concat bs)"
  "fst (input_skip n bs) \<longleftrightarrow> n \<le> length (concat bs)"
  by (induction n bs rule: input_skip.induct) auto

lemma Skip_frame:
  assumes "ci_inv s"
  shows "\<exists>ok s'. Skip n s = Some (ok, s') \<and> ci_frame s s'"
proof -
  note c = BufferSize_nonneg [OF assms]
  consider "n < 0" | "0 \<le> n" "n \<le> BufferSize s"
    | "BufferSize s < n" "ci_buffer_size_after_limit s > 0"
    | "BufferSize s < n" "\<not> ci_buffer_size_after_limit s > 0" by linarith
  then show ?thesis
  proof cases
    case 1
    with assms show ?thesis
      by (intro exI [of _ False] exI [of _ s]) (simp add: Skip_def ci_frame_refl)
  next
    case 2
    then show ?thesis using Advance_adv [OF assms, of n] by (auto simp: Skip_def intro: adv_frame)
  next
    case 3
    then show ?thesis using Advance_adv [OF assms c] c by (auto simp: Skip_def intro: adv_frame)
  next
    case 4
    have a: "ci_buffer_size_after_limit s = 0" "ci_total_bytes_read s \<le> closest_limit s"
      using 4 assms by (auto simp: ci_inv_def)
    let ?n = "n - BufferSize s" and ?u = "closest_limit s - ci_total_bytes_read s"
    let ?z = "null_buffer s"
    have z: "closest_limit ?z = closest_limit s" "ci_total_bytes_read ?z = ci_total_bytes_read s"
      "ci_input ?z = ci_input s" by (simp_all add: null_buffer_def closest_limit_def)
    have fl: "ci_input s = None \<Longrightarrow> ?u \<le> 0" using assms by (auto simp: ci_inv_def closest_limit_def)
    have pos: "CurrentPosition s = ci_total_bytes_read s - BufferSize s" using a by (simp add: CurrentPosition_def)
    have fr: "ci_frame s (?z\<lparr>ci_total_bytes_read := ci_total_bytes_read s + int m, ci_input := Some bs\<rparr>)"
      if "int m \<le> ?u" "ci_input s = Some input" "concat bs = drop m (concat input)" for m bs input
    proof -
      have "ci_total_bytes_read s + int m + int (length (concat bs)) \<le> INT_MAX"
        using assms that a by (auto simp: ci_inv_def pending_def closest_limit_def min_def split: if_splits)
      moreover have k: "nat (int (length (ci_block s)) - ci_buffer s) + m + nat (ci_buffer s)
          - length (ci_block s) = m" if "0 \<le> ci_buffer s" "ci_buffer s \<le> int (length (ci_block s))"
        using that by linarith
      have "\<exists>n. ci_raw (?z\<lparr>ci_total_bytes_read := ci_total_bytes_read s + int m, ci_input := Some bs\<rparr>)
            = drop n (ci_raw s) \<and> CurrentPosition s + int n
          \<le> CurrentPosition (?z\<lparr>ci_total_bytes_read := ci_total_bytes_read s + int m, ci_input := Some bs\<rparr>)"
        by (rule ci_frame_raw [of _ "nat (BufferSize s) + m"])
           (use assms that a pos c in \<open>auto simp: ci_inv_def null_buffer_def closest_limit_def
              CurrentPosition_def BufferSize_def pending_def ci_raw_def k\<close>)
      ultimately show ?thesis
        using assms that a pos c
        by (simp add: ci_frame_def) (auto simp: ci_inv_def null_buffer_def closest_limit_def CurrentPosition_def
            BufferSize_def pending_def)
    qed
    show ?thesis
    proof (cases "ci_input s")
      case None
      have "\<exists>n. ci_raw ?z = drop n (ci_raw s) \<and> CurrentPosition s + int n \<le> CurrentPosition ?z"
        by (rule ci_frame_raw [of _ "nat (BufferSize s)"])
           (use assms a pos c None in \<open>auto simp: ci_inv_def null_buffer_def CurrentPosition_def
              BufferSize_def pending_def ci_raw_def\<close>)
      then have "ci_frame s ?z"
        using assms a pos c fl None
        by (simp add: ci_frame_def) (auto simp: ci_inv_def null_buffer_def closest_limit_def CurrentPosition_def
            BufferSize_def pending_def)
      then show ?thesis
        using fl [OF None] 4 c by (intro exI [of _ False] exI [of _ ?z]) (simp add: Skip_def Let_def z None)
    next
      case (Some input)
      let ?t = "\<lambda>m. ?z\<lparr>ci_total_bytes_read := ci_total_bytes_read s + int m,
          ci_input := Some (snd (input_skip m input))\<rparr>"
      have t: "int m \<le> ?u \<Longrightarrow> ci_frame s (?t m)" for m
        by (rule fr [OF _ Some]) (simp_all add: input_skip_concat)
      have "?z\<lparr>ci_total_bytes_read := ci_total_bytes_read s, ci_input := Some input\<rparr> = ?z"
        using Some by (simp add: null_buffer_def)
      then have "ci_frame s ?z" using fr [of 0 input input] Some a by simp
      moreover have "ci_frame s (?t (nat ?n))" if "?n \<le> ?u" using t [of "nat ?n"] that 4 by simp
      moreover have "ci_frame s (?t (nat ?u))" using t [of "nat ?u"] a by simp
      ultimately show ?thesis using 4 c a by (auto simp: Skip_def Let_def z Some)
    qed
  qed
qed

text \<open>Within the limit, \<open>Skip\<close> on a flat stream is exact.\<close>

lemma Skip_buffered:
  "ci_inv s \<Longrightarrow> 0 \<le> n \<Longrightarrow> n \<le> BufferSize s \<Longrightarrow> Skip n s = Some (True, Advance n s)"
  by (simp add: Skip_def)

subsection \<open>Varints\<close>

lemma varint_scan_append:
  "varint_scan k xs \<noteq> Truncated \<Longrightarrow> varint_scan k (xs @ ys) = varint_scan k xs"
  by (induction k xs rule: varint_scan.induct) (auto split: scan_result.splits if_splits)

lemma varint_scan_ends:
  assumes "k \<le> length xs \<or> xs \<noteq> [] \<and> unat (last xs) < 128"
  shows "varint_scan k xs \<noteq> Truncated"
  using assms by (induction k xs rule: varint_scan.induct) (auto split: scan_result.splits if_splits)

lemma varint_fits_cases:
  assumes "ci_inv s"
  obtains fits mem where "varint_fits s = Some fits" "ci_mem s = Some mem"
    "fits \<Longrightarrow> varint_scan 10 mem = varint_scan 10 (avail s)"
    "fits \<Longrightarrow> varint_scan 10 mem = varint_scan 10 (buf s)"
    "fits \<Longrightarrow> varint_scan 10 mem \<noteq> Truncated"
    "\<not> fits \<Longrightarrow> BufferSize s = 0 \<or> 0 < BufferSize s"
proof -
  have i: "0 \<le> ci_buffer s" "0 \<le> ci_buffer_size_after_limit s" "ci_buffer s \<le> ci_buffer_end s"
    "ci_buffer_end s + ci_buffer_size_after_limit s = int (length (ci_block s))"
    using assms by (auto simp: ci_inv_def)
  let ?m = "drop (nat (ci_buffer s)) (ci_block s)"
  have m: "ci_mem s = Some ?m" using i by (simp add: ci_mem_def)
  have bm: "buf s @ drop (nat (BufferSize s)) ?m = ?m" unfolding buf_def by (rule append_take_drop_id)
  have l: "last (buf s) = ci_block s ! nat (ci_buffer_end s - 1)" "buf s \<noteq> []"
    "nat (ci_buffer_end s - 1) < length (ci_block s)" if "ci_buffer_end s > ci_buffer s"
  proof -
    have n: "length (buf s) = nat (BufferSize s)" using buf_length [OF assms] by simp
    then show ne: "buf s \<noteq> []" using that by (auto simp: BufferSize_def)
    have "last (buf s) = buf s ! (nat (BufferSize s) - 1)" using ne n by (simp add: last_conv_nth)
    also have "\<dots> = ci_block s ! (nat (ci_buffer s) + (nat (BufferSize s) - 1))"
      using that i by (simp add: buf_def BufferSize_def)
    also have "nat (ci_buffer s) + (nat (BufferSize s) - 1) = nat (ci_buffer_end s - 1)"
      using that i by (simp add: BufferSize_def)
    finally show "last (buf s) = ci_block s ! nat (ci_buffer_end s - 1)" .
    show "nat (ci_buffer_end s - 1) < length (ci_block s)" using that i by linarith
  qed
  define fits where "fits \<longleftrightarrow> 10 \<le> length (buf s) \<or> buf s \<noteq> [] \<and> unat (last (buf s)) < 128"
  have lb: "10 \<le> length (buf s) \<longleftrightarrow> 10 \<le> BufferSize s" "buf s \<noteq> [] \<longleftrightarrow> ci_buffer_end s > ci_buffer s"
    using buf_length [OF assms] by (auto simp: BufferSize_def simp flip: length_greater_0_conv)
  have "varint_fits s = Some fits"
    using l i lb
    by (auto simp: varint_fits_def fits_def kMaxVarintBytes_def ci_at_def mem_at_def byte_and_0x80)
  moreover have "fits \<Longrightarrow> varint_scan 10 (buf s) \<noteq> Truncated"
    unfolding fits_def by (rule varint_scan_ends)
  moreover from this have "fits \<Longrightarrow> varint_scan 10 ?m = varint_scan 10 (buf s)"
    by (subst bm [symmetric]) (rule varint_scan_append)
  moreover have "fits \<Longrightarrow> varint_scan 10 (avail s) = varint_scan 10 (buf s)"
    using calculation(2) unfolding avail_buf [OF assms] by (rule varint_scan_append)
  moreover have "BufferSize s = 0 \<or> 0 < BufferSize s" using BufferSize_nonneg [OF assms] by linarith
  ultimately show thesis
    using m by (intro that [of fits ?m]) simp_all
qed


lemma ci_at_buffer:
  assumes "ci_inv s" "0 \<le> i" "i < BufferSize s"
  shows "ci_at s (ci_buffer s + i) = Some (avail s ! nat i)" "nat i < length (avail s)"
proof -
  have l: "nat i < length (buf s)" using buf_length [OF assms(1)] assms(2,3) by linarith
  then show "nat i < length (avail s)" by (simp add: avail_buf [OF assms(1)])
  have "0 \<le> ci_buffer s" "0 \<le> ci_buffer_size_after_limit s" using assms(1) by (auto simp: ci_inv_def)
  moreover from this have "ci_buffer s + i < int (length (ci_block s))"
    using assms by (auto simp: ci_inv_def BufferSize_def)
  ultimately show "ci_at s (ci_buffer s + i) = Some (avail s ! nat i)"
    using l assms
    by (auto simp: ci_at_def mem_at_def avail_buf [OF assms(1)] nth_append) (simp add: buf_def nat_add_distrib)
qed

lemma hd_drop_1: "0 < length xs \<Longrightarrow> xs = xs ! 0 # drop 1 xs"
  by (cases xs) simp_all

lemma nat_low7: "(ucast ((ucast (b :: byte) :: u32) AND 0x7F) :: u64) = of_nat (unat b mod 128)"
proof -
  have "(ucast b :: u32) AND 0x7F = take_bit 7 (ucast b)"
    by (simp add: take_bit_eq_mask mask_eq_exp_minus_1)
  then have "(ucast ((ucast b :: u32) AND 0x7F) :: u64) = take_bit 7 (ucast b)"
    by (simp add: unsigned_take_bit_eq flip: unsigned_ucast_eq) (rule bit_eqI, auto simp: bit_simps)
  also have "\<dots> = of_nat (take_bit 7 (unat b))"
    by (rule bit_eqI) (auto simp: bit_simps)
  finally show ?thesis by (simp add: take_bit_eq_mod)
qed

lemma low7_or_high: "of_nat (n mod 128) OR push_bit 7 (of_nat v) = (of_nat (n mod 128 + 128 * v) :: u64)"
proof -
  have d: "(of_nat (n mod 128) :: u64) AND push_bit 7 (of_nat v) = 0"
  proof (rule bit_eqI)
    fix i
    have "(of_nat (n mod 128) :: u64) = take_bit 7 (of_nat n)"
      unfolding take_bit_of_nat by (rule arg_cong [of _ _ of_nat]) (simp add: take_bit_eq_mod)
    then show "bit ((of_nat (n mod 128) :: u64) AND push_bit 7 (of_nat v)) i = bit (0 :: u64) i"
      by (auto simp: bit_simps)
  qed
  show ?thesis
    unfolding disjunctive_add_eq_or [OF d, symmetric] by (simp add: push_bit_eq_mult)
qed

text \<open>The slow loop, with \<open>count\<close> bytes read already.\<close>

lemma ReadVarint64Slow_loop_eq:
  assumes "ci_inv s"
  shows "\<exists>s'. (case varint_scan k (avail s) of
       Scanned v n \<Rightarrow> ReadVarint64Slow_loop k result count s
                          = Some (Some (result OR push_bit (7 * count) (of_nat v)), s') \<and> adv n s s'
     | _ \<Rightarrow> ReadVarint64Slow_loop k result count s = Some (None, s') \<and> ci_frame s s')
     \<and> ci_last_tag s' = ci_last_tag s"
  using assms
proof (induction k arbitrary: s result count)
  case 0
  then show ?case by (simp add: ci_frame_refl)
next
  case (Suc k)
  obtain ok t where t: "refresh_while_empty s = Some (ok, t)" "adv 0 s t" "\<not> ok \<Longrightarrow> avail s = []"
    "ok \<Longrightarrow> ci_buffer t < ci_buffer_end t" "ci_last_tag t = ci_last_tag s"
    using Suc.prems by (rule refresh_while_empty_cases) blast
  show ?case
  proof (cases ok)
    case False
    with t show ?thesis by (auto intro: adv_frame)
  next
    case True
    note inv = adv_inv [OF t(2)]
    have lt: "ci_buffer t < ci_buffer_end t" using t True by simp
    then have bs: "0 \<le> (1 :: int)" "1 \<le> BufferSize t" by (simp_all add: BufferSize_def)
    obtain b where b: "ci_at t (ci_buffer t) = Some b" "avail t = b # drop 1 (avail t)"
      using ci_at_buffer [OF inv, of 0] lt hd_drop_1 [of "avail t"] by (auto simp: BufferSize_def)
    note a = Advance_adv [OF inv bs]
    have st: "adv 1 s (Advance 1 t)" using adv_0_trans [OF t(2) a] by simp
    have av: "avail s = b # avail (Advance 1 t)"
      using b adv_avail [OF t(2)] adv_avail [OF a] by simp
    show ?thesis
    proof (cases "unat b < 128")
      case small: True
      then show ?thesis
        using t True b av st
        by (intro exI [of _ "Advance 1 t"]) (simp add: u32_byte_and_0x80 nat_low7)
    next
      case False
      let ?r = "result OR push_bit (7 * count) (of_nat (unat b mod 128)) :: u64"
      from Suc.IH [OF adv_inv [OF st], of ?r "Suc count"] obtain u where
        u: "case varint_scan k (avail (Advance 1 t)) of
             Scanned v n \<Rightarrow> ReadVarint64Slow_loop k ?r (Suc count) (Advance 1 t)
                          = Some (Some (?r OR push_bit (7 * Suc count) (of_nat v)), u) \<and> adv n (Advance 1 t) u
           | _ \<Rightarrow> ReadVarint64Slow_loop k ?r (Suc count) (Advance 1 t) = Some (None, u)
                  \<and> ci_frame (Advance 1 t) u"
          "ci_last_tag u = ci_last_tag (Advance 1 t)" by blast
      have j: "?r OR push_bit (7 * Suc count) (of_nat v)
          = result OR push_bit (7 * count) (of_nat (unat b - 128 + 128 * v))" for v
      proof -
        have "unat b mod 128 = unat b - 128"
          using False byte_lt_256 [of b] by (simp add: mod_if)
        moreover have "?r OR push_bit (7 * Suc count) (of_nat v) = result OR push_bit (7 * count)
            (of_nat (unat b mod 128) OR push_bit 7 (of_nat v))"
          by (simp add: push_bit_or or.assoc add.commute)
        ultimately show ?thesis using low7_or_high [of "unat b" v] by (simp only:)
      qed
      have step: "ReadVarint64Slow_loop (Suc k) result count s
          = ReadVarint64Slow_loop k ?r (Suc count) (Advance 1 t)"
        using t True b False by (simp add: u32_byte_and_0x80 nat_low7)
      have lt: "ci_last_tag u = ci_last_tag s" using u(2) t(5) by simp
      show ?thesis
      proof (cases "varint_scan k (avail (Advance 1 t))")
        case (Scanned v n)
        with u lt adv_trans [OF st, of n u] j [of v] False show ?thesis
          by (intro exI [of _ u]) (simp add: step av del: ReadVarint64Slow_loop.simps)
      qed (use u lt ci_frame_trans [OF adv_frame [OF st], of u] False in
          \<open>intro exI [of _ u], simp add: step av del: ReadVarint64Slow_loop.simps\<close>)+
    qed
  qed
qed

text \<open>
  \<open>varint_read s r\<close>: the outcome \<open>r\<close> of reading a varint in state \<open>s\<close> is the one the
  specification \<open>varint_scan\<close> gives on the available bytes.
\<close>

definition no_varint :: "coded_input \<Rightarrow> bool" where
  "no_varint s \<longleftrightarrow> (\<forall>v n. varint_scan 10 (avail s) \<noteq> Scanned v n)"

lemma no_varint_empty: "avail s = [] \<Longrightarrow> no_varint s"
  using varint_scan.simps(2) [of 9] by (simp add: no_varint_def)

lemma varint_cases:
  obtains (scanned) v n where "varint_scan 10 (avail s) = Scanned v n" | (none) "no_varint s"
  by (auto simp: no_varint_def)

definition varint_read :: "coded_input \<Rightarrow> ('a::len word option \<times> coded_input) option \<Rightarrow> bool" where
  "varint_read s r \<longleftrightarrow>
     (\<exists>v n s'. varint_scan 10 (avail s) = Scanned v n \<and> r = Some (Some (of_nat v), s') \<and> adv n s s'
             \<and> ci_last_tag s' = ci_last_tag s)
   \<or> (\<exists>s'. no_varint s \<and> r = Some (None, s') \<and> ci_frame s s' \<and> ci_last_tag s' = ci_last_tag s)"

lemma varint_buf_adv:
  assumes "ci_inv s" "varint_scan 10 (buf s) = Scanned v n"
  shows "adv n s (Advance (int n) s)"
proof -
  have "int n \<le> BufferSize s"
    using varint_scan_length [OF assms(2)] buf_length [OF assms(1)] by linarith
  with Advance_adv [OF assms(1), of "int n"] show ?thesis by simp
qed

lemma varint_read_fast:
  assumes "ci_inv s" "varint_scan 10 mem = varint_scan 10 (avail s)"
    "varint_scan 10 mem = varint_scan 10 (buf s)" "varint_scan 10 mem \<noteq> Truncated"
  shows "varint_read s (do { r \<leftarrow> scan_read (varint_scan 10 mem);
            case r of None \<Rightarrow> Some (None, s) | Some (v, n) \<Rightarrow> Some (Some v, Advance (int n) s) })"
proof (cases "varint_scan 10 (avail s)")
  case (Scanned v n)
  then have "varint_scan 10 (buf s) = Scanned v n" using assms by simp
  with varint_buf_adv [OF assms(1) this] Scanned assms(2) show ?thesis
    by (simp add: varint_read_def)
qed (use assms in \<open>simp_all add: varint_read_def no_varint_def ci_frame_refl\<close>)

lemma varint_read_one:
  assumes "ci_inv s" "ci_buffer s < ci_buffer_end s" "ci_at s (ci_buffer s) = Some b" "b < 0x80"
  shows "varint_read s (Some (Some (ucast b), Advance 1 s))" "adv 1 s (Advance 1 s)"
    "varint_scan 10 (avail s) = Scanned (unat b) 1"
proof -
  have bs: "0 < BufferSize s" using assms(2) by (simp add: BufferSize_def)
  have "avail s = b # drop 1 (avail s)"
    using ci_at_buffer [OF assms(1), of 0] bs assms(3) hd_drop_1 [of "avail s"] by simp
  then obtain r where r: "avail s = b # r" by blast
  have "(10 :: nat) = Suc 9" by simp
  then show sc: "varint_scan 10 (avail s) = Scanned (unat b) 1"
    using assms(4) by (simp only: r varint_scan.simps) (simp add: byte_less_0x80)
  show a: "adv 1 s (Advance 1 s)" using Advance_adv [OF assms(1), of 1] bs by simp
  have "ucast b = (of_nat (unat b) :: 'a::len word)" by (rule ucast_eq_of_nat)
  with sc a show "varint_read s (Some (Some (ucast b :: 'a word), Advance 1 s))"
    by (simp add: varint_read_def)
qed

lemma ReadVarint64Slow_read:
  assumes "ci_inv s"
  shows "varint_read s (ReadVarint64Slow s)"
  using ReadVarint64Slow_loop_eq [OF assms, of 10 0 0]
  by (cases "varint_scan 10 (avail s)")
     (auto simp: varint_read_def no_varint_def ReadVarint64Slow_def kMaxVarintBytes_def)

lemma varint_read_fallback:
  assumes "ci_inv s" "varint_read s (slow s)" "\<And>mem. fast mem = scan_read (varint_scan 10 mem)"
  shows "varint_read s
    (do { fits \<leftarrow> varint_fits s;
          if fits then
            do { mem \<leftarrow> ci_mem s;
                 r \<leftarrow> fast mem;
                 case r of
                   None \<Rightarrow> Some (None, s)
                 | Some (v, n) \<Rightarrow> Some (Some v, Advance (int n) s) }
          else slow s })"
  using assms(1)
proof (rule varint_fits_cases)
  fix fits mem
  assume f: "varint_fits s = Some fits" "ci_mem s = Some mem"
    "fits \<Longrightarrow> varint_scan 10 mem = varint_scan 10 (avail s)"
    "fits \<Longrightarrow> varint_scan 10 mem = varint_scan 10 (buf s)"
    "fits \<Longrightarrow> varint_scan 10 mem \<noteq> Truncated"
  show ?thesis
  proof (cases fits)
    case True
    with f varint_read_fast [OF assms(1), of mem] show ?thesis by (simp add: assms(3))
  qed (use f assms(2) in simp)
qed

lemma ReadVarint64Fallback_read: "ci_inv s \<Longrightarrow> varint_read s (ReadVarint64Fallback s)"
  unfolding ReadVarint64Fallback_def
  by (rule varint_read_fallback) (simp_all only: ReadVarint64Slow_read ReadVarint64FromArray_eq)

lemma varint_read_inline:
  assumes "ci_inv s" "varint_read s (fallback s)"
  shows "varint_read s
     (do { b \<leftarrow> (if ci_buffer s < ci_buffer_end s then map_option Some (ci_at s (ci_buffer s)) else Some None);
          case b of
            Some b \<Rightarrow> if b < 0x80 then Some (Some (ucast b), Advance 1 s) else fallback s
          | None \<Rightarrow> fallback s })"
proof (cases "ci_buffer s < ci_buffer_end s")
  case True
  then obtain b where b: "ci_at s (ci_buffer s) = Some b"
    using ci_at_buffer [OF assms(1), of 0] by (auto simp: BufferSize_def)
  show ?thesis
  proof (cases "b < 0x80")
    case lt: True
    with True b varint_read_one(1) [OF assms(1) True b lt, where ?'a = 'a] show ?thesis by simp
  qed (use True b assms in simp)
qed (use assms in simp)

lemma ReadVarint64_read: "ci_inv s \<Longrightarrow> varint_read s (ReadVarint64 s)"
  unfolding ReadVarint64_def by (intro varint_read_inline ReadVarint64Fallback_read)

lemma ucast_of_nat_u64: "(ucast (of_nat v :: u64) :: u32) = of_nat v"
  by (rule bit_eqI) (auto simp: bit_simps)

lemma ReadVarint32Slow_read: "ci_inv s \<Longrightarrow> varint_read s (ReadVarint32Slow s)"
  using ReadVarint64Fallback_read [of s]
  by (auto simp: varint_read_def ReadVarint32Slow_def ucast_of_nat_u64)

lemma ReadVarint32Fallback_read: "ci_inv s \<Longrightarrow> varint_read s (ReadVarint32Fallback s)"
  unfolding ReadVarint32Fallback_def
  by (rule varint_read_fallback) (simp_all only: ReadVarint32Slow_read ReadVarint32FromArray_eq)

lemma ReadVarint32_read: "ci_inv s \<Longrightarrow> varint_read s (ReadVarint32 s)"
  unfolding ReadVarint32_def by (intro varint_read_inline ReadVarint32Fallback_read)

subsection \<open>Tags\<close>

text \<open>
  The tag a reader returns is the varint, or 0 where there is none; at the end of the
  bytes before an ordinary limit it also marks a legitimate end of message.
\<close>

definition at_end :: "coded_input \<Rightarrow> bool" where
  "at_end s \<longleftrightarrow> avail s = [] \<and> ci_current_limit s \<le> ci_total_bytes_limit s"

definition tag_read :: "coded_input \<Rightarrow> (u32 \<times> coded_input) option \<Rightarrow> bool" where
  "tag_read s r \<longleftrightarrow>
     (\<exists>v n s'. varint_scan 10 (avail s) = Scanned v n \<and> r = Some (of_nat v, s') \<and> adv n s s')
   \<or> (\<exists>s'. no_varint s \<and> r = Some (0, s') \<and> ci_frame s s'
         \<and> (at_end s \<longrightarrow> adv 0 s s' \<and> ci_legitimate_message_end s'))"

lemma Refresh_stop:
  assumes "ci_inv s" "BufferSize s = 0" "at_end s"
  obtains s' where "Refresh s = Some (False, s')" "adv 0 s s'"
    "ci_total_bytes_limit s \<le> ci_total_bytes_read s' - ci_buffer_size_after_limit s'
       \<Longrightarrow> ci_current_limit s = ci_total_bytes_limit s"
proof (cases "ci_buffer_size_after_limit s > 0 \<or> ci_total_bytes_read s = ci_current_limit s")
  case True
  with assms show thesis
    by (intro that [of s]) (auto simp: at_end_def Refresh_warned adv_refl ci_inv_def closest_limit_def)
next
  case False
  have le: "ci_total_bytes_read s < ci_current_limit s" "ci_buffer_size_after_limit s = 0"
    using False assms by (auto simp: ci_inv_def closest_limit_def at_end_def)
  have "ci_input s \<noteq> None" using assms(1) le by (auto simp: ci_inv_def)
  then obtain input where i: "ci_input s = Some input" by blast
  have "pending s = []"
    using assms(3) le by (auto simp: avail_buf [OF assms(1)] at_end_def closest_limit_def min_def split: if_splits)
  then have n: "NextNonEmpty input = None"
    using i NextNonEmpty_Some [of input] by (cases "NextNonEmpty input") (auto simp: pending_def simp del: concat_eq_Nil_conv)
  have "(null_buffer (warned s))\<lparr>ci_input := Some []\<rparr> = warned ((null_buffer s)\<lparr>ci_input := Some []\<rparr>)"
    by (simp add: null_buffer_def warned_def)
  then show thesis
    using null_adv [of "warned s" input] assms False i n le
    by (intro that [of "(null_buffer (warned s))\<lparr>ci_input := Some []\<rparr>"])
       (simp_all add: Refresh_warned, simp add: null_buffer_def at_end_def)
qed

lemma ReadTagSlow_empty:
  assumes "ci_inv s" "at_end s"
  shows "tag_read s (ReadTagSlow s)"
proof -
  have bs: "BufferSize s = 0"
    using buf_le_avail [OF assms(1)] BufferSize_nonneg [OF assms(1)] assms(2) by (simp add: at_end_def)
  obtain t where t: "Refresh s = Some (False, t)" "adv 0 s t"
    "ci_total_bytes_limit s \<le> ci_total_bytes_read t - ci_buffer_size_after_limit t
     \<Longrightarrow> ci_current_limit s = ci_total_bytes_limit s"
    using assms(1) bs assms(2) by (rule Refresh_stop) blast
  have "ci_current_limit t = ci_current_limit s" "ci_total_bytes_limit t = ci_total_bytes_limit s"
    using t(2) by (simp_all add: adv_def ci_frame_def)
  with t bs assms(2) no_varint_empty [of s] show ?thesis
    by (auto simp: tag_read_def ReadTagSlow_def BufferSize_def Let_def adv_frame at_end_def)
qed

lemma ReadTagSlow_varint:
  assumes "adv 0 s t" "\<not> at_end s"
  shows "tag_read s (do { (r, s) \<leftarrow> ReadVarint64 t; Some (case r of None \<Rightarrow> 0 | Some v \<Rightarrow> ucast v, s) })"
proof -
  have inv: "ci_inv t" and av: "avail t = avail s"
    using adv_inv [OF assms(1)] adv_avail [OF assms(1)] by simp_all
  then have nv: "no_varint t = no_varint s" by (simp add: no_varint_def)
  from ReadVarint64_read [OF inv] show ?thesis
    unfolding varint_read_def av nv
  proof (elim disjE exE conjE)
    fix v n s' assume "varint_scan 10 (avail s) = Scanned v n" "ReadVarint64 t = Some (Some (of_nat v), s')"
      "adv n t s'"
    with adv_0_trans [OF assms(1)] show ?thesis by (simp add: tag_read_def ucast_of_nat_u64)
  next
    fix s' assume "no_varint s" "ReadVarint64 t = Some (None, s')" "ci_frame t s'"
    with ci_frame_trans [OF adv_frame [OF assms(1)]] assms(2) show ?thesis by (simp add: tag_read_def)
  qed
qed

lemma ReadTagSlow_read:
  assumes "ci_inv s"
  shows "tag_read s (ReadTagSlow s)"
proof (cases "at_end s")
  case True
  with assms show ?thesis by (rule ReadTagSlow_empty)
next
  case ne: False
  show ?thesis
  proof (cases "ci_buffer s = ci_buffer_end s")
    case True
    then have "BufferSize s = 0" by (simp add: BufferSize_def)
    with assms obtain ok t where t: "Refresh s = Some (ok, t)" "adv 0 s t" "\<not> ok \<Longrightarrow> avail s = []"
      by (rule Refresh_cases) blast
    show ?thesis
    proof (cases ok)
      case ok: True
      with True t ReadTagSlow_varint [OF t(2) ne] show ?thesis by (simp add: ReadTagSlow_def)
    next
      case False
      with True t ne no_varint_empty [of s] show ?thesis
        by (simp add: tag_read_def ReadTagSlow_def Let_def adv_frame)
    qed
  next
    case False
    with ReadTagSlow_varint [OF adv_refl [OF assms] ne] show ?thesis by (simp add: ReadTagSlow_def)
  qed
qed

lemma ReadTagFallback_read:
  assumes "ci_inv s"
  shows "tag_read s (ReadTagFallback s)"
  using assms
proof (rule varint_fits_cases)
  fix fits mem
  assume f: "varint_fits s = Some fits" "ci_mem s = Some mem"
    "fits \<Longrightarrow> varint_scan 10 mem = varint_scan 10 (avail s)"
    "fits \<Longrightarrow> varint_scan 10 mem = varint_scan 10 (buf s)"
    "fits \<Longrightarrow> varint_scan 10 mem \<noteq> Truncated"
  let ?limit = "BufferSize s = 0
      \<and> (ci_buffer_size_after_limit s > 0 \<or> ci_total_bytes_read s = ci_current_limit s)
      \<and> ci_total_bytes_read s - ci_buffer_size_after_limit s < ci_total_bytes_limit s"
  show ?thesis
  proof (cases fits)
    case True
    with f have ne: "\<not> at_end s" using varint_scan.simps(2) [of 9] by (auto simp: at_end_def)
    show ?thesis
    proof (cases "varint_scan 10 (buf s)")
      case (Scanned v n)
      with True f(3,4) have "varint_scan 10 mem = Scanned v n" "varint_scan 10 (avail s) = Scanned v n"
        by simp_all
      with True f(1,2) varint_buf_adv [OF assms Scanned] show ?thesis
        by (simp add: tag_read_def ReadTagFallback_def ReadVarint32FromArray_eq)
    qed (use True f ne assms in
      \<open>simp_all add: tag_read_def ReadTagFallback_def ReadVarint32FromArray_eq no_varint_def ci_frame_refl\<close>)
  next
    case nf: False
    show ?thesis
    proof (cases ?limit)
      case True
      then have "closest_limit s \<le> ci_total_bytes_read s"
        using assms by (auto simp: ci_inv_def closest_limit_def)
      with True have "avail s = []" by (simp add: avail_buf [OF assms] buf_def)
      with True nf f assms no_varint_empty [of s] show ?thesis
        by (simp add: tag_read_def ReadTagFallback_def adv_refl ci_frame_refl)
    next
      case False
      then have "ReadTagFallback s = ReadTagSlow s"
        using f nf unfolding ReadTagFallback_def by (simp only: Option.bind.simps if_False)
      with ReadTagSlow_read [OF assms] show ?thesis by simp
    qed
  qed
qed

text \<open>\<open>ReadTag\<close> also records the tag it returns.\<close>

lemma tag_read_last_tag:
  assumes "tag_read s r"
  shows "tag_read s (do { (tag, s) \<leftarrow> r; Some (tag, s\<lparr>ci_last_tag := tag\<rparr>) })"
  using assms unfolding tag_read_def by (elim disjE exE conjE) simp_all

lemma tag_read_one:
  assumes "ci_inv s" "ci_buffer s < ci_buffer_end s" "ci_at s (ci_buffer s) = Some b" "b < 0x80"
  shows "tag_read s (Some (ucast b, Advance 1 (s\<lparr>ci_last_tag := ucast b\<rparr>)))"
proof -
  note one = varint_read_one [OF assms]
  have "Advance 1 (s\<lparr>ci_last_tag := t\<rparr>) = (Advance 1 s)\<lparr>ci_last_tag := t\<rparr>" for t
    by (simp add: Advance_def)
  with one show ?thesis by (simp add: tag_read_def)
qed

lemma ReadTag_read:
  assumes "ci_inv s"
  shows "tag_read s (ReadTag s)"
proof (cases "ci_buffer s < ci_buffer_end s")
  case True
  then obtain b where b: "ci_at s (ci_buffer s) = Some b"
    using ci_at_buffer [OF assms, of 0] by (auto simp: BufferSize_def)
  show ?thesis
  proof (cases "b < 0x80")
    case lt: True
    with True b tag_read_one [OF assms True b lt] show ?thesis by (simp add: ReadTag_def)
  next
    case False
    with True b tag_read_last_tag [OF ReadTagFallback_read [OF assms]] show ?thesis
      by (simp add: ReadTag_def)
  qed
next
  case False
  with tag_read_last_tag [OF ReadTagFallback_read [OF assms]] show ?thesis
    by (simp add: ReadTag_def)
qed

lemma ReadTag_last_tag: "ReadTag s = Some (tag, s') \<Longrightarrow> ci_last_tag s' = tag"
  by (auto simp: ReadTag_def split: bind_splits option.splits if_splits)

text \<open>
  \<open>ReadTagWithCutoff\<close> is \<open>ReadTag\<close> with the comparison: its second component says whether the
  tag is at most the cutoff, for every tag but 0.
\<close>

lemma byte_bit_7: "unat (b :: byte) < 128 \<longleftrightarrow> \<not> bit b 7"
  using byte_and_0x80 [of b] and_exp_eq_0_iff_not_bit [of b 7] by simp

lemma byte_ge_0x80: "(b :: byte) \<ge> 0x80 \<longleftrightarrow> bit b 7"
  using byte_bit_7 [of b] by (simp add: word_le_nat_alt linorder_not_less [symmetric])

lemma sint_byte_pos: "0 < sint (b :: byte) \<Longrightarrow> unat b < 128"
  using bit_last_iff [of b] by (auto simp: byte_bit_7)

lemma tag_pred_less: "tag \<noteq> (0 :: u32) \<Longrightarrow> tag - 1 < cutoff \<longleftrightarrow> tag \<le> cutoff"
  by (cases "unat tag") (auto simp: word_less_nat_alt word_le_nat_alt unat_minus_one unat_0_iff)

lemma two_byte_tag:
  assumes "unat (b0 :: byte) \<ge> 128" "unat (b1 :: byte) < 128"
  shows "(push_bit 7 1 * ucast b1 + (ucast b0 - 0x80) :: u32) = of_nat (unat b0 - 128 + 128 * unat b1)"
    "unat (push_bit 7 1 * ucast b1 + (ucast b0 - 0x80) :: u32) = unat b0 - 128 + 128 * unat b1"
    "unat b0 - 128 + 128 * unat b1 \<le> 16383"
proof -
  show le: "unat b0 - 128 + 128 * unat b1 \<le> 16383"
    using assms byte_lt_256 [of b0] by simp
  show eq: "(push_bit 7 1 * ucast b1 + (ucast b0 - 0x80) :: u32) = of_nat (unat b0 - 128 + 128 * unat b1)"
    using assms by (simp add: of_nat_diff)
  show "unat (push_bit 7 1 * ucast b1 + (ucast b0 - 0x80) :: u32) = unat b0 - 128 + 128 * unat b1"
    unfolding eq unat_of_nat using le by simp
qed

lemma varint_scan_2:
  assumes "1 < length bs" "bs ! 0 = b0" "bs ! 1 = b1" "unat b0 \<ge> 128" "unat b1 < 128"
  shows "varint_scan 10 bs = Scanned (unat b0 - 128 + 128 * unat b1) 2"
proof -
  obtain r where "bs = b0 # b1 # r" using assms by (cases bs; cases "tl bs") auto
  moreover have "(10 :: nat) = Suc (Suc 8)" by simp
  ultimately show ?thesis using assms(4,5) by (simp only: varint_scan.simps) simp
qed

lemma ReadTagWithCutoff_read:
  assumes "ci_inv s"
  obtains tag in_range s' where "ReadTagWithCutoff cutoff s = Some ((tag, in_range), s')"
    "tag_read s (Some (tag, s'))" "ci_last_tag s' = tag"
    "tag \<noteq> 0 \<Longrightarrow> in_range \<longleftrightarrow> tag \<le> cutoff"
proof -
  note goal = that
  let ?slow = "do { (tag, s) \<leftarrow> ReadTagFallback s; Some ((tag, tag - 1 < cutoff), s\<lparr>ci_last_tag := tag\<rparr>) }"
  have slow_path: thesis if r: "ReadTagWithCutoff cutoff s = ?slow"
  proof -
    obtain tag t where t: "ReadTagFallback s = Some (tag, t)"
      using ReadTagFallback_read [OF assms] by (auto simp: tag_read_def)
    have "tag_read s (Some (tag, t\<lparr>ci_last_tag := tag\<rparr>))"
      using tag_read_last_tag [OF ReadTagFallback_read [OF assms]] t by simp
    with r t tag_pred_less show thesis by (intro goal [of tag "tag - 1 < cutoff" "t\<lparr>ci_last_tag := tag\<rparr>"]) simp_all
  qed
  show thesis
  proof (cases "ci_buffer s < ci_buffer_end s")
    case False
    then show thesis by (intro slow_path) (simp add: ReadTagWithCutoff_def Let_def)
  next
    case True
    then obtain b0 where b0: "ci_at s (ci_buffer s) = Some b0" "avail s ! 0 = b0"
      using ci_at_buffer [OF assms, of 0] by (auto simp: BufferSize_def)
    consider (one) "0 < sint b0" | (slow) "\<not> 0 < sint b0" "\<not> (cutoff \<ge> 0x80 \<and> ci_buffer s + 1 < ci_buffer_end s)"
      | (two) "\<not> 0 < sint b0" "cutoff \<ge> 0x80" "ci_buffer s + 1 < ci_buffer_end s" by blast
    then show thesis
    proof cases
      case one
      then have lt: "unat b0 < 128" by (rule sint_byte_pos)
      let ?s = "Advance 1 (s\<lparr>ci_last_tag := ucast b0\<rparr>)"
      have "tag_read s (Some (ucast b0, ?s))"
        using assms True b0(1) lt by (intro tag_read_one) (simp_all add: byte_less_0x80)
      moreover have "(cutoff \<ge> 0x7F \<or> ucast b0 \<le> cutoff) = (ucast b0 \<le> cutoff)"
        using lt by (auto simp: word_le_nat_alt unsigned_ucast_eq take_bit_nat_eq_self)
      ultimately show thesis
        using one True b0
        by (intro goal [of "ucast b0" "cutoff \<ge> 0x7F \<or> ucast b0 \<le> cutoff" ?s])
           (simp_all add: ReadTagWithCutoff_def Let_def)
    next
      case slow
      with True b0 show thesis by (intro slow_path) (auto simp: ReadTagWithCutoff_def Let_def)
    next
      case two
      then obtain b1 where b1: "ci_at s (ci_buffer s + 1) = Some b1" "1 < length (avail s)" "avail s ! 1 = b1"
        using ci_at_buffer [OF assms, of 1] by (auto simp: BufferSize_def)
      show thesis
      proof (cases "(b0 AND NOT b1) \<ge> 0x80")
        case False
        with two True b0 b1 show thesis by (intro slow_path) (simp add: ReadTagWithCutoff_def Let_def)
      next
        case cont: True
        then have b: "unat b0 \<ge> 128" "unat b1 < 128"
          using byte_bit_7 [of b0] byte_bit_7 [of b1] by (auto simp: byte_ge_0x80 bit_simps)
        let ?tag = "push_bit 7 1 * ucast b1 + (ucast b0 - 0x80) :: u32"
        let ?s = "Advance 2 (s\<lparr>ci_last_tag := ?tag\<rparr>)"
        note tag = two_byte_tag [OF b]
        have "adv 2 s (Advance 2 s)"
          using Advance_adv [OF assms, of 2] two by (simp add: BufferSize_def)
        moreover have "?s = (Advance 2 s)\<lparr>ci_last_tag := ?tag\<rparr>" by (simp add: Advance_def)
        ultimately have "tag_read s (Some (?tag, ?s))"
          using varint_scan_2 [OF b1(2) b0(2) b1(3) b] tag(1) unfolding tag_read_def by auto
        moreover have "(cutoff \<ge> push_bit 7 0x7F + 0x7F \<or> ?tag \<le> cutoff) = (?tag \<le> cutoff)"
          using tag(2,3) by (auto simp: word_le_nat_alt)
        ultimately show thesis
          using two True cont b0 b1
          by (intro goal [of ?tag "cutoff \<ge> push_bit 7 0x7F + 0x7F \<or> ?tag \<le> cutoff" ?s])
             (simp_all add: ReadTagWithCutoff_def Let_def)
      qed
    qed
  qed
qed

text \<open>\<open>ExpectTag\<close> succeeds only where \<open>ReadTag\<close> would return the expected tag.\<close>

lemma ExpectTag_cases:
  assumes "ci_inv s"
  obtains (miss) "ExpectTag expected s = Some (False, s)"
  | (hit) s' n where "ExpectTag expected s = Some (True, s')"
      "varint_scan 10 (avail s) = Scanned (unat expected) n" "adv n s s'" "ci_last_tag s' = ci_last_tag s"
proof -
  consider (one) "unat expected < 128" "ci_buffer s < ci_buffer_end s"
    | (two) "128 \<le> unat expected" "unat expected < 16384" "BufferSize s \<ge> 2"
    | (other) "\<not> (unat expected < 128 \<and> ci_buffer s < ci_buffer_end s)"
        "\<not> (128 \<le> unat expected \<and> unat expected < 16384 \<and> BufferSize s \<ge> 2)" by linarith
  then show thesis
  proof cases
    case one
    then obtain b where b: "ci_at s (ci_buffer s) = Some b"
      using ci_at_buffer [OF assms, of 0] by (auto simp: BufferSize_def)
    show thesis
    proof (cases "ucast b = expected")
      case True
      then have "unat expected = unat b"
        using byte_lt_256 [of b] by (auto simp: unsigned_ucast_eq take_bit_nat_eq_self)
      with one b True varint_read_one [OF assms one(2) b] show thesis
        by (intro hit [of "Advance 1 s" 1]) (auto simp: ExpectTag_def word_less_nat_alt)
    qed (use one b miss in \<open>simp add: ExpectTag_def word_less_nat_alt\<close>)
  next
    case two
    then obtain b0 b1 where b: "ci_at s (ci_buffer s) = Some b0" "avail s ! 0 = b0"
      "ci_at s (ci_buffer s + 1) = Some b1" "1 < length (avail s)" "avail s ! 1 = b1"
      using ci_at_buffer [OF assms, of 0] ci_at_buffer [OF assms, of 1] by auto
    show thesis
    proof (cases "b0 = ucast (expected OR 0x80) \<and> b1 = ucast (drop_bit 7 expected)")
      case True
      then have "b0 = cont_byte (unat expected)" "b1 = of_nat (unat expected div 128)"
        by (simp_all add: ucast_or_0x80 ucast_drop_bit)
      then have u: "unat b0 = unat expected mod 128 + 128" "unat b1 = unat expected div 128"
        using two(2) by (simp_all only: unat_cont_byte unat_of_nat_byte) simp
      then have "varint_scan 10 (avail s) = Scanned (unat expected) 2"
        using varint_scan_2 [OF b(4,2,5)] two by simp
      moreover have "adv 2 s (Advance 2 s)" using Advance_adv [OF assms, of 2] two by simp
      ultimately show thesis
        using two b True by (intro hit [of "Advance 2 s" 2]) (auto simp: ExpectTag_def word_less_nat_alt)
    qed (use two b miss in \<open>auto simp: ExpectTag_def word_less_nat_alt\<close>)
  next
    case other
    with miss show thesis by (auto simp: ExpectTag_def word_less_nat_alt)
  qed
qed

lemma ExpectAtEnd_cases:
  assumes "ci_inv s"
  obtains (more) "ExpectAtEnd s = (False, s)"
  | (end_reached) "ExpectAtEnd s = (True, s\<lparr>ci_last_tag := 0, ci_legitimate_message_end := True\<rparr>)" "avail s = []"
proof (cases "ci_buffer s = ci_buffer_end s \<and> (ci_buffer_size_after_limit s \<noteq> 0 \<or> ci_total_bytes_read s = ci_current_limit s)")
  case True
  then have "closest_limit s \<le> ci_total_bytes_read s"
    using assms by (auto simp: ci_inv_def closest_limit_def)
  with True have "avail s = []" by (simp add: avail_buf [OF assms] buf_def BufferSize_def)
  with True end_reached show thesis by (simp add: ExpectAtEnd_def)
next
  case False
  with more show thesis by (auto simp: ExpectAtEnd_def)
qed

subsection \<open>Little-endian integers\<close>

lemma ReadLittleEndian32FromArray_take:
  "4 \<le> length bs \<Longrightarrow> ReadLittleEndian32FromArray (take 4 bs) = ReadLittleEndian32FromArray bs
     \<and> (\<exists>v. ReadLittleEndian32FromArray bs = Some (v, 4))"
  by (auto simp: ReadLittleEndian32FromArray_def mem_at_def)

lemma ReadLittleEndian64FromArray_take:
  "8 \<le> length bs \<Longrightarrow> ReadLittleEndian64FromArray (take 8 bs) = ReadLittleEndian64FromArray bs
     \<and> (\<exists>v. ReadLittleEndian64FromArray bs = Some (v, 8))"
  by (auto simp: ReadLittleEndian64FromArray_def mem_at_def Let_def)

lemma ci_mem_prefix:
  assumes "ci_inv s" "int n \<le> BufferSize s"
  obtains mem where "ci_mem s = Some mem" "take n mem = take n (avail s)" "n \<le> length mem"
    "n \<le> length (avail s)"
proof -
  let ?d = "drop (nat (ci_buffer s)) (ci_block s)"
  have "0 \<le> ci_buffer s" "ci_buffer s \<le> int (length (ci_block s))"
    using assms(1) by (auto simp: ci_inv_def)
  then have "ci_mem s = Some ?d" by (simp add: ci_mem_def)
  moreover have "n \<le> length (buf s)" using buf_length [OF assms(1)] assms(2) by linarith
  moreover have "n \<le> nat (BufferSize s)" using assms(2) by linarith
  ultimately show thesis
    by (intro that [of ?d]) (auto simp: avail_buf [OF assms(1)] buf_def min_def split: if_splits)
qed

lemma ReadLittleEndian32_avail:
  assumes "ci_inv s"
  obtains (enough) v s' where "4 \<le> length (avail s)"
      "ReadLittleEndian32FromArray (avail s) = Some (v, 4)"
      "ReadLittleEndian32 s = Some (Some v, s')" "adv 4 s s'"
  | (short) s' where "length (avail s) < 4" "ReadLittleEndian32 s = Some (None, s')" "ci_frame s s'"
proof (cases "BufferSize s \<ge> 4")
  case True
  then obtain mem where m: "ci_mem s = Some mem" "take 4 mem = take 4 (avail s)" "4 \<le> length mem"
    "4 \<le> length (avail s)"
    using ci_mem_prefix [OF assms, of 4] by auto
  then obtain v where "ReadLittleEndian32FromArray mem = Some (v, 4)"
    "ReadLittleEndian32FromArray (avail s) = Some (v, 4)"
    using ReadLittleEndian32FromArray_take [of mem] ReadLittleEndian32FromArray_take [of "avail s"] by auto
  with True m Advance_adv [OF assms, of 4] show thesis
    by (intro enough [of v "Advance 4 s"])
       (simp_all add: ReadLittleEndian32_def ReadLittleEndian32Fallback_def)
next
  case False
  obtain t where t: "ReadRaw 4 s = Some ((take 4 (avail s), 4 \<le> length (avail s)), t)"
    "adv (min 4 (length (avail s))) s t"
    using ReadRaw_avail [OF assms, of 4] by auto
  show thesis
  proof (cases "4 \<le> length (avail s)")
    case True
    then obtain v where "ReadLittleEndian32FromArray (take 4 (avail s)) = Some (v, 4)"
      "ReadLittleEndian32FromArray (avail s) = Some (v, 4)"
      using ReadLittleEndian32FromArray_take [of "avail s"] by auto
    with False True t show thesis
      by (intro enough [of v t])
         (simp_all add: ReadLittleEndian32_def ReadLittleEndian32Fallback_def)
  next
    case nl: False
    with False t adv_frame [OF t(2)] show thesis
      by (intro short [of t]) (simp_all add: ReadLittleEndian32_def ReadLittleEndian32Fallback_def)
  qed
qed

lemma ReadLittleEndian64_avail:
  assumes "ci_inv s"
  obtains (enough) v s' where "8 \<le> length (avail s)"
      "ReadLittleEndian64FromArray (avail s) = Some (v, 8)"
      "ReadLittleEndian64 s = Some (Some v, s')" "adv 8 s s'"
  | (short) s' where "length (avail s) < 8" "ReadLittleEndian64 s = Some (None, s')" "ci_frame s s'"
proof (cases "BufferSize s \<ge> 8")
  case True
  then obtain mem where m: "ci_mem s = Some mem" "take 8 mem = take 8 (avail s)" "8 \<le> length mem"
    "8 \<le> length (avail s)"
    using ci_mem_prefix [OF assms, of 8] by auto
  then obtain v where "ReadLittleEndian64FromArray mem = Some (v, 8)"
    "ReadLittleEndian64FromArray (avail s) = Some (v, 8)"
    using ReadLittleEndian64FromArray_take [of mem] ReadLittleEndian64FromArray_take [of "avail s"] by auto
  with True m Advance_adv [OF assms, of 8] show thesis
    by (intro enough [of v "Advance 8 s"])
       (simp_all add: ReadLittleEndian64_def ReadLittleEndian64Fallback_def)
next
  case False
  obtain t where t: "ReadRaw 8 s = Some ((take 8 (avail s), 8 \<le> length (avail s)), t)"
    "adv (min 8 (length (avail s))) s t"
    using ReadRaw_avail [OF assms, of 8] by auto
  show thesis
  proof (cases "8 \<le> length (avail s)")
    case True
    then obtain v where "ReadLittleEndian64FromArray (take 8 (avail s)) = Some (v, 8)"
      "ReadLittleEndian64FromArray (avail s) = Some (v, 8)"
      using ReadLittleEndian64FromArray_take [of "avail s"] by auto
    with False True t show thesis
      by (intro enough [of v t])
         (simp_all add: ReadLittleEndian64_def ReadLittleEndian64Fallback_def)
  next
    case nl: False
    with False t adv_frame [OF t(2)] show thesis
      by (intro short [of t]) (simp_all add: ReadLittleEndian64_def ReadLittleEndian64Fallback_def)
  qed
qed

definition split_blocks :: "byte list list" where
  "split_blocks = [[0x96], [], [0x01, 7]]"

lemma split_blocks_stream:
  "ci_inv (the (CodedInputStream_new split_blocks))"
  "avail (the (CodedInputStream_new split_blocks)) = [0x96, 0x01, 7]"
proof -
  have "int (length (concat split_blocks)) \<le> INT_MAX" by (simp add: split_blocks_def INT_MAX_def)
  then obtain s where "CodedInputStream_new split_blocks = Some s" "ci_inv s"
    "avail s = take (nat kDefaultTotalBytesLimit) (concat split_blocks)"
    by (rule CodedInputStream_new_inv)
  then show "ci_inv (the (CodedInputStream_new split_blocks))"
    "avail (the (CodedInputStream_new split_blocks)) = [0x96, 0x01, 7]"
    by (simp_all add: split_blocks_def kDefaultTotalBytesLimit_def)
qed

subsection \<open>Properties\<close>

text \<open>
  C24: in every state of the stream, however its bytes are split into blocks
  and whatever limits are set, \<open>ReadVarint64\<close> and \<open>ReadVarint32\<close> return the varint that
  \<open>varint_scan\<close> finds in the available bytes and consume exactly its bytes; where there is none
  they fail without undefined behaviour. The fast paths, the slow paths and the refills agree.
\<close>
theorem stream_varint_read:
  assumes "ci_inv s"
  shows "(case varint_scan kMaxVarintBytes (avail s) of
            Scanned v n \<Rightarrow>
              (\<exists>s'. ReadVarint64 s = Some (Some (of_nat v), s') \<and> ci_inv s' \<and> avail s' = drop n (avail s))
            \<and> (\<exists>s'. ReadVarint32 s = Some (Some (of_nat v), s') \<and> ci_inv s' \<and> avail s' = drop n (avail s))
          | _ \<Rightarrow> (\<exists>s'. ReadVarint64 s = Some (None, s') \<and> ci_inv s')
              \<and> (\<exists>s'. ReadVarint32 s = Some (None, s') \<and> ci_inv s'))"
proof (cases s rule: varint_cases)
  case (scanned v n)
  with ReadVarint64_read [OF assms] ReadVarint32_read [OF assms] show ?thesis
    by (auto simp: varint_read_def no_varint_def kMaxVarintBytes_def intro: adv_inv dest: adv_avail)
next
  case none
  then have "\<exists>s'. ReadVarint64 s = Some (None, s') \<and> ci_inv s'" "\<exists>s'. ReadVarint32 s = Some (None, s') \<and> ci_inv s'"
    using ReadVarint64_read [OF assms] ReadVarint32_read [OF assms]
    by (auto simp: varint_read_def no_varint_def intro: ci_frame_inv)
  with none show ?thesis
    by (auto simp: no_varint_def kMaxVarintBytes_def split: scan_result.split)
qed

theorem stream_varint_read_witness:
  "\<exists>s'. ReadVarint64 (the (CodedInputStream_new split_blocks)) = Some (Some 150, s') \<and> ci_inv s' \<and> avail s' = [7]"
proof -
  have "varint_scan kMaxVarintBytes [0x96, 0x01, 7] = Scanned 150 2" by code_simp
  with stream_varint_read [OF split_blocks_stream(1)] show ?thesis
    by (simp add: split_blocks_stream(2))
qed



text \<open>
  C25: \<open>ReadTagWithCutoff\<close> returns the varint at the head of the available bytes
  and consumes it, records it as the last tag, and compares it with the cutoff as the plain
  comparison does; at the end of the bytes before an ordinary limit it returns 0 and
  \<open>ConsumedEntireMessage\<close> holds.
\<close>
theorem stream_tag_read:
  assumes "ci_inv s"
  shows "\<exists>tag in_range s'. ReadTagWithCutoff cutoff s = Some ((tag, in_range), s') \<and> ci_inv s'
       \<and> ci_last_tag s' = tag \<and> (tag = 0 \<or> in_range = (tag \<le> cutoff))
       \<and> (case varint_scan kMaxVarintBytes (avail s) of
            Scanned v n \<Rightarrow> tag = of_nat v \<and> avail s' = drop n (avail s)
          | _ \<Rightarrow> tag = 0)
       \<and> (if at_end s then tag = 0 \<and> ConsumedEntireMessage s' else True)"
proof -
  obtain tag in_range s' where r: "ReadTagWithCutoff cutoff s = Some ((tag, in_range), s')"
    "tag_read s (Some (tag, s'))" "ci_last_tag s' = tag" "tag \<noteq> 0 \<Longrightarrow> in_range \<longleftrightarrow> tag \<le> cutoff"
    using assms by (rule ReadTagWithCutoff_read) blast
  have e: "no_varint s" if "at_end s" using that by (simp add: at_end_def no_varint_empty)
  have "ci_inv s'" using r(2) by (auto simp: tag_read_def intro: adv_inv ci_frame_inv)
  moreover have "case varint_scan kMaxVarintBytes (avail s) of
            Scanned v n \<Rightarrow> tag = of_nat v \<and> avail s' = drop n (avail s) | _ \<Rightarrow> tag = 0"
    using r(2) by (auto simp: tag_read_def no_varint_def kMaxVarintBytes_def dest: adv_avail
        split: scan_result.split)
  moreover have "if at_end s then tag = 0 \<and> ConsumedEntireMessage s' else True"
    using r(2) e by (auto simp: tag_read_def no_varint_def ConsumedEntireMessage_def)
  ultimately show ?thesis using r by blast
qed

lemma stream_tag_read_witness:
  "\<exists>s'. ReadTagWithCutoff 200 (the (CodedInputStream_new split_blocks)) = Some ((150, True), s') \<and> avail s' = [7]"
proof -
  have "varint_scan kMaxVarintBytes [0x96, 0x01, 7] = Scanned 150 2" by code_simp
  with stream_tag_read [OF split_blocks_stream(1), of 200] show ?thesis
    by (auto simp: split_blocks_stream(2))
qed

text \<open>
  \<open>ReadString\<close> and \<open>ReadRaw\<close> of a non-negative length agree: they deliver the
  available bytes up to that length, report whether there were enough, and consume them.
\<close>
theorem stream_string_read:
  assumes "ci_inv s" "0 \<le> n"
  shows "\<exists>s'. ReadString b n s = Some ((take (nat n) (avail s), n \<le> int (length (avail s))), s')
         \<and> ReadRaw n s = ReadString b n s
         \<and> ci_inv s' \<and> avail s' = drop (nat n) (avail s)"
proof -
  have "ReadRaw n s = ReadString b n s"
  proof (cases "n \<le> BufferSize s")
    case True
    with assms show ?thesis
      by (subst ReadRaw.simps)
         (auto simp: ReadString_def InternalReadStringInline_def Advance_def ci_bytes_buf Let_def split: option.split)
  next
    case False
    with assms ReadStringFallback_loop_eq [OF assms, of "[]"] ReadRaw_avail [OF assms] show ?thesis
      by (auto simp: ReadString_def InternalReadStringInline_def ReadStringFallback_def)
  qed
  moreover obtain s' where "ReadString b n s = Some ((take (nat n) (avail s), n \<le> int (length (avail s))), s')"
    and a: "adv (min (nat n) (length (avail s))) s s'"
    using ReadString_avail [OF assms, of b] by blast
  moreover have "ci_inv s'" "avail s' = drop (nat n) (avail s)"
    using adv_inv [OF a] adv_avail [OF a] by (simp_all add: min_def)
  ultimately show ?thesis by auto
qed

lemma stream_string_read_witness:
  "\<exists>s'. ReadString [] 5 (the (CodedInputStream_new split_blocks)) = Some (([0x96, 0x01, 7], False), s') \<and> avail s' = []"
  using stream_string_read [OF split_blocks_stream(1), of 5 "[]"] by (auto simp: split_blocks_stream(2))

text \<open>
  C26: \<open>PushLimit\<close> narrows the available bytes to the next \<open>n\<close>; nothing read under
  the limit goes past it; \<open>PopLimit\<close> of the returned limit restores the rest of the bytes
  that were available before.
\<close>
theorem stream_limits:
  assumes "ci_inv s" "0 \<le> n" "nat n \<le> length (avail s)"
    and "adv m (snd (PushLimit n s)) t"
  shows "avail (snd (PushLimit n s)) = take (nat n) (avail s)
       \<and> ci_inv (snd (PushLimit n s))
       \<and> ci_inv (PopLimit (fst (PushLimit n s)) t)
       \<and> avail (PopLimit (fst (PushLimit n s)) t) = drop m (avail s)
       \<and> int m \<le> n"
proof -
  note pop = PushLimit_PopLimit [OF assms]
  show ?thesis
    using PushLimit_avail [OF assms(1-3)] PushLimit_inv [OF assms(1)] adv_inv [OF pop] adv_avail [OF pop]
      adv_length [OF assms(4)] assms(2) by auto
qed

lemma stream_limits_witness:
  "avail (snd (PushLimit 2 (the (CodedInputStream_new split_blocks)))) = [0x96, 0x01]"
  using stream_limits [OF split_blocks_stream(1) _ _ adv_refl [OF PushLimit_inv [OF split_blocks_stream(1)]], of 2]
  by (simp add: split_blocks_stream(2))

end
