(* ===== verification/WireLaws.thy ===== *)
theory WireLaws
  imports WireFormat StreamReads
begin

text \<open>
  Laws of the wire format: tags and zigzag codes, the sizes against the writers, and the
  unknown field sets.
\<close>

subsection \<open>Tags\<close>

lemma tag_bits:
  assumes "t < 8"
  shows "drop_bit 3 (push_bit 3 n OR t) = (n :: u32) AND mask 29" "(push_bit 3 n OR t) AND 7 = (t :: u32)"
proof -
  have t: "\<not> bit t i" if "3 \<le> i" for i
  proof -
    have "unat t < 2 ^ 3" using assms by (simp add: word_less_nat_alt)
    then have "\<not> bit (unat t) i"
      using that by (metis bit_take_bit_iff linorder_not_less take_bit_nat_eq_self)
    then show ?thesis by (simp add: bit_unsigned_iff)
  qed
  have m: "(7 :: u32) = mask 3" by (simp add: mask_eq_exp_minus_1)
  show "drop_bit 3 (push_bit 3 n OR t) = n AND mask 29"
    by (rule bit_eqI) (auto simp: bit_simps t)
  show "(push_bit 3 n OR t) AND 7 = t"
    unfolding m by (rule bit_eqI) (use t in \<open>auto simp: bit_simps linorder_not_le [symmetric] simp del: mask_numeral\<close>)
qed

lemma kTagTypeMask_7 [simp]: "kTagTypeMask = 7"
  by (simp add: kTagTypeMask_def kTagTypeBits_def)

lemma GetTagWireType_MakeTag: "t < 8 \<Longrightarrow> GetTagWireType (MakeTag n t) = t"
  by (simp add: GetTagWireType_def MakeTag_def kTagTypeBits_def tag_bits)

lemma GetTagFieldNumber_MakeTag: "t < 8 \<Longrightarrow> n < 2 ^ 29 \<Longrightarrow> GetTagFieldNumber (MakeTag n t) = n"
proof -
  assume "t < 8" "n < 2 ^ 29"
  then have "n AND mask 29 = n"
    by (metis less_mask_eq)
  with tag_bits(1) [OF \<open>t < 8\<close>, of n] show ?thesis
    by (simp only: GetTagFieldNumber_def MakeTag_def kTagTypeBits_def)
qed

lemma wire_types_small [simp]:
  "WIRETYPE_VARINT < 8" "WIRETYPE_FIXED64 < 8" "WIRETYPE_LENGTH_DELIMITED < 8"
  "WIRETYPE_START_GROUP < 8" "WIRETYPE_END_GROUP < 8" "WIRETYPE_FIXED32 < 8"
  by (simp_all add: wire_types)

lemma MakeTag_neq_0: "t < 8 \<Longrightarrow> n < 2 ^ 29 \<Longrightarrow> n \<noteq> 0 \<Longrightarrow> MakeTag n t \<noteq> 0"
  using GetTagFieldNumber_MakeTag [of t n] by (auto simp: GetTagFieldNumber_def)

subsection \<open>ZigZag\<close>

lemma zigzag_round_trip:
  fixes n :: "'a::len word"
  assumes "LENGTH('a) = Suc k"
  shows "drop_bit 1 (push_bit 1 n XOR signed_drop_bit k n) XOR (- ((push_bit 1 n XOR signed_drop_bit k n) AND 1)) = n"
proof -
  let ?z = "push_bit 1 n XOR signed_drop_bit k n"
  have s: "bit (signed_drop_bit k n) i \<longleftrightarrow> bit n k" if "i < LENGTH('a)" for i
    using that assms by (cases "i = 0") (auto simp: bit_signed_drop_bit_iff)
  have "\<not> bit (push_bit 1 n) 0" by (simp only: bit_push_bit_iff) simp
  then have odd: "odd ?z \<longleftrightarrow> bit n k"
    using s [of 0] by (simp only: bit_0 [symmetric] bit_xor_iff) simp
  have p: "bit (n * 2) (Suc i) \<longleftrightarrow> Suc i < LENGTH('a) \<and> bit n i" for i
    using bit_double_iff [of n "Suc i"] by (simp add: mult.commute)
  have "bit (drop_bit 1 ?z) i \<longleftrightarrow> i < k \<and> (bit n i \<noteq> bit n k)" for i
    using s [of "Suc i"] assms by (auto simp: bit_simps p dest: bit_imp_le_length)
  moreover have "bit (- (?z AND 1)) i \<longleftrightarrow> i < LENGTH('a) \<and> bit n k" for i
    using odd by (cases "odd ?z") (auto simp: and_one_eq odd_iff_mod_2_eq_one)
  ultimately show ?thesis
    by (intro bit_eqI) (use assms in \<open>auto simp: bit_xor_iff less_Suc_eq\<close>)
qed

subsection \<open>Sizes\<close>

named_theorems size_simps

lemma length_varint_writers [size_simps]:
  "int (length (WriteVarint32ToArray v)) = VarintSize32 v"
  "int (length (WriteVarint64ToArray w)) = VarintSize64 w"
  "int (length (WriteVarint32SignExtendedToArray i)) = VarintSize32SignExtended i"
  by (simp_all add: WriteVarint32ToArray_eq VarintSize32_eq WriteVarint64ToArray_eq VarintSize64_eq
      length_WriteVarint32SignExtendedToArray)

lemma length_WriteTagToArray_wf [size_simps]:
  "int (length (WriteTagToArray_wf n t)) = VarintSize32 (MakeTag n t)"
  by (simp add: WriteTagToArray_wf_def WriteTagToArray_eq VarintSize32_eq)

lemma length_fixed_writers [size_simps]:
  "length (WriteLittleEndian32ToArray v) = 4" "length (WriteLittleEndian64ToArray w) = 8"
  by (simp_all add: WriteLittleEndian32ToArray_def WriteLittleEndian64ToArray_def Let_def)

lemma length_WriteStringWithSizeToArray [size_simps]:
  "int (length (WriteStringWithSizeToArray v)) = BytesSize v"
  by (simp add: WriteStringWithSizeToArray_def WriteStringToArray_def WriteRawToArray_def
      BytesSize_def size_simps)

lemma length_wire_writers [size_simps]:
  "int (length (WriteInt32ToArray n i)) = VarintSize32 (MakeTag n WIRETYPE_VARINT) + Int32Size i"
  "int (length (WriteEnumToArray n i)) = VarintSize32 (MakeTag n WIRETYPE_VARINT) + EnumSize i"
  "int (length (WriteInt64ToArray n w)) = VarintSize32 (MakeTag n WIRETYPE_VARINT) + Int64Size w"
  "int (length (WriteFixed32ToArray n v)) = VarintSize32 (MakeTag n WIRETYPE_FIXED32) + 4"
  "int (length (WriteFixed64ToArray n w)) = VarintSize32 (MakeTag n WIRETYPE_FIXED64) + 8"
  "int (length (WriteBytesToArray n b)) = VarintSize32 (MakeTag n WIRETYPE_LENGTH_DELIMITED) + BytesSize b"
  by (simp_all add: size_simps WriteInt32ToArray_def WriteInt32NoTagToArray_def Int32Size_def
      WriteEnumToArray_def WriteEnumNoTagToArray_def EnumSize_def WriteInt64ToArray_def
      WriteInt64NoTagToArray_def Int64Size_def WriteFixed32ToArray_def WriteFixed32NoTagToArray_def
      WriteFixed64ToArray_def WriteFixed64NoTagToArray_def WriteBytesToArray_def)

lemma length_WriteMessageNoVirtualToArray [size_simps]:
  "int (length bs) = n \<Longrightarrow> int (length (WriteMessageNoVirtualToArray k n bs))
     = VarintSize32 (MakeTag k WIRETYPE_LENGTH_DELIMITED) + MessageSizeNoVirtual n"
  by (auto simp: WriteMessageNoVirtualToArray_def MessageSizeNoVirtual_def LengthDelimitedSize_def size_simps)

lemma length_SerializeUnknownFieldsToArray [size_simps]:
  "int (length (SerializeUnknownFieldsToArray u)) = ComputeUnknownFieldsSize u"
  by (induction u rule: SerializeUnknownFieldsToArray.induct)
     (simp_all add: size_simps Int64Size_def BytesSize_def)

lemma ComputeUnknownFieldsSize_nonneg: "0 \<le> ComputeUnknownFieldsSize u"
  by (simp flip: length_SerializeUnknownFieldsToArray)

subsection \<open>Unknown field sets\<close>

lemma UnknownFieldSet_MergeFrom_eq [simp]: "UnknownFieldSet_MergeFrom other ufs = ufs @ other"
  by (induction other ufs rule: UnknownFieldSet_MergeFrom.induct) (simp_all add: AddField_def)

lemma SerializeUnknownFieldsToArray_append:
  "SerializeUnknownFieldsToArray (u @ v) = SerializeUnknownFieldsToArray u @ SerializeUnknownFieldsToArray v"
  by (induction u rule: SerializeUnknownFieldsToArray.induct) simp_all

text \<open>The deleting loop: the kept fields before \<open>i\<close> are in front, the rest is untouched.\<close>

lemma DeleteByNumber_loop_eq:
  assumes "i + k = length ufs" "left \<le> i"
  shows "DeleteByNumber_loop k n i left ufs = take left ufs @ filter (\<lambda>f. uf_number f \<noteq> n) (drop i ufs)"
  using assms
proof (induction k n i left ufs rule: DeleteByNumber_loop.induct)
  case (2 k n i left ufs)
  from "2.prems" have d: "drop i ufs = ufs ! i # drop (Suc i) ufs"
    by (intro Cons_nth_drop_Suc [symmetric]) linarith
  show ?case
  proof (cases "uf_number (ufs ! i) = n")
    case True
    with 2 d show ?thesis by simp
  next
    case False
    let ?u = "if i \<noteq> left then ufs[left := ufs ! i] else ufs"
    have u: "?u = ufs[left := ufs ! i]" by simp
    have "take (Suc left) ?u = take left ufs @ [ufs ! i]" "drop (Suc i) ?u = drop (Suc i) ufs"
      using "2.prems" by (simp_all add: u take_Suc_conv_app_nth)
    moreover have "DeleteByNumber_loop k n (Suc i) (Suc left) ?u
        = take (Suc left) ?u @ filter (\<lambda>f. uf_number f \<noteq> n) (drop (Suc i) ?u)"
      using False "2.prems" by (intro "2.IH"(2)) auto
    ultimately show ?thesis
      using False d by simp
  qed
qed simp

lemma DeleteByNumber_eq: "DeleteByNumber n ufs = filter (\<lambda>f. uf_number f \<noteq> n) ufs"
  by (simp add: DeleteByNumber_def DeleteByNumber_loop_eq)

subsection \<open>Properties\<close>

text \<open>
  \<open>ComputeUnknownFieldsSize\<close> is the number of bytes that
  \<open>SerializeUnknownFieldsToArray\<close> writes, groups included; \<open>MergeFrom\<close> appends, on the fields
  and on their bytes; \<open>DeleteByNumber\<close>, which moves the kept fields down in place, is the
  filter.
\<close>
theorem unknown_field_sets:
  "ComputeUnknownFieldsSize u = int (length (SerializeUnknownFieldsToArray u))
   \<and> UnknownFieldSet_MergeFrom v u = u @ v
   \<and> SerializeUnknownFieldsToArray (UnknownFieldSet_MergeFrom v u)
       = SerializeUnknownFieldsToArray u @ SerializeUnknownFieldsToArray v
   \<and> DeleteByNumber n u = filter (\<lambda>f. uf_number f \<noteq> n) u"
  by (simp add: length_SerializeUnknownFieldsToArray SerializeUnknownFieldsToArray_append DeleteByNumber_eq)

text \<open>
  A tag gives back its field number, if that has at most 29 bits, and its
  wire type; the zigzag codes of both widths are inverted by their decoders.
\<close>
theorem tags_and_zigzag:
  assumes "n < 2 ^ 29" "t < 8"
  shows "GetTagFieldNumber (MakeTag n t) = n \<and> GetTagWireType (MakeTag n t) = t
    \<and> ZigZagDecode32 (ZigZagEncode32 i) = i \<and> ZigZagDecode64 (ZigZagEncode64 j) = j"
  using zigzag_round_trip [where n = i and k = 31] zigzag_round_trip [where n = j and k = 63]
  by (simp add: GetTagFieldNumber_MakeTag [OF assms(2,1)] GetTagWireType_MakeTag [OF assms(2)]
      ZigZagDecode32_def ZigZagEncode32_def ZigZagDecode64_def ZigZagEncode64_def)

lemma tags_and_zigzag_witness:
  "GetTagFieldNumber (MakeTag 5 2) = 5 \<and> ZigZagDecode32 (ZigZagEncode32 (- 3)) = - 3"
  using tags_and_zigzag [of 5 2 "- 3"] by simp

end
