(* ===== verification/CodedOutput.thy ===== *)
theory CodedOutput
  imports OutStreams WireLaws
begin

text \<open>
  \<open>CodedOutputStream\<close> of \<^verbatim>\<open>google/protobuf/io/coded_stream.{h,cc}\<close> over any
  \<open>ZeroCopyOutputStream\<close> (the argument \<open>ops\<close> is its vtable). \<open>co_buffer\<close> is \<open>buffer_\<close>, \<open>None\<close>
  when null. The members of type \<open>int\<close> are unbounded here. Inside the contract of the
  stream every operation is shown to append the bytes that the \<open>ToArray\<close> function of the same
  name writes (\<open>sends\<close>), whatever blocks the stream lends.
\<close>

subsection \<open>State and buffer\<close>

record 'z coded_output =
  co_output :: 'z
  co_buffer :: "nat option"
  co_buffer_size :: int
  co_total_bytes :: int
  co_had_error :: bool
  co_aliasing_enabled :: bool

definition out_ByteCount :: "'z coded_output \<Rightarrow> int" where
  "out_ByteCount c = co_total_bytes c - co_buffer_size c"

definition out_Advance :: "int \<Rightarrow> 'z coded_output \<Rightarrow> 'z coded_output" where
  "out_Advance amount c =
     c\<lparr>co_buffer := map_option (\<lambda>p. p + nat amount) (co_buffer c),
       co_buffer_size := co_buffer_size c - amount\<rparr>"

definition out_Refresh :: "'z zero_copy_output_ops \<Rightarrow> 'z coded_output \<Rightarrow> (bool \<times> 'z coded_output) option" where
  "out_Refresh ops c =
     (case zc_Next ops (co_output c) of
        None \<Rightarrow> None
      | Some (Some (buffer, n), z) \<Rightarrow>
          Some (True, c\<lparr>co_output := z, co_buffer := Some buffer, co_buffer_size := n,
                        co_total_bytes := co_total_bytes c + n\<rparr>)
      | Some (None, z) \<Rightarrow>
          Some (False, c\<lparr>co_output := z, co_buffer := None, co_buffer_size := 0, co_had_error := True\<rparr>))"

definition CodedOutputStream_new :: "'z zero_copy_output_ops \<Rightarrow> 'z \<Rightarrow> 'z coded_output option" where
  "CodedOutputStream_new ops z =
     map_option (\<lambda>(_, c). c\<lparr>co_had_error := False\<rparr>)
       (out_Refresh ops \<lparr>co_output = z, co_buffer = None, co_buffer_size = 0, co_total_bytes = 0,
                         co_had_error = False, co_aliasing_enabled = False\<rparr>)"

definition CodedOutputStream_delete :: "'z zero_copy_output_ops \<Rightarrow> 'z coded_output \<Rightarrow> 'z option" where
  "CodedOutputStream_delete ops c =
     (if co_buffer_size c > 0 then zc_BackUp ops (co_buffer_size c) (co_output c)
      else Some (co_output c))"

text \<open>\<open>memcpy(buffer_, data, n)\<close> for \<open>n\<close> bytes of \<open>data\<close>.\<close>

definition memcpy_to_buffer ::
    "'z zero_copy_output_ops \<Rightarrow> byte list \<Rightarrow> int \<Rightarrow> 'z coded_output \<Rightarrow> 'z coded_output option" where
  "memcpy_to_buffer ops data n c =
     (if n = 0 then Some c
      else if 0 < n \<and> n \<le> int (length data) then
        case co_buffer c of
          None \<Rightarrow> None
        | Some p \<Rightarrow> map_option (\<lambda>z. c\<lparr>co_output := z\<rparr>) (zc_store ops p (take (nat n) data) (co_output c))
      else None)"

partial_function (option) WriteRaw ::
    "'z zero_copy_output_ops \<Rightarrow> byte list \<Rightarrow> int \<Rightarrow> 'z coded_output \<Rightarrow> 'z coded_output option" where
  "WriteRaw ops data sz c =
     (if co_buffer_size c < sz then
        do { c \<leftarrow> memcpy_to_buffer ops data (co_buffer_size c) c;
             (ok, c') \<leftarrow> out_Refresh ops c;
             if ok then WriteRaw ops (drop (nat (co_buffer_size c)) data) (sz - co_buffer_size c) c'
             else Some c' }
      else do { c \<leftarrow> memcpy_to_buffer ops data sz c; Some (out_Advance sz c) })"

partial_function (option) out_Skip_loop ::
    "'z zero_copy_output_ops \<Rightarrow> int \<Rightarrow> 'z coded_output \<Rightarrow> (bool \<times> 'z coded_output) option" where
  "out_Skip_loop ops count c =
     (if count > co_buffer_size c then
        do { (ok, c') \<leftarrow> out_Refresh ops c;
             if ok then out_Skip_loop ops (count - co_buffer_size c) c' else Some (False, c') }
      else Some (True, out_Advance count c))"

definition out_Skip :: "'z zero_copy_output_ops \<Rightarrow> int \<Rightarrow> 'z coded_output \<Rightarrow> (bool \<times> 'z coded_output) option" where
  "out_Skip ops count c = (if count < 0 then Some (False, c) else out_Skip_loop ops count c)"

definition out_GetDirectBufferPointer ::
    "'z zero_copy_output_ops \<Rightarrow> 'z coded_output \<Rightarrow> ((nat option \<times> int) option \<times> 'z coded_output) option" where
  "out_GetDirectBufferPointer ops c =
     do { (ok, c) \<leftarrow> (if co_buffer_size c = 0 then out_Refresh ops c else Some (True, c));
          if \<not> ok then Some (None, c) else Some (Some (co_buffer c, co_buffer_size c), c) }"

definition GetDirectBufferForNBytesAndAdvance :: "int \<Rightarrow> 'z coded_output \<Rightarrow> nat option \<times> 'z coded_output" where
  "GetDirectBufferForNBytesAndAdvance sz c =
     (if co_buffer_size c < sz then (None, c) else (co_buffer c, out_Advance sz c))"

definition store_at ::
    "'z zero_copy_output_ops \<Rightarrow> nat \<Rightarrow> byte list \<Rightarrow> 'z coded_output \<Rightarrow> 'z coded_output option" where
  \<comment> \<open>writing \<open>bytes\<close> through a pointer that \<open>GetDirectBufferForNBytesAndAdvance\<close> returned\<close>
  "store_at ops p bytes c =
     (if bytes = [] then Some c
      else map_option (\<lambda>z. c\<lparr>co_output := z\<rparr>) (zc_store ops p bytes (co_output c)))"

subsection \<open>Aliasing\<close>

definition EnableAliasing :: "'z zero_copy_output_ops \<Rightarrow> bool \<Rightarrow> 'z coded_output \<Rightarrow> 'z coded_output" where
  "EnableAliasing ops enabled c =
     c\<lparr>co_aliasing_enabled := (enabled \<and> zc_AllowsAliasing ops (co_output c))\<rparr>"

definition WriteAliasedRaw ::
    "'z zero_copy_output_ops \<Rightarrow> byte list \<Rightarrow> int \<Rightarrow> 'z coded_output \<Rightarrow> 'z coded_output option" where
  "WriteAliasedRaw ops data sz c =
     (if sz < co_buffer_size c then WriteRaw ops data sz c
      else do {
        c \<leftarrow> (if co_buffer_size c > 0 then
                map_option (\<lambda>z. c\<lparr>co_output := z, co_total_bytes := co_total_bytes c - co_buffer_size c,
                                  co_buffer := None, co_buffer_size := 0\<rparr>)
                  (zc_BackUp ops (co_buffer_size c) (co_output c))
              else Some c);
        (ok, z) \<leftarrow> zc_WriteAliasedRaw ops data (co_output c);
        Some (c\<lparr>co_output := z, co_total_bytes := co_total_bytes c + sz,
                co_had_error := (co_had_error c \<or> \<not> ok)\<rparr>) })"

definition WriteRawMaybeAliased ::
    "'z zero_copy_output_ops \<Rightarrow> byte list \<Rightarrow> int \<Rightarrow> 'z coded_output \<Rightarrow> 'z coded_output option" where
  "WriteRawMaybeAliased ops data sz c =
     (if co_aliasing_enabled c then WriteAliasedRaw ops data sz c else WriteRaw ops data sz c)"

subsection \<open>Writing values\<close>

text \<open>\<open>static_cast<int>(str.size())\<close>, and the bytes a \<open>ToArray\<close> function leaves at \<open>target\<close>.\<close>

definition int_of_size :: "nat \<Rightarrow> int" where
  "int_of_size n = sint (of_nat n :: 32 word)"

lemma int_of_size_exact: "n < 2 ^ 31 \<Longrightarrow> int_of_size n = int n"
  by (simp add: int_of_size_def signed_of_nat signed_take_bit_int_eq_self)

definition WriteString :: "'z zero_copy_output_ops \<Rightarrow> byte list \<Rightarrow> 'z coded_output \<Rightarrow> 'z coded_output option" where
  "WriteString ops str c = WriteRaw ops str (int_of_size (length str)) c"

definition store_and_advance ::
    "'z zero_copy_output_ops \<Rightarrow> byte list \<Rightarrow> 'z coded_output \<Rightarrow> 'z coded_output option" where
  \<comment> \<open>the fast paths: write through \<open>buffer_\<close>, then \<open>Advance\<close> over what was written\<close>
  "store_and_advance ops bytes c =
     do { c \<leftarrow> memcpy_to_buffer ops bytes (int (length bytes)) c;
          Some (out_Advance (int (length bytes)) c) }"

definition WriteLittleEndian32 :: "'z zero_copy_output_ops \<Rightarrow> u32 \<Rightarrow> 'z coded_output \<Rightarrow> 'z coded_output option" where
  "WriteLittleEndian32 ops v c =
     (let bytes = WriteLittleEndian32ToArray v
      in if co_buffer_size c \<ge> 4 then store_and_advance ops bytes c else WriteRaw ops bytes 4 c)"

definition WriteLittleEndian64 :: "'z zero_copy_output_ops \<Rightarrow> u64 \<Rightarrow> 'z coded_output \<Rightarrow> 'z coded_output option" where
  "WriteLittleEndian64 ops v c =
     (let bytes = WriteLittleEndian64ToArray v
      in if co_buffer_size c \<ge> 8 then store_and_advance ops bytes c else WriteRaw ops bytes 8 c)"

definition WriteVarint32 :: "'z zero_copy_output_ops \<Rightarrow> u32 \<Rightarrow> 'z coded_output \<Rightarrow> 'z coded_output option" where
  "WriteVarint32 ops v c =
     (if co_buffer_size c \<ge> int kMaxVarint32Bytes
      then store_and_advance ops (WriteVarint32FallbackToArrayInline v) c
      else let bytes = WriteVarint32_loop v in WriteRaw ops bytes (int (length bytes)) c)"

definition WriteVarint64 :: "'z zero_copy_output_ops \<Rightarrow> u64 \<Rightarrow> 'z coded_output \<Rightarrow> 'z coded_output option" where
  "WriteVarint64 ops v c =
     (if co_buffer_size c \<ge> int kMaxVarintBytes
      then store_and_advance ops (WriteVarint64ToArrayInline v) c
      else let bytes = WriteVarint64_loop v in WriteRaw ops bytes (int (length bytes)) c)"

definition WriteVarint32SignExtended ::
    "'z zero_copy_output_ops \<Rightarrow> i32 \<Rightarrow> 'z coded_output \<Rightarrow> 'z coded_output option" where
  "WriteVarint32SignExtended ops v c =
     (if s32_neg v then WriteVarint64 ops (scast v) c else WriteVarint32 ops v c)"

definition WriteTag :: "'z zero_copy_output_ops \<Rightarrow> u32 \<Rightarrow> 'z coded_output \<Rightarrow> 'z coded_output option" where
  "WriteTag ops v c = WriteVarint32 ops v c"

subsection \<open>What has been sent\<close>

definition co_valid :: "'z zero_copy_output_ops \<Rightarrow> ('z \<Rightarrow> nat \<Rightarrow> nat \<Rightarrow> bool) \<Rightarrow> 'z coded_output \<Rightarrow> bool" where
  "co_valid ops lends c \<longleftrightarrow>
     0 \<le> co_buffer_size c
     \<and> (if co_buffer_size c = 0 then \<exists>q. lends (co_output c) q 0
        else \<exists>p. co_buffer c = Some p \<and> lends (co_output c) p (nat (co_buffer_size c)))
     \<and> (co_aliasing_enabled c \<longrightarrow> zc_AllowsAliasing ops (co_output c))"

definition co_sent :: "('z \<Rightarrow> byte list) \<Rightarrow> 'z coded_output \<Rightarrow> byte list" where
  "co_sent content c =
     take (length (content (co_output c)) - nat (co_buffer_size c)) (content (co_output c))"

definition co_room :: "('z \<Rightarrow> int) \<Rightarrow> 'z coded_output \<Rightarrow> int" where
  "co_room room c = co_buffer_size c + room (co_output c)"

text \<open>
  \<open>sends bs c c'\<close>: unless an error shows, the bytes \<open>bs\<close> and nothing else went out between
  \<open>c\<close> and \<open>c'\<close>, and no error arises while the room promised is enough. \<open>writes bs f\<close>: from
  every valid state \<open>f\<close> returns, and sends \<open>bs\<close>.
\<close>

definition sends ::
    "'z zero_copy_output_ops \<Rightarrow> ('z \<Rightarrow> nat \<Rightarrow> nat \<Rightarrow> bool) \<Rightarrow> ('z \<Rightarrow> byte list) \<Rightarrow> ('z \<Rightarrow> bool)
      \<Rightarrow> ('z \<Rightarrow> int) \<Rightarrow> byte list \<Rightarrow> 'z coded_output \<Rightarrow> 'z coded_output \<Rightarrow> bool" where
  "sends ops lends content sound room bs c c' \<longleftrightarrow>
     co_valid ops lends c'
     \<and> (\<not> co_had_error c' \<longrightarrow>
          \<not> co_had_error c \<and> out_ByteCount c' = out_ByteCount c + int (length bs)
          \<and> sound (co_output c') = sound (co_output c)
          \<and> (sound (co_output c) \<longrightarrow> co_sent content c' = co_sent content c @ bs))
     \<and> (\<not> co_had_error c \<and> int (length bs) \<le> co_room room c \<longrightarrow>
          \<not> co_had_error c' \<and> co_room room c \<le> co_room room c' + int (length bs))"

definition writes ::
    "'z zero_copy_output_ops \<Rightarrow> ('z \<Rightarrow> nat \<Rightarrow> nat \<Rightarrow> bool) \<Rightarrow> ('z \<Rightarrow> byte list) \<Rightarrow> ('z \<Rightarrow> bool)
      \<Rightarrow> ('z \<Rightarrow> int) \<Rightarrow> byte list \<Rightarrow> ('z coded_output \<Rightarrow> 'z coded_output option) \<Rightarrow> bool" where
  "writes ops lends content sound room bs f \<longleftrightarrow>
     (\<forall>c. co_valid ops lends c \<longrightarrow> (\<exists>c'. f c = Some c' \<and> sends ops lends content sound room bs c c'))"

lemma out_Advance_simps [simp]:
  "co_output (out_Advance n c) = co_output c"
  "co_had_error (out_Advance n c) = co_had_error c"
  "co_aliasing_enabled (out_Advance n c) = co_aliasing_enabled c"
  "co_buffer_size (out_Advance n c) = co_buffer_size c - n"
  "co_total_bytes (out_Advance n c) = co_total_bytes c"
  "co_buffer (out_Advance n c) = map_option (\<lambda>p. p + nat n) (co_buffer c)"
  by (simp_all add: out_Advance_def)

context zero_copy_output
begin

abbreviation "valid \<equiv> co_valid ops lends"
abbreviation "sent \<equiv> sends ops lends content sound room"
abbreviation "does \<equiv> writes ops lends content sound room"

lemma sent_valid: "sent bs c c' \<Longrightarrow> valid c'"
  by (simp add: sends_def)

lemma sent_trans:
  assumes "sent a c c1" "sent b c1 c2"
  shows "sent (a @ b) c c2"
proof -
  have "\<not> co_had_error c2 \<and> co_room room c \<le> co_room room c2 + int (length (a @ b))"
    if "\<not> co_had_error c" "int (length (a @ b)) \<le> co_room room c"
  proof -
    from assms(1) that have "\<not> co_had_error c1" "co_room room c \<le> co_room room c1 + int (length a)"
      by (simp_all add: sends_def)
    with assms(2) that show ?thesis by (simp add: sends_def)
  qed
  moreover have "\<not> co_had_error c \<and> out_ByteCount c2 = out_ByteCount c + int (length (a @ b))
      \<and> sound (co_output c2) = sound (co_output c)
      \<and> (sound (co_output c) \<longrightarrow> co_sent content c2 = co_sent content c @ (a @ b))"
    if "\<not> co_had_error c2"
    using assms that by (simp add: sends_def)
  ultimately show ?thesis
    using assms(2) unfolding sends_def by blast
qed

lemma sent_refl: "valid c \<Longrightarrow> sent [] c c"
  by (auto simp: sends_def)

lemma doesI: "(\<And>c. valid c \<Longrightarrow> \<exists>c'. f c = Some c' \<and> sent bs c c') \<Longrightarrow> does bs f"
  by (simp add: writes_def)

lemma does_use: "does bs f \<Longrightarrow> valid c \<Longrightarrow> \<exists>c'. f c = Some c' \<and> sent bs c c'"
  by (simp add: writes_def)

lemma does_Some: "does [] Some"
  by (intro doesI) (simp add: sent_refl)

lemma does_bind: "does a f \<Longrightarrow> does b g \<Longrightarrow> does (a @ b) (\<lambda>c. do { c \<leftarrow> f c; g c })"
proof (rule doesI)
  fix c assume d: "does a f" "does b g" "valid c"
  from does_use [OF d(1,3)] obtain c1 where c1: "f c = Some c1" "sent a c c1" by blast
  from does_use [OF d(2) sent_valid [OF c1(2)]] obtain c2 where c2: "g c1 = Some c2" "sent b c1 c2" by blast
  with c1 show "\<exists>c'. f c \<bind> g = Some c' \<and> sent (a @ b) c c'"
    by (auto intro: sent_trans)
qed

lemma valid_length: "valid c \<Longrightarrow> nat (co_buffer_size c) \<le> length (content (co_output c))"
  by (auto simp: co_valid_def dest: lends_length split: option.splits if_splits)

lemma memcpy_advance:
  assumes "valid c" "int (length bs) \<le> co_buffer_size c" "length bs \<le> length data"
    "take (length bs) data = bs"
  shows "\<exists>c1. memcpy_to_buffer ops data (int (length bs)) c = Some c1
    \<and> valid c1 \<and> co_buffer_size c1 = co_buffer_size c \<and> sent bs c (out_Advance (int (length bs)) c1)"
proof (cases "bs = []")
  case True
  with assms show ?thesis
    by (auto simp: memcpy_to_buffer_def sends_def co_valid_def co_sent_def co_room_def out_ByteCount_def)
next
  case False
  with assms(1,2) obtain p where Some: "co_buffer c = Some p"
    by (auto simp: co_valid_def split: if_splits)
  let ?n = "nat (co_buffer_size c)" and ?z = "co_output c"
  from assms(1,2) Some False have l: "lends ?z p ?n" "0 \<le> co_buffer_size c"
    by (auto simp: co_valid_def split: if_splits)
  from assms(2) have le: "length bs \<le> ?n" by simp
  then obtain z' where z': "zc_store ops p bs ?z = Some z'" "lends z' p ?n" "sound z' = sound ?z" "room z' = room ?z"
      "content z' = overwrite (length (content ?z) - ?n) bs (content ?z)"
    using store [OF l(1), of 0 bs] by auto
  let ?c = "c\<lparr>co_output := z'\<rparr>"
  have "memcpy_to_buffer ops data (int (length bs)) c = Some ?c"
    using assms Some False z'(1) by (simp add: memcpy_to_buffer_def)
  moreover have "valid ?c"
    using assms(1) Some z'(2) aliasing_fixed [of z' ?z] by (auto simp: co_valid_def)
  moreover have "valid (out_Advance (int (length bs)) ?c)"
    using assms(1) Some lends_shrink [OF z'(2) le] assms(2) aliasing_fixed [of z' ?z]
    by (auto simp: co_valid_def nat_diff_distrib)
  moreover have "co_sent content (out_Advance (int (length bs)) ?c) = co_sent content c @ bs"
  proof -
    have "?n \<le> length (content ?z)" using lends_length [OF l(1)] .
    then have "length (content z') = length (content ?z)"
        "length (content ?z) - nat (co_buffer_size c - int (length bs))
          = length (content ?z) - ?n + length bs"
      using le l(2) by (auto simp: z'(5))
    then show ?thesis
      using le \<open>?n \<le> _\<close> by (simp add: co_sent_def z'(5) take_overwrite_after)
  qed
  ultimately show ?thesis
    using z'(3,4) assms(2) by (auto simp: sends_def out_ByteCount_def co_room_def nat_diff_distrib)
qed

lemma store_and_advance:
  assumes "valid c" "int (length bs) \<le> co_buffer_size c"
  shows "\<exists>c'. store_and_advance ops bs c = Some c' \<and> sent bs c c'"
  using memcpy_advance [OF assms, of bs] by (auto simp: store_and_advance_def)

lemma refresh:
  assumes "valid c" "valid c0" "co_output c0 = co_output c" "co_total_bytes c0 = co_total_bytes c"
    "co_had_error c0 = co_had_error c" "co_buffer_size c0 = 0"
  obtains c' where "out_Refresh ops c = Some (True, c')" "0 < co_buffer_size c'" "sent [] c0 c'"
  | c' where "out_Refresh ops c = Some (False, c')" "co_had_error c'" "valid c'" "room (co_output c) \<le> 0"
proof -
  obtain p n where l: "lends (co_output c) p n"
    using assms(1) by (auto simp: co_valid_def split: if_splits)
  obtain r z' where z': "zc_Next ops (co_output c) = Some (r, z')"
    using next_returns [OF l] by blast
  note same_aliasing = aliasing_fixed [of z' "co_output c"]
  show thesis
  proof (cases r)
    case None
    from next_fails [OF l z' [unfolded None]] have "\<exists>q. lends z' q 0" "room (co_output c) \<le> 0" by blast+
    with z' None assms(1) same_aliasing show thesis
      by (intro that(2) [of "c\<lparr>co_output := z', co_buffer := None, co_buffer_size := 0, co_had_error := True\<rparr>"])
        (auto simp: out_Refresh_def co_valid_def)
  next
    case (Some q)
    obtain p' k where q: "q = (p', k)" by (cases q)
    from next_block [OF l z' [unfolded Some q]]
    have "0 < k" "lends z' p' (nat k)" "room (co_output c) \<le> room z' + k"
      "sound z' = sound (co_output c)" "sound (co_output c) \<longrightarrow> take (length (content z') - nat k) (content z') = content (co_output c)"
      by blast+
    note b = this
    let ?c = "c\<lparr>co_output := z', co_buffer := Some p', co_buffer_size := k, co_total_bytes := co_total_bytes c + k\<rparr>"
    have "out_Refresh ops c = Some (True, ?c)"
      using z' Some q by (simp add: out_Refresh_def)
    moreover have "valid ?c"
      using b(1,2) assms(1) same_aliasing by (simp add: co_valid_def)
    then have "sent [] c0 ?c"
      using b assms(3-6) by (simp add: sends_def co_sent_def co_room_def out_ByteCount_def)
    ultimately show thesis
      using b(1) by (intro that(1)) simp_all
  qed
qed

lemma sent_error:
  assumes "valid c'" "co_had_error c'" "\<not> co_had_error c \<Longrightarrow> co_room room c < int (length bs)"
  shows "sent bs c c'"
  using assms by (auto simp: sends_def)

lemma WriteRaw_does: "does data (WriteRaw ops data (int (length data)))"
proof (rule doesI)
  fix c assume "valid c"
  then show "\<exists>c'. WriteRaw ops data (int (length data)) c = Some c' \<and> sent data c c'"
  proof (induction "2 * length data + (if co_buffer_size c = 0 then 1 else 0)" arbitrary: data c
      rule: less_induct)
    case less
    show ?case
    proof (cases "co_buffer_size c < int (length data)")
      case False
      then show ?thesis
        using memcpy_advance [OF less.prems, of data data] by (subst WriteRaw.simps) auto
    next
      case True
      let ?n = "nat (co_buffer_size c)" and ?bs = "take (nat (co_buffer_size c)) data"
      have n: "0 \<le> co_buffer_size c" using less.prems by (simp add: co_valid_def)
      with True have bs: "int (length ?bs) = co_buffer_size c" "?n \<le> length data" by auto
      obtain c1 where c1: "memcpy_to_buffer ops data (co_buffer_size c) c = Some c1" "valid c1"
          "co_buffer_size c1 = co_buffer_size c" "sent ?bs c (out_Advance (co_buffer_size c) c1)"
        using memcpy_advance [OF less.prems, of ?bs data] True bs n by auto
      let ?a = "out_Advance (co_buffer_size c) c1"
      have a: "valid ?a" "co_output ?a = co_output c1" "co_total_bytes ?a = co_total_bytes c1"
          "co_had_error ?a = co_had_error c1" "co_buffer_size ?a = 0"
        using sent_valid [OF c1(4)] c1(3) by simp_all
      show ?thesis
      proof (rule refresh [OF c1(2) a])
        fix c2 assume c2: "out_Refresh ops c1 = Some (False, c2)" "co_had_error c2" "valid c2"
          "room (co_output c1) \<le> 0"
        have "co_room room c < int (length data)" if "\<not> co_had_error c"
        proof (rule ccontr)
          assume "\<not> co_room room c < int (length data)"
          with c1(4) that True bs(1) have "co_room room c \<le> co_room room ?a + co_buffer_size c"
            by (simp add: sends_def)
          moreover have "co_room room ?a \<le> 0"
            using c2(4) c1(3) by (simp add: co_room_def a(2,5))
          ultimately show False
            using True \<open>\<not> co_room room c < int (length data)\<close> by simp
        qed
        then have "sent data c c2"
          by (rule sent_error [OF c2(3,2)])
        with c1 c2(1) True show ?thesis
          by (subst WriteRaw.simps) simp
      next
        fix c2 assume c2: "out_Refresh ops c1 = Some (True, c2)" "0 < co_buffer_size c2" "sent [] ?a c2"
        from sent_trans [OF c1(4) c2(3)] have s: "sent ?bs c c2" by simp
        have "2 * length (drop ?n data) + (if co_buffer_size c2 = 0 then 1 else 0)
            < 2 * length data + (if co_buffer_size c = 0 then 1 else 0)"
          using c2(2) n True by auto
        from less.hyps [OF this sent_valid [OF s]] obtain c3 where c3:
            "WriteRaw ops (drop ?n data) (int (length (drop ?n data))) c2 = Some c3"
            "sent (drop ?n data) c2 c3" by blast
        have "int (length (drop ?n data)) = int (length data) - co_buffer_size c"
          using True n by simp
        with c1 c2 c3 True have "WriteRaw ops data (int (length data)) c = Some c3"
          by (subst WriteRaw.simps) simp
        with sent_trans [OF s c3(2)] show ?thesis by simp
      qed
    qed
  qed
qed

lemma writes_raw: "does data (\<lambda>c. WriteRaw ops data (int (length data)) c)"
  using WriteRaw_does by (simp add: writes_def)

lemma writes_raw_sized: "n = int (length data) \<Longrightarrow> does data (\<lambda>c. WriteRaw ops data n c)"
  using writes_raw by simp

lemma does_if:
  "(\<And>c. \<lbrakk>valid c; P c\<rbrakk> \<Longrightarrow> \<exists>c'. f c = Some c' \<and> sent bs c c')
    \<Longrightarrow> (\<And>c. \<lbrakk>valid c; \<not> P c\<rbrakk> \<Longrightarrow> \<exists>c'. g c = Some c' \<and> sent bs c c')
    \<Longrightarrow> does bs (\<lambda>c. if P c then f c else g c)"
  by (simp add: writes_def)

lemma backup_all:
  assumes "valid c" "0 < co_buffer_size c"
  shows "\<exists>z q. zc_BackUp ops (co_buffer_size c) (co_output c) = Some z \<and> lends z q 0
    \<and> sound z = sound (co_output c) \<and> content z = co_sent content c \<and> co_room room c \<le> room z"
proof -
  from assms obtain p where "lends (co_output c) p (nat (co_buffer_size c))"
    by (auto simp: co_valid_def split: option.splits if_splits)
  from backup [OF this assms(2)] show ?thesis
    by (auto simp: co_sent_def co_room_def add.commute)
qed

lemma WriteAliasedRaw_does:
  assumes "valid c" "zc_AllowsAliasing ops (co_output c)"
  shows "\<exists>c'. WriteAliasedRaw ops data (int (length data)) c = Some c' \<and> sent data c c'"
proof (cases "int (length data) < co_buffer_size c")
  case True
  then show ?thesis
    using does_use [OF writes_raw assms(1)] by (simp add: WriteAliasedRaw_def)
next
  case False
  let ?total = "co_total_bytes c - co_buffer_size c"
  obtain z q where z: "lends z q 0" "sound z = sound (co_output c)" "content z = co_sent content c"
      "co_room room c \<le> room z"
      "(if co_buffer_size c > 0 then
          map_option (\<lambda>z. c\<lparr>co_output := z, co_total_bytes := co_total_bytes c - co_buffer_size c,
                            co_buffer := None, co_buffer_size := 0\<rparr>)
            (zc_BackUp ops (co_buffer_size c) (co_output c))
        else Some c)
       = Some (c\<lparr>co_output := z, co_total_bytes := ?total, co_buffer_size := 0,
                 co_buffer := (if co_buffer_size c > 0 then None else co_buffer c)\<rparr>)"
  proof (cases "0 < co_buffer_size c")
    case True
    with backup_all [OF assms(1) True] that show thesis by auto
  next
    case False
    with assms(1) have "co_buffer_size c = 0" "\<exists>q. lends (co_output c) q 0"
      by (auto simp: co_valid_def split: option.splits if_splits)
    then show thesis by (auto simp: co_sent_def co_room_def intro: that [of "co_output c"])
  qed
  obtain r z' q' where z': "zc_WriteAliasedRaw ops data z = Some (r, z')" "lends z' q' 0"
      "r \<longrightarrow> sound z' = sound z \<and> (sound z \<longrightarrow> content z' = content z @ data)"
      "int (length data) \<le> room z \<longrightarrow> r \<and> room z \<le> room z' + int (length data)"
    using aliased [OF z(1)] assms(2) aliasing_fixed [of z "co_output c"] by blast
  let ?c = "c\<lparr>co_output := z', co_total_bytes := ?total + int (length data), co_buffer_size := 0,
    co_buffer := (if co_buffer_size c > 0 then None else co_buffer c), co_had_error := (co_had_error c \<or> \<not> r)\<rparr>"
  have "WriteAliasedRaw ops data (int (length data)) c = Some ?c"
    using False z'(1) by (simp add: WriteAliasedRaw_def z(5))
  moreover have "sent data c c'" if "c' = ?c" for c'
  proof -
    have c': "co_output c' = z'" "co_had_error c' \<longleftrightarrow> co_had_error c \<or> \<not> r" "co_sent content c' = content z'"
        "out_ByteCount c' = ?total + int (length data)" "co_room room c' = room z'"
      by (simp_all add: that co_sent_def co_room_def out_ByteCount_def)
    have "valid c'"
      using z'(2) assms aliasing_fixed [of z' "co_output c"] by (auto simp: that co_valid_def)
    moreover have "int (length data) \<le> co_room room c \<longrightarrow> r \<and> co_room room c \<le> room z' + int (length data)"
      using z(4) z'(4) by linarith
    ultimately show ?thesis
      unfolding sends_def c' using z(2,3) z'(3) by (auto simp: out_ByteCount_def)
  qed
  ultimately show ?thesis by blast
qed

lemma WriteRawMaybeAliased_does: "does data (\<lambda>c. WriteRawMaybeAliased ops data (int (length data)) c)"
  unfolding WriteRawMaybeAliased_def
  using does_use [OF writes_raw] WriteAliasedRaw_does by (intro does_if) (auto simp: co_valid_def)

lemma WriteString_does: "length str < 2 ^ 31 \<Longrightarrow> does str (\<lambda>c. WriteString ops str c)"
  unfolding WriteString_def by (intro writes_raw_sized) (simp add: int_of_size_exact)

lemma WriteLittleEndian32_does: "does (WriteLittleEndian32ToArray v) (\<lambda>c. WriteLittleEndian32 ops v c)"
  unfolding WriteLittleEndian32_def Let_def
  using store_and_advance does_use [OF writes_raw_sized [of 4 "WriteLittleEndian32ToArray v"]]
  by (intro does_if) (auto simp: size_simps)

lemma WriteLittleEndian64_does: "does (WriteLittleEndian64ToArray v) (\<lambda>c. WriteLittleEndian64 ops v c)"
  unfolding WriteLittleEndian64_def Let_def
  using store_and_advance does_use [OF writes_raw_sized [of 8 "WriteLittleEndian64ToArray v"]]
  by (intro does_if) (auto simp: size_simps)

lemma WriteVarint32_does: "does (WriteVarint32ToArray v) (\<lambda>c. WriteVarint32 ops v c)"
proof -
  have "int (length (varint_bytes (unat v))) \<le> int kMaxVarint32Bytes"
    using length_varint_bytes_le [of "unat v" 4] u32_lt_2p32 [of v] by (simp add: kMaxVarint32Bytes_def)
  then show ?thesis
    unfolding WriteVarint32_def Let_def WriteVarint32ToArray_eq WriteVarint32_loop_eq
      WriteVarint32FallbackToArrayInline_eq
    using store_and_advance does_use [OF writes_raw] by (intro does_if) auto
qed

lemma WriteVarint64_does: "does (WriteVarint64ToArray v) (\<lambda>c. WriteVarint64 ops v c)"
proof -
  have "int (length (varint_bytes (unat v))) \<le> int kMaxVarintBytes"
    using length_varint_bytes_le [of "unat v" 9] u64_lt_2p64 [of v] by (simp add: kMaxVarintBytes_def)
  then show ?thesis
    unfolding WriteVarint64_def Let_def WriteVarint64ToArray_eq WriteVarint64_loop_eq
      WriteVarint64ToArrayInline_eq
    using store_and_advance does_use [OF writes_raw] by (intro does_if) auto
qed

lemma WriteVarint32SignExtended_does:
  "does (WriteVarint32SignExtendedToArray v) (\<lambda>c. WriteVarint32SignExtended ops v c)"
  by (simp add: WriteVarint32SignExtended_def WriteVarint32SignExtendedToArray_def
      WriteVarint32_does WriteVarint64_does)

lemma WriteTag_does: "does (WriteTagToArray v) (\<lambda>c. WriteTag ops v c)"
  using WriteVarint32_does by (simp add: WriteTag_def WriteTagToArray_eq WriteVarint32ToArray_eq)

lemma GetDirectBuffer_does:
  assumes "valid c" "GetDirectBufferForNBytesAndAdvance (int (length bs)) c = (Some p, c')"
  shows "\<exists>c''. store_at ops p bs c' = Some c'' \<and> sent bs c c''"
proof -
  from assms(2) have le: "int (length bs) \<le> co_buffer_size c" and p: "co_buffer c = Some p"
    and c': "c' = out_Advance (int (length bs)) c"
    by (auto simp: GetDirectBufferForNBytesAndAdvance_def split: if_splits)
  obtain c1 where "memcpy_to_buffer ops bs (int (length bs)) c = Some c1"
      "sent bs c (out_Advance (int (length bs)) c1)"
    using memcpy_advance [OF assms(1) le, of bs] by auto
  moreover from this(1) p have "store_at ops p bs c' = Some (out_Advance (int (length bs)) c1)"
    by (auto simp: memcpy_to_buffer_def store_at_def c' out_Advance_def)
  ultimately show ?thesis by blast
qed

lemma new_valid:
  assumes "lends z q 0"
  shows "\<exists>c. CodedOutputStream_new ops z = Some c \<and> valid c \<and> \<not> co_had_error c
    \<and> \<not> co_aliasing_enabled c \<and> out_ByteCount c = 0 \<and> room z \<le> co_room room c
    \<and> (sound (co_output c) \<longrightarrow> sound z \<and> co_sent content c = content z)
    \<and> (0 < room z \<longrightarrow> sound (co_output c) = sound z)"
proof -
  obtain r z' where z': "zc_Next ops z = Some (r, z')"
    using next_returns [OF assms] by blast
  show ?thesis
  proof (cases r)
    case None
    with next_fails [OF assms] z' show ?thesis
      by (auto simp: CodedOutputStream_new_def out_Refresh_def co_valid_def co_sent_def co_room_def out_ByteCount_def)
  next
    case (Some b)
    obtain p k where b: "b = (p, k)" by (cases b)
    from next_block [OF assms z' [unfolded Some b]] show ?thesis
      by (auto simp: CodedOutputStream_new_def out_Refresh_def co_valid_def co_sent_def co_room_def out_ByteCount_def
          z' Some b)
  qed
qed

lemma advance_sends:
  assumes "valid c" "0 \<le> n" "n \<le> co_buffer_size c"
  shows "\<exists>bs. int (length bs) = n \<and> sent bs c (out_Advance n c)"
proof -
  let ?z = "content (co_output c)" and ?s = "nat (co_buffer_size c)"
  let ?bs = "take (nat n) (drop (length ?z - ?s) ?z)"
  have le: "nat n \<le> ?s" "?s \<le> length ?z"
    using assms valid_length [OF assms(1)] by auto
  then have diff: "length ?z - nat (co_buffer_size c - n) = length ?z - ?s + nat n"
    using assms by (simp add: nat_diff_distrib)
  obtain p where p: "lends (co_output c) p ?s" "co_buffer_size c \<noteq> 0 \<longrightarrow> co_buffer c = Some p"
    using assms(1) by (auto simp: co_valid_def split: if_splits)
  have "valid (out_Advance n c)"
    using assms p(2) lends_shrink [OF p(1) le(1)] by (auto simp: co_valid_def nat_diff_distrib)
  moreover have "co_sent content (out_Advance n c) = co_sent content c @ ?bs"
    by (simp add: co_sent_def diff take_add)
  moreover have "int (length ?bs) = n"
    using le assms(2) by simp
  ultimately show ?thesis
    using assms(2,3) by (intro exI [of _ ?bs]) (auto simp: sends_def out_ByteCount_def co_room_def nat_diff_distrib)
qed

lemma GetDirectBuffer_null:
  assumes "valid c" "GetDirectBufferForNBytesAndAdvance (int k) c = (None, c')"
  shows "sent [] c c'"
proof (cases "co_buffer_size c < int k")
  case True
  with assms show ?thesis
    by (simp add: GetDirectBufferForNBytesAndAdvance_def sent_refl)
next
  case False
  with assms have "k = 0" "c' = out_Advance 0 c"
    by (auto simp: GetDirectBufferForNBytesAndAdvance_def co_valid_def split: if_splits)
  with advance_sends [OF assms(1), of 0] False show ?thesis by simp
qed

lemma Skip_loop_sends:
  assumes "valid c" "0 \<le> n"
  shows "\<exists>ok c' bs. out_Skip_loop ops n c = Some (ok, c') \<and> (ok \<or> co_had_error c')
    \<and> int (length bs) = n \<and> sent bs c c'"
  using assms
proof (induction "2 * nat n + (if co_buffer_size c = 0 then 1 else 0)" arbitrary: n c rule: less_induct)
  case less
  have size_c: "0 \<le> co_buffer_size c"
    using less.prems(1) by (simp add: co_valid_def)
  show ?case
  proof (cases "n > co_buffer_size c")
    case False
    then show ?thesis
      using advance_sends [OF less.prems] by (subst out_Skip_loop.simps) auto
  next
    case True
    let ?a = "out_Advance (co_buffer_size c) c"
    obtain as where as: "int (length as) = co_buffer_size c" "sent as c ?a"
      using advance_sends [OF less.prems(1) size_c] by auto
    show ?thesis
    proof (rule refresh [OF less.prems(1) sent_valid [OF as(2)]])
      fix c1 assume c1: "out_Refresh ops c = Some (False, c1)" "co_had_error c1" "valid c1"
        "room (co_output c) \<le> 0"
      obtain bs :: "byte list" where bs: "int (length bs) = n"
        using less.prems(2) by (metis length_replicate nat_0_le)
      with True c1(4) size_c have "co_room room c < int (length bs)"
        by (simp add: co_room_def)
      with c1 bs True sent_error [OF c1(3,2)] show ?thesis
        by (subst out_Skip_loop.simps) auto
    next
      fix c1 assume c1: "out_Refresh ops c = Some (True, c1)" "0 < co_buffer_size c1" "sent [] ?a c1"
      from sent_trans [OF as(2) c1(3)] have s: "sent as c c1" by simp
      have "2 * nat (n - co_buffer_size c) + (if co_buffer_size c1 = 0 then 1 else 0)
          < 2 * nat n + (if co_buffer_size c = 0 then 1 else 0)"
        using c1(2) size_c True by auto
      from less.hyps [OF this sent_valid [OF s]] True obtain ok' c' bs where
          "out_Skip_loop ops (n - co_buffer_size c) c1 = Some (ok', c')" "ok' \<or> co_had_error c'"
          "int (length bs) = n - co_buffer_size c" "sent bs c1 c'" by auto
      with c1 True sent_trans [OF s] as(1) show ?thesis
        by (subst out_Skip_loop.simps) (auto intro!: exI [of _ "as @ bs"])
    qed simp_all
  qed
qed

lemma delete_valid:
  assumes "valid c"
  shows "\<exists>z q. CodedOutputStream_delete ops c = Some z \<and> lends z q 0 \<and> sound z = sound (co_output c)
    \<and> content z = co_sent content c \<and> co_room room c \<le> room z"
proof (cases "0 < co_buffer_size c")
  case True
  with backup_all [OF assms True] show ?thesis
    by (auto simp: CodedOutputStream_delete_def)
next
  case False
  with assms show ?thesis
    by (auto simp: CodedOutputStream_delete_def co_valid_def co_sent_def co_room_def)
qed

end

end
