(* ===== verification/WireOutput.thy ===== *)
theory WireOutput
  imports CodedOutput
begin

text \<open>
  The writers of \<^verbatim>\<open>wire_format_lite.cc\<close>, \<^verbatim>\<open>wire_format_lite_inl.h\<close>, \<^verbatim>\<open>wire_format.cc\<close>
  and \<^verbatim>\<open>unknown_field_set.cc\<close> that go to a \<open>CodedOutputStream\<close>. Each is shown to write
  what its \<open>ToArray\<close> counterpart returns.
\<close>

type_synonym 'z out_step = "'z coded_output \<Rightarrow> 'z coded_output option"

subsection \<open>Tagged values\<close>

definition WriteTag_wf :: "'z zero_copy_output_ops \<Rightarrow> u32 \<Rightarrow> u32 \<Rightarrow> 'z out_step" where
  \<comment> \<open>\<open>WireFormatLite::WriteTag\<close>\<close>
  "WriteTag_wf ops field_number type c = WriteTag ops (MakeTag field_number type) c"

definition WriteInt32NoTag :: "'z zero_copy_output_ops \<Rightarrow> i32 \<Rightarrow> 'z out_step" where
  "WriteInt32NoTag ops v c = WriteVarint32SignExtended ops v c"
definition WriteInt64NoTag :: "'z zero_copy_output_ops \<Rightarrow> 64 word \<Rightarrow> 'z out_step" where
  "WriteInt64NoTag ops v c = WriteVarint64 ops v c"
definition WriteUInt32NoTag :: "'z zero_copy_output_ops \<Rightarrow> u32 \<Rightarrow> 'z out_step" where
  "WriteUInt32NoTag ops v c = WriteVarint32 ops v c"
definition WriteUInt64NoTag :: "'z zero_copy_output_ops \<Rightarrow> u64 \<Rightarrow> 'z out_step" where
  "WriteUInt64NoTag ops v c = WriteVarint64 ops v c"
definition WriteSInt32NoTag :: "'z zero_copy_output_ops \<Rightarrow> i32 \<Rightarrow> 'z out_step" where
  "WriteSInt32NoTag ops v c = WriteVarint32 ops (ZigZagEncode32 v) c"
definition WriteSInt64NoTag :: "'z zero_copy_output_ops \<Rightarrow> 64 word \<Rightarrow> 'z out_step" where
  "WriteSInt64NoTag ops v c = WriteVarint64 ops (ZigZagEncode64 v) c"
definition WriteFixed32NoTag :: "'z zero_copy_output_ops \<Rightarrow> u32 \<Rightarrow> 'z out_step" where
  "WriteFixed32NoTag ops v c = WriteLittleEndian32 ops v c"
definition WriteFixed64NoTag :: "'z zero_copy_output_ops \<Rightarrow> u64 \<Rightarrow> 'z out_step" where
  "WriteFixed64NoTag ops v c = WriteLittleEndian64 ops v c"
definition WriteSFixed32NoTag :: "'z zero_copy_output_ops \<Rightarrow> i32 \<Rightarrow> 'z out_step" where
  "WriteSFixed32NoTag ops v c = WriteLittleEndian32 ops v c"
definition WriteSFixed64NoTag :: "'z zero_copy_output_ops \<Rightarrow> 64 word \<Rightarrow> 'z out_step" where
  "WriteSFixed64NoTag ops v c = WriteLittleEndian64 ops v c"
definition WriteBoolNoTag :: "'z zero_copy_output_ops \<Rightarrow> bool \<Rightarrow> 'z out_step" where
  "WriteBoolNoTag ops v c = WriteVarint32 ops (if v then 1 else 0) c"
definition WriteEnumNoTag :: "'z zero_copy_output_ops \<Rightarrow> i32 \<Rightarrow> 'z out_step" where
  "WriteEnumNoTag ops v c = WriteVarint32SignExtended ops v c"

definition WriteInt32 :: "'z zero_copy_output_ops \<Rightarrow> u32 \<Rightarrow> i32 \<Rightarrow> 'z out_step" where
  "WriteInt32 ops field_number v c =
     do { c \<leftarrow> WriteTag_wf ops field_number WIRETYPE_VARINT c; WriteInt32NoTag ops v c }"
definition WriteInt64 :: "'z zero_copy_output_ops \<Rightarrow> u32 \<Rightarrow> 64 word \<Rightarrow> 'z out_step" where
  "WriteInt64 ops field_number v c =
     do { c \<leftarrow> WriteTag_wf ops field_number WIRETYPE_VARINT c; WriteInt64NoTag ops v c }"
definition WriteUInt32 :: "'z zero_copy_output_ops \<Rightarrow> u32 \<Rightarrow> u32 \<Rightarrow> 'z out_step" where
  "WriteUInt32 ops field_number v c =
     do { c \<leftarrow> WriteTag_wf ops field_number WIRETYPE_VARINT c; WriteUInt32NoTag ops v c }"
definition WriteUInt64 :: "'z zero_copy_output_ops \<Rightarrow> u32 \<Rightarrow> u64 \<Rightarrow> 'z out_step" where
  "WriteUInt64 ops field_number v c =
     do { c \<leftarrow> WriteTag_wf ops field_number WIRETYPE_VARINT c; WriteUInt64NoTag ops v c }"
definition WriteSInt32 :: "'z zero_copy_output_ops \<Rightarrow> u32 \<Rightarrow> i32 \<Rightarrow> 'z out_step" where
  "WriteSInt32 ops field_number v c =
     do { c \<leftarrow> WriteTag_wf ops field_number WIRETYPE_VARINT c; WriteSInt32NoTag ops v c }"
definition WriteSInt64 :: "'z zero_copy_output_ops \<Rightarrow> u32 \<Rightarrow> 64 word \<Rightarrow> 'z out_step" where
  "WriteSInt64 ops field_number v c =
     do { c \<leftarrow> WriteTag_wf ops field_number WIRETYPE_VARINT c; WriteSInt64NoTag ops v c }"
definition WriteFixed32 :: "'z zero_copy_output_ops \<Rightarrow> u32 \<Rightarrow> u32 \<Rightarrow> 'z out_step" where
  "WriteFixed32 ops field_number v c =
     do { c \<leftarrow> WriteTag_wf ops field_number WIRETYPE_FIXED32 c; WriteFixed32NoTag ops v c }"
definition WriteFixed64 :: "'z zero_copy_output_ops \<Rightarrow> u32 \<Rightarrow> u64 \<Rightarrow> 'z out_step" where
  "WriteFixed64 ops field_number v c =
     do { c \<leftarrow> WriteTag_wf ops field_number WIRETYPE_FIXED64 c; WriteFixed64NoTag ops v c }"
definition WriteSFixed32 :: "'z zero_copy_output_ops \<Rightarrow> u32 \<Rightarrow> i32 \<Rightarrow> 'z out_step" where
  "WriteSFixed32 ops field_number v c =
     do { c \<leftarrow> WriteTag_wf ops field_number WIRETYPE_FIXED32 c; WriteSFixed32NoTag ops v c }"
definition WriteSFixed64 :: "'z zero_copy_output_ops \<Rightarrow> u32 \<Rightarrow> 64 word \<Rightarrow> 'z out_step" where
  "WriteSFixed64 ops field_number v c =
     do { c \<leftarrow> WriteTag_wf ops field_number WIRETYPE_FIXED64 c; WriteSFixed64NoTag ops v c }"
definition WriteBool :: "'z zero_copy_output_ops \<Rightarrow> u32 \<Rightarrow> bool \<Rightarrow> 'z out_step" where
  "WriteBool ops field_number v c =
     do { c \<leftarrow> WriteTag_wf ops field_number WIRETYPE_VARINT c; WriteBoolNoTag ops v c }"
definition WriteEnum :: "'z zero_copy_output_ops \<Rightarrow> u32 \<Rightarrow> i32 \<Rightarrow> 'z out_step" where
  "WriteEnum ops field_number v c =
     do { c \<leftarrow> WriteTag_wf ops field_number WIRETYPE_VARINT c; WriteEnumNoTag ops v c }"

text \<open>Strings: \<open>GOOGLE_CHECK(value.size() <= kint32max)\<close> aborts.\<close>

definition WriteString_wf :: "'z zero_copy_output_ops \<Rightarrow> u32 \<Rightarrow> byte list \<Rightarrow> 'z out_step" where
  \<comment> \<open>\<open>WireFormatLite::WriteString\<close>\<close>
  "WriteString_wf ops field_number v c =
     do { c \<leftarrow> WriteTag_wf ops field_number WIRETYPE_LENGTH_DELIMITED c;
          if int (length v) > INT_MAX then None
          else do { c \<leftarrow> WriteVarint32 ops (of_nat (length v)) c; WriteString ops v c } }"
definition WriteStringMaybeAliased :: "'z zero_copy_output_ops \<Rightarrow> u32 \<Rightarrow> byte list \<Rightarrow> 'z out_step" where
  "WriteStringMaybeAliased ops field_number v c =
     do { c \<leftarrow> WriteTag_wf ops field_number WIRETYPE_LENGTH_DELIMITED c;
          if int (length v) > INT_MAX then None
          else do { c \<leftarrow> WriteVarint32 ops (of_nat (length v)) c;
                    WriteRawMaybeAliased ops v (int_of_size (length v)) c } }"
definition WriteBytes :: "'z zero_copy_output_ops \<Rightarrow> u32 \<Rightarrow> byte list \<Rightarrow> 'z out_step" where
  "WriteBytes ops field_number v c =
     do { c \<leftarrow> WriteTag_wf ops field_number WIRETYPE_LENGTH_DELIMITED c;
          if int (length v) > INT_MAX then None
          else do { c \<leftarrow> WriteVarint32 ops (of_nat (length v)) c; WriteString ops v c } }"
definition WriteBytesMaybeAliased :: "'z zero_copy_output_ops \<Rightarrow> u32 \<Rightarrow> byte list \<Rightarrow> 'z out_step" where
  "WriteBytesMaybeAliased ops field_number v c =
     do { c \<leftarrow> WriteTag_wf ops field_number WIRETYPE_LENGTH_DELIMITED c;
          if int (length v) > INT_MAX then None
          else do { c \<leftarrow> WriteVarint32 ops (of_nat (length v)) c;
                    WriteRawMaybeAliased ops v (int_of_size (length v)) c } }"

subsection \<open>Groups and messages\<close>

text \<open>
  A nested message is given by its cached size, the bytes its \<open>SerializeWithCachedSizesToArray\<close>
  writes and its \<open>SerializeWithCachedSizes\<close>.
\<close>

definition WriteGroup :: "'z zero_copy_output_ops \<Rightarrow> u32 \<Rightarrow> 'z out_step \<Rightarrow> 'z out_step" where
  "WriteGroup ops field_number serialize c =
     do { c \<leftarrow> WriteTag_wf ops field_number WIRETYPE_START_GROUP c;
          c \<leftarrow> serialize c;
          WriteTag_wf ops field_number WIRETYPE_END_GROUP c }"

definition WriteMessage :: "'z zero_copy_output_ops \<Rightarrow> u32 \<Rightarrow> int \<Rightarrow> 'z out_step \<Rightarrow> 'z out_step" where
  "WriteMessage ops field_number cached_size serialize c =
     do { c \<leftarrow> WriteTag_wf ops field_number WIRETYPE_LENGTH_DELIMITED c;
          c \<leftarrow> WriteVarint32 ops (word_of_int cached_size) c;
          serialize c }"

definition to_array_or_stream ::
    "'z zero_copy_output_ops \<Rightarrow> int \<Rightarrow> byte list \<Rightarrow> 'z out_step \<Rightarrow> 'z out_step" where
  \<comment> \<open>the direct buffer when \<open>cached_size\<close> bytes fit in it, the stream otherwise\<close>
  "to_array_or_stream ops cached_size bytes serialize c =
     (case GetDirectBufferForNBytesAndAdvance cached_size c of
        (Some target, c') \<Rightarrow> store_at ops target bytes c'
      | (None, c') \<Rightarrow> serialize c')"

definition WriteGroupMaybeToArray ::
    "'z zero_copy_output_ops \<Rightarrow> u32 \<Rightarrow> int \<Rightarrow> byte list \<Rightarrow> 'z out_step \<Rightarrow> 'z out_step" where
  "WriteGroupMaybeToArray ops field_number cached_size bytes serialize c =
     do { c \<leftarrow> WriteTag_wf ops field_number WIRETYPE_START_GROUP c;
          c \<leftarrow> to_array_or_stream ops cached_size bytes serialize c;
          WriteTag_wf ops field_number WIRETYPE_END_GROUP c }"

definition WriteMessageMaybeToArray ::
    "'z zero_copy_output_ops \<Rightarrow> u32 \<Rightarrow> int \<Rightarrow> byte list \<Rightarrow> 'z out_step \<Rightarrow> 'z out_step" where
  "WriteMessageMaybeToArray ops field_number cached_size bytes serialize c =
     do { c \<leftarrow> WriteTag_wf ops field_number WIRETYPE_LENGTH_DELIMITED c;
          c \<leftarrow> WriteVarint32 ops (word_of_int cached_size) c;
          to_array_or_stream ops cached_size bytes serialize c }"

subsection \<open>Unknown fields\<close>

function SerializeUnknownFields :: "'z zero_copy_output_ops \<Rightarrow> unknown_field_set \<Rightarrow> 'z out_step" where
  "SerializeUnknownFields ops [] c = Some c"
| "SerializeUnknownFields ops (Unknown_Varint n v # fs) c =
     do { c \<leftarrow> WriteVarint32 ops (MakeTag n WIRETYPE_VARINT) c;
          c \<leftarrow> WriteVarint64 ops v c;
          SerializeUnknownFields ops fs c }"
| "SerializeUnknownFields ops (Unknown_Fixed32 n v # fs) c =
     do { c \<leftarrow> WriteVarint32 ops (MakeTag n WIRETYPE_FIXED32) c;
          c \<leftarrow> WriteLittleEndian32 ops v c;
          SerializeUnknownFields ops fs c }"
| "SerializeUnknownFields ops (Unknown_Fixed64 n v # fs) c =
     do { c \<leftarrow> WriteVarint32 ops (MakeTag n WIRETYPE_FIXED64) c;
          c \<leftarrow> WriteLittleEndian64 ops v c;
          SerializeUnknownFields ops fs c }"
| "SerializeUnknownFields ops (Unknown_LengthDelimited n v # fs) c =
     do { c \<leftarrow> WriteVarint32 ops (MakeTag n WIRETYPE_LENGTH_DELIMITED) c;
          c \<leftarrow> WriteVarint32 ops (of_nat (length v)) c;
          c \<leftarrow> WriteRawMaybeAliased ops v (int_of_size (length v)) c;
          SerializeUnknownFields ops fs c }"
| "SerializeUnknownFields ops (Unknown_Group n g # fs) c =
     do { c \<leftarrow> WriteVarint32 ops (MakeTag n WIRETYPE_START_GROUP) c;
          c \<leftarrow> SerializeUnknownFields ops g c;
          c \<leftarrow> WriteVarint32 ops (MakeTag n WIRETYPE_END_GROUP) c;
          SerializeUnknownFields ops fs c }"
  by pat_completeness auto
termination
  by (relation "measure (\<lambda>(ops, u, c). size_list size u)") auto

definition SerializeLengthDelimitedNoTag :: "'z zero_copy_output_ops \<Rightarrow> byte list \<Rightarrow> 'z out_step" where
  "SerializeLengthDelimitedNoTag ops data c =
     do { c \<leftarrow> WriteVarint32 ops (of_nat (length data)) c;
          WriteRawMaybeAliased ops data (int_of_size (length data)) c }"

definition SerializeLengthDelimitedNoTagToArray :: "byte list \<Rightarrow> byte list" where
  "SerializeLengthDelimitedNoTagToArray data =
     WriteVarint32ToArray (of_nat (length data)) @ WriteStringToArray data"

text \<open>The items of a \<open>MessageSet\<close>: only the length-delimited fields are written.\<close>

definition kMessageSetItemStartTag :: u32 where
  "kMessageSetItemStartTag = MakeTag 1 WIRETYPE_START_GROUP"
definition kMessageSetItemEndTag :: u32 where
  "kMessageSetItemEndTag = MakeTag 1 WIRETYPE_END_GROUP"
definition kMessageSetTypeIdTag :: u32 where
  "kMessageSetTypeIdTag = MakeTag 2 WIRETYPE_VARINT"
definition kMessageSetMessageTag :: u32 where
  "kMessageSetMessageTag = MakeTag 3 WIRETYPE_LENGTH_DELIMITED"

definition kMessageSetItemTagsSize :: int where
  "kMessageSetItemTagsSize =
     VarintSize32 kMessageSetItemStartTag + VarintSize32 kMessageSetItemEndTag
     + VarintSize32 kMessageSetTypeIdTag + VarintSize32 kMessageSetMessageTag"

fun SerializeUnknownMessageSetItems :: "'z zero_copy_output_ops \<Rightarrow> unknown_field_set \<Rightarrow> 'z out_step" where
  "SerializeUnknownMessageSetItems ops [] c = Some c"
| "SerializeUnknownMessageSetItems ops (Unknown_LengthDelimited n v # fs) c =
     do { c \<leftarrow> WriteVarint32 ops kMessageSetItemStartTag c;
          c \<leftarrow> WriteVarint32 ops kMessageSetTypeIdTag c;
          c \<leftarrow> WriteVarint32 ops n c;
          c \<leftarrow> WriteVarint32 ops kMessageSetMessageTag c;
          c \<leftarrow> SerializeLengthDelimitedNoTag ops v c;
          c \<leftarrow> WriteVarint32 ops kMessageSetItemEndTag c;
          SerializeUnknownMessageSetItems ops fs c }"
| "SerializeUnknownMessageSetItems ops (_ # fs) c = SerializeUnknownMessageSetItems ops fs c"

fun SerializeUnknownMessageSetItemsToArray :: "unknown_field_set \<Rightarrow> byte list" where
  "SerializeUnknownMessageSetItemsToArray [] = []"
| "SerializeUnknownMessageSetItemsToArray (Unknown_LengthDelimited n v # fs) =
     WriteTagToArray kMessageSetItemStartTag @ WriteTagToArray kMessageSetTypeIdTag
     @ WriteVarint32ToArray n @ WriteTagToArray kMessageSetMessageTag
     @ SerializeLengthDelimitedNoTagToArray v @ WriteTagToArray kMessageSetItemEndTag
     @ SerializeUnknownMessageSetItemsToArray fs"
| "SerializeUnknownMessageSetItemsToArray (_ # fs) = SerializeUnknownMessageSetItemsToArray fs"

fun ComputeUnknownMessageSetItemsSize :: "unknown_field_set \<Rightarrow> int" where
  "ComputeUnknownMessageSetItemsSize [] = 0"
| "ComputeUnknownMessageSetItemsSize (Unknown_LengthDelimited n v # fs) =
     kMessageSetItemTagsSize + VarintSize32 n
     + VarintSize32 (of_nat (length v)) + int (length v) + ComputeUnknownMessageSetItemsSize fs"
| "ComputeUnknownMessageSetItemsSize (_ # fs) = ComputeUnknownMessageSetItemsSize fs"

lemma length_SerializeUnknownMessageSetItemsToArray [size_simps]:
  "int (length (SerializeUnknownMessageSetItemsToArray u)) = ComputeUnknownMessageSetItemsSize u"
  by (induction u rule: SerializeUnknownMessageSetItemsToArray.induct)
    (simp_all add: kMessageSetItemTagsSize_def SerializeLengthDelimitedNoTagToArray_def
      WriteStringToArray_def WriteRawToArray_def WriteTagToArray_eq WriteVarint32ToArray_eq VarintSize32_eq)

subsection \<open>The writers send what the array writers return\<close>

lemma WriteTagToArray_WriteVarint32ToArray: "WriteTagToArray v = WriteVarint32ToArray v"
  by (simp add: WriteTagToArray_eq WriteVarint32ToArray_eq)

lemmas unknown_writer_bytes = append_assoc WriteInt64ToArray_def WriteInt64NoTagToArray_def
  WriteFixed32ToArray_def WriteFixed32NoTagToArray_def WriteFixed64ToArray_def WriteFixed64NoTagToArray_def
  WriteBytesToArray_def WriteStringWithSizeToArray_def WriteStringToArray_def WriteRawToArray_def
  WriteTagToArray_wf_def WriteTagToArray_WriteVarint32ToArray

context zero_copy_output
begin

lemma WriteTag_wf_does: "does (WriteTagToArray_wf n t) (\<lambda>c. WriteTag_wf ops n t c)"
  unfolding WriteTag_wf_def WriteTagToArray_wf_def by (rule WriteTag_does)

lemma NoTag_does:
  "does (WriteInt32NoTagToArray i) (\<lambda>c. WriteInt32NoTag ops i c)"
  "does (WriteInt64NoTagToArray w) (\<lambda>c. WriteInt64NoTag ops w c)"
  "does (WriteUInt32NoTagToArray i) (\<lambda>c. WriteUInt32NoTag ops i c)"
  "does (WriteUInt64NoTagToArray w) (\<lambda>c. WriteUInt64NoTag ops w c)"
  "does (WriteSInt32NoTagToArray i) (\<lambda>c. WriteSInt32NoTag ops i c)"
  "does (WriteSInt64NoTagToArray w) (\<lambda>c. WriteSInt64NoTag ops w c)"
  "does (WriteFixed32NoTagToArray i) (\<lambda>c. WriteFixed32NoTag ops i c)"
  "does (WriteFixed64NoTagToArray w) (\<lambda>c. WriteFixed64NoTag ops w c)"
  "does (WriteSFixed32NoTagToArray i) (\<lambda>c. WriteSFixed32NoTag ops i c)"
  "does (WriteSFixed64NoTagToArray w) (\<lambda>c. WriteSFixed64NoTag ops w c)"
  "does (WriteBoolNoTagToArray b) (\<lambda>c. WriteBoolNoTag ops b c)"
  "does (WriteEnumNoTagToArray i) (\<lambda>c. WriteEnumNoTag ops i c)"
  by (simp_all add: WriteInt32NoTag_def WriteInt32NoTagToArray_def WriteInt64NoTag_def
      WriteInt64NoTagToArray_def WriteUInt32NoTag_def WriteUInt32NoTagToArray_def WriteUInt64NoTag_def
      WriteUInt64NoTagToArray_def WriteSInt32NoTag_def WriteSInt32NoTagToArray_def WriteSInt64NoTag_def
      WriteSInt64NoTagToArray_def WriteFixed32NoTag_def WriteFixed32NoTagToArray_def WriteFixed64NoTag_def
      WriteFixed64NoTagToArray_def WriteSFixed32NoTag_def WriteSFixed32NoTagToArray_def WriteSFixed64NoTag_def
      WriteSFixed64NoTagToArray_def WriteBoolNoTag_def WriteBoolNoTagToArray_def WriteEnumNoTag_def
      WriteEnumNoTagToArray_def
      WriteVarint32_does WriteVarint64_does WriteVarint32SignExtended_does WriteLittleEndian32_does WriteLittleEndian64_does)

lemma tagged_does:
  "does (WriteInt32ToArray n i) (\<lambda>c. WriteInt32 ops n i c)"
  "does (WriteInt64ToArray n w) (\<lambda>c. WriteInt64 ops n w c)"
  "does (WriteUInt32ToArray n i) (\<lambda>c. WriteUInt32 ops n i c)"
  "does (WriteUInt64ToArray n w) (\<lambda>c. WriteUInt64 ops n w c)"
  "does (WriteSInt32ToArray n i) (\<lambda>c. WriteSInt32 ops n i c)"
  "does (WriteSInt64ToArray n w) (\<lambda>c. WriteSInt64 ops n w c)"
  "does (WriteFixed32ToArray n i) (\<lambda>c. WriteFixed32 ops n i c)"
  "does (WriteFixed64ToArray n w) (\<lambda>c. WriteFixed64 ops n w c)"
  "does (WriteSFixed32ToArray n i) (\<lambda>c. WriteSFixed32 ops n i c)"
  "does (WriteSFixed64ToArray n w) (\<lambda>c. WriteSFixed64 ops n w c)"
  "does (WriteBoolToArray n b) (\<lambda>c. WriteBool ops n b c)"
  "does (WriteEnumToArray n i) (\<lambda>c. WriteEnum ops n i c)"
  unfolding WriteInt32_def WriteInt32ToArray_def WriteInt64_def WriteInt64ToArray_def WriteUInt32_def
      WriteUInt32ToArray_def WriteUInt64_def WriteUInt64ToArray_def WriteSInt32_def WriteSInt32ToArray_def
      WriteSInt64_def WriteSInt64ToArray_def WriteFixed32_def WriteFixed32ToArray_def WriteFixed64_def
      WriteFixed64ToArray_def WriteSFixed32_def WriteSFixed32ToArray_def WriteSFixed64_def
      WriteSFixed64ToArray_def WriteBool_def WriteBoolToArray_def WriteEnum_def WriteEnumToArray_def
  by (intro does_bind WriteTag_wf_does NoTag_does)+


lemma delimited_does:
  assumes "length v < 2 ^ 31"
  shows "does (WriteVarint32ToArray (of_nat (length v)) @ v)
      (\<lambda>c. do { c \<leftarrow> WriteVarint32 ops (of_nat (length v)) c; WriteString ops v c })"
    "does (WriteVarint32ToArray (of_nat (length v)) @ v)
      (\<lambda>c. do { c \<leftarrow> WriteVarint32 ops (of_nat (length v)) c;
                WriteRawMaybeAliased ops v (int_of_size (length v)) c })"
  unfolding int_of_size_exact [OF assms]
  by (intro does_bind WriteVarint32_does WriteString_does WriteRawMaybeAliased_does assms)+

lemma string_does:
  assumes "length v < 2 ^ 31"
  shows "does (WriteStringToArray_wf n v) (\<lambda>c. WriteString_wf ops n v c)"
    "does (WriteStringToArray_wf n v) (\<lambda>c. WriteStringMaybeAliased ops n v c)"
    "does (WriteBytesToArray n v) (\<lambda>c. WriteBytes ops n v c)"
    "does (WriteBytesToArray n v) (\<lambda>c. WriteBytesMaybeAliased ops n v c)"
proof -
  have short: "\<not> int (length v) > INT_MAX"
    using assms by (simp add: INT_MAX_def)
  note d = delimited_does [OF assms]
  show "does (WriteStringToArray_wf n v) (\<lambda>c. WriteString_wf ops n v c)"
    "does (WriteStringToArray_wf n v) (\<lambda>c. WriteStringMaybeAliased ops n v c)"
    "does (WriteBytesToArray n v) (\<lambda>c. WriteBytes ops n v c)"
    "does (WriteBytesToArray n v) (\<lambda>c. WriteBytesMaybeAliased ops n v c)"
    unfolding WriteString_wf_def WriteStringMaybeAliased_def WriteBytes_def WriteBytesMaybeAliased_def
      WriteStringToArray_wf_def WriteBytesToArray_def WriteStringWithSizeToArray_def WriteStringToArray_def
      WriteRawToArray_def if_not_P [OF short]
    by (intro does_bind [OF WriteTag_wf_does] d)+
qed

lemma to_array_or_stream_does:
  assumes "does bs f" "k = int (length bs)"
  shows "does bs (\<lambda>c. to_array_or_stream ops k bs f c)"
proof (rule doesI)
  fix c assume "valid c"
  obtain r c' where g: "GetDirectBufferForNBytesAndAdvance k c = (r, c')"
    by (cases "GetDirectBufferForNBytesAndAdvance k c")
  show "\<exists>c'. to_array_or_stream ops k bs f c = Some c' \<and> sent bs c c'"
  proof (cases r)
    case None
    have "sent [] c c'"
      using GetDirectBuffer_null [OF \<open>valid c\<close>] g None assms(2) by simp
    from does_use [OF assms(1) sent_valid [OF this]] sent_trans [OF this] g None show ?thesis
      by (auto simp: to_array_or_stream_def)
  next
    case (Some p)
    with GetDirectBuffer_does [OF \<open>valid c\<close>, of bs p c'] g assms(2) show ?thesis
      by (simp add: to_array_or_stream_def)
  qed
qed

lemma nested_does:
  assumes "does bs f" "k = int (length bs)"
  shows "does (WriteMessageNoVirtualToArray n k bs) (\<lambda>c. WriteMessage ops n k f c)"
    "does (WriteMessageNoVirtualToArray n k bs) (\<lambda>c. WriteMessageMaybeToArray ops n k bs f c)"
    "does (WriteGroupNoVirtualToArray n bs) (\<lambda>c. WriteGroup ops n f c)"
    "does (WriteGroupNoVirtualToArray n bs) (\<lambda>c. WriteGroupMaybeToArray ops n k bs f c)"
  unfolding WriteMessageNoVirtualToArray_def WriteMessage_def WriteMessageMaybeToArray_def
    WriteGroupNoVirtualToArray_def WriteGroup_def WriteGroupMaybeToArray_def
  by (intro does_bind WriteTag_wf_does WriteVarint32_does to_array_or_stream_does assms)+

lemma SerializeUnknownFields_does:
  "length (SerializeUnknownFieldsToArray u) < 2 ^ 31
    \<Longrightarrow> does (SerializeUnknownFieldsToArray u) (\<lambda>c. SerializeUnknownFields ops u c)"
proof (induction u rule: SerializeUnknownFieldsToArray.induct)
  case 1
  show ?case unfolding SerializeUnknownFields.simps SerializeUnknownFieldsToArray.simps by (rule does_Some)
next
  case (5 n v fs)
  then have short: "length v < 2 ^ 31"
    by (simp add: WriteBytesToArray_def WriteStringWithSizeToArray_def WriteStringToArray_def WriteRawToArray_def)
  from 5 have "does (SerializeUnknownFieldsToArray fs) (\<lambda>c. SerializeUnknownFields ops fs c)" by simp
  with WriteRawMaybeAliased_does [of v] show ?case
    unfolding SerializeUnknownFields.simps SerializeUnknownFieldsToArray.simps unknown_writer_bytes
      int_of_size_exact [OF short]
    by (intro does_bind WriteVarint32_does)
next
  case (6 n g fs)
  then show ?case
    unfolding SerializeUnknownFields.simps SerializeUnknownFieldsToArray.simps unknown_writer_bytes
    by (intro does_bind WriteVarint32_does) simp_all
qed (unfold SerializeUnknownFields.simps SerializeUnknownFieldsToArray.simps unknown_writer_bytes,
    (intro does_bind WriteVarint32_does WriteVarint64_does WriteLittleEndian32_does WriteLittleEndian64_does, simp)+)

lemma SerializeUnknownMessageSetItems_does:
  "length (SerializeUnknownMessageSetItemsToArray u) < 2 ^ 31
    \<Longrightarrow> does (SerializeUnknownMessageSetItemsToArray u) (\<lambda>c. SerializeUnknownMessageSetItems ops u c)"
proof (induction u rule: SerializeUnknownMessageSetItemsToArray.induct)
  case 1
  show ?case
    unfolding SerializeUnknownMessageSetItems.simps SerializeUnknownMessageSetItemsToArray.simps
    by (rule does_Some)
next
  case (2 n v fs)
  then have short: "length v < 2 ^ 31"
    by (simp add: SerializeLengthDelimitedNoTagToArray_def WriteStringToArray_def WriteRawToArray_def)
  from 2 have "does (SerializeUnknownMessageSetItemsToArray fs) (\<lambda>c. SerializeUnknownMessageSetItems ops fs c)"
    by simp
  moreover have "does (SerializeLengthDelimitedNoTagToArray v) (\<lambda>c. SerializeLengthDelimitedNoTag ops v c)"
    unfolding SerializeLengthDelimitedNoTagToArray_def SerializeLengthDelimitedNoTag_def WriteStringToArray_def
      WriteRawToArray_def by (rule delimited_does [OF short])
  ultimately show ?case
    unfolding SerializeUnknownMessageSetItems.simps SerializeUnknownMessageSetItemsToArray.simps
      WriteTagToArray_WriteVarint32ToArray
    by (intro does_bind WriteVarint32_does)
qed (unfold SerializeUnknownMessageSetItems.simps SerializeUnknownMessageSetItemsToArray.simps, simp_all)

end

end
