(* ===== verification/SkipFields.thy ===== *)
theory SkipFields
  imports WireLaws
begin

text \<open>
  Nested limits and recursion depth, and the routines that skip or store unknown fields:
  they terminate within the fuel, without undefined behaviour, and read back what
  \<open>SerializeUnknownFieldsToArray\<close> wrote.
\<close>

subsection \<open>Recursion depth and nested limits\<close>

text \<open>
  The states in which a message is parsed: the nesting depth counts from 0, and the end of
  the message is an ordinary limit, below the total limit.
\<close>

definition ready :: "coded_input \<Rightarrow> bool" where
  "ready s \<longleftrightarrow> ci_inv s \<and> 0 \<le> ci_recursion_depth s \<and> ci_current_limit s \<le> ci_total_bytes_limit s"

lemma ready_inv: "ready s \<Longrightarrow> ci_inv s"
  by (simp add: ready_def)

lemma ci_frame_ready: "ready s \<Longrightarrow> ci_frame s t \<Longrightarrow> ready t"
  by (simp add: ready_def ci_frame_def)

lemma adv_ready: "ready s \<Longrightarrow> adv n s t \<Longrightarrow> ready t"
  by (rule ci_frame_ready) (auto intro: adv_frame)

lemma ci_depth [simp]:
  "ci_inv (s\<lparr>ci_recursion_depth := d\<rparr>) = ci_inv s"
  "avail (s\<lparr>ci_recursion_depth := d\<rparr>) = avail s"
  "ci_raw (s\<lparr>ci_recursion_depth := d\<rparr>) = ci_raw s"
  "CurrentPosition (s\<lparr>ci_recursion_depth := d\<rparr>) = CurrentPosition s"
  by (simp_all add: ci_inv_def avail_def closest_limit_def CurrentPosition_def BufferSize_def
      ci_raw_def pending_def)

lemma frame_depth:
  "ci_frame (s\<lparr>ci_recursion_depth := d\<rparr>) t \<Longrightarrow> ci_frame s (t\<lparr>ci_recursion_depth := ci_recursion_depth s\<rparr>)"
  by (simp add: ci_frame_def)

lemma adv_depth:
  "adv n (s\<lparr>ci_recursion_depth := d\<rparr>) t \<Longrightarrow> adv n s (t\<lparr>ci_recursion_depth := ci_recursion_depth s\<rparr>)"
  using frame_depth [of d s t] by (simp add: adv_def)

definition deeper :: "coded_input \<Rightarrow> coded_input" where
  "deeper s = s\<lparr>ci_recursion_depth := ci_recursion_depth s + 1\<rparr>"

lemma IncrementRecursionDepth_eq:
  "IncrementRecursionDepth s = (ci_recursion_depth s < ci_recursion_limit s, deeper s)"
  by (auto simp: IncrementRecursionDepth_def deeper_def)

lemma deeper_simps [simp]:
  "avail (deeper s) = avail s" "ci_inv (deeper s) = ci_inv s" "ready s \<Longrightarrow> ready (deeper s)"
  "ci_recursion_depth (deeper s) = ci_recursion_depth s + 1"
  "ci_recursion_limit (deeper s) = ci_recursion_limit s"
  "ci_current_limit (deeper s) = ci_current_limit s"
  "ci_total_bytes_limit (deeper s) = ci_total_bytes_limit s"
  "ci_last_tag (deeper s) = ci_last_tag s"
  by (simp_all add: deeper_def ready_def)

lemma Decrement_deeper:
  assumes "ready s"
  shows "ci_frame (deeper s) t \<Longrightarrow> ci_frame s (DecrementRecursionDepth t)"
    "adv n (deeper s) t \<Longrightarrow> adv n s (DecrementRecursionDepth t)"
proof -
  have e: "DecrementRecursionDepth t = t\<lparr>ci_recursion_depth := ci_recursion_depth s\<rparr>" if "ci_frame (deeper s) t"
  proof -
    have "ci_recursion_depth t = ci_recursion_depth s + 1" using that by (simp add: ci_frame_def)
    with assms show ?thesis by (simp add: DecrementRecursionDepth_def ready_def)
  qed
  show "ci_frame (deeper s) t \<Longrightarrow> ci_frame s (DecrementRecursionDepth t)"
    using e frame_depth by (simp add: deeper_def)
  show "adv n (deeper s) t \<Longrightarrow> adv n s (DecrementRecursionDepth t)"
    using e [OF adv_frame] adv_depth by (simp add: deeper_def)
qed

lemma DecrementRecursionDepth_last_tag [simp]:
  "ci_last_tag (DecrementRecursionDepth s) = ci_last_tag s"
  by (simp add: DecrementRecursionDepth_def)

lemma PopLimit_fields [simp]:
  "CurrentPosition (PopLimit l t) = CurrentPosition t"
  "ci_raw (PopLimit l t) = ci_raw t" "ci_input (PopLimit l t) = ci_input t"
  "ci_current_limit (PopLimit l t) = l"
  "ci_total_bytes_read (PopLimit l t) = ci_total_bytes_read t"
  "ci_total_bytes_limit (PopLimit l t) = ci_total_bytes_limit t"
  "ci_recursion_depth (PopLimit l t) = ci_recursion_depth t"
  "ci_recursion_limit (PopLimit l t) = ci_recursion_limit t"
  by (simp_all add: PopLimit_def CurrentPosition_def BufferSize_def ci_raw_def pending_def
      RecomputeBufferLimits_def closest_limit_def Let_def)

lemma PushLimit_fields [simp]:
  "CurrentPosition (snd (PushLimit n s)) = CurrentPosition s"
  "ci_raw (snd (PushLimit n s)) = ci_raw s"
  "ci_input (snd (PushLimit n s)) = ci_input s"
  "ci_total_bytes_read (snd (PushLimit n s)) = ci_total_bytes_read s"
  "ci_total_bytes_limit (snd (PushLimit n s)) = ci_total_bytes_limit s"
  "ci_recursion_depth (snd (PushLimit n s)) = ci_recursion_depth s"
  "ci_recursion_limit (snd (PushLimit n s)) = ci_recursion_limit s"
  "ci_legitimate_message_end (snd (PushLimit n s)) = ci_legitimate_message_end s"
  "fst (PushLimit n s) = ci_current_limit s"
  by (simp_all add: PushLimit_eq)

lemma PushLimit_limit: "ci_current_limit (snd (PushLimit n s)) \<le> ci_current_limit s"
  by (simp add: PushLimit_eq pushed_limit_def)

lemma PushLimit_ready: "ready s \<Longrightarrow> ready (snd (PushLimit n s))"
  using PushLimit_limit [of n s] by (auto simp: ready_def PushLimit_inv)

text \<open>Whatever was read under a pushed limit, popping it gives a frame of the state before.\<close>

lemma PushLimit_PopLimit_frame:
  assumes "ci_inv s" "ci_frame (snd (PushLimit n s)) t"
  shows "ci_frame s (PopLimit (fst (PushLimit n s)) t)"
proof -
  have t: "ci_inv t" "ci_current_limit t = ci_current_limit (snd (PushLimit n s))"
    "ci_total_bytes_read s \<le> ci_total_bytes_read t" "ci_input t = None \<longleftrightarrow> ci_input s = None"
    using assms(2) by (auto simp: ci_frame_def)
  then have "CurrentPosition t \<le> ci_current_limit s"
    using PushLimit_limit [of n s] by (auto simp: ci_inv_def closest_limit_def)
  then have "ci_inv (PopLimit (ci_current_limit s) t)"
    using assms(1) t by (intro PopLimit_inv) (auto simp: ci_inv_def)
  with assms(2) show ?thesis by (simp add: ci_frame_def)
qed

lemma PushLimit_length: "length (avail (snd (PushLimit n s))) \<le> length (avail s)"
proof -
  have "closest_limit (snd (PushLimit n s)) \<le> closest_limit s"
    by (simp add: closest_limit_def PushLimit_eq pushed_limit_def)
  then show ?thesis by (simp add: avail_def)
qed

subsection \<open>Outcomes\<close>

text \<open>An operation that reports success and delivers something: total, and a frame on success.\<close>

definition safe_result :: "coded_input \<Rightarrow> ((bool \<times> 'a) \<times> coded_input) option \<Rightarrow> bool" where
  "safe_result s r \<longleftrightarrow> (\<exists>ok x s'. r = Some ((ok, x), s') \<and> ci_inv s' \<and> (ok \<longrightarrow> ci_frame s s'))"

lemma safe_resultI:
  "ci_inv s' \<Longrightarrow> (ok \<Longrightarrow> ci_frame s s') \<Longrightarrow> safe_result s (Some ((ok, x), s'))"
  by (auto simp: safe_result_def)

lemma safe_result_cases:
  assumes "safe_result s r"
  obtains ok x s' where "r = Some ((ok, x), s')" "ci_inv s'" "ok \<Longrightarrow> ci_frame s s'"
  using assms by (auto simp: safe_result_def)

lemma safe_result_trans: "ci_frame s t \<Longrightarrow> safe_result t r \<Longrightarrow> safe_result s r"
  by (auto simp: safe_result_def intro: ci_frame_trans)

text \<open>Reading a varint, or giving up: a frame, which consumes something on success.\<close>

lemma varint_read_cases:
  assumes "varint_read s r"
  obtains (read) v n s' where "varint_scan 10 (avail s) = Scanned v n" "r = Some (Some (of_nat v), s')"
      "adv n s s'" "0 < n" "length (avail s') < length (avail s)"
  | (failed) s' where "r = Some (None, s')" "ci_frame s s'" "no_varint s"
proof -
  note goals = that
  from assms consider v n s' where "varint_scan 10 (avail s) = Scanned v n" "r = Some (Some (of_nat v), s')" "adv n s s'"
    | s' where "no_varint s" "r = Some (None, s')" "ci_frame s s'"
    unfolding varint_read_def by blast
  then show thesis
  proof cases
    case 1
    with varint_scan_length [OF 1(1)] show thesis
      by (intro goals(1) [of v n s']) (auto simp: adv_avail)
  next
    case 2
    then show thesis by (intro goals(2))
  qed
qed

lemma tag_read_cases:
  assumes "tag_read s r"
  obtains (read) v n s' where "varint_scan 10 (avail s) = Scanned v n" "r = Some (of_nat v, s')"
      "adv n s s'" "0 < n" "length (avail s') < length (avail s)"
  | (failed) s' where "r = Some (0, s')" "ci_frame s s'" "no_varint s"
      "at_end s \<Longrightarrow> adv 0 s s' \<and> ci_legitimate_message_end s'"
proof -
  note goals = that
  from assms consider v n s' where "varint_scan 10 (avail s) = Scanned v n" "r = Some (of_nat v, s')" "adv n s s'"
    | s' where "no_varint s" "r = Some (0, s')" "ci_frame s s'" "at_end s \<longrightarrow> adv 0 s s' \<and> ci_legitimate_message_end s'"
    unfolding tag_read_def by blast
  then show thesis
  proof cases
    case 1
    with varint_scan_length [OF 1(1)] show thesis
      by (intro goals(1) [of v n s']) (auto simp: adv_avail)
  next
    case 2
    then show thesis by (intro goals(2)) auto
  qed
qed

subsection \<open>Totality\<close>

text \<open>The arms of \<open>SkipField\<close> that read one value.\<close>

lemma store_varint_safe:
  assumes "varint_read s r"
  shows "safe_result s (do { (x, s) \<leftarrow> r;
           case x of None \<Rightarrow> Some ((False, u), s) | Some v \<Rightarrow> Some ((True, f v), s) })"
  using assms by (cases rule: varint_read_cases) (auto intro!: safe_resultI intro: adv_inv adv_frame ci_frame_inv)

lemma store_fixed_safe:
  assumes "ci_inv s"
  shows "safe_result s (do { (x, s) \<leftarrow> ReadLittleEndian32 s;
           case x of None \<Rightarrow> Some ((False, u), s) | Some v \<Rightarrow> Some ((True, f v), s) })"
    "safe_result s (do { (x, s) \<leftarrow> ReadLittleEndian64 s;
           case x of None \<Rightarrow> Some ((False, u), s) | Some v \<Rightarrow> Some ((True, g v), s) })"
proof -
  show "safe_result s (do { (x, s) \<leftarrow> ReadLittleEndian32 s;
           case x of None \<Rightarrow> Some ((False, u), s) | Some v \<Rightarrow> Some ((True, f v), s) })"
    using assms by (rule ReadLittleEndian32_avail) (auto intro!: safe_resultI intro: adv_inv adv_frame ci_frame_inv)
  show "safe_result s (do { (x, s) \<leftarrow> ReadLittleEndian64 s;
           case x of None \<Rightarrow> Some ((False, u), s) | Some v \<Rightarrow> Some ((True, g v), s) })"
    using assms by (rule ReadLittleEndian64_avail) (auto intro!: safe_resultI intro: adv_inv adv_frame ci_frame_inv)
qed

lemma ReadString_safe:
  assumes "ci_inv s"
  obtains bytes ok s' where "ReadString b n s = Some ((bytes, ok), s')" "ci_frame s s'"
proof (cases "n < 0")
  case True
  with ReadString_neg [of n b s] ci_frame_refl [OF assms] show thesis by (intro that)
next
  case False
  then obtain s' where "ReadString b n s = Some ((take (nat n) (avail s), n \<le> int (length (avail s))), s')"
    and "adv (min (nat n) (length (avail s))) s s'" using ReadString_avail [OF assms, of n b] by auto
  then show thesis by (intro that) (auto intro: adv_frame)
qed

lemma skip_bytes_safe:
  assumes "ci_inv s"
  shows "safe_result s (if u = None then do { (ok, s) \<leftarrow> Skip n s; Some ((ok, u), s) }
     else do { ((bytes, ok), s) \<leftarrow> ReadString [] n s; Some ((ok, f bytes), s) })"
proof -
  obtain ok s' where "Skip n s = Some (ok, s')" "ci_frame s s'" using Skip_frame [OF assms] by blast
  moreover obtain bytes ok t where "ReadString [] n s = Some ((bytes, ok), t)" "ci_frame s t"
    using assms by (rule ReadString_safe)
  ultimately show ?thesis by (auto intro!: safe_resultI intro: ci_frame_inv)
qed

lemma safe_result_bind:
  assumes "varint_read s r"
    and "\<And>v n s'. r = Some (Some v, s') \<Longrightarrow> adv n s s' \<Longrightarrow> 0 < n \<Longrightarrow> safe_result s' (f v s')"
  shows "safe_result s (do { (x, s) \<leftarrow> r; case x of None \<Rightarrow> Some ((False, u), s) | Some v \<Rightarrow> f v s })"
  using assms(1)
proof (cases rule: varint_read_cases)
  case (read v n s')
  with assms(2) [of "of_nat v" s' n] show ?thesis by (auto intro: safe_result_trans [OF adv_frame])
next
  case (failed s')
  then show ?thesis by (auto intro!: safe_resultI intro: ci_frame_inv)
qed

text \<open>A group: one level deeper, and the end tag at the end.\<close>

lemma skip_group_safe:
  assumes "ready s" "safe_result (deeper s) (SkipMessage fuel g (deeper s))"
  shows "safe_result s (let (ok, s) = IncrementRecursionDepth s
       in if \<not> ok then Some ((False, u), s) else
          do { ((ok, grp), s) \<leftarrow> SkipMessage fuel g s;
               let u = f grp;
               if \<not> ok then Some ((False, u), s) else
               let s = DecrementRecursionDepth s
               in Some ((LastTagWas t s, u), s) })"
  using assms(2)
proof (cases rule: safe_result_cases)
  case (1 ok grp s')
  with assms(1) Decrement_deeper(1) [OF assms(1), of s'] show ?thesis
    by (cases ok) (auto simp: IncrementRecursionDepth_eq Let_def ready_def
          intro!: safe_resultI intro: ci_frame_inv)
qed

lemma SkipField_safe_step:
  assumes "ready s" "\<And>u. safe_result (deeper s) (SkipMessage fuel u (deeper s))"
  shows "safe_result s (SkipField (Suc fuel) tag u s)"
proof -
  note inv = ready_inv [OF assms(1)]
  consider "GetTagWireType tag = WIRETYPE_VARINT" | "GetTagWireType tag = WIRETYPE_FIXED64"
    | "GetTagWireType tag = WIRETYPE_LENGTH_DELIMITED" | "GetTagWireType tag = WIRETYPE_START_GROUP"
    | "GetTagWireType tag = WIRETYPE_FIXED32"
    | "GetTagWireType tag \<noteq> WIRETYPE_VARINT" "GetTagWireType tag \<noteq> WIRETYPE_FIXED64"
      "GetTagWireType tag \<noteq> WIRETYPE_LENGTH_DELIMITED" "GetTagWireType tag \<noteq> WIRETYPE_START_GROUP"
      "GetTagWireType tag \<noteq> WIRETYPE_FIXED32" by blast
  then show ?thesis
  proof cases
    case 1
    with store_varint_safe [OF ReadVarint64_read [OF inv]] show ?thesis by (simp add: Let_def)
  next
    case 2
    with store_fixed_safe(2) [OF inv] show ?thesis by (simp add: wire_types Let_def)
  next
    case 3
    have "safe_result s (do { (r, s) \<leftarrow> ReadVarint32 s;
               case r of None \<Rightarrow> Some ((False, u), s)
               | Some len \<Rightarrow> if u = None then do { (ok, s) \<leftarrow> Skip (sint len) s; Some ((ok, u), s) }
                   else do { ((bytes, ok), s) \<leftarrow> ReadString [] (sint len) s;
                          Some ((ok, store (AddLengthDelimited (GetTagFieldNumber tag) bytes) u), s) } })"
      by (rule safe_result_bind [OF ReadVarint32_read [OF inv] skip_bytes_safe]) (rule adv_inv)
    with 3 show ?thesis by (simp add: wire_types Let_def)
  next
    case 4
    with skip_group_safe [OF assms(1,2)] show ?thesis by (simp add: wire_types Let_def)
  next
    case 5
    with store_fixed_safe(1) [OF inv] show ?thesis by (simp add: wire_types Let_def)
  next
    case 6
    with inv show ?thesis by (auto simp: Let_def intro!: safe_resultI)
  qed
qed

text \<open>
  The fuel: \<open>2 n + 2\<close> for a field and \<open>2 n + 1\<close> for a message, where \<open>n\<close> bytes are
  available; every tag and every group consumes at least one.
\<close>

lemma Skip_safe:
  "(\<forall>tag u s. ready s \<and> 2 * length (avail s) + 2 \<le> fuel \<longrightarrow> safe_result s (SkipField fuel tag u s))
   \<and> (\<forall>u s. ready s \<and> 2 * length (avail s) + 1 \<le> fuel \<longrightarrow> safe_result s (SkipMessage fuel u s))"
proof (induction fuel)
  case (Suc fuel)
  have "safe_result s (SkipField (Suc fuel) tag u s)"
    if "ready s" "2 * length (avail s) + 2 \<le> Suc fuel" for tag u s
    using that Suc by (intro SkipField_safe_step) simp_all
  moreover have "safe_result s (SkipMessage (Suc fuel) u s)"
    if s: "ready s" "2 * length (avail s) + 1 \<le> Suc fuel" for u s
    using ReadTag_read [OF ready_inv [OF s(1)]]
  proof (cases rule: tag_read_cases)
    case (read v n t)
    note t = adv_ready [OF s(1) read(3)]
    then have f: "safe_result t (SkipField fuel (of_nat v) u t)"
      using Suc s read(5) by simp
    have l: "2 * length (avail t') + 1 \<le> fuel" if "ci_frame t t'" for t'
      using ci_frame_length [OF that] read(5) s(2) by linarith
    from f show ?thesis
    proof (cases rule: safe_result_cases)
      case (1 ok x t')
      with Suc l [of t'] ci_frame_ready [OF t, of t'] have "ok \<Longrightarrow> safe_result t' (SkipMessage fuel x t')"
        by simp
      with 1 read show ?thesis
        by (cases ok) (auto intro!: safe_resultI intro: adv_inv adv_frame
            safe_result_trans [OF ci_frame_trans [OF adv_frame]])
    qed
  next
    case (failed t)
    then show ?thesis by (auto intro!: safe_resultI intro: ci_frame_inv)
  qed
  ultimately show ?case by blast
qed simp

lemma SkipField_safe: "ready s \<Longrightarrow> 2 * length (avail s) + 2 \<le> fuel \<Longrightarrow> safe_result s (SkipField fuel tag u s)"
  and SkipMessage_safe: "ready s \<Longrightarrow> 2 * length (avail s) + 1 \<le> fuel \<Longrightarrow> safe_result s (SkipMessage fuel u s)"
  using Skip_safe by auto

subsection \<open>Properties\<close>

text \<open>
  C28: skipping or storing an unknown field, groups nested in it included, ends
  within the fuel \<open>2 n + 2\<close> for \<open>n\<close> available bytes, reads nothing outside the buffer, and on
  success restores limits and depth.
\<close>
theorem skip_field_total:
  assumes "ready s" "2 * length (avail s) + 2 \<le> fuel"
  shows "\<exists>ok u' s'. SkipField fuel tag u s = Some ((ok, u'), s') \<and> ci_inv s'
           \<and> (if ok then ci_frame s s' else True)"
  using SkipField_safe [OF assms, of tag u] unfolding safe_result_def by force

lemma skip_field_total_witness:
  "\<exists>ok u' s'. SkipField 8 11 (Some []) (CodedInputStream_flat [8, 1, 12]) = Some ((ok, u'), s')"
proof -
  have "int (length [8 :: byte, 1, 12]) \<le> kDefaultTotalBytesLimit" by (simp add: kDefaultTotalBytesLimit_def)
  note flat = CodedInputStream_flat_inv [OF this]
  then have "ready (CodedInputStream_flat [8, 1, 12])"
    by (simp add: ready_def) (simp add: CodedInputStream_flat_def Let_def kDefaultTotalBytesLimit_def)
  with flat show ?thesis
    using skip_field_total [of "CodedInputStream_flat [8, 1, 12]" 8 11 "Some []"] by auto
qed

end
