(* ===== verification/UnknownReads.thy ===== *)
theory UnknownReads
  imports SkipFields
begin

text \<open>
  What was written is read back: varints, tags, little-endian integers and strings on a
  stream, and the unknown fields of a message.
\<close>

subsection \<open>Reading back primitive values\<close>

lemma scan_write [simp]:
  "varint_scan 10 (WriteVarint32ToArray v @ rest) = Scanned (unat v) (length (WriteVarint32ToArray v))"
  "varint_scan 10 (WriteVarint64ToArray w @ rest) = Scanned (unat w) (length (WriteVarint64ToArray w))"
  "varint_scan 10 (WriteTagToArray_wf n t @ rest) = Scanned (unat (MakeTag n t)) (length (WriteTagToArray_wf n t))"
proof -
  have "unat v < 128 ^ Suc 9" "unat w < 128 ^ Suc 9" "unat (MakeTag n t) < 128 ^ Suc 9"
    using u32_lt_2p32 [of v] u64_lt_2p64 [of w] u32_lt_2p32 [of "MakeTag n t"] by simp_all
  note scan = this [THEN varint_scan_bytes [of _ 9], simplified]
  show "varint_scan 10 (WriteVarint32ToArray v @ rest) = Scanned (unat v) (length (WriteVarint32ToArray v))"
    "varint_scan 10 (WriteVarint64ToArray w @ rest) = Scanned (unat w) (length (WriteVarint64ToArray w))"
    "varint_scan 10 (WriteTagToArray_wf n t @ rest) = Scanned (unat (MakeTag n t)) (length (WriteTagToArray_wf n t))"
    by (simp_all add: scan WriteVarint32ToArray_eq WriteVarint64ToArray_eq WriteTagToArray_wf_def WriteTagToArray_eq)
qed

lemma varint_read_scanned:
  assumes "varint_read s r" "varint_scan 10 (avail s) = Scanned v n"
  obtains s' where "r = Some (Some (of_nat v), s')" "adv n s s'"
  using assms by (auto simp: varint_read_def no_varint_def)

lemma ReadVarint64_write:
  assumes "ci_inv s" "avail s = WriteVarint64ToArray v @ rest"
  obtains s' where "ReadVarint64 s = Some (Some v, s')" "adv (length (WriteVarint64ToArray v)) s s'"
  using varint_read_scanned [OF ReadVarint64_read [OF assms(1)], of "unat v" "length (WriteVarint64ToArray v)"]
    assms(2) that by auto

lemma ReadVarint32_write:
  assumes "ci_inv s" "avail s = WriteVarint32ToArray v @ rest"
  obtains s' where "ReadVarint32 s = Some (Some v, s')" "adv (length (WriteVarint32ToArray v)) s s'"
  using varint_read_scanned [OF ReadVarint32_read [OF assms(1)], of "unat v" "length (WriteVarint32ToArray v)"]
    assms(2) that by auto

text \<open>An \<open>int32\<close> or enum comes back from its sign-extended form.\<close>

lemma ReadVarint32_write_int32:
  assumes "ci_inv s" "avail s = WriteVarint32SignExtendedToArray v @ rest"
  obtains s' where "ReadVarint32 s = Some (Some v, s')" "adv (length (WriteVarint32SignExtendedToArray v)) s s'"
proof (cases "s32_neg v")
  case True
  have "(of_nat (unat (scast v :: u64)) :: u32) = ucast (scast v :: u64)" by (simp add: of_nat_unat)
  also have "\<dots> = v" by (rule bit_eqI) (auto simp: bit_simps)
  finally have "(of_nat (unat (scast v :: u64)) :: u32) = v" .
  with True assms(2) varint_read_scanned [OF ReadVarint32_read [OF assms(1)],
      of "unat (scast v :: u64)" "length (WriteVarint64ToArray (scast v))"] that show thesis
    by (auto simp: WriteVarint32SignExtendedToArray_def)
next
  case False
  with assms that ReadVarint32_write [of s v rest] show thesis
    by (auto simp: WriteVarint32SignExtendedToArray_def)
qed

lemma ReadTag_write:
  assumes "ci_inv s" "avail s = WriteTagToArray_wf n t @ rest"
  obtains s' where "ReadTag s = Some (MakeTag n t, s')" "adv (length (WriteTagToArray_wf n t)) s s'"
    "ci_last_tag s' = MakeTag n t"
proof -
  obtain s' where s': "ReadTag s = Some (MakeTag n t, s')" "adv (length (WriteTagToArray_wf n t)) s s'"
    using ReadTag_read [OF assms(1)] assms(2) by (auto simp: tag_read_def no_varint_def)
  with that ReadTag_last_tag show thesis by blast
qed

lemma ReadLittleEndian_write:
  assumes "ci_inv s"
  shows "avail s = WriteLittleEndian32ToArray v @ rest
      \<Longrightarrow> \<exists>s'. ReadLittleEndian32 s = Some (Some v, s') \<and> adv 4 s s'"
    "avail s = WriteLittleEndian64ToArray w @ rest
      \<Longrightarrow> \<exists>s'. ReadLittleEndian64 s = Some (Some w, s') \<and> adv 8 s s'"
proof -
  show "avail s = WriteLittleEndian32ToArray v @ rest
      \<Longrightarrow> \<exists>s'. ReadLittleEndian32 s = Some (Some v, s') \<and> adv 4 s s'"
    using assms by (rule ReadLittleEndian32_avail) (auto simp: ReadLittleEndian32FromArray_write size_simps)
  show "avail s = WriteLittleEndian64ToArray w @ rest
      \<Longrightarrow> \<exists>s'. ReadLittleEndian64 s = Some (Some w, s') \<and> adv 8 s s'"
    using assms by (rule ReadLittleEndian64_avail) (auto simp: ReadLittleEndian64FromArray_write size_simps)
qed

lemma avail_INT_MAX: "ci_inv s \<Longrightarrow> int (length (avail s)) \<le> INT_MAX"
proof -
  assume inv: "ci_inv s"
  have "length (avail s) \<le> nat (closest_limit s - CurrentPosition s)" by (simp add: avail_def)
  moreover have "closest_limit s \<le> INT_MAX" using inv by (simp add: ci_inv_def closest_limit_def min_def)
  moreover have "0 \<le> CurrentPosition s" "0 \<le> INT_MAX"
    using CurrentPosition_bounds [OF inv] by (simp_all add: INT_MAX_def)
  ultimately show ?thesis by linarith
qed

lemma sint_length:
  assumes "int n \<le> INT_MAX"
  shows "sint (of_nat n :: i32) = int n" "unat (of_nat n :: u32) = n"
proof -
  have n: "n < 2147483648" using assms by (simp add: INT_MAX_def)
  then show "unat (of_nat n :: u32) = n" by (simp add: unat_of_nat)
  show "sint (of_nat n :: i32) = int n"
    using n by (simp add: signed_of_nat signed_take_bit_int_eq_self)
qed

lemma ReadString_write:
  assumes "ci_inv s" "avail s = v @ rest"
  obtains s' where "ReadString b (sint (of_nat (length v) :: i32)) s = Some ((v, True), s')" "adv (length v) s s'"
proof -
  have "int (length v) \<le> INT_MAX" using avail_INT_MAX [OF assms(1)] assms(2) by simp
  then show thesis
    using ReadString_avail [OF assms(1), of "int (length v)" b] assms(2) that by (auto simp: sint_length)
qed

subsection \<open>The unknown fields of a message\<close>

text \<open>
  The tag and the bytes after it of one unknown field; the field sets that a parser can
  produce (numbers from 1 to \<open>2^29 - 1\<close>), and how deep their groups nest.
\<close>

fun uf_type :: "unknown_field \<Rightarrow> u32" where
  "uf_type (Unknown_Varint n v) = WIRETYPE_VARINT"
| "uf_type (Unknown_Fixed32 n v) = WIRETYPE_FIXED32"
| "uf_type (Unknown_Fixed64 n v) = WIRETYPE_FIXED64"
| "uf_type (Unknown_LengthDelimited n v) = WIRETYPE_LENGTH_DELIMITED"
| "uf_type (Unknown_Group n g) = WIRETYPE_START_GROUP"

definition uf_tag :: "unknown_field \<Rightarrow> u32" where
  "uf_tag f = MakeTag (uf_number f) (uf_type f)"

fun uf_payload :: "unknown_field \<Rightarrow> byte list" where
  "uf_payload (Unknown_Varint n v) = WriteVarint64ToArray v"
| "uf_payload (Unknown_Fixed32 n v) = WriteLittleEndian32ToArray v"
| "uf_payload (Unknown_Fixed64 n v) = WriteLittleEndian64ToArray v"
| "uf_payload (Unknown_LengthDelimited n v) = WriteStringWithSizeToArray v"
| "uf_payload (Unknown_Group n g) = SerializeUnknownFieldsToArray g @ WriteTagToArray_wf n WIRETYPE_END_GROUP"

function ufs_ok :: "unknown_field_set \<Rightarrow> bool" where
  "ufs_ok [] = True"
| "ufs_ok (Unknown_Group n g # fs) = (0 < n \<and> n < 2 ^ 29 \<and> ufs_ok g \<and> ufs_ok fs)"
| "ufs_ok (Unknown_Varint n v # fs) = (0 < n \<and> n < 2 ^ 29 \<and> ufs_ok fs)"
| "ufs_ok (Unknown_Fixed32 n w # fs) = (0 < n \<and> n < 2 ^ 29 \<and> ufs_ok fs)"
| "ufs_ok (Unknown_Fixed64 n v # fs) = (0 < n \<and> n < 2 ^ 29 \<and> ufs_ok fs)"
| "ufs_ok (Unknown_LengthDelimited n b # fs) = (0 < n \<and> n < 2 ^ 29 \<and> ufs_ok fs)"
  by pat_completeness auto
termination
  by (relation "measure (size_list size)") auto

function ufs_depth :: "unknown_field_set \<Rightarrow> nat" where
  "ufs_depth [] = 0"
| "ufs_depth (Unknown_Group n g # fs) = max (Suc (ufs_depth g)) (ufs_depth fs)"
| "ufs_depth (Unknown_Varint n v # fs) = ufs_depth fs"
| "ufs_depth (Unknown_Fixed32 n w # fs) = ufs_depth fs"
| "ufs_depth (Unknown_Fixed64 n v # fs) = ufs_depth fs"
| "ufs_depth (Unknown_LengthDelimited n b # fs) = ufs_depth fs"
  by pat_completeness auto
termination
  by (relation "measure (size_list size)") auto

lemma Serialize_Cons:
  "SerializeUnknownFieldsToArray (f # fs)
     = WriteTagToArray_wf (uf_number f) (uf_type f) @ uf_payload f @ SerializeUnknownFieldsToArray fs"
  by (cases f) (simp_all add: WriteInt64ToArray_def WriteInt64NoTagToArray_def WriteFixed32ToArray_def
      WriteFixed32NoTagToArray_def WriteFixed64ToArray_def WriteFixed64NoTagToArray_def WriteBytesToArray_def)

lemma uf_type_simps [simp]: "uf_type f < 8" "uf_type f \<noteq> WIRETYPE_END_GROUP"
  by (cases f; simp add: wire_types)+

lemma ufs_ok_Cons: "ufs_ok (f # fs) \<Longrightarrow> 0 < uf_number f \<and> uf_number f < 2 ^ 29 \<and> ufs_ok [f] \<and> ufs_ok fs"
  by (cases f) auto

lemma ufs_depth_Cons: "ufs_depth (f # fs) = max (ufs_depth [f]) (ufs_depth fs)"
  by (cases f) auto

lemma length_WriteTagToArray_wf_pos: "0 < length (WriteTagToArray_wf n t)"
  by (simp add: WriteTagToArray_wf_def WriteTagToArray_eq)

text \<open>
  \<open>reads c d bs f x\<close>: on any stream whose available bytes begin with \<open>bs\<close>, with \<open>d\<close> levels of
  recursion left and fuel \<open>2 n + c\<close>, \<open>f\<close> consumes exactly \<open>bs\<close> and delivers \<open>x\<close>.
\<close>

definition reads :: "nat \<Rightarrow> nat \<Rightarrow> byte list
    \<Rightarrow> (nat \<Rightarrow> coded_input \<Rightarrow> ((bool \<times> 'a) \<times> coded_input) option) \<Rightarrow> 'a \<Rightarrow> bool" where
  "reads c d bs f x \<longleftrightarrow>
     (\<forall>s rest fuel. ready s \<and> ci_recursion_depth s + int d \<le> ci_recursion_limit s \<and> avail s = bs @ rest
        \<and> 2 * length (avail s) + c \<le> fuel
        \<longrightarrow> (\<exists>s'. f fuel s = Some ((True, x), s') \<and> adv (length bs) s s'))"

lemma readsI:
  assumes "\<And>s rest fuel. ready s \<Longrightarrow> ci_inv s \<Longrightarrow> ci_recursion_depth s + int d \<le> ci_recursion_limit s
      \<Longrightarrow> avail s = bs @ rest \<Longrightarrow> 2 * length (avail s) + c \<le> fuel
      \<Longrightarrow> \<exists>s'. f fuel s = Some ((True, x), s') \<and> adv (length bs) s s'"
  shows "reads c d bs f x"
  unfolding reads_def using assms ready_inv by blast

lemma reads_use:
  assumes "reads c d bs f x" "ready s" "ci_recursion_depth s + int d \<le> ci_recursion_limit s"
    "avail s = bs @ rest" "2 * length (avail s) + c \<le> fuel"
  obtains s' where "f fuel s = Some ((True, x), s')" "adv (length bs) s s'" "ready s'" "avail s' = rest"
    "ci_recursion_depth s' = ci_recursion_depth s" "ci_recursion_limit s' = ci_recursion_limit s"
proof -
  obtain s' where s': "f fuel s = Some ((True, x), s')" "adv (length bs) s s'"
    using assms unfolding reads_def by blast
  with adv_avail [OF s'(2)] adv_ready [OF assms(2) s'(2)] assms(4) that [of s'] adv_frame [OF s'(2)]
  show thesis by (auto simp: ci_frame_def)
qed

lemma reads_mono: "reads c d bs f x \<Longrightarrow> d \<le> d' \<Longrightarrow> reads c d' bs f x"
  unfolding reads_def by (meson add_left_mono of_nat_mono order_trans)

definition field_skips :: "unknown_field \<Rightarrow> bool" where
  "field_skips f \<longleftrightarrow> (\<forall>u. reads 2 (ufs_depth [f]) (uf_payload f)
      (\<lambda>fuel s. SkipField fuel (uf_tag f) (Some u) s) (Some (u @ [f])))"

definition group_skips :: "unknown_field_set \<Rightarrow> bool" where
  "group_skips fs \<longleftrightarrow> (\<forall>u n s rest fuel.
     n < 2 ^ 29 \<and> n \<noteq> 0 \<and> ready s \<and> ci_recursion_depth s + int (ufs_depth fs) \<le> ci_recursion_limit s
     \<and> avail s = (SerializeUnknownFieldsToArray fs @ WriteTagToArray_wf n WIRETYPE_END_GROUP) @ rest
     \<and> 2 * length (avail s) + 1 \<le> fuel
     \<longrightarrow> (\<exists>s'. SkipMessage fuel (Some u) s = Some ((True, Some (u @ fs)), s')
           \<and> adv (length (SerializeUnknownFieldsToArray fs @ WriteTagToArray_wf n WIRETYPE_END_GROUP)) s s'
           \<and> ci_last_tag s' = MakeTag n WIRETYPE_END_GROUP))"

lemma SkipMessage_tag:
  assumes "ready s" "avail s = WriteTagToArray_wf n t @ rest" "t < 8" "n < 2 ^ 29" "n \<noteq> 0"
    "2 * length (avail s) + 1 \<le> fuel"
  obtains fuel' s' where "fuel = Suc fuel'" "2 * length rest + 2 \<le> fuel'" "avail s' = rest" "ready s'"
    "adv (length (WriteTagToArray_wf n t)) s s'" "ci_last_tag s' = MakeTag n t"
    "SkipMessage fuel u s = (if t = WIRETYPE_END_GROUP then Some ((True, u), s')
       else do { ((ok, u), s) \<leftarrow> SkipField fuel' (MakeTag n t) u s';
                 if \<not> ok then Some ((False, u), s) else SkipMessage fuel' u s })"
proof -
  obtain s' where s': "ReadTag s = Some (MakeTag n t, s')" "adv (length (WriteTagToArray_wf n t)) s s'"
    "ci_last_tag s' = MakeTag n t"
    using ready_inv [OF assms(1)] assms(2) by (rule ReadTag_write)
  obtain fuel' where f: "fuel = Suc fuel'" using assms(6) by (cases fuel) auto
  have "SkipMessage fuel u s = (if t = WIRETYPE_END_GROUP then Some ((True, u), s')
       else do { ((ok, u), s) \<leftarrow> SkipField fuel' (MakeTag n t) u s';
                 if \<not> ok then Some ((False, u), s) else SkipMessage fuel' u s })"
    using s'(1) MakeTag_neq_0 [OF assms(3,4,5)] GetTagWireType_MakeTag [OF assms(3)] by (simp add: f)
  moreover have "length (avail s) = length (WriteTagToArray_wf n t) + length rest" by (simp add: assms(2))
  then have "2 * length rest + 2 \<le> fuel'"
    using assms(6) f length_WriteTagToArray_wf_pos [of n t] by linarith
  ultimately show thesis
    using f s' assms(2) adv_avail [OF s'(2)] adv_ready [OF assms(1) s'(2)] by (intro that [of fuel' s']) simp_all
qed

lemma field_skips_simple:
  assumes "0 < uf_number f" "uf_number f < 2 ^ 29" "uf_type f \<noteq> WIRETYPE_START_GROUP"
  shows "field_skips f"
  unfolding field_skips_def
proof (intro allI readsI)
  fix u s rest fuel
  assume s: "ready s" "ci_inv s" "avail s = uf_payload f @ rest" "2 * length (avail s) + 2 \<le> fuel"
  obtain fuel' where fuel: "fuel = Suc fuel'" using s(4) by (cases fuel) auto
  note tag = uf_tag_def GetTagWireType_MakeTag GetTagFieldNumber_MakeTag
  show "\<exists>s'. SkipField fuel (uf_tag f) (Some u) s = Some ((True, Some (u @ [f])), s')
      \<and> adv (length (uf_payload f)) s s'"
  proof (cases f)
    case (Unknown_Varint n v)
    with s obtain s' where "ReadVarint64 s = Some (Some v, s')" "adv (length (WriteVarint64ToArray v)) s s'"
      by (auto elim: ReadVarint64_write [rotated])
    with Unknown_Varint assms show ?thesis
      by (simp add: fuel tag AddVarint_def Let_def)
  next
    case (Unknown_Fixed32 n v)
    with s obtain s' where "ReadLittleEndian32 s = Some (Some v, s')" "adv 4 s s'"
      using ReadLittleEndian_write(1) [OF s(2)] by auto
    with Unknown_Fixed32 assms show ?thesis
      by (simp add: fuel tag AddFixed32_def Let_def size_simps) (simp add: wire_types)
  next
    case (Unknown_Fixed64 n v)
    with s obtain s' where "ReadLittleEndian64 s = Some (Some v, s')" "adv 8 s s'"
      using ReadLittleEndian_write(2) [OF s(2)] by auto
    with Unknown_Fixed64 assms show ?thesis
      by (simp add: fuel tag AddFixed64_def Let_def size_simps) (simp add: wire_types)
  next
    case (Unknown_LengthDelimited n b)
    let ?len = "of_nat (length b) :: u32"
    have a: "avail s = WriteVarint32ToArray ?len @ b @ rest"
      using s(3) Unknown_LengthDelimited
      by (simp add: WriteStringWithSizeToArray_def WriteStringToArray_def WriteRawToArray_def)
    obtain t where t: "ReadVarint32 s = Some (Some ?len, t)" "adv (length (WriteVarint32ToArray ?len)) s t"
      using s(2) a by (rule ReadVarint32_write)
    have "avail t = b @ rest" using adv_avail [OF t(2)] a by simp
    with adv_inv [OF t(2)] obtain s' where s': "ReadString [] (sint ?len) t = Some ((b, True), s')"
      "adv (length b) t s'" by (rule ReadString_write)
    from adv_trans [OF t(2) s'(2)] show ?thesis
      using t(1) s'(1) Unknown_LengthDelimited assms
      by (simp add: fuel tag AddLengthDelimited_def Let_def WriteStringWithSizeToArray_def
          WriteStringToArray_def WriteRawToArray_def) (simp add: wire_types)
  next
    case (Unknown_Group n g)
    with assms show ?thesis by simp
  qed
qed

lemma field_skips_group:
  assumes "group_skips g" "0 < n" "n < 2 ^ 29"
  shows "field_skips (Unknown_Group n g)"
  unfolding field_skips_def
proof (intro allI readsI)
  let ?f = "Unknown_Group n g"
  fix u s rest fuel
  assume s: "ready s" "ci_inv s" "ci_recursion_depth s + int (ufs_depth [?f]) \<le> ci_recursion_limit s"
    "avail s = uf_payload ?f @ rest" "2 * length (avail s) + 2 \<le> fuel"
  obtain fuel' where fuel: "fuel = Suc fuel'" using s(5) by (cases fuel) auto
  have n: "n \<noteq> 0" using assms(2) by auto
  have "\<exists>t. SkipMessage fuel' (Some []) (deeper s) = Some ((True, Some ([] @ g)), t)
      \<and> adv (length (uf_payload ?f)) (deeper s) t \<and> ci_last_tag t = MakeTag n WIRETYPE_END_GROUP"
    using assms(1) [unfolded group_skips_def, rule_format, of n "deeper s" rest fuel' "[]"] s n assms(3)
    by (simp add: fuel)
  then obtain t where t: "SkipMessage fuel' (Some []) (deeper s) = Some ((True, Some g), t)"
    "adv (length (uf_payload ?f)) (deeper s) t" "ci_last_tag t = MakeTag n WIRETYPE_END_GROUP" by auto
  have "ci_recursion_depth s < ci_recursion_limit s" using s(3) by simp
  with t Decrement_deeper(2) [OF s(1) t(2)] assms
  show "\<exists>s'. SkipField fuel (uf_tag ?f) (Some u) s = Some ((True, Some (u @ [?f])), s')
      \<and> adv (length (uf_payload ?f)) s s'"
    by (simp add: fuel uf_tag_def GetTagWireType_MakeTag GetTagFieldNumber_MakeTag
        IncrementRecursionDepth_eq LastTagWas_def AddGroup_def Let_def)
       (simp add: wire_types)
qed

lemma group_skips_Nil: "group_skips []"
  unfolding group_skips_def
proof (intro allI impI, elim conjE)
  fix u n s rest fuel
  assume s: "n < 2 ^ 29" "n \<noteq> 0" "ready s" "2 * length (avail s) + 1 \<le> fuel"
    "avail s = (SerializeUnknownFieldsToArray [] @ WriteTagToArray_wf n WIRETYPE_END_GROUP) @ rest"
  then have a: "avail s = WriteTagToArray_wf n WIRETYPE_END_GROUP @ rest" by simp
  obtain s' where "adv (length (WriteTagToArray_wf n WIRETYPE_END_GROUP)) s s'"
    "ci_last_tag s' = MakeTag n WIRETYPE_END_GROUP" "SkipMessage fuel (Some u) s = Some ((True, Some u), s')"
    by (rule SkipMessage_tag [OF s(3) a wire_types_small(5) s(1,2,4), where u = "Some u"]) simp
  then show "\<exists>s'. SkipMessage fuel (Some u) s = Some ((True, Some (u @ [])), s')
           \<and> adv (length (SerializeUnknownFieldsToArray [] @ WriteTagToArray_wf n WIRETYPE_END_GROUP)) s s'
           \<and> ci_last_tag s' = MakeTag n WIRETYPE_END_GROUP"
    by simp
qed

lemma group_skips_Cons:
  assumes "field_skips f" "group_skips fs" "0 < uf_number f" "uf_number f < 2 ^ 29"
  shows "group_skips (f # fs)"
  unfolding group_skips_def
proof (intro allI impI, elim conjE)
  let ?e = "\<lambda>n. WriteTagToArray_wf n WIRETYPE_END_GROUP"
  let ?t = "WriteTagToArray_wf (uf_number f) (uf_type f)"
  fix u n s rest fuel
  assume s: "n < 2 ^ 29" "n \<noteq> 0" "ready s" "2 * length (avail s) + 1 \<le> fuel"
    "ci_recursion_depth s + int (ufs_depth (f # fs)) \<le> ci_recursion_limit s"
    "avail s = (SerializeUnknownFieldsToArray (f # fs) @ ?e n) @ rest"
  have a: "avail s = ?t @ uf_payload f @ (SerializeUnknownFieldsToArray fs @ ?e n) @ rest"
    using s(6) by (simp add: Serialize_Cons)
  have d: "ci_recursion_depth s + int (ufs_depth [f]) \<le> ci_recursion_limit s"
    "ci_recursion_depth s + int (ufs_depth fs) \<le> ci_recursion_limit s"
    using s(5) ufs_depth_Cons [of f fs] by auto
  have nz: "uf_number f \<noteq> 0" using assms(3) by auto
  obtain fuel' s1 where 1: "fuel = Suc fuel'"
    "2 * length (uf_payload f @ (SerializeUnknownFieldsToArray fs @ ?e n) @ rest) + 2 \<le> fuel'"
    "avail s1 = uf_payload f @ (SerializeUnknownFieldsToArray fs @ ?e n) @ rest" "ready s1" "adv (length ?t) s s1"
    and r: "SkipMessage fuel (Some u) s = do { ((ok, u), s) \<leftarrow> SkipField fuel' (uf_tag f) (Some u) s1;
                 if \<not> ok then Some ((False, u), s) else SkipMessage fuel' u s }"
    by (rule SkipMessage_tag [OF s(3) a uf_type_simps(1) assms(4) nz s(4), where u = "Some u"])
       (simp add: uf_tag_def)
  have d1: "ci_recursion_depth s1 = ci_recursion_depth s" "ci_recursion_limit s1 = ci_recursion_limit s"
    using adv_frame [OF 1(5)] by (auto simp: ci_frame_def)
  obtain s2 where 2: "SkipField fuel' (uf_tag f) (Some u) s1 = Some ((True, Some (u @ [f])), s2)"
    "adv (length (uf_payload f)) s1 s2" "ready s2" "avail s2 = (SerializeUnknownFieldsToArray fs @ ?e n) @ rest"
    "ci_recursion_depth s2 = ci_recursion_depth s1" "ci_recursion_limit s2 = ci_recursion_limit s1"
    using assms(1) [unfolded field_skips_def, rule_format, of u] 1(4) d(1) [folded d1] 1(3)
    by (rule reads_use) (use 1 in auto)
  have "2 * length (avail s2) + 1 \<le> fuel'" using 1 2(4) by simp
  then obtain s3 where 3: "SkipMessage fuel' (Some (u @ [f])) s2 = Some ((True, Some ((u @ [f]) @ fs)), s3)"
    "adv (length (SerializeUnknownFieldsToArray fs @ ?e n)) s2 s3"
    "ci_last_tag s3 = MakeTag n WIRETYPE_END_GROUP"
    using assms(2) [unfolded group_skips_def, rule_format, of n s2 rest fuel' "u @ [f]"] s(1,2) 2 d d1 by auto
  from adv_trans [OF 1(5) adv_trans [OF 2(2) 3(2)]] r 2(1) 3
  show "\<exists>s'. SkipMessage fuel (Some u) s = Some ((True, Some (u @ f # fs)), s')
           \<and> adv (length (SerializeUnknownFieldsToArray (f # fs) @ ?e n)) s s'
           \<and> ci_last_tag s' = MakeTag n WIRETYPE_END_GROUP"
    by (intro exI [of _ s3]) (simp add: Serialize_Cons add.assoc)
qed

lemma ufs_skips: "ufs_ok fs \<Longrightarrow> group_skips fs \<and> (\<forall>f \<in> set fs. field_skips f)"
proof (induction fs rule: ufs_ok.induct)
  case (2 n g fs)
  with field_skips_group [of g n] group_skips_Cons [of "Unknown_Group n g" fs] show ?case by auto
qed (use group_skips_Nil in \<open>auto intro!: group_skips_Cons field_skips_simple simp: wire_types\<close>)

lemma SkipField_reads:
  assumes "ufs_ok fs" "f \<in> set fs"
  shows "reads 2 (ufs_depth [f]) (uf_payload f) (\<lambda>fuel s. SkipField fuel (uf_tag f) (Some u) s) (Some (u @ [f]))"
  using ufs_skips [OF assms(1)] assms(2) by (auto simp: field_skips_def)

subsection \<open>Properties\<close>

text \<open>
  C27: a set of unknown fields (varints, fixed-width values, strings and nested
  groups) that was serialized is read back field by field, in order, by \<open>SkipMessage\<close>, which
  stops after the end tag of the group and leaves the rest of the stream.
\<close>
theorem unknown_fields_roundtrip:
  assumes "ufs_ok fs" "0 < n" "n < 2 ^ 29"
    and "ready s" "ci_recursion_depth s + int (ufs_depth fs) \<le> ci_recursion_limit s"
    and "avail s = (SerializeUnknownFieldsToArray fs @ WriteTagToArray_wf n WIRETYPE_END_GROUP) @ rest"
    and "2 * length (avail s) + 1 \<le> fuel"
  shows "\<exists>s'. SkipMessage fuel (Some u) s = Some ((True, Some (u @ fs)), s') \<and> avail s' = rest
           \<and> LastTagWas (MakeTag n WIRETYPE_END_GROUP) s'"
proof -
  have "n \<noteq> 0" using assms(2) by auto
  with ufs_skips [OF assms(1)] assms obtain s' where
    "SkipMessage fuel (Some u) s = Some ((True, Some (u @ fs)), s')"
    "adv (length (SerializeUnknownFieldsToArray fs @ WriteTagToArray_wf n WIRETYPE_END_GROUP)) s s'"
    "ci_last_tag s' = MakeTag n WIRETYPE_END_GROUP" unfolding group_skips_def by blast
  with assms(6) show ?thesis by (auto simp: LastTagWas_def dest: adv_avail)
qed

lemma unknown_fields_roundtrip_witness:
  "\<exists>s'. SkipMessage 30 (Some []) (CodedInputStream_flat
        (SerializeUnknownFieldsToArray [Unknown_Varint 1 300, Unknown_Group 2 [Unknown_Fixed32 3 7]]
           @ WriteTagToArray_wf 4 WIRETYPE_END_GROUP))
      = Some ((True, Some [Unknown_Varint 1 300, Unknown_Group 2 [Unknown_Fixed32 3 7]]), s')"
proof -
  let ?fs = "[Unknown_Varint 1 300, Unknown_Group 2 [Unknown_Fixed32 3 7]]"
  let ?data = "SerializeUnknownFieldsToArray ?fs @ WriteTagToArray_wf 4 WIRETYPE_END_GROUP"
  have l: "length ?data = 11" by code_simp
  then have "int (length ?data) \<le> kDefaultTotalBytesLimit" by (simp only: kDefaultTotalBytesLimit_def) simp
  note flat = CodedInputStream_flat_inv [OF this]
  have "ready (CodedInputStream_flat ?data)" using flat(1) l
    by (simp only: ready_def) (simp add: CodedInputStream_flat_def Let_def kDefaultTotalBytesLimit_def)
  moreover have "ci_recursion_depth (CodedInputStream_flat ?data) + int (ufs_depth ?fs)
      \<le> ci_recursion_limit (CodedInputStream_flat ?data)"
    by (simp add: CodedInputStream_flat_def Let_def default_recursion_limit_def)
  moreover have "2 * length (avail (CodedInputStream_flat ?data)) + 1 \<le> 30" by (simp only: flat(2) l)
  moreover have "avail (CodedInputStream_flat ?data) = ?data @ []" by (simp only: flat(2) append_Nil2)
  ultimately show ?thesis
    using unknown_fields_roundtrip [of ?fs 4 "CodedInputStream_flat ?data" "[]" 30 "[]"] by auto
qed

end
