(* ===== verification/GPData.thy ===== *)
theory GPData
  imports WireFormat
begin

text \<open>
  The generated message classes of \<^verbatim>\<open>gpdatatypes/GPDataTypes.pb.{h,cc}\<close>.

  A message is a record: a field and its has-bit per proto field (the bit of \<open>_has_bits_[0]\<close>),
  a nested message as the pointer to it (\<open>None\<close> is \<open>NULL\<close>), a repeated field as the list of its
  elements, and \<open>_unknown_fields_\<close>. An enum field holds the \<open>int\<close> of its enumerator.
  \<open>_cached_size_\<close> is no field: it is read only after \<open>ByteSize\<close> has set it, by the routines
  that write a nested message, and they take \<open>ByteSize\<close> of it. A memory block an accessor
  returns for writing is a value that a \<open>put\<close> stores back.
\<close>

subsection \<open>TeecValue\<close>

definition TeecValue_Flag_IsValid :: "i32 \<Rightarrow> bool" where
  "TeecValue_Flag_IsValid v \<longleftrightarrow> v = 1 \<or> v = 2 \<or> v = 3"

record TeecValue =
  tv_a :: i32
  tv_has_a :: bool
  tv_b :: i32
  tv_has_b :: bool
  tv_mflag :: i32
  tv_has_mflag :: bool
  tv_unknown_fields :: unknown_field_set

definition TeecValue_new :: TeecValue where
  \<comment> \<open>the constructor: \<open>SharedCtor\<close>\<close>
  "TeecValue_new = \<lparr>tv_a = 0, tv_has_a = False, tv_b = 0, tv_has_b = False, tv_mflag = 1,
      tv_has_mflag = False, tv_unknown_fields = []\<rparr>"

definition TeecValue_set_a :: "i32 \<Rightarrow> TeecValue \<Rightarrow> TeecValue" where
  "TeecValue_set_a v m = m\<lparr>tv_has_a := True, tv_a := v\<rparr>"
definition TeecValue_clear_a :: "TeecValue \<Rightarrow> TeecValue" where
  "TeecValue_clear_a m = m\<lparr>tv_a := 0, tv_has_a := False\<rparr>"

definition TeecValue_set_b :: "i32 \<Rightarrow> TeecValue \<Rightarrow> TeecValue" where
  "TeecValue_set_b v m = m\<lparr>tv_has_b := True, tv_b := v\<rparr>"
definition TeecValue_clear_b :: "TeecValue \<Rightarrow> TeecValue" where
  "TeecValue_clear_b m = m\<lparr>tv_b := 0, tv_has_b := False\<rparr>"

definition TeecValue_set_mflag :: "i32 \<Rightarrow> TeecValue \<Rightarrow> TeecValue" where
  "TeecValue_set_mflag v m = m\<lparr>tv_has_mflag := True, tv_mflag := v\<rparr>"
definition TeecValue_clear_mflag :: "TeecValue \<Rightarrow> TeecValue" where
  "TeecValue_clear_mflag m = m\<lparr>tv_mflag := 1, tv_has_mflag := False\<rparr>"

definition TeecValue_Clear :: "TeecValue \<Rightarrow> TeecValue" where
  "TeecValue_Clear m =
     (let m = (if tv_has_a m \<or> tv_has_b m \<or> tv_has_mflag m
               then m\<lparr>tv_a := 0,
                      tv_b := 0,
                      tv_mflag := 1\<rparr>
               else m)
      in m\<lparr>tv_has_a := False, tv_has_b := False, tv_has_mflag := False,
          tv_unknown_fields := []\<rparr>)"

definition TeecValue_MergeFrom :: "TeecValue \<Rightarrow> TeecValue \<Rightarrow> TeecValue" where
  "TeecValue_MergeFrom from_msg m =
     (let m = (if tv_has_a from_msg then TeecValue_set_a (tv_a from_msg) m else m);
          m = (if tv_has_b from_msg then TeecValue_set_b (tv_b from_msg) m else m);
          m = (if tv_has_mflag from_msg then TeecValue_set_mflag (tv_mflag from_msg) m else m)
      in m\<lparr>tv_unknown_fields := UnknownFieldSet_MergeFrom (tv_unknown_fields from_msg) (tv_unknown_fields m)\<rparr>)"

definition TeecValue_CopyFrom :: "TeecValue \<Rightarrow> TeecValue \<Rightarrow> TeecValue" where
  \<comment> \<open>for \<open>&from != this\<close>\<close>
  "TeecValue_CopyFrom from_msg m = TeecValue_MergeFrom from_msg (TeecValue_Clear m)"

definition TeecValue_IsInitialized :: "TeecValue \<Rightarrow> bool" where
  "TeecValue_IsInitialized m \<longleftrightarrow> tv_has_a m \<and> tv_has_b m \<and> tv_has_mflag m"

definition TeecValue_Swap :: "TeecValue \<times> TeecValue \<Rightarrow> TeecValue \<times> TeecValue" where
  \<comment> \<open>for \<open>other != this\<close>\<close>
  "TeecValue_Swap mo = (case mo of (m, other) \<Rightarrow>
     (m\<lparr>tv_a := tv_a other, tv_has_a := tv_has_a other, tv_b := tv_b other,
         tv_has_b := tv_has_b other, tv_mflag := tv_mflag other, tv_has_mflag := tv_has_mflag other,
             tv_unknown_fields := tv_unknown_fields other\<rparr>,
      other\<lparr>tv_a := tv_a m, tv_has_a := tv_has_a m, tv_b := tv_b m, tv_has_b := tv_has_b m,
          tv_mflag := tv_mflag m, tv_has_mflag := tv_has_mflag m,
              tv_unknown_fields := tv_unknown_fields m\<rparr>))"

subsection \<open>TeecSharedMemory\<close>

record TeecSharedMemory =
  ts_mbuffer :: "byte list"
  ts_has_mbuffer :: bool
  ts_mflag :: i32
  ts_has_mflag :: bool
  ts_size :: i32
  ts_has_size :: bool
  ts_mreturnsize :: i32
  ts_has_mreturnsize :: bool
  ts_mid :: i32
  ts_has_mid :: bool
  ts_unknown_fields :: unknown_field_set

definition TeecSharedMemory_new :: TeecSharedMemory where
  \<comment> \<open>the constructor: \<open>SharedCtor\<close>\<close>
  "TeecSharedMemory_new = \<lparr>ts_mbuffer = [], ts_has_mbuffer = False, ts_mflag = 0,
      ts_has_mflag = False, ts_size = 0, ts_has_size = False, ts_mreturnsize = 0,
          ts_has_mreturnsize = False, ts_mid = 0, ts_has_mid = False, ts_unknown_fields = []\<rparr>"

definition TeecSharedMemory_set_mbuffer :: "byte list \<Rightarrow> TeecSharedMemory \<Rightarrow> TeecSharedMemory" where
  "TeecSharedMemory_set_mbuffer v m = m\<lparr>ts_has_mbuffer := True, ts_mbuffer := v\<rparr>"
definition TeecSharedMemory_clear_mbuffer :: "TeecSharedMemory \<Rightarrow> TeecSharedMemory" where
  "TeecSharedMemory_clear_mbuffer m = m\<lparr>ts_mbuffer := [], ts_has_mbuffer := False\<rparr>"
definition TeecSharedMemory_mutable_mbuffer :: "TeecSharedMemory \<Rightarrow> byte list \<times> TeecSharedMemory" where
  "TeecSharedMemory_mutable_mbuffer m = (ts_mbuffer m, m\<lparr>ts_has_mbuffer := True\<rparr>)"
definition TeecSharedMemory_put_mbuffer :: "byte list \<Rightarrow> TeecSharedMemory \<Rightarrow> TeecSharedMemory" where
  \<comment> \<open>the message after the string that \<open>mutable_mbuffer\<close> returned has become \<open>v\<close>\<close>
  "TeecSharedMemory_put_mbuffer v m = m\<lparr>ts_mbuffer := v\<rparr>"
definition TeecSharedMemory_release_mbuffer :: "TeecSharedMemory \<Rightarrow> byte list \<times> TeecSharedMemory" where
  "TeecSharedMemory_release_mbuffer m = (ts_mbuffer m, m\<lparr>ts_has_mbuffer := False,
      ts_mbuffer := []\<rparr>)"
definition TeecSharedMemory_set_allocated_mbuffer :: "byte list option \<Rightarrow> TeecSharedMemory \<Rightarrow> TeecSharedMemory" where
  "TeecSharedMemory_set_allocated_mbuffer v m =
     (case v of
        Some v \<Rightarrow> m\<lparr>ts_has_mbuffer := True, ts_mbuffer := v\<rparr>
      | None \<Rightarrow> m\<lparr>ts_has_mbuffer := False, ts_mbuffer := []\<rparr>)"

definition TeecSharedMemory_set_mflag :: "i32 \<Rightarrow> TeecSharedMemory \<Rightarrow> TeecSharedMemory" where
  "TeecSharedMemory_set_mflag v m = m\<lparr>ts_has_mflag := True, ts_mflag := v\<rparr>"
definition TeecSharedMemory_clear_mflag :: "TeecSharedMemory \<Rightarrow> TeecSharedMemory" where
  "TeecSharedMemory_clear_mflag m = m\<lparr>ts_mflag := 0, ts_has_mflag := False\<rparr>"

definition TeecSharedMemory_set_size :: "i32 \<Rightarrow> TeecSharedMemory \<Rightarrow> TeecSharedMemory" where
  "TeecSharedMemory_set_size v m = m\<lparr>ts_has_size := True, ts_size := v\<rparr>"
definition TeecSharedMemory_clear_size :: "TeecSharedMemory \<Rightarrow> TeecSharedMemory" where
  "TeecSharedMemory_clear_size m = m\<lparr>ts_size := 0, ts_has_size := False\<rparr>"

definition TeecSharedMemory_set_mreturnsize :: "i32 \<Rightarrow> TeecSharedMemory \<Rightarrow> TeecSharedMemory" where
  "TeecSharedMemory_set_mreturnsize v m = m\<lparr>ts_has_mreturnsize := True,
      ts_mreturnsize := v\<rparr>"
definition TeecSharedMemory_clear_mreturnsize :: "TeecSharedMemory \<Rightarrow> TeecSharedMemory" where
  "TeecSharedMemory_clear_mreturnsize m = m\<lparr>ts_mreturnsize := 0,
      ts_has_mreturnsize := False\<rparr>"

definition TeecSharedMemory_set_mid :: "i32 \<Rightarrow> TeecSharedMemory \<Rightarrow> TeecSharedMemory" where
  "TeecSharedMemory_set_mid v m = m\<lparr>ts_has_mid := True, ts_mid := v\<rparr>"
definition TeecSharedMemory_clear_mid :: "TeecSharedMemory \<Rightarrow> TeecSharedMemory" where
  "TeecSharedMemory_clear_mid m = m\<lparr>ts_mid := 0, ts_has_mid := False\<rparr>"

definition TeecSharedMemory_Clear :: "TeecSharedMemory \<Rightarrow> TeecSharedMemory" where
  "TeecSharedMemory_Clear m =
     (let m = (if ts_has_mbuffer m \<or> ts_has_mflag m \<or> ts_has_size m
         \<or> ts_has_mreturnsize m \<or> ts_has_mid m
               then m\<lparr>ts_mbuffer := (if ts_has_mbuffer m then [] else ts_mbuffer m),
                      ts_mflag := 0,
                      ts_size := 0,
                      ts_mreturnsize := 0,
                      ts_mid := 0\<rparr>
               else m)
      in m\<lparr>ts_has_mbuffer := False, ts_has_mflag := False, ts_has_size := False,
          ts_has_mreturnsize := False, ts_has_mid := False, ts_unknown_fields := []\<rparr>)"

definition TeecSharedMemory_MergeFrom :: "TeecSharedMemory \<Rightarrow> TeecSharedMemory \<Rightarrow> TeecSharedMemory" where
  "TeecSharedMemory_MergeFrom from_msg m =
     (let m = (if ts_has_mbuffer from_msg then TeecSharedMemory_set_mbuffer (ts_mbuffer from_msg) m else m);
          m = (if ts_has_mflag from_msg then TeecSharedMemory_set_mflag (ts_mflag from_msg) m else m);
          m = (if ts_has_size from_msg then TeecSharedMemory_set_size (ts_size from_msg) m else m);
          m = (if ts_has_mreturnsize from_msg then TeecSharedMemory_set_mreturnsize (ts_mreturnsize from_msg) m else m);
          m = (if ts_has_mid from_msg then TeecSharedMemory_set_mid (ts_mid from_msg) m else m)
      in m\<lparr>ts_unknown_fields := UnknownFieldSet_MergeFrom (ts_unknown_fields from_msg) (ts_unknown_fields m)\<rparr>)"

definition TeecSharedMemory_CopyFrom :: "TeecSharedMemory \<Rightarrow> TeecSharedMemory \<Rightarrow> TeecSharedMemory" where
  \<comment> \<open>for \<open>&from != this\<close>\<close>
  "TeecSharedMemory_CopyFrom from_msg m = TeecSharedMemory_MergeFrom from_msg (TeecSharedMemory_Clear m)"

definition TeecSharedMemory_IsInitialized :: "TeecSharedMemory \<Rightarrow> bool" where
  "TeecSharedMemory_IsInitialized m \<longleftrightarrow> ts_has_mbuffer m
      \<and> ts_has_mflag m \<and> ts_has_size m"

definition TeecSharedMemory_Swap :: "TeecSharedMemory \<times> TeecSharedMemory \<Rightarrow> TeecSharedMemory \<times> TeecSharedMemory" where
  \<comment> \<open>for \<open>other != this\<close>\<close>
  "TeecSharedMemory_Swap mo = (case mo of (m, other) \<Rightarrow>
     (m\<lparr>ts_mbuffer := ts_mbuffer other, ts_has_mbuffer := ts_has_mbuffer other,
         ts_mflag := ts_mflag other, ts_has_mflag := ts_has_mflag other, ts_size := ts_size other,
             ts_has_size := ts_has_size other, ts_mreturnsize := ts_mreturnsize other,
                 ts_has_mreturnsize := ts_has_mreturnsize other, ts_mid := ts_mid other,
                     ts_has_mid := ts_has_mid other,
                         ts_unknown_fields := ts_unknown_fields other\<rparr>,
      other\<lparr>ts_mbuffer := ts_mbuffer m, ts_has_mbuffer := ts_has_mbuffer m,
          ts_mflag := ts_mflag m, ts_has_mflag := ts_has_mflag m, ts_size := ts_size m,
              ts_has_size := ts_has_size m, ts_mreturnsize := ts_mreturnsize m,
                  ts_has_mreturnsize := ts_has_mreturnsize m, ts_mid := ts_mid m,
                      ts_has_mid := ts_has_mid m, ts_unknown_fields := ts_unknown_fields m\<rparr>))"

subsection \<open>TeecSharedMemoryReference\<close>

definition TeecSharedMemoryReference_Flag_IsValid :: "i32 \<Rightarrow> bool" where
  "TeecSharedMemoryReference_Flag_IsValid v \<longleftrightarrow> v = 13 \<or> v = 14 \<or> v = 15"

record TeecSharedMemoryReference =
  tr_parent :: "TeecSharedMemory option"
  tr_has_parent :: bool
  tr_moffset :: i32
  tr_has_moffset :: bool
  tr_mflag :: i32
  tr_has_mflag :: bool
  tr_unknown_fields :: unknown_field_set

definition TeecSharedMemoryReference_new :: TeecSharedMemoryReference where
  \<comment> \<open>the constructor: \<open>SharedCtor\<close>\<close>
  "TeecSharedMemoryReference_new = \<lparr>tr_parent = None, tr_has_parent = False, tr_moffset = 0,
      tr_has_moffset = False, tr_mflag = 13, tr_has_mflag = False, tr_unknown_fields = []\<rparr>"

definition TeecSharedMemoryReference_get_parent :: "TeecSharedMemoryReference \<Rightarrow> TeecSharedMemory" where
  "TeecSharedMemoryReference_get_parent m = (case tr_parent m of Some x \<Rightarrow> x | None \<Rightarrow> TeecSharedMemory_new)"
definition TeecSharedMemoryReference_mutable_parent :: "TeecSharedMemoryReference \<Rightarrow> TeecSharedMemory \<times> TeecSharedMemoryReference" where
  "TeecSharedMemoryReference_mutable_parent m =
     (let x = (case tr_parent m of None \<Rightarrow> TeecSharedMemory_new | Some x \<Rightarrow> x)
      in (x, m\<lparr>tr_has_parent := True, tr_parent := Some x\<rparr>))"
definition TeecSharedMemoryReference_put_parent :: "TeecSharedMemory \<Rightarrow> TeecSharedMemoryReference \<Rightarrow> TeecSharedMemoryReference" where
  \<comment> \<open>the message after its object that \<open>mutable_parent\<close> returned has become \<open>x\<close>\<close>
  "TeecSharedMemoryReference_put_parent x m = m\<lparr>tr_parent := Some x\<rparr>"
definition TeecSharedMemoryReference_clear_parent :: "TeecSharedMemoryReference \<Rightarrow> TeecSharedMemoryReference" where
  "TeecSharedMemoryReference_clear_parent m = m\<lparr>tr_parent := map_option TeecSharedMemory_Clear (tr_parent m), tr_has_parent := False\<rparr>"
definition TeecSharedMemoryReference_release_parent :: "TeecSharedMemoryReference \<Rightarrow> TeecSharedMemory option \<times> TeecSharedMemoryReference" where
  "TeecSharedMemoryReference_release_parent m = (tr_parent m, m\<lparr>tr_has_parent := False,
      tr_parent := None\<rparr>)"
definition TeecSharedMemoryReference_set_allocated_parent :: "TeecSharedMemory option \<Rightarrow> TeecSharedMemoryReference \<Rightarrow> TeecSharedMemoryReference" where
  "TeecSharedMemoryReference_set_allocated_parent x m = m\<lparr>tr_parent := x,
      tr_has_parent := (x \<noteq> None)\<rparr>"

definition TeecSharedMemoryReference_set_moffset :: "i32 \<Rightarrow> TeecSharedMemoryReference \<Rightarrow> TeecSharedMemoryReference" where
  "TeecSharedMemoryReference_set_moffset v m = m\<lparr>tr_has_moffset := True, tr_moffset := v\<rparr>"
definition TeecSharedMemoryReference_clear_moffset :: "TeecSharedMemoryReference \<Rightarrow> TeecSharedMemoryReference" where
  "TeecSharedMemoryReference_clear_moffset m = m\<lparr>tr_moffset := 0, tr_has_moffset := False\<rparr>"

definition TeecSharedMemoryReference_set_mflag :: "i32 \<Rightarrow> TeecSharedMemoryReference \<Rightarrow> TeecSharedMemoryReference" where
  "TeecSharedMemoryReference_set_mflag v m = m\<lparr>tr_has_mflag := True, tr_mflag := v\<rparr>"
definition TeecSharedMemoryReference_clear_mflag :: "TeecSharedMemoryReference \<Rightarrow> TeecSharedMemoryReference" where
  "TeecSharedMemoryReference_clear_mflag m = m\<lparr>tr_mflag := 13, tr_has_mflag := False\<rparr>"

definition TeecSharedMemoryReference_Clear :: "TeecSharedMemoryReference \<Rightarrow> TeecSharedMemoryReference" where
  "TeecSharedMemoryReference_Clear m =
     (let m = (if tr_has_parent m \<or> tr_has_moffset m \<or> tr_has_mflag m
               then m\<lparr>tr_parent := (if tr_has_parent m then map_option TeecSharedMemory_Clear (tr_parent m) else tr_parent m),
                      tr_moffset := 0,
                      tr_mflag := 13\<rparr>
               else m)
      in m\<lparr>tr_has_parent := False, tr_has_moffset := False, tr_has_mflag := False,
          tr_unknown_fields := []\<rparr>)"

definition TeecSharedMemoryReference_MergeFrom :: "TeecSharedMemoryReference \<Rightarrow> TeecSharedMemoryReference \<Rightarrow> TeecSharedMemoryReference" where
  "TeecSharedMemoryReference_MergeFrom from_msg m =
     (let m = (if tr_has_parent from_msg
               then let (x, m) = TeecSharedMemoryReference_mutable_parent m
                    in TeecSharedMemoryReference_put_parent (TeecSharedMemory_MergeFrom (TeecSharedMemoryReference_get_parent from_msg) x) m
               else m);
          m = (if tr_has_moffset from_msg then TeecSharedMemoryReference_set_moffset (tr_moffset from_msg) m else m);
          m = (if tr_has_mflag from_msg then TeecSharedMemoryReference_set_mflag (tr_mflag from_msg) m else m)
      in m\<lparr>tr_unknown_fields := UnknownFieldSet_MergeFrom (tr_unknown_fields from_msg) (tr_unknown_fields m)\<rparr>)"

definition TeecSharedMemoryReference_CopyFrom :: "TeecSharedMemoryReference \<Rightarrow> TeecSharedMemoryReference \<Rightarrow> TeecSharedMemoryReference" where
  \<comment> \<open>for \<open>&from != this\<close>\<close>
  "TeecSharedMemoryReference_CopyFrom from_msg m = TeecSharedMemoryReference_MergeFrom from_msg (TeecSharedMemoryReference_Clear m)"

definition TeecSharedMemoryReference_IsInitialized :: "TeecSharedMemoryReference \<Rightarrow> bool" where
  "TeecSharedMemoryReference_IsInitialized m \<longleftrightarrow> tr_has_parent m
      \<and> tr_has_moffset m \<and> tr_has_mflag m
          \<and> (tr_has_parent m \<longrightarrow> TeecSharedMemory_IsInitialized (TeecSharedMemoryReference_get_parent m))"

definition TeecSharedMemoryReference_Swap :: "TeecSharedMemoryReference \<times> TeecSharedMemoryReference \<Rightarrow> TeecSharedMemoryReference \<times> TeecSharedMemoryReference" where
  \<comment> \<open>for \<open>other != this\<close>\<close>
  "TeecSharedMemoryReference_Swap mo = (case mo of (m, other) \<Rightarrow>
     (m\<lparr>tr_parent := tr_parent other, tr_has_parent := tr_has_parent other,
         tr_moffset := tr_moffset other, tr_has_moffset := tr_has_moffset other,
             tr_mflag := tr_mflag other, tr_has_mflag := tr_has_mflag other,
                 tr_unknown_fields := tr_unknown_fields other\<rparr>,
      other\<lparr>tr_parent := tr_parent m, tr_has_parent := tr_has_parent m,
          tr_moffset := tr_moffset m, tr_has_moffset := tr_has_moffset m, tr_mflag := tr_mflag m,
              tr_has_mflag := tr_has_mflag m, tr_unknown_fields := tr_unknown_fields m\<rparr>))"

subsection \<open>TeecParameter\<close>

definition TeecParameter_Type_IsValid :: "i32 \<Rightarrow> bool" where
  "TeecParameter_Type_IsValid v \<longleftrightarrow> v = 1 \<or> v = 2 \<or> v = 3"

record TeecParameter =
  tp_type :: i32
  tp_has_type :: bool
  tp_teecsharedmemoryreference :: "TeecSharedMemoryReference option"
  tp_has_teecsharedmemoryreference :: bool
  tp_teecvalue :: "TeecValue option"
  tp_has_teecvalue :: bool
  tp_placeholder :: i32
  tp_has_placeholder :: bool
  tp_unknown_fields :: unknown_field_set

definition TeecParameter_new :: TeecParameter where
  \<comment> \<open>the constructor: \<open>SharedCtor\<close>\<close>
  "TeecParameter_new = \<lparr>tp_type = 1, tp_has_type = False, tp_teecsharedmemoryreference = None,
      tp_has_teecsharedmemoryreference = False, tp_teecvalue = None, tp_has_teecvalue = False,
          tp_placeholder = 0, tp_has_placeholder = False, tp_unknown_fields = []\<rparr>"

definition TeecParameter_set_type :: "i32 \<Rightarrow> TeecParameter \<Rightarrow> TeecParameter" where
  "TeecParameter_set_type v m = m\<lparr>tp_has_type := True, tp_type := v\<rparr>"
definition TeecParameter_clear_type :: "TeecParameter \<Rightarrow> TeecParameter" where
  "TeecParameter_clear_type m = m\<lparr>tp_type := 1, tp_has_type := False\<rparr>"

definition TeecParameter_get_teecsharedmemoryreference :: "TeecParameter \<Rightarrow> TeecSharedMemoryReference" where
  "TeecParameter_get_teecsharedmemoryreference m = (case tp_teecsharedmemoryreference m of Some x \<Rightarrow> x | None \<Rightarrow> TeecSharedMemoryReference_new)"
definition TeecParameter_mutable_teecsharedmemoryreference :: "TeecParameter \<Rightarrow> TeecSharedMemoryReference \<times> TeecParameter" where
  "TeecParameter_mutable_teecsharedmemoryreference m =
     (let x = (case tp_teecsharedmemoryreference m of None \<Rightarrow> TeecSharedMemoryReference_new | Some x \<Rightarrow> x)
      in (x, m\<lparr>tp_has_teecsharedmemoryreference := True,
          tp_teecsharedmemoryreference := Some x\<rparr>))"
definition TeecParameter_put_teecsharedmemoryreference :: "TeecSharedMemoryReference \<Rightarrow> TeecParameter \<Rightarrow> TeecParameter" where
  \<comment> \<open>the message after its object that \<open>mutable_teecsharedmemoryreference\<close> returned has become \<open>x\<close>\<close>
  "TeecParameter_put_teecsharedmemoryreference x m = m\<lparr>tp_teecsharedmemoryreference := Some x\<rparr>"
definition TeecParameter_clear_teecsharedmemoryreference :: "TeecParameter \<Rightarrow> TeecParameter" where
  "TeecParameter_clear_teecsharedmemoryreference m = m\<lparr>tp_teecsharedmemoryreference := map_option TeecSharedMemoryReference_Clear (tp_teecsharedmemoryreference m), tp_has_teecsharedmemoryreference := False\<rparr>"
definition TeecParameter_release_teecsharedmemoryreference :: "TeecParameter \<Rightarrow> TeecSharedMemoryReference option \<times> TeecParameter" where
  "TeecParameter_release_teecsharedmemoryreference m = (tp_teecsharedmemoryreference m,
      m\<lparr>tp_has_teecsharedmemoryreference := False, tp_teecsharedmemoryreference := None\<rparr>)"
definition TeecParameter_set_allocated_teecsharedmemoryreference :: "TeecSharedMemoryReference option \<Rightarrow> TeecParameter \<Rightarrow> TeecParameter" where
  "TeecParameter_set_allocated_teecsharedmemoryreference x m = m\<lparr>tp_teecsharedmemoryreference := x, tp_has_teecsharedmemoryreference := (x \<noteq> None)\<rparr>"

definition TeecParameter_get_teecvalue :: "TeecParameter \<Rightarrow> TeecValue" where
  "TeecParameter_get_teecvalue m = (case tp_teecvalue m of Some x \<Rightarrow> x | None \<Rightarrow> TeecValue_new)"
definition TeecParameter_mutable_teecvalue :: "TeecParameter \<Rightarrow> TeecValue \<times> TeecParameter" where
  "TeecParameter_mutable_teecvalue m =
     (let x = (case tp_teecvalue m of None \<Rightarrow> TeecValue_new | Some x \<Rightarrow> x)
      in (x, m\<lparr>tp_has_teecvalue := True, tp_teecvalue := Some x\<rparr>))"
definition TeecParameter_put_teecvalue :: "TeecValue \<Rightarrow> TeecParameter \<Rightarrow> TeecParameter" where
  \<comment> \<open>the message after its object that \<open>mutable_teecvalue\<close> returned has become \<open>x\<close>\<close>
  "TeecParameter_put_teecvalue x m = m\<lparr>tp_teecvalue := Some x\<rparr>"
definition TeecParameter_clear_teecvalue :: "TeecParameter \<Rightarrow> TeecParameter" where
  "TeecParameter_clear_teecvalue m = m\<lparr>tp_teecvalue := map_option TeecValue_Clear (tp_teecvalue m), tp_has_teecvalue := False\<rparr>"
definition TeecParameter_release_teecvalue :: "TeecParameter \<Rightarrow> TeecValue option \<times> TeecParameter" where
  "TeecParameter_release_teecvalue m = (tp_teecvalue m, m\<lparr>tp_has_teecvalue := False,
      tp_teecvalue := None\<rparr>)"
definition TeecParameter_set_allocated_teecvalue :: "TeecValue option \<Rightarrow> TeecParameter \<Rightarrow> TeecParameter" where
  "TeecParameter_set_allocated_teecvalue x m = m\<lparr>tp_teecvalue := x,
      tp_has_teecvalue := (x \<noteq> None)\<rparr>"

definition TeecParameter_set_placeholder :: "i32 \<Rightarrow> TeecParameter \<Rightarrow> TeecParameter" where
  "TeecParameter_set_placeholder v m = m\<lparr>tp_has_placeholder := True, tp_placeholder := v\<rparr>"
definition TeecParameter_clear_placeholder :: "TeecParameter \<Rightarrow> TeecParameter" where
  "TeecParameter_clear_placeholder m = m\<lparr>tp_placeholder := 0, tp_has_placeholder := False\<rparr>"

definition TeecParameter_Clear :: "TeecParameter \<Rightarrow> TeecParameter" where
  "TeecParameter_Clear m =
     (let m = (if tp_has_type m \<or> tp_has_teecsharedmemoryreference m
         \<or> tp_has_teecvalue m \<or> tp_has_placeholder m
               then m\<lparr>tp_type := 1,
                      tp_teecsharedmemoryreference := (if tp_has_teecsharedmemoryreference m then map_option TeecSharedMemoryReference_Clear (tp_teecsharedmemoryreference m) else tp_teecsharedmemoryreference m),
                      tp_teecvalue := (if tp_has_teecvalue m then map_option TeecValue_Clear (tp_teecvalue m) else tp_teecvalue m),
                      tp_placeholder := 0\<rparr>
               else m)
      in m\<lparr>tp_has_type := False, tp_has_teecsharedmemoryreference := False,
          tp_has_teecvalue := False, tp_has_placeholder := False, tp_unknown_fields := []\<rparr>)"

definition TeecParameter_MergeFrom :: "TeecParameter \<Rightarrow> TeecParameter \<Rightarrow> TeecParameter" where
  "TeecParameter_MergeFrom from_msg m =
     (let m = (if tp_has_type from_msg then TeecParameter_set_type (tp_type from_msg) m else m);
          m = (if tp_has_teecsharedmemoryreference from_msg
               then let (x, m) = TeecParameter_mutable_teecsharedmemoryreference m
                    in TeecParameter_put_teecsharedmemoryreference (TeecSharedMemoryReference_MergeFrom (TeecParameter_get_teecsharedmemoryreference from_msg) x) m
               else m);
          m = (if tp_has_teecvalue from_msg
               then let (x, m) = TeecParameter_mutable_teecvalue m
                    in TeecParameter_put_teecvalue (TeecValue_MergeFrom (TeecParameter_get_teecvalue from_msg) x) m
               else m);
          m = (if tp_has_placeholder from_msg then TeecParameter_set_placeholder (tp_placeholder from_msg) m else m)
      in m\<lparr>tp_unknown_fields := UnknownFieldSet_MergeFrom (tp_unknown_fields from_msg) (tp_unknown_fields m)\<rparr>)"

definition TeecParameter_CopyFrom :: "TeecParameter \<Rightarrow> TeecParameter \<Rightarrow> TeecParameter" where
  \<comment> \<open>for \<open>&from != this\<close>\<close>
  "TeecParameter_CopyFrom from_msg m = TeecParameter_MergeFrom from_msg (TeecParameter_Clear m)"

definition TeecParameter_IsInitialized :: "TeecParameter \<Rightarrow> bool" where
  "TeecParameter_IsInitialized m \<longleftrightarrow> tp_has_type m
      \<and> (tp_has_teecsharedmemoryreference m \<longrightarrow> TeecSharedMemoryReference_IsInitialized (TeecParameter_get_teecsharedmemoryreference m)) \<and> (tp_has_teecvalue m \<longrightarrow> TeecValue_IsInitialized (TeecParameter_get_teecvalue m))"

definition TeecParameter_Swap :: "TeecParameter \<times> TeecParameter \<Rightarrow> TeecParameter \<times> TeecParameter" where
  \<comment> \<open>for \<open>other != this\<close>\<close>
  "TeecParameter_Swap mo = (case mo of (m, other) \<Rightarrow>
     (m\<lparr>tp_type := tp_type other, tp_has_type := tp_has_type other,
         tp_teecsharedmemoryreference := tp_teecsharedmemoryreference other,
             tp_has_teecsharedmemoryreference := tp_has_teecsharedmemoryreference other,
                 tp_teecvalue := tp_teecvalue other, tp_has_teecvalue := tp_has_teecvalue other,
                     tp_placeholder := tp_placeholder other,
                         tp_has_placeholder := tp_has_placeholder other,
                             tp_unknown_fields := tp_unknown_fields other\<rparr>,
      other\<lparr>tp_type := tp_type m, tp_has_type := tp_has_type m,
          tp_teecsharedmemoryreference := tp_teecsharedmemoryreference m,
              tp_has_teecsharedmemoryreference := tp_has_teecsharedmemoryreference m,
                  tp_teecvalue := tp_teecvalue m, tp_has_teecvalue := tp_has_teecvalue m,
                      tp_placeholder := tp_placeholder m, tp_has_placeholder := tp_has_placeholder m,
                          tp_unknown_fields := tp_unknown_fields m\<rparr>))"

subsection \<open>TeecOperation\<close>

record TeecOperation =
  to_mstarted :: i32
  to_has_mstarted :: bool
  to_mparams :: "TeecParameter list"
  to_unknown_fields :: unknown_field_set

definition TeecOperation_new :: TeecOperation where
  \<comment> \<open>the constructor: \<open>SharedCtor\<close>\<close>
  "TeecOperation_new = \<lparr>to_mstarted = 0, to_has_mstarted = False, to_mparams = [],
      to_unknown_fields = []\<rparr>"

definition TeecOperation_set_mstarted :: "i32 \<Rightarrow> TeecOperation \<Rightarrow> TeecOperation" where
  "TeecOperation_set_mstarted v m = m\<lparr>to_has_mstarted := True, to_mstarted := v\<rparr>"
definition TeecOperation_clear_mstarted :: "TeecOperation \<Rightarrow> TeecOperation" where
  "TeecOperation_clear_mstarted m = m\<lparr>to_mstarted := 0, to_has_mstarted := False\<rparr>"

definition TeecOperation_mparams_size :: "TeecOperation \<Rightarrow> int" where
  "TeecOperation_mparams_size m = int (length (to_mparams m))"
definition TeecOperation_clear_mparams :: "TeecOperation \<Rightarrow> TeecOperation" where
  "TeecOperation_clear_mparams m = m\<lparr>to_mparams := []\<rparr>"
definition TeecOperation_get_mparams :: "TeecOperation \<Rightarrow> nat \<Rightarrow> TeecParameter option" where
  "TeecOperation_get_mparams m i = (if i < length (to_mparams m) then Some (to_mparams m ! i) else None)"
definition TeecOperation_put_mparams :: "nat \<Rightarrow> TeecParameter \<Rightarrow> TeecOperation \<Rightarrow> TeecOperation" where
  \<comment> \<open>the message after the element that \<open>mutable_mparams(i)\<close> returned has become \<open>x\<close>\<close>
  "TeecOperation_put_mparams i x m = m\<lparr>to_mparams := (to_mparams m)[i := x]\<rparr>"
definition TeecOperation_add_mparams :: "TeecOperation \<Rightarrow> nat \<times> TeecOperation" where
  \<comment> \<open>the index of the added element\<close>
  "TeecOperation_add_mparams m = (length (to_mparams m),
      m\<lparr>to_mparams := to_mparams m @ [TeecParameter_new]\<rparr>)"

definition TeecOperation_Clear :: "TeecOperation \<Rightarrow> TeecOperation" where
  "TeecOperation_Clear m = m\<lparr>to_mstarted := 0, to_mparams := [], to_has_mstarted := False,
      to_unknown_fields := []\<rparr>"

definition TeecOperation_MergeFrom :: "TeecOperation \<Rightarrow> TeecOperation \<Rightarrow> TeecOperation" where
  "TeecOperation_MergeFrom from_msg m =
     (let m = m\<lparr>to_mparams := to_mparams m @ map (\<lambda>x. TeecParameter_MergeFrom x TeecParameter_new) (to_mparams from_msg)\<rparr>;
          m = (if to_has_mstarted from_msg then TeecOperation_set_mstarted (to_mstarted from_msg) m else m)
      in m\<lparr>to_unknown_fields := UnknownFieldSet_MergeFrom (to_unknown_fields from_msg) (to_unknown_fields m)\<rparr>)"

definition TeecOperation_CopyFrom :: "TeecOperation \<Rightarrow> TeecOperation \<Rightarrow> TeecOperation" where
  \<comment> \<open>for \<open>&from != this\<close>\<close>
  "TeecOperation_CopyFrom from_msg m = TeecOperation_MergeFrom from_msg (TeecOperation_Clear m)"

definition TeecOperation_IsInitialized :: "TeecOperation \<Rightarrow> bool" where
  "TeecOperation_IsInitialized m \<longleftrightarrow> to_has_mstarted m
      \<and> list_all TeecParameter_IsInitialized (to_mparams m)"

definition TeecOperation_Swap :: "TeecOperation \<times> TeecOperation \<Rightarrow> TeecOperation \<times> TeecOperation" where
  \<comment> \<open>for \<open>other != this\<close>\<close>
  "TeecOperation_Swap mo = (case mo of (m, other) \<Rightarrow>
     (m\<lparr>to_mstarted := to_mstarted other, to_has_mstarted := to_has_mstarted other,
         to_mparams := to_mparams other, to_unknown_fields := to_unknown_fields other\<rparr>,
      other\<lparr>to_mstarted := to_mstarted m, to_has_mstarted := to_has_mstarted m,
          to_mparams := to_mparams m, to_unknown_fields := to_unknown_fields m\<rparr>))"

end
