(* ===== verification/GPCodec.thy ===== *)
theory GPCodec
  imports GPData
begin

text \<open>
  Serialization and parsing of the generated messages (\<^verbatim>\<open>GPDataTypes.pb.cc\<close>) and the
  \<open>MessageLite\<close> entry points above them (\<^verbatim>\<open>message_lite.cc\<close>).

  \<open>merge_loop\<close> is the \<open>for\<close> loop that every generated \<open>MergePartialFromCodedStream\<close> contains;
  a message contributes its \<open>switch\<close> (which label a tag goes to), the code at a label and
  what follows it (the \<open>ExpectTag\<close> and \<open>ExpectAtEnd\<close> lines). A label is a field of the
  message. Parsing keeps the partial message when it fails, as the object does. The first
  argument of a loop is fuel.
\<close>

subsection \<open>The parse loop\<close>

datatype 'l next_step = Goto 'l | Break | Success

record ('l, 'm) message_parser =
  mp_switch :: "u32 \<Rightarrow> 'l option"
  mp_field :: "nat \<Rightarrow> 'l \<Rightarrow> 'm \<Rightarrow> coded_input \<Rightarrow> ((bool \<times> 'm) \<times> coded_input) option"
  mp_next :: "'l \<Rightarrow> coded_input \<Rightarrow> ('l next_step \<times> coded_input) option"
  mp_unknown :: "'m \<Rightarrow> unknown_field_set"
  mp_set_unknown :: "unknown_field_set \<Rightarrow> 'm \<Rightarrow> 'm"

fun merge_loop :: "('l, 'm) message_parser \<Rightarrow> nat \<Rightarrow> 'l option \<Rightarrow> 'm \<Rightarrow> coded_input
      \<Rightarrow> ((bool \<times> 'm) \<times> coded_input) option" where
  "merge_loop mp 0 at m s = None"
| "merge_loop mp (Suc fuel) None m s =
     do { ((tag, in_range), s) \<leftarrow> ReadTagWithCutoff 127 s;
          case (if in_range then mp_switch mp tag else None) of
            Some l \<Rightarrow> merge_loop mp fuel (Some l) m s
          | None \<Rightarrow>
              if tag = 0 \<or> GetTagWireType tag = WIRETYPE_END_GROUP then Some ((True, m), s)
              else do { ((ok, u), s) \<leftarrow> SkipField fuel tag (Some (mp_unknown mp m)) s;
                        let m = (case u of None \<Rightarrow> m | Some u \<Rightarrow> mp_set_unknown mp u m);
                        if ok then merge_loop mp fuel None m s else Some ((False, m), s) } }"
| "merge_loop mp (Suc fuel) (Some l) m s =
     do { ((ok, m), s) \<leftarrow> mp_field mp fuel l m s;
          if \<not> ok then Some ((False, m), s)
          else do { (n, s) \<leftarrow> mp_next mp l s;
                    case n of
                      Goto l' \<Rightarrow> merge_loop mp fuel (Some l') m s
                    | Break \<Rightarrow> merge_loop mp fuel None m s
                    | Success \<Rightarrow> Some ((True, m), s) } }"

text \<open>\<open>if (input->ExpectTag(tag)) goto l;\<close> and \<open>if (input->ExpectAtEnd()) goto success;\<close>\<close>

definition expect_goto :: "u32 \<Rightarrow> 'l \<Rightarrow> coded_input \<Rightarrow> ('l next_step \<times> coded_input) option" where
  "expect_goto tag l s = do { (hit, s) \<leftarrow> ExpectTag tag s; Some (if hit then Goto l else Break, s) }"

definition expect_success :: "coded_input \<Rightarrow> ('l next_step \<times> coded_input) option" where
  "expect_success s = (let (hit, s) = ExpectAtEnd s in Some (if hit then Success else Break, s))"

definition expect_goto_success :: "u32 \<Rightarrow> 'l \<Rightarrow> coded_input \<Rightarrow> ('l next_step \<times> coded_input) option" where
  "expect_goto_success tag l s =
     do { (hit, s) \<leftarrow> ExpectTag tag s; if hit then Some (Goto l, s) else expect_success s }"

text \<open>\<open>DO_(ReadPrimitive<int32, TYPE_INT32>(input, &x)); set_has_x();\<close> and the enum variant.\<close>

definition read_int32_field :: "(i32 \<Rightarrow> 'm \<Rightarrow> 'm) \<Rightarrow> 'm \<Rightarrow> coded_input \<Rightarrow> ((bool \<times> 'm) \<times> coded_input) option" where
  "read_int32_field put m s =
     do { (r, s) \<leftarrow> ReadPrimitive_INT32 s;
          case r of None \<Rightarrow> Some ((False, m), s) | Some v \<Rightarrow> Some ((True, put v m), s) }"

definition read_enum_field ::
    "(i32 \<Rightarrow> bool) \<Rightarrow> (i32 \<Rightarrow> 'm \<Rightarrow> 'm) \<Rightarrow> (i32 \<Rightarrow> 'm \<Rightarrow> 'm) \<Rightarrow> 'm \<Rightarrow> coded_input
      \<Rightarrow> ((bool \<times> 'm) \<times> coded_input) option" where
  "read_enum_field is_valid put add_unknown m s =
     do { (r, s) \<leftarrow> ReadPrimitive_ENUM s;
          case r of
            None \<Rightarrow> Some ((False, m), s)
          | Some v \<Rightarrow> Some ((True, if is_valid v then put v m else add_unknown v m), s) }"

text \<open>
  \<open>WireFormatLite::ReadMessageNoVirtual\<close>: \<open>merge\<close> is the nested message's
  \<open>MergePartialFromCodedStream\<close> on the object \<open>value\<close>.
\<close>

definition ReadMessageNoVirtual ::
    "('m \<Rightarrow> coded_input \<Rightarrow> ((bool \<times> 'm) \<times> coded_input) option) \<Rightarrow> 'm \<Rightarrow> coded_input
      \<Rightarrow> ((bool \<times> 'm) \<times> coded_input) option" where
  "ReadMessageNoVirtual merge value s =
     do { (len, s) \<leftarrow> ReadVarint32 s;
          case len of
            None \<Rightarrow> Some ((False, value), s)
          | Some len \<Rightarrow>
              let (ok, s) = IncrementRecursionDepth s
              in if \<not> ok then Some ((False, value), s) else
                 let (limit, s) = PushLimit (sint len) s
                 in do { ((ok, value), s) \<leftarrow> merge value s;
                         if \<not> ok then Some ((False, value), s)
                         else if \<not> ConsumedEntireMessage s then Some ((False, value), s)
                         else Some ((True, value), DecrementRecursionDepth (PopLimit limit s)) } }"

subsection \<open>TeecValue\<close>

datatype value_label = parse_a | parse_b | parse_mFlag

fun TeecValue_switch :: "u32 \<Rightarrow> value_label option" where
  "TeecValue_switch tag =
     (if GetTagFieldNumber tag = 1 then (if tag = 8 then Some parse_a else None)
      else if GetTagFieldNumber tag = 2 then (if tag = 16 then Some parse_b else None)
      else if GetTagFieldNumber tag = 3 then (if tag = 24 then Some parse_mFlag else None)
      else None)"

fun TeecValue_field :: "nat \<Rightarrow> value_label \<Rightarrow> TeecValue \<Rightarrow> coded_input \<Rightarrow> ((bool \<times> TeecValue) \<times> coded_input) option" where
  "TeecValue_field fuel parse_a m s = read_int32_field (\<lambda>v m. m\<lparr>tv_a := v, tv_has_a := True\<rparr>) m s"
| "TeecValue_field fuel parse_b m s = read_int32_field (\<lambda>v m. m\<lparr>tv_b := v, tv_has_b := True\<rparr>) m s"
| "TeecValue_field fuel parse_mFlag m s =
     read_enum_field TeecValue_Flag_IsValid TeecValue_set_mflag
       (\<lambda>v m. m\<lparr>tv_unknown_fields := AddVarint 3 (scast v) (tv_unknown_fields m)\<rparr>) m s"

fun TeecValue_next :: "value_label \<Rightarrow> coded_input \<Rightarrow> (value_label next_step \<times> coded_input) option" where
  "TeecValue_next parse_a s = expect_goto 16 parse_b s"
| "TeecValue_next parse_b s = expect_goto 24 parse_mFlag s"
| "TeecValue_next parse_mFlag s = expect_success s"

definition TeecValue_parser :: "(value_label, TeecValue) message_parser" where
  "TeecValue_parser = \<lparr>mp_switch = TeecValue_switch, mp_field = TeecValue_field, mp_next = TeecValue_next,
     mp_unknown = tv_unknown_fields, mp_set_unknown = (\<lambda>u m. m\<lparr>tv_unknown_fields := u\<rparr>)\<rparr>"

definition TeecValue_MergePartialFromCodedStream ::
    "nat \<Rightarrow> TeecValue \<Rightarrow> coded_input \<Rightarrow> ((bool \<times> TeecValue) \<times> coded_input) option" where
  "TeecValue_MergePartialFromCodedStream fuel m s = merge_loop TeecValue_parser fuel None m s"

definition TeecValue_ByteSize :: "TeecValue \<Rightarrow> int" where
  "TeecValue_ByteSize m =
     (if tv_has_a m \<or> tv_has_b m \<or> tv_has_mflag m then
        (if tv_has_a m then 1 + Int32Size (tv_a m) else 0)
      + (if tv_has_b m then 1 + Int32Size (tv_b m) else 0)
      + (if tv_has_mflag m then 1 + EnumSize (tv_mflag m) else 0)
      else 0)
   + (if tv_unknown_fields m \<noteq> [] then ComputeUnknownFieldsSize (tv_unknown_fields m) else 0)"

definition TeecValue_SerializeWithCachedSizesToArray :: "TeecValue \<Rightarrow> byte list" where
  "TeecValue_SerializeWithCachedSizesToArray m =
     (if tv_has_a m then WriteInt32ToArray 1 (tv_a m) else [])
   @ (if tv_has_b m then WriteInt32ToArray 2 (tv_b m) else [])
   @ (if tv_has_mflag m then WriteEnumToArray 3 (tv_mflag m) else [])
   @ (if tv_unknown_fields m \<noteq> [] then SerializeUnknownFieldsToArray (tv_unknown_fields m) else [])"

subsection \<open>TeecSharedMemory\<close>

datatype memory_label = parse_mBuffer | parse_mFlag | parse_size | parse_mReturnSize | parse_mID

fun TeecSharedMemory_switch :: "u32 \<Rightarrow> memory_label option" where
  "TeecSharedMemory_switch tag =
     (if GetTagFieldNumber tag = 1 then (if tag = 10 then Some parse_mBuffer else None)
      else if GetTagFieldNumber tag = 2 then (if tag = 16 then Some parse_mFlag else None)
      else if GetTagFieldNumber tag = 3 then (if tag = 24 then Some parse_size else None)
      else if GetTagFieldNumber tag = 4 then (if tag = 32 then Some parse_mReturnSize else None)
      else if GetTagFieldNumber tag = 5 then (if tag = 40 then Some parse_mID else None)
      else None)"

fun TeecSharedMemory_field :: "nat \<Rightarrow> memory_label \<Rightarrow> TeecSharedMemory \<Rightarrow> coded_input
      \<Rightarrow> ((bool \<times> TeecSharedMemory) \<times> coded_input) option" where
  "TeecSharedMemory_field fuel parse_mBuffer m s =
     (let (old, m) = TeecSharedMemory_mutable_mbuffer m
      in do { ((bytes, ok), s) \<leftarrow> ReadBytes old s; Some ((ok, TeecSharedMemory_put_mbuffer bytes m), s) })"
| "TeecSharedMemory_field fuel parse_mFlag m s =
     read_int32_field (\<lambda>v m. m\<lparr>ts_mflag := v, ts_has_mflag := True\<rparr>) m s"
| "TeecSharedMemory_field fuel parse_size m s =
     read_int32_field (\<lambda>v m. m\<lparr>ts_size := v, ts_has_size := True\<rparr>) m s"
| "TeecSharedMemory_field fuel parse_mReturnSize m s =
     read_int32_field (\<lambda>v m. m\<lparr>ts_mreturnsize := v, ts_has_mreturnsize := True\<rparr>) m s"
| "TeecSharedMemory_field fuel parse_mID m s =
     read_int32_field (\<lambda>v m. m\<lparr>ts_mid := v, ts_has_mid := True\<rparr>) m s"

fun TeecSharedMemory_next :: "memory_label \<Rightarrow> coded_input \<Rightarrow> (memory_label next_step \<times> coded_input) option" where
  "TeecSharedMemory_next parse_mBuffer s = expect_goto 16 memory_label.parse_mFlag s"
| "TeecSharedMemory_next parse_mFlag s = expect_goto 24 parse_size s"
| "TeecSharedMemory_next parse_size s = expect_goto 32 parse_mReturnSize s"
| "TeecSharedMemory_next parse_mReturnSize s = expect_goto 40 parse_mID s"
| "TeecSharedMemory_next parse_mID s = expect_success s"

definition TeecSharedMemory_parser :: "(memory_label, TeecSharedMemory) message_parser" where
  "TeecSharedMemory_parser = \<lparr>mp_switch = TeecSharedMemory_switch, mp_field = TeecSharedMemory_field,
     mp_next = TeecSharedMemory_next, mp_unknown = ts_unknown_fields,
     mp_set_unknown = (\<lambda>u m. m\<lparr>ts_unknown_fields := u\<rparr>)\<rparr>"

definition TeecSharedMemory_MergePartialFromCodedStream ::
    "nat \<Rightarrow> TeecSharedMemory \<Rightarrow> coded_input \<Rightarrow> ((bool \<times> TeecSharedMemory) \<times> coded_input) option" where
  "TeecSharedMemory_MergePartialFromCodedStream fuel m s = merge_loop TeecSharedMemory_parser fuel None m s"

definition TeecSharedMemory_ByteSize :: "TeecSharedMemory \<Rightarrow> int" where
  "TeecSharedMemory_ByteSize m =
     (if ts_has_mbuffer m \<or> ts_has_mflag m \<or> ts_has_size m \<or> ts_has_mreturnsize m \<or> ts_has_mid m then
        (if ts_has_mbuffer m then 1 + BytesSize (ts_mbuffer m) else 0)
      + (if ts_has_mflag m then 1 + Int32Size (ts_mflag m) else 0)
      + (if ts_has_size m then 1 + Int32Size (ts_size m) else 0)
      + (if ts_has_mreturnsize m then 1 + Int32Size (ts_mreturnsize m) else 0)
      + (if ts_has_mid m then 1 + Int32Size (ts_mid m) else 0)
      else 0)
   + (if ts_unknown_fields m \<noteq> [] then ComputeUnknownFieldsSize (ts_unknown_fields m) else 0)"

definition TeecSharedMemory_SerializeWithCachedSizesToArray :: "TeecSharedMemory \<Rightarrow> byte list" where
  "TeecSharedMemory_SerializeWithCachedSizesToArray m =
     (if ts_has_mbuffer m then WriteBytesToArray 1 (ts_mbuffer m) else [])
   @ (if ts_has_mflag m then WriteInt32ToArray 2 (ts_mflag m) else [])
   @ (if ts_has_size m then WriteInt32ToArray 3 (ts_size m) else [])
   @ (if ts_has_mreturnsize m then WriteInt32ToArray 4 (ts_mreturnsize m) else [])
   @ (if ts_has_mid m then WriteInt32ToArray 5 (ts_mid m) else [])
   @ (if ts_unknown_fields m \<noteq> [] then SerializeUnknownFieldsToArray (ts_unknown_fields m) else [])"

subsection \<open>TeecSharedMemoryReference\<close>

datatype reference_label = parse_parent | parse_mOffset | parse_mFlag

fun TeecSharedMemoryReference_switch :: "u32 \<Rightarrow> reference_label option" where
  "TeecSharedMemoryReference_switch tag =
     (if GetTagFieldNumber tag = 1 then (if tag = 10 then Some parse_parent else None)
      else if GetTagFieldNumber tag = 2 then (if tag = 16 then Some parse_mOffset else None)
      else if GetTagFieldNumber tag = 3 then (if tag = 24 then Some parse_mFlag else None)
      else None)"

fun TeecSharedMemoryReference_field :: "nat \<Rightarrow> reference_label \<Rightarrow> TeecSharedMemoryReference \<Rightarrow> coded_input
      \<Rightarrow> ((bool \<times> TeecSharedMemoryReference) \<times> coded_input) option" where
  "TeecSharedMemoryReference_field fuel parse_parent m s =
     (let (x, m) = TeecSharedMemoryReference_mutable_parent m
      in do { ((ok, x), s) \<leftarrow> ReadMessageNoVirtual (TeecSharedMemory_MergePartialFromCodedStream fuel) x s;
              Some ((ok, TeecSharedMemoryReference_put_parent x m), s) })"
| "TeecSharedMemoryReference_field fuel parse_mOffset m s =
     read_int32_field (\<lambda>v m. m\<lparr>tr_moffset := v, tr_has_moffset := True\<rparr>) m s"
| "TeecSharedMemoryReference_field fuel parse_mFlag m s =
     read_enum_field TeecSharedMemoryReference_Flag_IsValid TeecSharedMemoryReference_set_mflag
       (\<lambda>v m. m\<lparr>tr_unknown_fields := AddVarint 3 (scast v) (tr_unknown_fields m)\<rparr>) m s"

fun TeecSharedMemoryReference_next ::
    "reference_label \<Rightarrow> coded_input \<Rightarrow> (reference_label next_step \<times> coded_input) option" where
  "TeecSharedMemoryReference_next parse_parent s = expect_goto 16 parse_mOffset s"
| "TeecSharedMemoryReference_next parse_mOffset s = expect_goto 24 reference_label.parse_mFlag s"
| "TeecSharedMemoryReference_next parse_mFlag s = expect_success s"

definition TeecSharedMemoryReference_parser :: "(reference_label, TeecSharedMemoryReference) message_parser" where
  "TeecSharedMemoryReference_parser = \<lparr>mp_switch = TeecSharedMemoryReference_switch,
     mp_field = TeecSharedMemoryReference_field, mp_next = TeecSharedMemoryReference_next,
     mp_unknown = tr_unknown_fields, mp_set_unknown = (\<lambda>u m. m\<lparr>tr_unknown_fields := u\<rparr>)\<rparr>"

definition TeecSharedMemoryReference_MergePartialFromCodedStream ::
    "nat \<Rightarrow> TeecSharedMemoryReference \<Rightarrow> coded_input
      \<Rightarrow> ((bool \<times> TeecSharedMemoryReference) \<times> coded_input) option" where
  "TeecSharedMemoryReference_MergePartialFromCodedStream fuel m s =
     merge_loop TeecSharedMemoryReference_parser fuel None m s"

definition TeecSharedMemoryReference_ByteSize :: "TeecSharedMemoryReference \<Rightarrow> int" where
  "TeecSharedMemoryReference_ByteSize m =
     (if tr_has_parent m \<or> tr_has_moffset m \<or> tr_has_mflag m then
        (if tr_has_parent m
         then 1 + MessageSizeNoVirtual (TeecSharedMemory_ByteSize (TeecSharedMemoryReference_get_parent m)) else 0)
      + (if tr_has_moffset m then 1 + Int32Size (tr_moffset m) else 0)
      + (if tr_has_mflag m then 1 + EnumSize (tr_mflag m) else 0)
      else 0)
   + (if tr_unknown_fields m \<noteq> [] then ComputeUnknownFieldsSize (tr_unknown_fields m) else 0)"

definition TeecSharedMemoryReference_SerializeWithCachedSizesToArray ::
    "TeecSharedMemoryReference \<Rightarrow> byte list" where
  "TeecSharedMemoryReference_SerializeWithCachedSizesToArray m =
     (if tr_has_parent m
      then let x = TeecSharedMemoryReference_get_parent m
           in WriteMessageNoVirtualToArray 1 (TeecSharedMemory_ByteSize x)
                (TeecSharedMemory_SerializeWithCachedSizesToArray x) else [])
   @ (if tr_has_moffset m then WriteInt32ToArray 2 (tr_moffset m) else [])
   @ (if tr_has_mflag m then WriteEnumToArray 3 (tr_mflag m) else [])
   @ (if tr_unknown_fields m \<noteq> [] then SerializeUnknownFieldsToArray (tr_unknown_fields m) else [])"

subsection \<open>TeecParameter\<close>

datatype parameter_label = parse_type | parse_teecSharedMemoryReference | parse_teecValue | parse_placeHolder

fun TeecParameter_switch :: "u32 \<Rightarrow> parameter_label option" where
  "TeecParameter_switch tag =
     (if GetTagFieldNumber tag = 1 then (if tag = 8 then Some parse_type else None)
      else if GetTagFieldNumber tag = 2 then (if tag = 18 then Some parse_teecSharedMemoryReference else None)
      else if GetTagFieldNumber tag = 3 then (if tag = 26 then Some parse_teecValue else None)
      else if GetTagFieldNumber tag = 4 then (if tag = 32 then Some parse_placeHolder else None)
      else None)"

fun TeecParameter_field :: "nat \<Rightarrow> parameter_label \<Rightarrow> TeecParameter \<Rightarrow> coded_input
      \<Rightarrow> ((bool \<times> TeecParameter) \<times> coded_input) option" where
  "TeecParameter_field fuel parse_type m s =
     read_enum_field TeecParameter_Type_IsValid TeecParameter_set_type
       (\<lambda>v m. m\<lparr>tp_unknown_fields := AddVarint 1 (scast v) (tp_unknown_fields m)\<rparr>) m s"
| "TeecParameter_field fuel parse_teecSharedMemoryReference m s =
     (let (x, m) = TeecParameter_mutable_teecsharedmemoryreference m
      in do { ((ok, x), s) \<leftarrow> ReadMessageNoVirtual (TeecSharedMemoryReference_MergePartialFromCodedStream fuel) x s;
              Some ((ok, TeecParameter_put_teecsharedmemoryreference x m), s) })"
| "TeecParameter_field fuel parse_teecValue m s =
     (let (x, m) = TeecParameter_mutable_teecvalue m
      in do { ((ok, x), s) \<leftarrow> ReadMessageNoVirtual (TeecValue_MergePartialFromCodedStream fuel) x s;
              Some ((ok, TeecParameter_put_teecvalue x m), s) })"
| "TeecParameter_field fuel parse_placeHolder m s =
     read_int32_field (\<lambda>v m. m\<lparr>tp_placeholder := v, tp_has_placeholder := True\<rparr>) m s"

fun TeecParameter_next :: "parameter_label \<Rightarrow> coded_input \<Rightarrow> (parameter_label next_step \<times> coded_input) option" where
  "TeecParameter_next parse_type s = expect_goto 18 parse_teecSharedMemoryReference s"
| "TeecParameter_next parse_teecSharedMemoryReference s = expect_goto 26 parse_teecValue s"
| "TeecParameter_next parse_teecValue s = expect_goto 32 parse_placeHolder s"
| "TeecParameter_next parse_placeHolder s = expect_success s"

definition TeecParameter_parser :: "(parameter_label, TeecParameter) message_parser" where
  "TeecParameter_parser = \<lparr>mp_switch = TeecParameter_switch, mp_field = TeecParameter_field,
     mp_next = TeecParameter_next, mp_unknown = tp_unknown_fields,
     mp_set_unknown = (\<lambda>u m. m\<lparr>tp_unknown_fields := u\<rparr>)\<rparr>"

definition TeecParameter_MergePartialFromCodedStream ::
    "nat \<Rightarrow> TeecParameter \<Rightarrow> coded_input \<Rightarrow> ((bool \<times> TeecParameter) \<times> coded_input) option" where
  "TeecParameter_MergePartialFromCodedStream fuel m s = merge_loop TeecParameter_parser fuel None m s"

definition TeecParameter_ByteSize :: "TeecParameter \<Rightarrow> int" where
  "TeecParameter_ByteSize m =
     (if tp_has_type m \<or> tp_has_teecsharedmemoryreference m \<or> tp_has_teecvalue m \<or> tp_has_placeholder m then
        (if tp_has_type m then 1 + EnumSize (tp_type m) else 0)
      + (if tp_has_teecsharedmemoryreference m
         then 1 + MessageSizeNoVirtual
                (TeecSharedMemoryReference_ByteSize (TeecParameter_get_teecsharedmemoryreference m)) else 0)
      + (if tp_has_teecvalue m
         then 1 + MessageSizeNoVirtual (TeecValue_ByteSize (TeecParameter_get_teecvalue m)) else 0)
      + (if tp_has_placeholder m then 1 + Int32Size (tp_placeholder m) else 0)
      else 0)
   + (if tp_unknown_fields m \<noteq> [] then ComputeUnknownFieldsSize (tp_unknown_fields m) else 0)"

definition TeecParameter_SerializeWithCachedSizesToArray :: "TeecParameter \<Rightarrow> byte list" where
  "TeecParameter_SerializeWithCachedSizesToArray m =
     (if tp_has_type m then WriteEnumToArray 1 (tp_type m) else [])
   @ (if tp_has_teecsharedmemoryreference m
      then let x = TeecParameter_get_teecsharedmemoryreference m
           in WriteMessageNoVirtualToArray 2 (TeecSharedMemoryReference_ByteSize x)
                (TeecSharedMemoryReference_SerializeWithCachedSizesToArray x) else [])
   @ (if tp_has_teecvalue m
      then let x = TeecParameter_get_teecvalue m
           in WriteMessageNoVirtualToArray 3 (TeecValue_ByteSize x)
                (TeecValue_SerializeWithCachedSizesToArray x) else [])
   @ (if tp_has_placeholder m then WriteInt32ToArray 4 (tp_placeholder m) else [])
   @ (if tp_unknown_fields m \<noteq> [] then SerializeUnknownFieldsToArray (tp_unknown_fields m) else [])"

subsection \<open>TeecOperation\<close>

datatype operation_label = parse_mStarted | parse_mParams

fun TeecOperation_switch :: "u32 \<Rightarrow> operation_label option" where
  "TeecOperation_switch tag =
     (if GetTagFieldNumber tag = 1 then (if tag = 8 then Some parse_mStarted else None)
      else if GetTagFieldNumber tag = 2 then (if tag = 18 then Some parse_mParams else None)
      else None)"

fun TeecOperation_field :: "nat \<Rightarrow> operation_label \<Rightarrow> TeecOperation \<Rightarrow> coded_input
      \<Rightarrow> ((bool \<times> TeecOperation) \<times> coded_input) option" where
  "TeecOperation_field fuel parse_mStarted m s =
     read_int32_field (\<lambda>v m. m\<lparr>to_mstarted := v, to_has_mstarted := True\<rparr>) m s"
| "TeecOperation_field fuel parse_mParams m s =
     (let (i, m) = TeecOperation_add_mparams m
      in do { ((ok, x), s) \<leftarrow> ReadMessageNoVirtual (TeecParameter_MergePartialFromCodedStream fuel)
                                (to_mparams m ! i) s;
              Some ((ok, TeecOperation_put_mparams i x m), s) })"

fun TeecOperation_next :: "operation_label \<Rightarrow> coded_input \<Rightarrow> (operation_label next_step \<times> coded_input) option" where
  "TeecOperation_next parse_mStarted s = expect_goto 18 parse_mParams s"
| "TeecOperation_next parse_mParams s = expect_goto_success 18 parse_mParams s"

definition TeecOperation_parser :: "(operation_label, TeecOperation) message_parser" where
  "TeecOperation_parser = \<lparr>mp_switch = TeecOperation_switch, mp_field = TeecOperation_field,
     mp_next = TeecOperation_next, mp_unknown = to_unknown_fields,
     mp_set_unknown = (\<lambda>u m. m\<lparr>to_unknown_fields := u\<rparr>)\<rparr>"

definition TeecOperation_MergePartialFromCodedStream ::
    "nat \<Rightarrow> TeecOperation \<Rightarrow> coded_input \<Rightarrow> ((bool \<times> TeecOperation) \<times> coded_input) option" where
  "TeecOperation_MergePartialFromCodedStream fuel m s = merge_loop TeecOperation_parser fuel None m s"

definition TeecOperation_ByteSize :: "TeecOperation \<Rightarrow> int" where
  "TeecOperation_ByteSize m =
     (if to_has_mstarted m then (if to_has_mstarted m then 1 + Int32Size (to_mstarted m) else 0) else 0)
   + 1 * TeecOperation_mparams_size m
   + sum_list (map (\<lambda>x. MessageSizeNoVirtual (TeecParameter_ByteSize x)) (to_mparams m))
   + (if to_unknown_fields m \<noteq> [] then ComputeUnknownFieldsSize (to_unknown_fields m) else 0)"

definition TeecOperation_SerializeWithCachedSizesToArray :: "TeecOperation \<Rightarrow> byte list" where
  "TeecOperation_SerializeWithCachedSizesToArray m =
     (if to_has_mstarted m then WriteInt32ToArray 1 (to_mstarted m) else [])
   @ concat (map (\<lambda>x. WriteMessageNoVirtualToArray 2 (TeecParameter_ByteSize x)
                        (TeecParameter_SerializeWithCachedSizesToArray x)) (to_mparams m))
   @ (if to_unknown_fields m \<noteq> [] then SerializeUnknownFieldsToArray (to_unknown_fields m) else [])"

subsection \<open>MessageLite\<close>

text \<open>
  \<open>MessageLite\<close>'s methods call the virtual functions of the class; a \<open>message_class\<close> is its
  table. \<open>None\<close> is a crash: a write past the string, or \<open>ByteSizeConsistencyError\<close>.
\<close>

record 'm message_class =
  mc_Clear :: "'m \<Rightarrow> 'm"
  mc_IsInitialized :: "'m \<Rightarrow> bool"
  mc_ByteSize :: "'m \<Rightarrow> int"
  mc_SerializeWithCachedSizesToArray :: "'m \<Rightarrow> byte list"
  mc_MergePartialFromCodedStream :: "nat \<Rightarrow> 'm \<Rightarrow> coded_input \<Rightarrow> ((bool \<times> 'm) \<times> coded_input) option"

definition MergeFromCodedStream :: "'m message_class \<Rightarrow> nat \<Rightarrow> coded_input \<Rightarrow> 'm \<Rightarrow> ((bool \<times> 'm) \<times> coded_input) option" where
  \<comment> \<open>\<open>InlineMergeFromCodedStream\<close>\<close>
  "MergeFromCodedStream mc fuel s m =
     do { ((ok, m), s) \<leftarrow> mc_MergePartialFromCodedStream mc fuel m s;
          if \<not> ok then Some ((False, m), s)
          else if \<not> mc_IsInitialized mc m then Some ((False, m), s)
          else Some ((True, m), s) }"

definition ParseFromCodedStream :: "'m message_class \<Rightarrow> nat \<Rightarrow> coded_input \<Rightarrow> 'm \<Rightarrow> ((bool \<times> 'm) \<times> coded_input) option" where
  "ParseFromCodedStream mc fuel s m = MergeFromCodedStream mc fuel s (mc_Clear mc m)"

definition ParsePartialFromCodedStream ::
    "'m message_class \<Rightarrow> nat \<Rightarrow> coded_input \<Rightarrow> 'm \<Rightarrow> ((bool \<times> 'm) \<times> coded_input) option" where
  "ParsePartialFromCodedStream mc fuel s m = mc_MergePartialFromCodedStream mc fuel (mc_Clear mc m) s"

text \<open>The fuel that is enough for a message of \<open>n\<close> bytes.\<close>

definition parse_fuel :: "nat \<Rightarrow> nat" where
  "parse_fuel n = 2 * n + 2"

definition ParseFromArray :: "'m message_class \<Rightarrow> byte list \<Rightarrow> 'm \<Rightarrow> (bool \<times> 'm) option" where
  \<comment> \<open>\<open>InlineParseFromArray\<close>\<close>
  "ParseFromArray mc data m =
     do { ((ok, m), s) \<leftarrow> ParseFromCodedStream mc (parse_fuel (length data)) (CodedInputStream_flat data) m;
          Some (ok \<and> ConsumedEntireMessage s, m) }"

definition ParsePartialFromArray :: "'m message_class \<Rightarrow> byte list \<Rightarrow> 'm \<Rightarrow> (bool \<times> 'm) option" where
  "ParsePartialFromArray mc data m =
     do { ((ok, m), s) \<leftarrow> ParsePartialFromCodedStream mc (parse_fuel (length data)) (CodedInputStream_flat data) m;
          Some (ok \<and> ConsumedEntireMessage s, m) }"

definition ParseFromString :: "'m message_class \<Rightarrow> byte list \<Rightarrow> 'm \<Rightarrow> (bool \<times> 'm) option" where
  "ParseFromString mc data m = ParseFromArray mc data m"

definition ParsePartialFromString :: "'m message_class \<Rightarrow> byte list \<Rightarrow> 'm \<Rightarrow> (bool \<times> 'm) option" where
  "ParsePartialFromString mc data m = ParsePartialFromArray mc data m"

text \<open>The block streams: \<open>ParseFromZeroCopyStream\<close> and its bounded variant.\<close>

definition ParseFromZeroCopyStream :: "'m message_class \<Rightarrow> nat \<Rightarrow> byte list list \<Rightarrow> 'm \<Rightarrow> (bool \<times> 'm) option" where
  "ParseFromZeroCopyStream mc fuel input m =
     do { decoder \<leftarrow> CodedInputStream_new input;
          ((ok, m), decoder) \<leftarrow> ParseFromCodedStream mc fuel decoder m;
          Some (ok \<and> ConsumedEntireMessage decoder, m) }"

definition ParseFromBoundedZeroCopyStream ::
    "'m message_class \<Rightarrow> nat \<Rightarrow> byte list list \<Rightarrow> int \<Rightarrow> 'm \<Rightarrow> (bool \<times> 'm) option" where
  "ParseFromBoundedZeroCopyStream mc fuel input bound m =
     do { decoder \<leftarrow> CodedInputStream_new input;
          let decoder = snd (PushLimit bound decoder);
          ((ok, m), decoder) \<leftarrow> ParseFromCodedStream mc fuel decoder m;
          Some (ok \<and> ConsumedEntireMessage decoder \<and> BytesUntilLimit decoder = 0, m) }"

definition AppendPartialToString :: "'m message_class \<Rightarrow> byte list \<Rightarrow> 'm \<Rightarrow> (bool \<times> byte list) option" where
  "AppendPartialToString mc output m =
     (let byte_size = mc_ByteSize mc m; bytes = mc_SerializeWithCachedSizesToArray mc m
      in if int (length bytes) = byte_size then Some (True, output @ bytes) else None)"

definition AppendToString :: "'m message_class \<Rightarrow> byte list \<Rightarrow> 'm \<Rightarrow> (bool \<times> byte list) option" where
  "AppendToString mc output m = AppendPartialToString mc output m"

definition SerializeToString :: "'m message_class \<Rightarrow> byte list \<Rightarrow> 'm \<Rightarrow> (bool \<times> byte list) option" where
  "SerializeToString mc output m = AppendToString mc [] m"

definition SerializePartialToString :: "'m message_class \<Rightarrow> byte list \<Rightarrow> 'm \<Rightarrow> (bool \<times> byte list) option" where
  "SerializePartialToString mc output m = AppendPartialToString mc [] m"

definition SerializeAsString :: "'m message_class \<Rightarrow> 'm \<Rightarrow> byte list option" where
  "SerializeAsString mc m =
     do { (ok, output) \<leftarrow> AppendToString mc [] m; Some (if ok then output else []) }"

text \<open>\<open>SerializePartialToArray\<close> into an array of \<open>capacity\<close> bytes: the bytes it stores.\<close>

definition SerializePartialToArray :: "'m message_class \<Rightarrow> int \<Rightarrow> 'm \<Rightarrow> (bool \<times> byte list) option" where
  "SerializePartialToArray mc capacity m =
     (let byte_size = mc_ByteSize mc m; bytes = mc_SerializeWithCachedSizesToArray mc m
      in if capacity < byte_size then Some (False, [])
         else if int (length bytes) = byte_size then Some (True, bytes) else None)"

definition SerializeToArray :: "'m message_class \<Rightarrow> int \<Rightarrow> 'm \<Rightarrow> (bool \<times> byte list) option" where
  "SerializeToArray mc capacity m = SerializePartialToArray mc capacity m"

definition TeecValue_class :: "TeecValue message_class" where
  "TeecValue_class = \<lparr>mc_Clear = TeecValue_Clear, mc_IsInitialized = TeecValue_IsInitialized,
     mc_ByteSize = TeecValue_ByteSize,
     mc_SerializeWithCachedSizesToArray = TeecValue_SerializeWithCachedSizesToArray,
     mc_MergePartialFromCodedStream = TeecValue_MergePartialFromCodedStream\<rparr>"

definition TeecSharedMemory_class :: "TeecSharedMemory message_class" where
  "TeecSharedMemory_class = \<lparr>mc_Clear = TeecSharedMemory_Clear,
     mc_IsInitialized = TeecSharedMemory_IsInitialized, mc_ByteSize = TeecSharedMemory_ByteSize,
     mc_SerializeWithCachedSizesToArray = TeecSharedMemory_SerializeWithCachedSizesToArray,
     mc_MergePartialFromCodedStream = TeecSharedMemory_MergePartialFromCodedStream\<rparr>"

definition TeecSharedMemoryReference_class :: "TeecSharedMemoryReference message_class" where
  "TeecSharedMemoryReference_class = \<lparr>mc_Clear = TeecSharedMemoryReference_Clear,
     mc_IsInitialized = TeecSharedMemoryReference_IsInitialized,
     mc_ByteSize = TeecSharedMemoryReference_ByteSize,
     mc_SerializeWithCachedSizesToArray = TeecSharedMemoryReference_SerializeWithCachedSizesToArray,
     mc_MergePartialFromCodedStream = TeecSharedMemoryReference_MergePartialFromCodedStream\<rparr>"

definition TeecParameter_class :: "TeecParameter message_class" where
  "TeecParameter_class = \<lparr>mc_Clear = TeecParameter_Clear, mc_IsInitialized = TeecParameter_IsInitialized,
     mc_ByteSize = TeecParameter_ByteSize,
     mc_SerializeWithCachedSizesToArray = TeecParameter_SerializeWithCachedSizesToArray,
     mc_MergePartialFromCodedStream = TeecParameter_MergePartialFromCodedStream\<rparr>"

definition TeecOperation_class :: "TeecOperation message_class" where
  "TeecOperation_class = \<lparr>mc_Clear = TeecOperation_Clear, mc_IsInitialized = TeecOperation_IsInitialized,
     mc_ByteSize = TeecOperation_ByteSize,
     mc_SerializeWithCachedSizesToArray = TeecOperation_SerializeWithCachedSizesToArray,
     mc_MergePartialFromCodedStream = TeecOperation_MergePartialFromCodedStream\<rparr>"

end
