(* ===== verification/ParseLoop.thy ===== *)
theory ParseLoop
  imports UnknownReads GPCodec
begin

text \<open>
  The contract of a generated parse loop, as a locale over its switch, its fields and the
  \<open>ExpectTag\<close> and \<open>ExpectAtEnd\<close> lines after a field: the loop is total, and it reads a
  sequence of fields whatever shortcuts it takes between them.
\<close>

subsection \<open>The shortcuts after a field\<close>

text \<open>
  After a field: leave the \<open>switch\<close>, go to a label whose tag has just been consumed, or
  succeed at the end of the message.
\<close>

definition next_ok :: "('l, 'm) message_parser \<Rightarrow> coded_input \<Rightarrow> ('l next_step \<times> coded_input) option \<Rightarrow> bool" where
  "next_ok mp s r \<longleftrightarrow>
     r = Some (Break, s)
   \<or> (\<exists>t l n s'. r = Some (Goto l, s') \<and> mp_switch mp t = Some l
        \<and> varint_scan 10 (avail s) = Scanned (unat t) n \<and> adv n s s')
   \<or> (\<exists>s'. r = Some (Success, s') \<and> avail s = [] \<and> adv 0 s s' \<and> ci_legitimate_message_end s')"

lemma next_ok_cases:
  assumes "next_ok mp s r"
  obtains (break) "r = Some (Break, s)"
  | (goto) t l n s' where "r = Some (Goto l, s')" "mp_switch mp t = Some l"
      "varint_scan 10 (avail s) = Scanned (unat t) n" "adv n s s'" "length (avail s') < length (avail s)"
  | (success) s' where "r = Some (Success, s')" "avail s = []" "adv 0 s s'" "ci_legitimate_message_end s'"
proof -
  note goals = that
  from assms consider "r = Some (Break, s)"
    | t l n s' where "r = Some (Goto l, s')" "mp_switch mp t = Some l"
        "varint_scan 10 (avail s) = Scanned (unat t) n" "adv n s s'"
    | s' where "r = Some (Success, s')" "avail s = []" "adv 0 s s'" "ci_legitimate_message_end s'"
    unfolding next_ok_def by blast
  then show thesis
  proof cases
    case 2
    with varint_scan_length [OF 2(3)] show thesis
      by (intro goals(2) [of l s' t n]) (auto simp: adv_avail)
  qed (use goals in blast)+
qed

lemma next_ok_break: "next_ok mp s (Some (Break, s))"
  by (simp add: next_ok_def)

lemma expect_goto_ok:
  assumes "ci_inv s" "mp_switch mp t = Some l"
  shows "next_ok mp s (expect_goto t l s)"
  using assms(1)
proof (cases rule: ExpectTag_cases [of s t])
  case miss
  then show ?thesis by (simp add: expect_goto_def next_ok_break)
next
  case (hit s' n)
  with assms(2) show ?thesis by (auto simp: expect_goto_def next_ok_def)
qed

lemma expect_success_ok:
  assumes "ci_inv s"
  shows "next_ok mp s (expect_success s)"
  using assms
proof (cases rule: ExpectAtEnd_cases [of s])
  case more
  then show ?thesis by (simp add: expect_success_def next_ok_break)
next
  case end_reached
  with adv_refl [OF assms] show ?thesis by (simp add: expect_success_def next_ok_def)
qed

lemma expect_goto_success_ok:
  assumes "ci_inv s" "mp_switch mp t = Some l"
  shows "next_ok mp s (expect_goto_success t l s)"
  using assms(1)
proof (cases rule: ExpectTag_cases [of s t])
  case miss
  with expect_success_ok [OF assms(1)] show ?thesis by (simp add: expect_goto_success_def)
next
  case (hit s' n)
  with assms(2) show ?thesis by (auto simp: expect_goto_success_def next_ok_def)
qed

subsection \<open>The contract\<close>

text \<open>
  \<open>merges d bs f x\<close>: a stream that ends after \<open>bs\<close> is read by \<open>f\<close> to its end, and the end is
  a legitimate end of message.
\<close>

definition merges :: "nat \<Rightarrow> byte list
    \<Rightarrow> (nat \<Rightarrow> coded_input \<Rightarrow> ((bool \<times> 'a) \<times> coded_input) option) \<Rightarrow> 'a \<Rightarrow> bool" where
  "merges d bs f x \<longleftrightarrow>
     (\<forall>s fuel. ready s \<and> ci_recursion_depth s + int d \<le> ci_recursion_limit s \<and> avail s = bs
        \<and> 2 * length (avail s) + 1 \<le> fuel
        \<longrightarrow> (\<exists>s'. f fuel s = Some ((True, x), s') \<and> adv (length bs) s s' \<and> ci_legitimate_message_end s'))"

lemma mergesI:
  assumes "\<And>s fuel. ready s \<Longrightarrow> ci_inv s \<Longrightarrow> ci_recursion_depth s + int d \<le> ci_recursion_limit s
      \<Longrightarrow> avail s = bs \<Longrightarrow> 2 * length bs + 1 \<le> fuel
      \<Longrightarrow> \<exists>s'. f fuel s = Some ((True, x), s') \<and> adv (length bs) s s' \<and> ci_legitimate_message_end s'"
  shows "merges d bs f x"
  unfolding merges_def using assms ready_inv by blast

lemma merges_use:
  assumes "merges d bs f x" "ready s" "ci_recursion_depth s + int d \<le> ci_recursion_limit s" "avail s = bs"
    "2 * length bs + 1 \<le> fuel"
  obtains s' where "f fuel s = Some ((True, x), s')" "adv (length bs) s s'" "ci_legitimate_message_end s'"
  using assms unfolding merges_def by blast

inductive run :: "('l, 'm) message_parser \<Rightarrow> nat \<Rightarrow> 'm \<Rightarrow> byte list \<Rightarrow> 'm \<Rightarrow> bool"
  for mp :: "('l, 'm) message_parser" and d :: nat where
  run_end: "run mp d m [] m"
| run_field: "mp_switch mp t = Some l \<Longrightarrow> reads 1 d p (\<lambda>fuel s. mp_field mp fuel l m s) m'
    \<Longrightarrow> run mp d m' bs m'' \<Longrightarrow> run mp d m (WriteTagToArray t @ p @ bs) m''"
| run_unknown: "mp_switch mp (uf_tag f) = None \<Longrightarrow> ufs_ok [f] \<Longrightarrow> ufs_depth [f] \<le> d
    \<Longrightarrow> run mp d (mp_set_unknown mp (mp_unknown mp m @ [f]) m) bs m''
    \<Longrightarrow> run mp d m (SerializeUnknownFieldsToArray [f] @ bs) m''"

lemma run_append:
  assumes "run mp d m bs m'" "run mp d m' bs' m''"
  shows "run mp d m (bs @ bs') m''"
  using assms by induction (auto intro: run.intros)

lemma scan_WriteTagToArray [simp]:
  "varint_scan 10 (WriteTagToArray t @ rest) = Scanned (unat t) (length (WriteTagToArray t))"
proof -
  have "unat t < 128 ^ Suc 9" using u32_lt_2p32 [of t] by simp
  then show ?thesis by (simp add: WriteTagToArray_eq varint_scan_bytes [of _ 9, simplified])
qed

lemma length_WriteTagToArray_pos: "0 < length (WriteTagToArray t)"
  by (simp add: WriteTagToArray_eq)

lemma ReadTagWithCutoff_write:
  assumes "ci_inv s" "avail s = WriteTagToArray t @ rest"
  obtains i s' where "ReadTagWithCutoff c s = Some ((t, i), s')" "adv (length (WriteTagToArray t)) s s'"
    "t \<noteq> 0 \<Longrightarrow> i \<longleftrightarrow> t \<le> c"
proof -
  obtain t' i s' where r: "ReadTagWithCutoff c s = Some ((t', i), s')" "tag_read s (Some (t', s'))"
    "t' \<noteq> 0 \<Longrightarrow> i \<longleftrightarrow> t' \<le> c"
    using assms(1) by (rule ReadTagWithCutoff_read) blast
  then have "t' = t" "adv (length (WriteTagToArray t)) s s'"
    using assms(2) by (auto simp: tag_read_def no_varint_def)
  with r that show thesis by blast
qed

lemma ready_at_end: "ready s \<Longrightarrow> avail s = [] \<Longrightarrow> at_end s"
  by (simp add: ready_def at_end_def)

locale parse_loop =
  fixes mp :: "('l, 'm) message_parser"
  assumes switch_tag: "mp_switch mp t = Some l \<Longrightarrow> t \<noteq> 0 \<and> t \<le> 127"
    and next_step: "ci_inv s \<Longrightarrow> next_ok mp s (mp_next mp l s)"
    and field_safe: "ready s \<Longrightarrow> 2 * length (avail s) + 1 \<le> fuel \<Longrightarrow> safe_result s (mp_field mp fuel l m s)"
begin

subsection \<open>Totality\<close>

lemma safe:
  "(\<forall>m s. ready s \<and> 2 * length (avail s) + 1 \<le> fuel \<longrightarrow> safe_result s (merge_loop mp fuel None m s))
   \<and> (\<forall>l m s. ready s \<and> 2 * length (avail s) + 2 \<le> fuel \<longrightarrow> safe_result s (merge_loop mp fuel (Some l) m s))"
proof (induction fuel)
  case (Suc fuel)
  have top: "safe_result s (merge_loop mp (Suc fuel) None m s)"
    if s: "ready s" "2 * length (avail s) + 1 \<le> Suc fuel" for m s
  proof -
    obtain tag i t where t: "ReadTagWithCutoff 127 s = Some ((tag, i), t)" "tag_read s (Some (tag, t))"
      using ready_inv [OF s(1)] by (rule ReadTagWithCutoff_read) blast
    have e: "safe_result s (Some ((True, m), t))"
      using t(2) by (cases rule: tag_read_cases) (auto intro!: safe_resultI intro: adv_inv adv_frame ci_frame_inv)
    show ?thesis
    proof (cases "tag = 0")
      case True
      then have "mp_switch mp tag = None" using switch_tag [of tag] by (cases "mp_switch mp tag") auto
      with t True e show ?thesis by simp
    next
      case False
      with t(2) obtain n where n: "adv n s t" "length (avail t) < length (avail s)"
        by (cases rule: tag_read_cases) auto
      note rt = adv_ready [OF s(1) n(1)]
      have at: "safe_result s (merge_loop mp fuel (Some l) m t)" for l
        using Suc rt n s(2) by (auto intro: safe_result_trans [OF adv_frame])
      have "safe_result t (SkipField fuel tag (Some (mp_unknown mp m)) t)"
        using n(2) s(2) rt by (intro SkipField_safe) auto
      then have sk: "safe_result s (do { ((ok, u), s) \<leftarrow> SkipField fuel tag (Some (mp_unknown mp m)) t;
                        let m = (case u of None \<Rightarrow> m | Some u \<Rightarrow> mp_set_unknown mp u m);
                        if ok then merge_loop mp fuel None m s else Some ((False, m), s) })"
      proof (cases rule: safe_result_cases)
        case (1 ok u t')
        have "safe_result t' (merge_loop mp fuel None m' t')" if ok for m'
          using Suc ci_frame_ready [OF rt 1(3) [OF that]] ci_frame_length [OF 1(3) [OF that]] n(2) s(2) by simp
        with 1 n show ?thesis
          by (cases ok) (auto simp: Let_def intro!: safe_resultI
              intro: safe_result_trans [OF ci_frame_trans [OF adv_frame]])
      qed
      show ?thesis
        using t(1) False e at sk by (auto split: option.split)
    qed
  qed
  have at: "safe_result s (merge_loop mp (Suc fuel) (Some l) m s)"
    if s: "ready s" "2 * length (avail s) + 2 \<le> Suc fuel" for l m s
  proof -
    have "safe_result s (mp_field mp fuel l m s)" using s by (intro field_safe) auto
    then show ?thesis
    proof (cases rule: safe_result_cases)
      case (1 ok m' t)
      show ?thesis
      proof (cases ok)
        case True
        note t = ci_frame_ready [OF s(1) 1(3) [OF True]] 1(3) [OF True]
        have l: "length (avail t) \<le> length (avail s)" using t(2) by (rule ci_frame_length)
        from next_step [OF 1(2), of l]
        have "safe_result t (do { (n, s) \<leftarrow> mp_next mp l t;
                    case n of Goto l' \<Rightarrow> merge_loop mp fuel (Some l') m' s
                    | Break \<Rightarrow> merge_loop mp fuel None m' s | Success \<Rightarrow> Some ((True, m'), s) })"
        proof (cases rule: next_ok_cases)
          case break
          with Suc t l s show ?thesis by auto
        next
          case (goto tag l' n t')
          with Suc adv_ready [OF t(1) goto(4)] l s
          have "safe_result t' (merge_loop mp fuel (Some l') m' t')" by auto
          with goto show ?thesis by (auto intro: safe_result_trans [OF adv_frame])
        next
          case (success t')
          then show ?thesis by (auto intro!: safe_resultI intro: adv_inv adv_frame)
        qed
        with 1(1) True t(2) show ?thesis by (auto intro: safe_result_trans)
      qed (use 1 in \<open>auto intro!: safe_resultI\<close>)
    qed
  qed
  show ?case using top at by blast
qed simp

lemma merge_safe:
  "ready s \<Longrightarrow> 2 * length (avail s) + 1 \<le> fuel \<Longrightarrow> safe_result s (merge_loop mp fuel None m s)"
  using safe by blast

subsection \<open>Reading a sequence of fields\<close>

text \<open>
  The three ways to be at a place in the loop: at the top, after a field, at a label.
\<close>

definition at_top :: "nat \<Rightarrow> byte list \<Rightarrow> 'm \<Rightarrow> 'm \<Rightarrow> bool" where
  "at_top d bs m m' \<longleftrightarrow> merges d bs (\<lambda>fuel s. merge_loop mp fuel None m s) m'"

definition after_field :: "nat \<Rightarrow> byte list \<Rightarrow> 'm \<Rightarrow> 'm \<Rightarrow> bool" where
  "after_field d bs m m' \<longleftrightarrow> (\<forall>l. merges d bs (\<lambda>fuel s. do { (n, s) \<leftarrow> mp_next mp l s;
                    case n of Goto l' \<Rightarrow> merge_loop mp fuel (Some l') m s
                    | Break \<Rightarrow> merge_loop mp fuel None m s
                    | Success \<Rightarrow> Some ((True, m), s) }) m')"

text \<open>At a label, with the bytes of the field and the fields after it.\<close>

lemma at_label:
  assumes "reads 1 d p (\<lambda>fuel s. mp_field mp fuel l m s) m'" "after_field d bs m' m''"
    and s: "ready s" "ci_recursion_depth s + int d \<le> ci_recursion_limit s" "avail s = p @ bs"
      "2 * length (avail s) + 2 \<le> fuel"
  obtains s' where "merge_loop mp fuel (Some l) m s = Some ((True, m''), s')" "adv (length (p @ bs)) s s'"
    "ci_legitimate_message_end s'"
proof -
  obtain fuel' where fuel: "fuel = Suc fuel'" using s(4) by (cases fuel) auto
  obtain s1 where 1: "mp_field mp fuel' l m s = Some ((True, m'), s1)" "adv (length p) s s1" "ready s1"
    "avail s1 = bs" "ci_recursion_depth s1 = ci_recursion_depth s" "ci_recursion_limit s1 = ci_recursion_limit s"
    using assms(1) s(1,2,3) by (rule reads_use [where fuel = fuel']) (use s(4) fuel in auto)
  obtain s2 where 2: "(do { (n, s) \<leftarrow> mp_next mp l s1;
                    case n of Goto l' \<Rightarrow> merge_loop mp fuel' (Some l') m' s
                    | Break \<Rightarrow> merge_loop mp fuel' None m' s
                    | Success \<Rightarrow> Some ((True, m'), s) }) = Some ((True, m''), s2)"
    "adv (length bs) s1 s2" "ci_legitimate_message_end s2"
    using assms(2) [unfolded after_field_def, rule_format, of l]
    by (rule merges_use [where s = s1 and fuel = fuel']) (use 1 s fuel in auto)
  from adv_trans [OF 1(2) 2(2)] show thesis
    using 1(1) 2 by (intro that [of s2]) (simp_all add: fuel)
qed

text \<open>A shortcut leads where the top of the loop leads.\<close>

lemma after_fieldI:
  assumes "at_top d bs m m'"
    and "\<And>t l n. mp_switch mp t = Some l \<Longrightarrow> varint_scan 10 bs = Scanned (unat t) n \<Longrightarrow>
          \<exists>p rest m1. bs = WriteTagToArray t @ p @ rest \<and> reads 1 d p (\<lambda>fuel s. mp_field mp fuel l m s) m1
                \<and> after_field d rest m1 m'"
    and "bs = [] \<Longrightarrow> m' = m"
  shows "after_field d bs m m'"
  unfolding after_field_def
proof (intro allI mergesI)
  fix l s fuel
  let ?f = "do { (n, s) \<leftarrow> mp_next mp l s;
                    case n of Goto l' \<Rightarrow> merge_loop mp fuel (Some l') m s
                    | Break \<Rightarrow> merge_loop mp fuel None m s
                    | Success \<Rightarrow> Some ((True, m), s) }"
  assume s: "ready s" "ci_inv s" "ci_recursion_depth s + int d \<le> ci_recursion_limit s" "avail s = bs"
    "2 * length bs + 1 \<le> fuel"
  from next_step [OF s(2), of l]
  show "\<exists>s'. ?f = Some ((True, m'), s') \<and> adv (length bs) s s' \<and> ci_legitimate_message_end s'"
  proof (cases rule: next_ok_cases)
    case break
    from assms(1) [unfolded at_top_def] s obtain s' where "merge_loop mp fuel None m s = Some ((True, m'), s')"
      "adv (length bs) s s'" "ci_legitimate_message_end s'" by (auto elim: merges_use)
    with break show ?thesis by auto
  next
    case (goto t l' n t')
    obtain p rest m1 where r: "bs = WriteTagToArray t @ p @ rest" "reads 1 d p (\<lambda>fuel s. mp_field mp fuel l' m s) m1"
      "after_field d rest m1 m'"
      using assms(2) [OF goto(2)] goto(3) s(4) by blast
    have n: "n = length (WriteTagToArray t)" using goto(3) s(4) r(1) by simp
    have t': "avail t' = p @ rest" using adv_avail [OF goto(4)] s(4) r(1) n by simp
    have d: "ci_recursion_depth t' + int d \<le> ci_recursion_limit t'"
      using adv_frame [OF goto(4)] s(3) by (simp add: ci_frame_def)
    have f: "2 * length (avail t') + 2 \<le> fuel"
      using s(5) goto(5) unfolding s(4) by linarith
    obtain s' where "merge_loop mp fuel (Some l') m t' = Some ((True, m'), s')"
      "adv (length (p @ rest)) t' s'" "ci_legitimate_message_end s'"
      using at_label [OF r(2,3) adv_ready [OF s(1) goto(4)] d t' f] .
    with goto(1) adv_trans [OF goto(4), of "length (p @ rest)" s'] show ?thesis
      by (intro exI [of _ s']) (simp add: r(1) n)
  next
    case (success t')
    with assms(3) s(4) show ?thesis by auto
  qed
qed

lemma at_top_end: "at_top d [] m m"
  unfolding at_top_def
proof (rule mergesI)
  fix s fuel
  assume s: "ready s" "ci_inv s" "avail s = []" "2 * length ([] :: byte list) + 1 \<le> fuel"
  obtain fuel' where fuel: "fuel = Suc fuel'" using s(4) by (cases fuel) auto
  obtain tag i t where t: "ReadTagWithCutoff 127 s = Some ((tag, i), t)" "tag_read s (Some (tag, t))"
    using s(2) by (rule ReadTagWithCutoff_read) blast
  have "tag = 0 \<and> adv 0 s t \<and> ci_legitimate_message_end t"
    using t(2) ready_at_end [OF s(1,3)] no_varint_empty [OF s(3)]
    by (auto simp: tag_read_def no_varint_def)
  moreover have "mp_switch mp 0 = None" using switch_tag [of 0] by (cases "mp_switch mp 0") auto
  ultimately show "\<exists>s'. merge_loop mp fuel None m s = Some ((True, m), s')
      \<and> adv (length ([] :: byte list)) s s' \<and> ci_legitimate_message_end s'"
    using t(1) by (simp add: fuel)
qed

lemma at_top_field:
  assumes "mp_switch mp t = Some l" "reads 1 d p (\<lambda>fuel s. mp_field mp fuel l m s) m'"
    "after_field d bs m' m''"
  shows "at_top d (WriteTagToArray t @ p @ bs) m m''"
  unfolding at_top_def
proof (rule mergesI)
  let ?t = "WriteTagToArray t"
  fix s fuel
  assume s: "ready s" "ci_inv s" "ci_recursion_depth s + int d \<le> ci_recursion_limit s" "avail s = ?t @ p @ bs"
    "2 * length (?t @ p @ bs) + 1 \<le> fuel"
  obtain fuel' where fuel: "fuel = Suc fuel'" using s(5) by (cases fuel) auto
  obtain i s1 where 1: "ReadTagWithCutoff 127 s = Some ((t, i), s1)" "adv (length ?t) s s1"
    "t \<noteq> 0 \<Longrightarrow> i \<longleftrightarrow> t \<le> 127"
    using s(2,4) by (rule ReadTagWithCutoff_write [where c = 127]) blast
  have d: "ci_recursion_depth s1 + int d \<le> ci_recursion_limit s1"
    using adv_frame [OF 1(2)] s(3) by (simp add: ci_frame_def)
  have a: "avail s1 = p @ bs" using adv_avail [OF 1(2)] s(4) by simp
  have "length (?t @ p @ bs) = length ?t + length (avail s1)" by (simp add: a)
  then have "2 * length (avail s1) + 2 \<le> fuel'"
    using s(5) fuel length_WriteTagToArray_pos [of t] by linarith
  with at_label [OF assms(2,3) adv_ready [OF s(1) 1(2)] d a]
  obtain s' where "merge_loop mp fuel' (Some l) m s1 = Some ((True, m''), s')"
    "adv (length (p @ bs)) s1 s'" "ci_legitimate_message_end s'" by blast
  with adv_trans [OF 1(2), of "length (p @ bs)" s'] 1 assms(1) switch_tag [OF assms(1)]
  show "\<exists>s'. merge_loop mp fuel None m s = Some ((True, m''), s') \<and> adv (length (?t @ p @ bs)) s s'
      \<and> ci_legitimate_message_end s'"
    by (intro exI [of _ s']) (simp add: fuel)
qed

lemma at_top_unknown:
  assumes "mp_switch mp (uf_tag f) = None" "ufs_ok [f]" "ufs_depth [f] \<le> d"
    "at_top d bs (mp_set_unknown mp (mp_unknown mp m @ [f]) m) m'"
  shows "at_top d (SerializeUnknownFieldsToArray [f] @ bs) m m'"
  unfolding at_top_def
proof (rule mergesI)
  let ?t = "WriteTagToArray (uf_tag f)"
  have b: "SerializeUnknownFieldsToArray [f] @ bs = ?t @ uf_payload f @ bs"
    by (simp add: Serialize_Cons WriteTagToArray_wf_def uf_tag_def)
  have nz: "uf_tag f \<noteq> 0" "GetTagWireType (uf_tag f) \<noteq> WIRETYPE_END_GROUP"
    using ufs_ok_Cons [OF assms(2)] MakeTag_neq_0 [of "uf_type f" "uf_number f"]
    by (auto simp: uf_tag_def GetTagWireType_MakeTag word_gt_0)
  fix s fuel
  assume s: "ready s" "ci_inv s" "ci_recursion_depth s + int d \<le> ci_recursion_limit s"
    "avail s = SerializeUnknownFieldsToArray [f] @ bs"
    "2 * length (SerializeUnknownFieldsToArray [f] @ bs) + 1 \<le> fuel"
  obtain fuel' where fuel: "fuel = Suc fuel'" using s(5) by (cases fuel) auto
  obtain i s1 where 1: "ReadTagWithCutoff 127 s = Some ((uf_tag f, i), s1)" "adv (length ?t) s s1"
    using s(2) s(4) [unfolded b] by (rule ReadTagWithCutoff_write [where c = 127]) blast
  have d: "ci_recursion_depth s1 + int (ufs_depth [f]) \<le> ci_recursion_limit s1"
    using adv_frame [OF 1(2)] s(3) assms(3) by (simp add: ci_frame_def)
  have a: "avail s1 = uf_payload f @ bs" using adv_avail [OF 1(2)] s(4) b by simp
  have "length (SerializeUnknownFieldsToArray [f] @ bs) = length ?t + length (avail s1)"
    unfolding b by (simp add: a)
  then have f: "2 * length (avail s1) + 2 \<le> fuel'"
    using s(5) fuel length_WriteTagToArray_pos [of "uf_tag f"] by linarith
  obtain s2 where 2: "SkipField fuel' (uf_tag f) (Some (mp_unknown mp m)) s1
      = Some ((True, Some (mp_unknown mp m @ [f])), s2)" "adv (length (uf_payload f)) s1 s2" "ready s2" "avail s2 = bs"
    "ci_recursion_depth s2 = ci_recursion_depth s1" "ci_recursion_limit s2 = ci_recursion_limit s1"
    using SkipField_reads [OF assms(2)] adv_ready [OF s(1) 1(2)] d a f by (rule reads_use) simp
  have d2: "ci_recursion_depth s2 + int d \<le> ci_recursion_limit s2"
    using 2(5,6) adv_frame [OF 1(2)] s(3) by (simp add: ci_frame_def)
  obtain s3 where "merge_loop mp fuel' None (mp_set_unknown mp (mp_unknown mp m @ [f]) m) s2 = Some ((True, m'), s3)"
    "adv (length bs) s2 s3" "ci_legitimate_message_end s3"
    using assms(4) [unfolded at_top_def] 2(3) d2 2(4)
    by (rule merges_use [where fuel = fuel']) (use f a in auto)
  with adv_trans [OF 1(2) adv_trans [OF 2(2), of "length bs" s3]] 1(1) 2(1) assms(1) nz
  show "\<exists>s'. merge_loop mp fuel None m s = Some ((True, m'), s')
      \<and> adv (length (SerializeUnknownFieldsToArray [f] @ bs)) s s' \<and> ci_legitimate_message_end s'"
    unfolding b by (intro exI [of _ s3]) (simp add: fuel)
qed

lemma run_reads: "run mp d m bs m' \<Longrightarrow> at_top d bs m m' \<and> after_field d bs m m'"
proof (induction rule: run.induct)
  case (run_end m)
  show ?case
    by (intro conjI after_fieldI at_top_end) (use varint_scan.simps(2) [of 9] in simp_all)
next
  case (run_field t l p m m' bs m'')
  have top: "at_top d (WriteTagToArray t @ p @ bs) m m''"
    using run_field by (intro at_top_field) auto
  have "after_field d (WriteTagToArray t @ p @ bs) m m''"
  proof (rule after_fieldI [OF top])
    fix t' l' n
    assume "mp_switch mp t' = Some l'" "varint_scan 10 (WriteTagToArray t @ p @ bs) = Scanned (unat t') n"
    moreover from this have "unat t' = unat t" by simp
    then have "t' = t" by (rule unsigned_word_eqI)
    ultimately have "t' = t" "l' = l" using run_field(1) by auto
    with run_field show "\<exists>p' rest m1. WriteTagToArray t @ p @ bs = WriteTagToArray t' @ p' @ rest
        \<and> reads 1 d p' (\<lambda>fuel s. mp_field mp fuel l' m s) m1 \<and> after_field d rest m1 m''" by blast
  qed (use length_WriteTagToArray_pos [of t] in simp)
  with top show ?case by blast
next
  case (run_unknown f m bs m'')
  have top: "at_top d (SerializeUnknownFieldsToArray [f] @ bs) m m''"
    using run_unknown by (intro at_top_unknown) auto
  have b: "SerializeUnknownFieldsToArray [f] @ bs = WriteTagToArray (uf_tag f) @ uf_payload f @ bs"
    by (simp add: Serialize_Cons WriteTagToArray_wf_def uf_tag_def)
  have "after_field d (SerializeUnknownFieldsToArray [f] @ bs) m m''"
  proof (rule after_fieldI [OF top])
    fix t' l' n
    assume "mp_switch mp t' = Some l'"
      "varint_scan 10 (SerializeUnknownFieldsToArray [f] @ bs) = Scanned (unat t') n"
    moreover from this have "unat t' = unat (uf_tag f)" unfolding b by simp
    then have "t' = uf_tag f" by (rule unsigned_word_eqI)
    ultimately have False using run_unknown(1) by simp
    then show "\<exists>p' rest m1. SerializeUnknownFieldsToArray [f] @ bs = WriteTagToArray t' @ p' @ rest
        \<and> reads 1 d p' (\<lambda>fuel s. mp_field mp fuel l' m s) m1 \<and> after_field d rest m1 m''" ..
  qed (use length_WriteTagToArray_pos [of "uf_tag f"] in \<open>simp add: b\<close>)
  with top show ?case by blast
qed

lemma run_merges: "run mp d m bs m' \<Longrightarrow> merges d bs (\<lambda>fuel s. merge_loop mp fuel None m s) m'"
  using run_reads by (simp add: at_top_def)

end

end
