(* ===== verification/FieldReads.thy ===== *)
theory FieldReads
  imports ParseLoop
begin

text \<open>
  The fields of the generated messages: the readers of one field are total, and read back
  what the array writers wrote; nested messages under a limit; a whole message as a run.
\<close>

subsection \<open>Totality of the field readers\<close>

lemma read_int32_field_safe: "ready s \<Longrightarrow> safe_result s (read_int32_field put m s)"
  unfolding read_int32_field_def ReadPrimitive_INT32_def
  by (rule store_varint_safe [OF ReadVarint32_read [OF ready_inv]])

lemma read_enum_field_safe: "ready s \<Longrightarrow> safe_result s (read_enum_field is_valid put add m s)"
  unfolding read_enum_field_def ReadPrimitive_ENUM_def
  by (rule store_varint_safe [OF ReadVarint32_read [OF ready_inv]])

lemma InternalReadStringInline_eq: "InternalReadStringInline b n s = ReadString b n s"
  by (simp add: ReadString_def InternalReadStringInline_def)

lemma ReadBytes_safe:
  assumes "ready s"
  shows "safe_result s (do { ((bytes, ok), s) \<leftarrow> ReadBytes old s; Some ((ok, f bytes), s) })"
  using ReadVarint32_read [OF ready_inv [OF assms]]
proof (cases rule: varint_read_cases)
  case (read v n t)
  obtain bytes ok s' where "ReadString old (sint (of_nat v :: u32)) t = Some ((bytes, ok), s')" "ci_frame t s'"
    using adv_inv [OF read(3)] by (rule ReadString_safe)
  then have "InternalReadStringInline old (sint (of_nat v :: u32)) t = Some ((bytes, ok), s')"
    by (simp add: InternalReadStringInline_eq)
  with read \<open>ci_frame t s'\<close> show ?thesis
    by (auto simp: ReadBytes_def intro!: safe_resultI intro: ci_frame_inv ci_frame_trans [OF adv_frame])
next
  case (failed t)
  then show ?thesis by (auto simp: ReadBytes_def intro!: safe_resultI intro: ci_frame_inv)
qed

lemma nested_frame:
  assumes "ready t" "ci_frame (snd (PushLimit n (deeper t))) u"
  shows "ci_frame t (DecrementRecursionDepth (PopLimit (fst (PushLimit n (deeper t))) u))"
  using assms ready_inv [OF assms(1)]
  by (intro Decrement_deeper(1) PushLimit_PopLimit_frame) simp_all

lemma ReadMessageNoVirtual_safe:
  assumes "\<And>x s. ready s \<Longrightarrow> 2 * length (avail s) + 1 \<le> fuel \<Longrightarrow> safe_result s (merge x s)"
    and s: "ready s" "2 * length (avail s) + 1 \<le> fuel"
  shows "safe_result s (ReadMessageNoVirtual merge x s)"
  unfolding ReadMessageNoVirtual_def
proof (rule safe_result_bind [OF ReadVarint32_read [OF ready_inv [OF s(1)]]])
  fix len :: u32 and n t
  assume t: "adv n s t" "0 < n"
  note rt = adv_ready [OF s(1) t(1)]
  obtain limit u where u: "PushLimit (sint len) (deeper t) = (limit, u)" by force
  have ru: "ready u" using PushLimit_ready [of "deeper t" "sint len"] rt by (simp add: u)
  have "length (avail u) \<le> length (avail t)"
    using PushLimit_length [of "sint len" "deeper t"] by (simp add: u)
  then have "2 * length (avail u) + 1 \<le> fuel"
    using ci_frame_length [OF adv_frame [OF t(1)]] s(2) by linarith
  from assms(1) [OF ru this, of x]
  show "safe_result t (let (ok, s) = IncrementRecursionDepth t
              in if \<not> ok then Some ((False, x), s) else
                 let (limit, s) = PushLimit (sint len) s
                 in do { ((ok, value), s) \<leftarrow> merge x s;
                         if \<not> ok then Some ((False, value), s)
                         else if \<not> ConsumedEntireMessage s then Some ((False, value), s)
                         else Some ((True, value), DecrementRecursionDepth (PopLimit limit s)) })"
  proof (cases rule: safe_result_cases)
    case (1 ok x' u')
    have "ok \<Longrightarrow> ci_frame t (DecrementRecursionDepth (PopLimit limit u'))"
      using nested_frame [OF rt, of "sint len" u'] 1(3) by (simp add: u)
    then show ?thesis
      using 1(1,2) ready_inv [OF rt]
      by (cases ok) (auto simp: IncrementRecursionDepth_eq u intro!: safe_resultI intro: ci_frame_inv)
  qed
qed

subsection \<open>Reading fields back\<close>

lemma reads_int32:
  "reads c 0 (WriteVarint32SignExtendedToArray v) (\<lambda>fuel s. read_int32_field put m s) (put v m)"
proof (rule readsI)
  fix s rest fuel
  assume "ci_inv s" "avail s = WriteVarint32SignExtendedToArray v @ rest"
  then obtain s' where "ReadVarint32 s = Some (Some v, s')" "adv (length (WriteVarint32SignExtendedToArray v)) s s'"
    by (rule ReadVarint32_write_int32)
  then show "\<exists>s'. read_int32_field put m s = Some ((True, put v m), s')
      \<and> adv (length (WriteVarint32SignExtendedToArray v)) s s'"
    by (simp add: read_int32_field_def ReadPrimitive_INT32_def)
qed

lemma reads_enum:
  assumes "is_valid v"
  shows "reads c 0 (WriteVarint32SignExtendedToArray v) (\<lambda>fuel s. read_enum_field is_valid put add m s) (put v m)"
proof (rule readsI)
  fix s rest fuel
  assume "ci_inv s" "avail s = WriteVarint32SignExtendedToArray v @ rest"
  then obtain s' where "ReadVarint32 s = Some (Some v, s')" "adv (length (WriteVarint32SignExtendedToArray v)) s s'"
    by (rule ReadVarint32_write_int32)
  with assms show "\<exists>s'. read_enum_field is_valid put add m s = Some ((True, put v m), s')
      \<and> adv (length (WriteVarint32SignExtendedToArray v)) s s'"
    by (simp add: read_enum_field_def ReadPrimitive_ENUM_def)
qed

lemma reads_bytes:
  "reads c 0 (WriteStringWithSizeToArray v)
     (\<lambda>fuel s. do { ((bytes, ok), s) \<leftarrow> ReadBytes old s; Some ((ok, f bytes), s) }) (f v)"
proof (rule readsI)
  fix s rest fuel
  let ?len = "of_nat (length v) :: u32"
  assume s: "ci_inv s" "avail s = WriteStringWithSizeToArray v @ rest"
  then have a: "avail s = WriteVarint32ToArray ?len @ v @ rest"
    by (simp add: WriteStringWithSizeToArray_def WriteStringToArray_def WriteRawToArray_def)
  obtain t where t: "ReadVarint32 s = Some (Some ?len, t)" "adv (length (WriteVarint32ToArray ?len)) s t"
    using s(1) a by (rule ReadVarint32_write)
  have at: "avail t = v @ rest" using adv_avail [OF t(2)] a by simp
  obtain s' where s': "ReadString old (sint ?len) t = Some ((v, True), s')" "adv (length v) t s'"
    using adv_inv [OF t(2)] at by (rule ReadString_write)
  have "int (length v) \<le> INT_MAX" using avail_INT_MAX [OF adv_inv [OF t(2)]] at by simp
  with s'(1) have "InternalReadStringInline old (sint ?len) t = Some ((v, True), s')"
    by (simp add: sint_length InternalReadStringInline_eq)
  with t(1) adv_trans [OF t(2) s'(2)]
  show "\<exists>s'. do { ((bytes, ok), s) \<leftarrow> ReadBytes old s; Some ((ok, f bytes), s) } = Some ((True, f v), s')
      \<and> adv (length (WriteStringWithSizeToArray v)) s s'"
    by (simp add: ReadBytes_def WriteStringWithSizeToArray_def WriteStringToArray_def WriteRawToArray_def)
qed

text \<open>A nested message: its length, then its bytes under a limit, one level deeper.\<close>

lemma reads_message:
  assumes "merges d bs (\<lambda>fuel s. merge fuel x s) x'"
  shows "reads 1 (Suc d) (WriteVarint32ToArray (of_nat (length bs)) @ bs)
           (\<lambda>fuel s. ReadMessageNoVirtual (merge fuel) x s) x'"
proof (rule readsI)
  fix s rest fuel
  let ?len = "of_nat (length bs) :: u32"
  assume s: "ready s" "ci_inv s" "ci_recursion_depth s + int (Suc d) \<le> ci_recursion_limit s"
    "avail s = (WriteVarint32ToArray ?len @ bs) @ rest" "2 * length (avail s) + 1 \<le> fuel"
  obtain t where t: "ReadVarint32 s = Some (Some ?len, t)" "adv (length (WriteVarint32ToArray ?len)) s t"
    using s(2) s(4) [simplified] by (rule ReadVarint32_write)
  note rt = adv_ready [OF s(1) t(2)]
  have at: "avail t = bs @ rest" using adv_avail [OF t(2)] s(4) by simp
  then have len: "sint ?len = int (length bs)" using avail_INT_MAX [OF ready_inv [OF rt]] by (simp add: sint_length)
  have dt: "ci_recursion_depth t = ci_recursion_depth s" "ci_recursion_limit t = ci_recursion_limit s"
    using adv_frame [OF t(2)] by (auto simp: ci_frame_def)
  obtain limit u where u: "PushLimit (sint ?len) (deeper t) = (limit, u)" by force
  have ru: "ready u" using PushLimit_ready [of "deeper t" "sint ?len"] rt by (simp add: u)
  have au: "avail u = bs"
    using PushLimit_avail [of "deeper t" "int (length bs)"] rt at by (simp add: u [unfolded len] ready_inv)
  have du: "ci_recursion_depth u + int d \<le> ci_recursion_limit u"
    using PushLimit_fields(6,7) [of "sint ?len" "deeper t"] s(3) dt by (simp add: u)
  have fu: "2 * length (avail u) + 1 \<le> fuel" using s(5) by (simp add: au s(4))
  obtain u' where u': "merge fuel x u = Some ((True, x'), u')" "adv (length bs) u u'" "ci_legitimate_message_end u'"
    using assms ru du au fu unfolding merges_def by blast
  have "adv (length bs) (deeper t) (PopLimit limit u')"
    using PushLimit_PopLimit [of "deeper t" "int (length bs)" "length bs" u'] rt at u'(2) by (simp add: u [unfolded len] ready_inv)
  then have "adv (length bs) t (DecrementRecursionDepth (PopLimit limit u'))"
    using Decrement_deeper(2) [OF rt] by blast
  from adv_trans [OF t(2) this] show "\<exists>s'. ReadMessageNoVirtual (merge fuel) x s = Some ((True, x'), s')
      \<and> adv (length (WriteVarint32ToArray ?len @ bs)) s s'"
    using t(1) u u' s(3) dt
    by (simp add: ReadMessageNoVirtual_def IncrementRecursionDepth_eq ConsumedEntireMessage_def)
qed

lemma reads_map:
  assumes "reads c d bs f x"
  shows "reads c d bs (\<lambda>fuel s. do { ((ok, x), s) \<leftarrow> f fuel s; Some ((ok, g x), s) }) (g x)"
proof (rule readsI)
  fix s rest fuel
  assume "ready s" "ci_recursion_depth s + int d \<le> ci_recursion_limit s" "avail s = bs @ rest"
    "2 * length (avail s) + c \<le> fuel"
  with assms obtain s' where "f fuel s = Some ((True, x), s')" "adv (length bs) s s'"
    by (rule reads_use)
  then show "\<exists>s'. do { ((ok, x), s) \<leftarrow> f fuel s; Some ((ok, g x), s) } = Some ((True, g x), s')
      \<and> adv (length bs) s s'" by simp
qed

lemma safe_result_map:
  "safe_result s r \<Longrightarrow> safe_result s (do { ((ok, x), s) \<leftarrow> r; Some ((ok, g x), s) })"
  by (auto simp: safe_result_def)

end
