(* ===== verification/MessageReads.thy ===== *)
theory MessageReads
  imports FieldReads
begin

text \<open>
  The five generated messages satisfy the contract of the parse loop, and the bytes that a
  message serializes to are read back as \<open>MergeFrom\<close> of that message.
\<close>

subsection \<open>Messages with unknown fields\<close>

text \<open>The unknown fields are a part of the message that can be read and replaced.\<close>

locale message_loop = parse_loop +
  assumes get_set: "mp_unknown mp (mp_set_unknown mp u m) = u"
    and set_set: "mp_set_unknown mp v (mp_set_unknown mp u m) = mp_set_unknown mp v m"
    and set_get: "mp_set_unknown mp (mp_unknown mp m) m = m"
begin

lemma run_opt:
  "(c \<Longrightarrow> run mp d m bs m') \<Longrightarrow> (\<not> c \<Longrightarrow> m' = m) \<Longrightarrow> run mp d m (if c then bs else []) m'"
  by (auto intro: run.intros)

lemma run_one:
  assumes "mp_switch mp t = Some l" "reads 1 d p (\<lambda>fuel s. mp_field mp fuel l m s) m'"
  shows "run mp d m (WriteTagToArray t @ p) m'"
  using run_field [OF assms run_end] by simp

text \<open>An optional field: nothing, or the tag and the value.\<close>

lemma run_int32:
  assumes "mp_switch mp t = Some l" "\<And>fuel s. mp_field mp fuel l m s = read_int32_field put m s"
    "m' = (if c then put v m else m)"
  shows "run mp d m (if c then WriteTagToArray t @ WriteVarint32SignExtendedToArray v else []) m'"
  using assms(2) unfolding assms(3)
  by (intro run_opt run_one [OF assms(1)]) (simp_all add: reads_mono [OF reads_int32])

lemma run_enum:
  assumes "mp_switch mp t = Some l" "\<And>fuel s. mp_field mp fuel l m s = read_enum_field is_valid put add m s"
    "m' = (if c then put v m else m)" "c \<Longrightarrow> is_valid v"
  shows "run mp d m (if c then WriteTagToArray t @ WriteVarint32SignExtendedToArray v else []) m'"
  using assms(2,4) unfolding assms(3)
  by (intro run_opt run_one [OF assms(1)]) (simp_all add: reads_mono [OF reads_enum])

lemma run_bytes:
  assumes "mp_switch mp t = Some l"
    "\<And>fuel s. mp_field mp fuel l m s = do { ((bytes, ok), s) \<leftarrow> ReadBytes old s; Some ((ok, f bytes), s) }"
    "m' = (if c then f v else m)"
  shows "run mp d m (if c then WriteTagToArray t @ WriteStringWithSizeToArray v else []) m'"
  using assms(2) unfolding assms(3)
  by (intro run_opt run_one [OF assms(1)]) (simp_all add: reads_mono [OF reads_bytes])

lemma run_message:
  assumes "mp_switch mp t = Some l"
    "\<And>fuel s. mp_field mp fuel l m s
       = do { ((ok, x), s) \<leftarrow> ReadMessageNoVirtual (merge fuel) x s; Some ((ok, g x), s) }"
    "m' = (if c then g x' else m)" "c \<Longrightarrow> merges d bs (\<lambda>fuel s. merge fuel x s) x'" "c \<Longrightarrow> sz = int (length bs)"
  shows "run mp (Suc d) m
     (if c then WriteTagToArray t @ WriteVarint32ToArray (word_of_int sz) @ bs else []) m'"
  unfolding assms(3)
proof (intro run_opt, goal_cases)
  case 1
  have "reads 1 (Suc d) (WriteVarint32ToArray (of_nat (length bs)) @ bs) (\<lambda>fuel s. mp_field mp fuel l m s) (g x')"
    unfolding assms(2) by (rule reads_map, rule reads_message [where merge = merge], rule assms(4) [OF 1])
  with run_one [OF assms(1)] assms(5) [OF 1] 1 show ?case by simp
qed simp

lemma run_unknown_set:
  "ufs_ok u \<Longrightarrow> ufs_depth u \<le> d \<Longrightarrow> list_all (\<lambda>f. mp_switch mp (uf_tag f) = None) u
    \<Longrightarrow> run mp d m (SerializeUnknownFieldsToArray u) (mp_set_unknown mp (mp_unknown mp m @ u) m)"
proof (induction u arbitrary: m)
  case Nil
  then show ?case by (simp add: set_get run_end)
next
  case (Cons f u)
  let ?m = "mp_set_unknown mp (mp_unknown mp m @ [f]) m"
  have "run mp d ?m (SerializeUnknownFieldsToArray u) (mp_set_unknown mp (mp_unknown mp ?m @ u) ?m)"
    using Cons ufs_ok_Cons [of f u] ufs_depth_Cons [of f u] by (intro Cons.IH) auto
  then have "run mp d ?m (SerializeUnknownFieldsToArray u) (mp_set_unknown mp (mp_unknown mp m @ f # u) m)"
    by (simp add: get_set set_set)
  then have "run mp d m (SerializeUnknownFieldsToArray [f] @ SerializeUnknownFieldsToArray u)
      (mp_set_unknown mp (mp_unknown mp m @ f # u) m)"
    using Cons.prems ufs_ok_Cons [of f u] ufs_depth_Cons [of f u] by (intro run_unknown) auto
  then show ?case by (simp add: SerializeUnknownFieldsToArray_append [symmetric])
qed

lemma run_unknowns:
  assumes "ufs_ok u" "ufs_depth u \<le> d" "list_all (\<lambda>f. mp_switch mp (uf_tag f) = None) u"
  shows "run mp d m (if u \<noteq> [] then SerializeUnknownFieldsToArray u else [])
           (mp_set_unknown mp (mp_unknown mp m @ u) m)"
  using run_unknown_set [OF assms] by (cases "u = []") simp_all

end

definition unknown_wf :: "(u32 \<Rightarrow> 'l option) \<Rightarrow> nat \<Rightarrow> unknown_field_set \<Rightarrow> bool" where
  "unknown_wf sw d u \<longleftrightarrow> ufs_ok u \<and> ufs_depth u \<le> d \<and> list_all (\<lambda>f. sw (uf_tag f) = None) u"

lemma GetTagFieldNumber_numeral [simp]: "GetTagFieldNumber t = drop_bit 3 t"
  by (simp add: GetTagFieldNumber_def kTagTypeBits_def)

text \<open>The tags that the generated code spells as constants.\<close>

lemma tag_constants:
  "WriteTagToArray_wf 1 WIRETYPE_VARINT = WriteTagToArray 8"
  "WriteTagToArray_wf 2 WIRETYPE_VARINT = WriteTagToArray 16"
  "WriteTagToArray_wf 3 WIRETYPE_VARINT = WriteTagToArray 24"
  "WriteTagToArray_wf 4 WIRETYPE_VARINT = WriteTagToArray 32"
  "WriteTagToArray_wf 5 WIRETYPE_VARINT = WriteTagToArray 40"
  "WriteTagToArray_wf 1 WIRETYPE_LENGTH_DELIMITED = WriteTagToArray 10"
  "WriteTagToArray_wf 2 WIRETYPE_LENGTH_DELIMITED = WriteTagToArray 18"
  "WriteTagToArray_wf 3 WIRETYPE_LENGTH_DELIMITED = WriteTagToArray 26"
  by (simp_all add: WriteTagToArray_wf_def MakeTag_def kTagTypeBits_def wire_types)

lemma VarintSize32_tags:
  "VarintSize32 (MakeTag 1 WIRETYPE_VARINT) = 1" "VarintSize32 (MakeTag 2 WIRETYPE_VARINT) = 1"
  "VarintSize32 (MakeTag 3 WIRETYPE_VARINT) = 1" "VarintSize32 (MakeTag 4 WIRETYPE_VARINT) = 1"
  "VarintSize32 (MakeTag 5 WIRETYPE_VARINT) = 1" "VarintSize32 (MakeTag 1 WIRETYPE_LENGTH_DELIMITED) = 1"
  "VarintSize32 (MakeTag 2 WIRETYPE_LENGTH_DELIMITED) = 1"
  "VarintSize32 (MakeTag 3 WIRETYPE_LENGTH_DELIMITED) = 1"
  by (simp_all add: VarintSize32_def MakeTag_def kTagTypeBits_def wire_types)

lemmas field_writers = WriteInt32ToArray_def WriteInt32NoTagToArray_def WriteEnumToArray_def
  WriteEnumNoTagToArray_def WriteBytesToArray_def WriteMessageNoVirtualToArray_def tag_constants

subsection \<open>TeecValue\<close>

lemma TeecValue_parser_simps [simp]:
  "mp_switch TeecValue_parser = TeecValue_switch"
  "mp_field TeecValue_parser = TeecValue_field"
  "mp_next TeecValue_parser = TeecValue_next"
  "mp_unknown TeecValue_parser = tv_unknown_fields"
  "mp_set_unknown TeecValue_parser = (\<lambda>u m. m\<lparr>tv_unknown_fields := u\<rparr>)"
  by (simp_all add: TeecValue_parser_def)

interpretation value_loop: message_loop TeecValue_parser
proof unfold_locales
  fix t l assume "mp_switch TeecValue_parser t = Some l"
  then show "t \<noteq> 0 \<and> t \<le> 127" by (auto split: if_splits)
next
  fix s l assume "ci_inv s"
  then show "next_ok TeecValue_parser s (mp_next TeecValue_parser l s)"
    by (cases l) (auto intro!: expect_goto_ok expect_success_ok)
next
  fix s fuel l m assume "ready s" "2 * length (avail s) + 1 \<le> fuel"
  then show "safe_result s (mp_field TeecValue_parser fuel l m s)"
    by (cases l) (auto simp: Let_def  intro!: read_int32_field_safe read_enum_field_safe)
qed auto

lemma TeecValue_merge_safe:
  "ready s \<Longrightarrow> 2 * length (avail s) + 1 \<le> fuel
    \<Longrightarrow> safe_result s (TeecValue_MergePartialFromCodedStream fuel m s)"
  unfolding TeecValue_MergePartialFromCodedStream_def by (rule value_loop.merge_safe)

lemma TeecValue_ByteSize_length:
  "int (length (TeecValue_SerializeWithCachedSizesToArray m)) = TeecValue_ByteSize m"
  by (simp add: TeecValue_SerializeWithCachedSizesToArray_def TeecValue_ByteSize_def size_simps VarintSize32_tags Let_def)

definition TeecValue_wf :: "nat \<Rightarrow> TeecValue \<Rightarrow> bool" where
  "TeecValue_wf d m \<longleftrightarrow> (tv_has_mflag m \<longrightarrow> TeecValue_Flag_IsValid (tv_mflag m))
     \<and> unknown_wf TeecValue_switch d (tv_unknown_fields m)"

lemma TeecValue_run:
  assumes "TeecValue_wf d m"
  shows "run TeecValue_parser d m0 (TeecValue_SerializeWithCachedSizesToArray m) (TeecValue_MergeFrom m m0)"
proof -
  have 1: "run TeecValue_parser d m0 (if tv_has_a m then WriteInt32ToArray 1 (tv_a m) else [])
      (if tv_has_a m then TeecValue_set_a (tv_a m) m0 else m0)" for m0
    unfolding field_writers
    by (rule value_loop.run_int32 [where l = value_label.parse_a]) (simp, simp, simp add: TeecValue_set_a_def)
  have 2: "run TeecValue_parser d m0 (if tv_has_b m then WriteInt32ToArray 2 (tv_b m) else [])
      (if tv_has_b m then TeecValue_set_b (tv_b m) m0 else m0)" for m0
    unfolding field_writers
    by (rule value_loop.run_int32 [where l = value_label.parse_b]) (simp, simp, simp add: TeecValue_set_b_def)
  have 3: "run TeecValue_parser d m0 (if tv_has_mflag m then WriteEnumToArray 3 (tv_mflag m) else [])
      (if tv_has_mflag m then TeecValue_set_mflag (tv_mflag m) m0 else m0)" for m0
    unfolding field_writers
    by (rule value_loop.run_enum [where l = value_label.parse_mFlag]) (use assms in \<open>simp, simp, simp, simp add: TeecValue_wf_def\<close>)
  have 4: "run TeecValue_parser d m0
      (if tv_unknown_fields m \<noteq> [] then SerializeUnknownFieldsToArray (tv_unknown_fields m) else [])
      (m0\<lparr>tv_unknown_fields := tv_unknown_fields m0 @ tv_unknown_fields m\<rparr>)" for m0
    using assms value_loop.run_unknowns [of "tv_unknown_fields m" "d" m0]
    by (simp add: TeecValue_wf_def unknown_wf_def)
  show ?thesis
    unfolding TeecValue_SerializeWithCachedSizesToArray_def TeecValue_MergeFrom_def Let_def
      UnknownFieldSet_MergeFrom_eq
    by (intro run_append [OF 1] run_append [OF 2] run_append [OF 3] 4)
qed

lemma TeecValue_merges:
  "TeecValue_wf d m \<Longrightarrow> merges d (TeecValue_SerializeWithCachedSizesToArray m)
     (\<lambda>fuel s. TeecValue_MergePartialFromCodedStream fuel m0 s) (TeecValue_MergeFrom m m0)"
  unfolding TeecValue_MergePartialFromCodedStream_def by (rule value_loop.run_merges [OF TeecValue_run])

subsection \<open>TeecSharedMemory\<close>

lemma TeecSharedMemory_parser_simps [simp]:
  "mp_switch TeecSharedMemory_parser = TeecSharedMemory_switch"
  "mp_field TeecSharedMemory_parser = TeecSharedMemory_field"
  "mp_next TeecSharedMemory_parser = TeecSharedMemory_next"
  "mp_unknown TeecSharedMemory_parser = ts_unknown_fields"
  "mp_set_unknown TeecSharedMemory_parser = (\<lambda>u m. m\<lparr>ts_unknown_fields := u\<rparr>)"
  by (simp_all add: TeecSharedMemory_parser_def)

interpretation memory_loop: message_loop TeecSharedMemory_parser
proof unfold_locales
  fix t l assume "mp_switch TeecSharedMemory_parser t = Some l"
  then show "t \<noteq> 0 \<and> t \<le> 127" by (auto split: if_splits)
next
  fix s l assume "ci_inv s"
  then show "next_ok TeecSharedMemory_parser s (mp_next TeecSharedMemory_parser l s)"
    by (cases l) (auto intro!: expect_goto_ok expect_success_ok)
next
  fix s fuel l m assume "ready s" "2 * length (avail s) + 1 \<le> fuel"
  then show "safe_result s (mp_field TeecSharedMemory_parser fuel l m s)"
    by (cases l) (auto simp: Let_def TeecSharedMemory_mutable_mbuffer_def intro!: ReadBytes_safe read_int32_field_safe)
qed auto

lemma TeecSharedMemory_merge_safe:
  "ready s \<Longrightarrow> 2 * length (avail s) + 1 \<le> fuel
    \<Longrightarrow> safe_result s (TeecSharedMemory_MergePartialFromCodedStream fuel m s)"
  unfolding TeecSharedMemory_MergePartialFromCodedStream_def by (rule memory_loop.merge_safe)

lemma TeecSharedMemory_ByteSize_length:
  "int (length (TeecSharedMemory_SerializeWithCachedSizesToArray m)) = TeecSharedMemory_ByteSize m"
  by (simp add: TeecSharedMemory_SerializeWithCachedSizesToArray_def TeecSharedMemory_ByteSize_def size_simps VarintSize32_tags Let_def)

definition TeecSharedMemory_wf :: "nat \<Rightarrow> TeecSharedMemory \<Rightarrow> bool" where
  "TeecSharedMemory_wf d m \<longleftrightarrow> unknown_wf TeecSharedMemory_switch d (ts_unknown_fields m)"

lemma TeecSharedMemory_run:
  assumes "TeecSharedMemory_wf d m"
  shows "run TeecSharedMemory_parser d m0 (TeecSharedMemory_SerializeWithCachedSizesToArray m) (TeecSharedMemory_MergeFrom m m0)"
proof -
  have 1: "run TeecSharedMemory_parser d m0 (if ts_has_mbuffer m then WriteBytesToArray 1 (ts_mbuffer m) else [])
      (if ts_has_mbuffer m then TeecSharedMemory_set_mbuffer (ts_mbuffer m) m0 else m0)" for m0
    unfolding field_writers
    by (rule memory_loop.run_bytes [where l = memory_label.parse_mBuffer
          and f = "\<lambda>b. TeecSharedMemory_put_mbuffer b (m0\<lparr>ts_has_mbuffer := True\<rparr>)"])
       (simp, simp add: TeecSharedMemory_mutable_mbuffer_def Let_def, simp add: TeecSharedMemory_set_mbuffer_def TeecSharedMemory_put_mbuffer_def)
  have 2: "run TeecSharedMemory_parser d m0 (if ts_has_mflag m then WriteInt32ToArray 2 (ts_mflag m) else [])
      (if ts_has_mflag m then TeecSharedMemory_set_mflag (ts_mflag m) m0 else m0)" for m0
    unfolding field_writers
    by (rule memory_loop.run_int32 [where l = memory_label.parse_mFlag]) (simp, simp, simp add: TeecSharedMemory_set_mflag_def)
  have 3: "run TeecSharedMemory_parser d m0 (if ts_has_size m then WriteInt32ToArray 3 (ts_size m) else [])
      (if ts_has_size m then TeecSharedMemory_set_size (ts_size m) m0 else m0)" for m0
    unfolding field_writers
    by (rule memory_loop.run_int32 [where l = memory_label.parse_size]) (simp, simp, simp add: TeecSharedMemory_set_size_def)
  have 4: "run TeecSharedMemory_parser d m0 (if ts_has_mreturnsize m then WriteInt32ToArray 4 (ts_mreturnsize m) else [])
      (if ts_has_mreturnsize m then TeecSharedMemory_set_mreturnsize (ts_mreturnsize m) m0 else m0)" for m0
    unfolding field_writers
    by (rule memory_loop.run_int32 [where l = memory_label.parse_mReturnSize]) (simp, simp, simp add: TeecSharedMemory_set_mreturnsize_def)
  have 5: "run TeecSharedMemory_parser d m0 (if ts_has_mid m then WriteInt32ToArray 5 (ts_mid m) else [])
      (if ts_has_mid m then TeecSharedMemory_set_mid (ts_mid m) m0 else m0)" for m0
    unfolding field_writers
    by (rule memory_loop.run_int32 [where l = memory_label.parse_mID]) (simp, simp, simp add: TeecSharedMemory_set_mid_def)
  have 6: "run TeecSharedMemory_parser d m0
      (if ts_unknown_fields m \<noteq> [] then SerializeUnknownFieldsToArray (ts_unknown_fields m) else [])
      (m0\<lparr>ts_unknown_fields := ts_unknown_fields m0 @ ts_unknown_fields m\<rparr>)" for m0
    using assms memory_loop.run_unknowns [of "ts_unknown_fields m" "d" m0]
    by (simp add: TeecSharedMemory_wf_def unknown_wf_def)
  show ?thesis
    unfolding TeecSharedMemory_SerializeWithCachedSizesToArray_def TeecSharedMemory_MergeFrom_def Let_def
      UnknownFieldSet_MergeFrom_eq
    by (intro run_append [OF 1] run_append [OF 2] run_append [OF 3] run_append [OF 4] run_append [OF 5] 6)
qed

lemma TeecSharedMemory_merges:
  "TeecSharedMemory_wf d m \<Longrightarrow> merges d (TeecSharedMemory_SerializeWithCachedSizesToArray m)
     (\<lambda>fuel s. TeecSharedMemory_MergePartialFromCodedStream fuel m0 s) (TeecSharedMemory_MergeFrom m m0)"
  unfolding TeecSharedMemory_MergePartialFromCodedStream_def by (rule memory_loop.run_merges [OF TeecSharedMemory_run])

subsection \<open>TeecSharedMemoryReference\<close>

lemma TeecSharedMemoryReference_parser_simps [simp]:
  "mp_switch TeecSharedMemoryReference_parser = TeecSharedMemoryReference_switch"
  "mp_field TeecSharedMemoryReference_parser = TeecSharedMemoryReference_field"
  "mp_next TeecSharedMemoryReference_parser = TeecSharedMemoryReference_next"
  "mp_unknown TeecSharedMemoryReference_parser = tr_unknown_fields"
  "mp_set_unknown TeecSharedMemoryReference_parser = (\<lambda>u m. m\<lparr>tr_unknown_fields := u\<rparr>)"
  by (simp_all add: TeecSharedMemoryReference_parser_def)

interpretation reference_loop: message_loop TeecSharedMemoryReference_parser
proof unfold_locales
  fix t l assume "mp_switch TeecSharedMemoryReference_parser t = Some l"
  then show "t \<noteq> 0 \<and> t \<le> 127" by (auto split: if_splits)
next
  fix s l assume "ci_inv s"
  then show "next_ok TeecSharedMemoryReference_parser s (mp_next TeecSharedMemoryReference_parser l s)"
    by (cases l) (auto intro!: expect_goto_ok expect_success_ok)
next
  fix s fuel l m assume "ready s" "2 * length (avail s) + 1 \<le> fuel"
  then show "safe_result s (mp_field TeecSharedMemoryReference_parser fuel l m s)"
    by (cases l) (auto simp: Let_def TeecSharedMemoryReference_mutable_parent_def intro!: safe_result_map read_int32_field_safe read_enum_field_safe ReadMessageNoVirtual_safe TeecSharedMemory_merge_safe)
qed auto

lemma TeecSharedMemoryReference_merge_safe:
  "ready s \<Longrightarrow> 2 * length (avail s) + 1 \<le> fuel
    \<Longrightarrow> safe_result s (TeecSharedMemoryReference_MergePartialFromCodedStream fuel m s)"
  unfolding TeecSharedMemoryReference_MergePartialFromCodedStream_def by (rule reference_loop.merge_safe)

lemma TeecSharedMemoryReference_ByteSize_length:
  "int (length (TeecSharedMemoryReference_SerializeWithCachedSizesToArray m)) = TeecSharedMemoryReference_ByteSize m"
  by (simp add: TeecSharedMemoryReference_SerializeWithCachedSizesToArray_def TeecSharedMemoryReference_ByteSize_def size_simps VarintSize32_tags Let_def TeecSharedMemory_ByteSize_length)

fun TeecSharedMemoryReference_wf :: "nat \<Rightarrow> TeecSharedMemoryReference \<Rightarrow> bool" where
  "TeecSharedMemoryReference_wf 0 m = False"
| "TeecSharedMemoryReference_wf (Suc d) m \<longleftrightarrow> (tr_has_parent m \<longrightarrow> TeecSharedMemory_wf d (TeecSharedMemoryReference_get_parent m))
     \<and> (tr_has_mflag m \<longrightarrow> TeecSharedMemoryReference_Flag_IsValid (tr_mflag m))
     \<and> unknown_wf TeecSharedMemoryReference_switch (Suc d) (tr_unknown_fields m)"

lemma TeecSharedMemoryReference_run:
  assumes "TeecSharedMemoryReference_wf (Suc d) m"
  shows "run TeecSharedMemoryReference_parser (Suc d) m0 (TeecSharedMemoryReference_SerializeWithCachedSizesToArray m) (TeecSharedMemoryReference_MergeFrom m m0)"
proof -
  have 1: "run TeecSharedMemoryReference_parser (Suc d) m0
      (if tr_has_parent m then let x = TeecSharedMemoryReference_get_parent m
         in WriteMessageNoVirtualToArray 1 (TeecSharedMemory_ByteSize x) (TeecSharedMemory_SerializeWithCachedSizesToArray x) else [])
      (if tr_has_parent m then let (x, m0) = TeecSharedMemoryReference_mutable_parent m0
         in TeecSharedMemoryReference_put_parent (TeecSharedMemory_MergeFrom (TeecSharedMemoryReference_get_parent m) x) m0 else m0)" for m0
    unfolding field_writers Let_def
    by (rule reference_loop.run_message [where l = reference_label.parse_parent and merge = TeecSharedMemory_MergePartialFromCodedStream
          and x = "fst (TeecSharedMemoryReference_mutable_parent m0)" and g = "\<lambda>x. TeecSharedMemoryReference_put_parent x (snd (TeecSharedMemoryReference_mutable_parent m0))"
          and x' = "TeecSharedMemory_MergeFrom (TeecSharedMemoryReference_get_parent m) (fst (TeecSharedMemoryReference_mutable_parent m0))"])
       (use assms in \<open>simp, simp add: split_beta, simp add: split_beta, simp add: TeecSharedMemory_merges,
          simp add: TeecSharedMemory_ByteSize_length\<close>)
  have 2: "run TeecSharedMemoryReference_parser (Suc d) m0 (if tr_has_moffset m then WriteInt32ToArray 2 (tr_moffset m) else [])
      (if tr_has_moffset m then TeecSharedMemoryReference_set_moffset (tr_moffset m) m0 else m0)" for m0
    unfolding field_writers
    by (rule reference_loop.run_int32 [where l = reference_label.parse_mOffset]) (simp, simp, simp add: TeecSharedMemoryReference_set_moffset_def)
  have 3: "run TeecSharedMemoryReference_parser (Suc d) m0 (if tr_has_mflag m then WriteEnumToArray 3 (tr_mflag m) else [])
      (if tr_has_mflag m then TeecSharedMemoryReference_set_mflag (tr_mflag m) m0 else m0)" for m0
    unfolding field_writers
    by (rule reference_loop.run_enum [where l = reference_label.parse_mFlag]) (use assms in \<open>simp, simp, simp, simp\<close>)
  have 4: "run TeecSharedMemoryReference_parser (Suc d) m0
      (if tr_unknown_fields m \<noteq> [] then SerializeUnknownFieldsToArray (tr_unknown_fields m) else [])
      (m0\<lparr>tr_unknown_fields := tr_unknown_fields m0 @ tr_unknown_fields m\<rparr>)" for m0
    using assms reference_loop.run_unknowns [of "tr_unknown_fields m" "Suc d" m0]
    by (simp add:  unknown_wf_def)
  show ?thesis
    unfolding TeecSharedMemoryReference_SerializeWithCachedSizesToArray_def TeecSharedMemoryReference_MergeFrom_def Let_def
      UnknownFieldSet_MergeFrom_eq
    by (intro run_append [OF 1 [unfolded Let_def]] run_append [OF 2] run_append [OF 3] 4)
qed

lemma TeecSharedMemoryReference_merges:
  "TeecSharedMemoryReference_wf d m \<Longrightarrow> merges d (TeecSharedMemoryReference_SerializeWithCachedSizesToArray m)
     (\<lambda>fuel s. TeecSharedMemoryReference_MergePartialFromCodedStream fuel m0 s) (TeecSharedMemoryReference_MergeFrom m m0)"
  using reference_loop.run_merges [OF TeecSharedMemoryReference_run]
  by (cases d) (simp_all add: TeecSharedMemoryReference_MergePartialFromCodedStream_def)

subsection \<open>TeecParameter\<close>

lemma TeecParameter_parser_simps [simp]:
  "mp_switch TeecParameter_parser = TeecParameter_switch"
  "mp_field TeecParameter_parser = TeecParameter_field"
  "mp_next TeecParameter_parser = TeecParameter_next"
  "mp_unknown TeecParameter_parser = tp_unknown_fields"
  "mp_set_unknown TeecParameter_parser = (\<lambda>u m. m\<lparr>tp_unknown_fields := u\<rparr>)"
  by (simp_all add: TeecParameter_parser_def)

interpretation parameter_loop: message_loop TeecParameter_parser
proof unfold_locales
  fix t l assume "mp_switch TeecParameter_parser t = Some l"
  then show "t \<noteq> 0 \<and> t \<le> 127" by (auto split: if_splits)
next
  fix s l assume "ci_inv s"
  then show "next_ok TeecParameter_parser s (mp_next TeecParameter_parser l s)"
    by (cases l) (auto intro!: expect_goto_ok expect_success_ok)
next
  fix s fuel l m assume "ready s" "2 * length (avail s) + 1 \<le> fuel"
  then show "safe_result s (mp_field TeecParameter_parser fuel l m s)"
    by (cases l) (auto simp: Let_def TeecParameter_mutable_teecsharedmemoryreference_def TeecParameter_mutable_teecvalue_def intro!: read_enum_field_safe safe_result_map read_int32_field_safe ReadMessageNoVirtual_safe TeecSharedMemoryReference_merge_safe TeecValue_merge_safe)
qed auto

lemma TeecParameter_merge_safe:
  "ready s \<Longrightarrow> 2 * length (avail s) + 1 \<le> fuel
    \<Longrightarrow> safe_result s (TeecParameter_MergePartialFromCodedStream fuel m s)"
  unfolding TeecParameter_MergePartialFromCodedStream_def by (rule parameter_loop.merge_safe)

lemma TeecParameter_ByteSize_length:
  "int (length (TeecParameter_SerializeWithCachedSizesToArray m)) = TeecParameter_ByteSize m"
  by (simp add: TeecParameter_SerializeWithCachedSizesToArray_def TeecParameter_ByteSize_def size_simps VarintSize32_tags Let_def TeecSharedMemoryReference_ByteSize_length TeecValue_ByteSize_length)

fun TeecParameter_wf :: "nat \<Rightarrow> TeecParameter \<Rightarrow> bool" where
  "TeecParameter_wf 0 m = False"
| "TeecParameter_wf (Suc d) m \<longleftrightarrow> (tp_has_type m \<longrightarrow> TeecParameter_Type_IsValid (tp_type m))
     \<and> (tp_has_teecsharedmemoryreference m \<longrightarrow> TeecSharedMemoryReference_wf d (TeecParameter_get_teecsharedmemoryreference m))
     \<and> (tp_has_teecvalue m \<longrightarrow> TeecValue_wf d (TeecParameter_get_teecvalue m))
     \<and> unknown_wf TeecParameter_switch (Suc d) (tp_unknown_fields m)"

lemma TeecParameter_run:
  assumes "TeecParameter_wf (Suc d) m"
  shows "run TeecParameter_parser (Suc d) m0 (TeecParameter_SerializeWithCachedSizesToArray m) (TeecParameter_MergeFrom m m0)"
proof -
  have 1: "run TeecParameter_parser (Suc d) m0 (if tp_has_type m then WriteEnumToArray 1 (tp_type m) else [])
      (if tp_has_type m then TeecParameter_set_type (tp_type m) m0 else m0)" for m0
    unfolding field_writers
    by (rule parameter_loop.run_enum [where l = parameter_label.parse_type]) (use assms in \<open>simp, simp, simp, simp\<close>)
  have 2: "run TeecParameter_parser (Suc d) m0
      (if tp_has_teecsharedmemoryreference m then let x = TeecParameter_get_teecsharedmemoryreference m
         in WriteMessageNoVirtualToArray 2 (TeecSharedMemoryReference_ByteSize x) (TeecSharedMemoryReference_SerializeWithCachedSizesToArray x) else [])
      (if tp_has_teecsharedmemoryreference m then let (x, m0) = TeecParameter_mutable_teecsharedmemoryreference m0
         in TeecParameter_put_teecsharedmemoryreference (TeecSharedMemoryReference_MergeFrom (TeecParameter_get_teecsharedmemoryreference m) x) m0 else m0)" for m0
    unfolding field_writers Let_def
    by (rule parameter_loop.run_message [where l = parameter_label.parse_teecSharedMemoryReference and merge = TeecSharedMemoryReference_MergePartialFromCodedStream
          and x = "fst (TeecParameter_mutable_teecsharedmemoryreference m0)" and g = "\<lambda>x. TeecParameter_put_teecsharedmemoryreference x (snd (TeecParameter_mutable_teecsharedmemoryreference m0))"
          and x' = "TeecSharedMemoryReference_MergeFrom (TeecParameter_get_teecsharedmemoryreference m) (fst (TeecParameter_mutable_teecsharedmemoryreference m0))"])
       (use assms in \<open>simp, simp add: split_beta, simp add: split_beta, simp add: TeecSharedMemoryReference_merges,
          simp add: TeecSharedMemoryReference_ByteSize_length\<close>)
  have 3: "run TeecParameter_parser (Suc d) m0
      (if tp_has_teecvalue m then let x = TeecParameter_get_teecvalue m
         in WriteMessageNoVirtualToArray 3 (TeecValue_ByteSize x) (TeecValue_SerializeWithCachedSizesToArray x) else [])
      (if tp_has_teecvalue m then let (x, m0) = TeecParameter_mutable_teecvalue m0
         in TeecParameter_put_teecvalue (TeecValue_MergeFrom (TeecParameter_get_teecvalue m) x) m0 else m0)" for m0
    unfolding field_writers Let_def
    by (rule parameter_loop.run_message [where l = parameter_label.parse_teecValue and merge = TeecValue_MergePartialFromCodedStream
          and x = "fst (TeecParameter_mutable_teecvalue m0)" and g = "\<lambda>x. TeecParameter_put_teecvalue x (snd (TeecParameter_mutable_teecvalue m0))"
          and x' = "TeecValue_MergeFrom (TeecParameter_get_teecvalue m) (fst (TeecParameter_mutable_teecvalue m0))"])
       (use assms in \<open>simp, simp add: split_beta, simp add: split_beta, simp add: TeecValue_merges,
          simp add: TeecValue_ByteSize_length\<close>)
  have 4: "run TeecParameter_parser (Suc d) m0 (if tp_has_placeholder m then WriteInt32ToArray 4 (tp_placeholder m) else [])
      (if tp_has_placeholder m then TeecParameter_set_placeholder (tp_placeholder m) m0 else m0)" for m0
    unfolding field_writers
    by (rule parameter_loop.run_int32 [where l = parameter_label.parse_placeHolder]) (simp, simp, simp add: TeecParameter_set_placeholder_def)
  have 5: "run TeecParameter_parser (Suc d) m0
      (if tp_unknown_fields m \<noteq> [] then SerializeUnknownFieldsToArray (tp_unknown_fields m) else [])
      (m0\<lparr>tp_unknown_fields := tp_unknown_fields m0 @ tp_unknown_fields m\<rparr>)" for m0
    using assms parameter_loop.run_unknowns [of "tp_unknown_fields m" "Suc d" m0]
    by (simp add:  unknown_wf_def)
  show ?thesis
    unfolding TeecParameter_SerializeWithCachedSizesToArray_def TeecParameter_MergeFrom_def Let_def
      UnknownFieldSet_MergeFrom_eq
    by (intro run_append [OF 1] run_append [OF 2 [unfolded Let_def]] run_append [OF 3 [unfolded Let_def]] run_append [OF 4] 5)
qed

lemma TeecParameter_merges:
  "TeecParameter_wf d m \<Longrightarrow> merges d (TeecParameter_SerializeWithCachedSizesToArray m)
     (\<lambda>fuel s. TeecParameter_MergePartialFromCodedStream fuel m0 s) (TeecParameter_MergeFrom m m0)"
  using parameter_loop.run_merges [OF TeecParameter_run]
  by (cases d) (simp_all add: TeecParameter_MergePartialFromCodedStream_def)

subsection \<open>TeecOperation\<close>

lemma TeecOperation_parser_simps [simp]:
  "mp_switch TeecOperation_parser = TeecOperation_switch"
  "mp_field TeecOperation_parser = TeecOperation_field"
  "mp_next TeecOperation_parser = TeecOperation_next"
  "mp_unknown TeecOperation_parser = to_unknown_fields"
  "mp_set_unknown TeecOperation_parser = (\<lambda>u m. m\<lparr>to_unknown_fields := u\<rparr>)"
  by (simp_all add: TeecOperation_parser_def)

interpretation operation_loop: message_loop TeecOperation_parser
proof unfold_locales
  fix t l assume "mp_switch TeecOperation_parser t = Some l"
  then show "t \<noteq> 0 \<and> t \<le> 127" by (auto split: if_splits)
next
  fix s l assume "ci_inv s"
  then show "next_ok TeecOperation_parser s (mp_next TeecOperation_parser l s)"
    by (cases l) (auto intro!: expect_goto_ok expect_goto_success_ok)
next
  fix s fuel l m assume "ready s" "2 * length (avail s) + 1 \<le> fuel"
  then show "safe_result s (mp_field TeecOperation_parser fuel l m s)"
    by (cases l) (auto simp: Let_def TeecOperation_add_mparams_def
        intro!: read_int32_field_safe safe_result_map ReadMessageNoVirtual_safe TeecParameter_merge_safe)
qed auto

lemma TeecOperation_merge_safe:
  "ready s \<Longrightarrow> 2 * length (avail s) + 1 \<le> fuel
    \<Longrightarrow> safe_result s (TeecOperation_MergePartialFromCodedStream fuel m s)"
  unfolding TeecOperation_MergePartialFromCodedStream_def by (rule operation_loop.merge_safe)

lemma length_mparams:
  "int (length (concat (map (\<lambda>x. WriteMessageNoVirtualToArray 2 (TeecParameter_ByteSize x)
      (TeecParameter_SerializeWithCachedSizesToArray x)) ps)))
   = int (length ps) + sum_list (map (\<lambda>x. MessageSizeNoVirtual (TeecParameter_ByteSize x)) ps)"
  by (induction ps) (simp_all add: size_simps VarintSize32_tags TeecParameter_ByteSize_length)

lemma TeecOperation_ByteSize_length:
  "int (length (TeecOperation_SerializeWithCachedSizesToArray m)) = TeecOperation_ByteSize m"
  by (simp add: TeecOperation_SerializeWithCachedSizesToArray_def TeecOperation_ByteSize_def
      TeecOperation_mparams_size_def length_mparams size_simps VarintSize32_tags)

fun TeecOperation_wf :: "nat \<Rightarrow> TeecOperation \<Rightarrow> bool" where
  "TeecOperation_wf 0 m = False"
| "TeecOperation_wf (Suc d) m \<longleftrightarrow> list_all (TeecParameter_wf d) (to_mparams m)
     \<and> unknown_wf TeecOperation_switch (Suc d) (to_unknown_fields m)"

lemma mparams_run:
  assumes "list_all (TeecParameter_wf d) ps"
  shows "run TeecOperation_parser (Suc d) m0
     (concat (map (\<lambda>x. WriteMessageNoVirtualToArray 2 (TeecParameter_ByteSize x)
        (TeecParameter_SerializeWithCachedSizesToArray x)) ps))
     (m0\<lparr>to_mparams := to_mparams m0 @ map (\<lambda>x. TeecParameter_MergeFrom x TeecParameter_new) ps\<rparr>)"
  using assms
proof (induction ps arbitrary: m0)
  case Nil
  then show ?case by (simp add: run_end)
next
  case (Cons p ps)
  let ?p = "TeecParameter_MergeFrom p TeecParameter_new"
  have "run TeecOperation_parser (Suc d) m0
      (if True then WriteTagToArray 18 @ WriteVarint32ToArray (word_of_int (TeecParameter_ByteSize p))
         @ TeecParameter_SerializeWithCachedSizesToArray p else [])
      (m0\<lparr>to_mparams := to_mparams m0 @ [?p]\<rparr>)"
    by (rule operation_loop.run_message [where l = parse_mParams
          and merge = TeecParameter_MergePartialFromCodedStream and x = TeecParameter_new and x' = ?p
          and g = "\<lambda>x. TeecOperation_put_mparams (length (to_mparams m0)) x (snd (TeecOperation_add_mparams m0))"])
       (use Cons.prems in \<open>simp, simp add: TeecOperation_add_mparams_def,
          simp add: TeecOperation_add_mparams_def TeecOperation_put_mparams_def, simp add: TeecParameter_merges,
          simp add: TeecParameter_ByteSize_length\<close>)
  then have "run TeecOperation_parser (Suc d) m0 (WriteMessageNoVirtualToArray 2 (TeecParameter_ByteSize p)
        (TeecParameter_SerializeWithCachedSizesToArray p)) (m0\<lparr>to_mparams := to_mparams m0 @ [?p]\<rparr>)"
    by (simp add: field_writers)
  from run_append [OF this Cons.IH] Cons.prems show ?case by simp
qed

lemma TeecOperation_run:
  assumes "TeecOperation_wf (Suc d) m"
  shows "run TeecOperation_parser (Suc d) m0 (TeecOperation_SerializeWithCachedSizesToArray m)
     (TeecOperation_MergeFrom m m0)"
proof -
  have 1: "run TeecOperation_parser (Suc d) m0
      (if to_has_mstarted m then WriteInt32ToArray 1 (to_mstarted m) else [])
      (if to_has_mstarted m then TeecOperation_set_mstarted (to_mstarted m) m0 else m0)" for m0
    unfolding field_writers
    by (rule operation_loop.run_int32 [where l = parse_mStarted]) (simp, simp, simp add: TeecOperation_set_mstarted_def)
  have 2: "run TeecOperation_parser (Suc d) m0
      (if to_unknown_fields m \<noteq> [] then SerializeUnknownFieldsToArray (to_unknown_fields m) else [])
      (m0\<lparr>to_unknown_fields := to_unknown_fields m0 @ to_unknown_fields m\<rparr>)" for m0
    using assms operation_loop.run_unknowns [of "to_unknown_fields m" "Suc d" m0]
    by (simp add: unknown_wf_def)
  have ps: "list_all (TeecParameter_wf d) (to_mparams m)" using assms by simp
  let ?m1 = "if to_has_mstarted m then TeecOperation_set_mstarted (to_mstarted m) m0 else m0"
  let ?m2 = "?m1\<lparr>to_mparams := to_mparams ?m1 @ map (\<lambda>x. TeecParameter_MergeFrom x TeecParameter_new) (to_mparams m)\<rparr>"
  have "TeecOperation_MergeFrom m m0 = ?m2\<lparr>to_unknown_fields := to_unknown_fields ?m2 @ to_unknown_fields m\<rparr>"
    by (cases m0) (simp add: TeecOperation_MergeFrom_def TeecOperation_set_mstarted_def)
  then show ?thesis
    using run_append [OF 1 [of m0] run_append [OF mparams_run [OF ps] 2]]
    by (simp only: TeecOperation_SerializeWithCachedSizesToArray_def)
qed

lemma TeecOperation_merges:
  "TeecOperation_wf d m \<Longrightarrow> merges d (TeecOperation_SerializeWithCachedSizesToArray m)
     (\<lambda>fuel s. TeecOperation_MergePartialFromCodedStream fuel m0 s) (TeecOperation_MergeFrom m m0)"
  using operation_loop.run_merges [OF TeecOperation_run]
  by (cases d) (simp_all add: TeecOperation_MergePartialFromCodedStream_def)

end
