(* ===== verification/MessageLaws.thy ===== *)
theory MessageLaws
  imports MessageReads
begin

text \<open>
  \<open>MessageLite\<close> over any message class that keeps the contract of the generated code:
  serialization writes what \<open>ByteSize\<close> announces, parsing is total, and parsing what was
  serialized gives \<open>MergeFrom\<close>. The five classes are instances.
\<close>

locale wire_message =
  fixes mc :: "'m message_class" and wf :: "'m \<Rightarrow> bool" and merge_from :: "'m \<Rightarrow> 'm \<Rightarrow> 'm"
  assumes size_exact: "int (length (mc_SerializeWithCachedSizesToArray mc m)) = mc_ByteSize mc m"
    and merge_safe: "ready s \<Longrightarrow> 2 * length (avail s) + 1 \<le> fuel
          \<Longrightarrow> safe_result s (mc_MergePartialFromCodedStream mc fuel m s)"
    and merge_serialized: "wf m \<Longrightarrow> merges 100 (mc_SerializeWithCachedSizesToArray mc m)
          (\<lambda>fuel s. mc_MergePartialFromCodedStream mc fuel m0 s) (merge_from m m0)"
begin

lemma append_string:
  "AppendPartialToString mc output m = Some (True, output @ mc_SerializeWithCachedSizesToArray mc m)"
  by (simp add: AppendPartialToString_def size_exact)

lemma serialize_string:
  "SerializeToString mc output m = Some (True, mc_SerializeWithCachedSizesToArray mc m)"
  by (simp add: SerializeToString_def AppendToString_def append_string)

lemma serialize_array:
  "SerializePartialToArray mc capacity m =
     Some (if capacity < mc_ByteSize mc m then (False, []) else (True, mc_SerializeWithCachedSizesToArray mc m))"
  by (simp add: SerializePartialToArray_def size_exact)

lemma flat_ready:
  assumes "int (length data) \<le> kDefaultTotalBytesLimit"
  shows "ready (CodedInputStream_flat data)" "avail (CodedInputStream_flat data) = data"
    "ci_recursion_depth (CodedInputStream_flat data) = 0" "ci_recursion_limit (CodedInputStream_flat data) = 100"
  using CodedInputStream_flat_inv [OF assms] assms
  by (simp_all add: ready_def CodedInputStream_flat_def Let_def default_recursion_limit_def)

lemma parse_total:
  assumes "int (length data) \<le> kDefaultTotalBytesLimit"
  shows "\<exists>ok m'. ParseFromString mc data m = Some (ok, m')"
    "\<exists>ok m'. ParsePartialFromString mc data m = Some (ok, m')"
proof -
  have s: "safe_result (CodedInputStream_flat data)
      (mc_MergePartialFromCodedStream mc (parse_fuel (length data)) (mc_Clear mc m) (CodedInputStream_flat data))"
    using flat_ready [OF assms] by (intro merge_safe) (simp_all add: parse_fuel_def)
  from s show "\<exists>ok m'. ParseFromString mc data m = Some (ok, m')"
    by (cases rule: safe_result_cases)
       (auto simp: ParseFromString_def ParseFromArray_def ParseFromCodedStream_def MergeFromCodedStream_def)
  from s show "\<exists>ok m'. ParsePartialFromString mc data m = Some (ok, m')"
    by (cases rule: safe_result_cases)
       (auto simp: ParsePartialFromString_def ParsePartialFromArray_def ParsePartialFromCodedStream_def)
qed

lemma parse_serialized:
  fixes m0
  assumes "wf m" "mc_ByteSize mc m \<le> kDefaultTotalBytesLimit"
  defines "r \<equiv> merge_from m (mc_Clear mc m0)"
  shows "ParseFromString mc (mc_SerializeWithCachedSizesToArray mc m) m0 = Some (mc_IsInitialized mc r, r)"
    "ParsePartialFromString mc (mc_SerializeWithCachedSizesToArray mc m) m0 = Some (True, r)"
proof -
  let ?data = "mc_SerializeWithCachedSizesToArray mc m"
  have l: "int (length ?data) \<le> kDefaultTotalBytesLimit" using assms(2) by (simp add: size_exact)
  obtain s' where s': "mc_MergePartialFromCodedStream mc (parse_fuel (length ?data)) (mc_Clear mc m0)
      (CodedInputStream_flat ?data) = Some ((True, r), s')" "ci_legitimate_message_end s'"
    unfolding r_def
    by (rule merges_use [OF merge_serialized [OF assms(1), of "mc_Clear mc m0"] flat_ready(1) [OF l] _
          flat_ready(2) [OF l], of "parse_fuel (length ?data)"])
       (simp_all add: flat_ready [OF l] parse_fuel_def)
  then show "ParseFromString mc ?data m0 = Some (mc_IsInitialized mc r, r)"
    by (simp add: ParseFromString_def ParseFromArray_def ParseFromCodedStream_def MergeFromCodedStream_def
        ConsumedEntireMessage_def)
  from s' show "ParsePartialFromString mc ?data m0 = Some (True, r)"
    by (simp add: ParsePartialFromString_def ParsePartialFromArray_def ParsePartialFromCodedStream_def
        ConsumedEntireMessage_def)
qed

end

lemmas message_classes = TeecValue_class_def TeecSharedMemory_class_def TeecSharedMemoryReference_class_def
  TeecParameter_class_def TeecOperation_class_def

interpretation value_msg: wire_message TeecValue_class "TeecValue_wf 100" TeecValue_MergeFrom
  by unfold_locales (auto simp: message_classes intro: TeecValue_ByteSize_length TeecValue_merge_safe TeecValue_merges)

interpretation memory_msg: wire_message TeecSharedMemory_class "TeecSharedMemory_wf 100" TeecSharedMemory_MergeFrom
  by unfold_locales (auto simp: message_classes
      intro: TeecSharedMemory_ByteSize_length TeecSharedMemory_merge_safe TeecSharedMemory_merges)

interpretation reference_msg: wire_message TeecSharedMemoryReference_class "TeecSharedMemoryReference_wf 100"
    TeecSharedMemoryReference_MergeFrom
  by unfold_locales (auto simp: message_classes intro: TeecSharedMemoryReference_ByteSize_length
      TeecSharedMemoryReference_merge_safe TeecSharedMemoryReference_merges)

interpretation parameter_msg: wire_message TeecParameter_class "TeecParameter_wf 100" TeecParameter_MergeFrom
  by unfold_locales (auto simp: message_classes
      intro: TeecParameter_ByteSize_length TeecParameter_merge_safe TeecParameter_merges)

interpretation operation_msg: wire_message TeecOperation_class "TeecOperation_wf 100" TeecOperation_MergeFrom
  by unfold_locales (auto simp: message_classes
      intro: TeecOperation_ByteSize_length TeecOperation_merge_safe TeecOperation_merges)

end
