(* ===== verification/MessageProps.thy ===== *)
theory MessageProps
  imports MessageLaws
begin

text \<open>
  Properties of the generated messages: copies, round trips, totality of the parsers and
  exactness of the sizes.
\<close>

subsection \<open>Copies\<close>

named_theorems copy_simps

lemma Clear_new [simp]:
  "TeecValue_Clear TeecValue_new = TeecValue_new"
  "TeecSharedMemory_Clear TeecSharedMemory_new = TeecSharedMemory_new"
  "TeecSharedMemoryReference_Clear TeecSharedMemoryReference_new = TeecSharedMemoryReference_new"
  "TeecParameter_Clear TeecParameter_new = TeecParameter_new"
  "TeecOperation_Clear TeecOperation_new = TeecOperation_new"
  by (simp_all add: TeecValue_Clear_def TeecValue_new_def TeecSharedMemory_Clear_def TeecSharedMemory_new_def
      TeecSharedMemoryReference_Clear_def TeecSharedMemoryReference_new_def
      TeecParameter_Clear_def TeecParameter_new_def TeecOperation_Clear_def TeecOperation_new_def)

lemmas TeecValue_copy_defs = TeecValue_MergeFrom_def TeecValue_new_def TeecValue_set_a_def
  TeecValue_set_b_def TeecValue_set_mflag_def

lemmas TeecSharedMemory_copy_defs = TeecSharedMemory_MergeFrom_def TeecSharedMemory_new_def
  TeecSharedMemory_set_mbuffer_def TeecSharedMemory_set_mflag_def TeecSharedMemory_set_size_def
  TeecSharedMemory_set_mreturnsize_def TeecSharedMemory_set_mid_def

lemmas TeecSharedMemoryReference_copy_defs = TeecSharedMemoryReference_MergeFrom_def
  TeecSharedMemoryReference_new_def TeecSharedMemoryReference_mutable_parent_def
  TeecSharedMemoryReference_put_parent_def TeecSharedMemoryReference_get_parent_def
  TeecSharedMemoryReference_set_moffset_def TeecSharedMemoryReference_set_mflag_def

lemmas TeecParameter_copy_defs = TeecParameter_MergeFrom_def TeecParameter_new_def TeecParameter_set_type_def
  TeecParameter_mutable_teecsharedmemoryreference_def TeecParameter_put_teecsharedmemoryreference_def
  TeecParameter_get_teecsharedmemoryreference_def TeecParameter_mutable_teecvalue_def
  TeecParameter_put_teecvalue_def TeecParameter_get_teecvalue_def TeecParameter_set_placeholder_def

lemma TeecValue_copy [copy_simps]:
  "tv_has_a (TeecValue_MergeFrom m TeecValue_new) = tv_has_a m"
  "tv_has_b (TeecValue_MergeFrom m TeecValue_new) = tv_has_b m"
  "tv_has_mflag (TeecValue_MergeFrom m TeecValue_new) = tv_has_mflag m"
  "tv_unknown_fields (TeecValue_MergeFrom m TeecValue_new) = tv_unknown_fields m"
  "tv_has_a m \<Longrightarrow> tv_a (TeecValue_MergeFrom m TeecValue_new) = tv_a m"
  "tv_has_b m \<Longrightarrow> tv_b (TeecValue_MergeFrom m TeecValue_new) = tv_b m"
  "tv_has_mflag m \<Longrightarrow> tv_mflag (TeecValue_MergeFrom m TeecValue_new) = tv_mflag m"
  by (simp_all add: TeecValue_copy_defs Let_def)

lemma TeecSharedMemory_copy [copy_simps]:
  "ts_has_mbuffer (TeecSharedMemory_MergeFrom m TeecSharedMemory_new) = ts_has_mbuffer m"
  "ts_has_mflag (TeecSharedMemory_MergeFrom m TeecSharedMemory_new) = ts_has_mflag m"
  "ts_has_size (TeecSharedMemory_MergeFrom m TeecSharedMemory_new) = ts_has_size m"
  "ts_has_mreturnsize (TeecSharedMemory_MergeFrom m TeecSharedMemory_new) = ts_has_mreturnsize m"
  "ts_has_mid (TeecSharedMemory_MergeFrom m TeecSharedMemory_new) = ts_has_mid m"
  "ts_unknown_fields (TeecSharedMemory_MergeFrom m TeecSharedMemory_new) = ts_unknown_fields m"
  "ts_has_mbuffer m \<Longrightarrow> ts_mbuffer (TeecSharedMemory_MergeFrom m TeecSharedMemory_new) = ts_mbuffer m"
  "ts_has_mflag m \<Longrightarrow> ts_mflag (TeecSharedMemory_MergeFrom m TeecSharedMemory_new) = ts_mflag m"
  "ts_has_size m \<Longrightarrow> ts_size (TeecSharedMemory_MergeFrom m TeecSharedMemory_new) = ts_size m"
  "ts_has_mreturnsize m \<Longrightarrow> ts_mreturnsize (TeecSharedMemory_MergeFrom m TeecSharedMemory_new) = ts_mreturnsize m"
  "ts_has_mid m \<Longrightarrow> ts_mid (TeecSharedMemory_MergeFrom m TeecSharedMemory_new) = ts_mid m"
  by (simp_all add: TeecSharedMemory_copy_defs Let_def)

lemma TeecValue_encoding [copy_simps]:
  "TeecValue_IsInitialized (TeecValue_MergeFrom m TeecValue_new) = TeecValue_IsInitialized m"
  "TeecValue_ByteSize (TeecValue_MergeFrom m TeecValue_new) = TeecValue_ByteSize m"
  "TeecValue_SerializeWithCachedSizesToArray (TeecValue_MergeFrom m TeecValue_new)
     = TeecValue_SerializeWithCachedSizesToArray m"
  by (simp_all add: TeecValue_IsInitialized_def TeecValue_ByteSize_def
      TeecValue_SerializeWithCachedSizesToArray_def copy_simps)

lemma TeecSharedMemory_encoding [copy_simps]:
  "TeecSharedMemory_IsInitialized (TeecSharedMemory_MergeFrom m TeecSharedMemory_new) = TeecSharedMemory_IsInitialized m"
  "TeecSharedMemory_ByteSize (TeecSharedMemory_MergeFrom m TeecSharedMemory_new) = TeecSharedMemory_ByteSize m"
  "TeecSharedMemory_SerializeWithCachedSizesToArray (TeecSharedMemory_MergeFrom m TeecSharedMemory_new)
     = TeecSharedMemory_SerializeWithCachedSizesToArray m"
  by (simp_all add: TeecSharedMemory_IsInitialized_def TeecSharedMemory_ByteSize_def
      TeecSharedMemory_SerializeWithCachedSizesToArray_def copy_simps)

lemma TeecSharedMemoryReference_copy [copy_simps]:
  "tr_has_parent (TeecSharedMemoryReference_MergeFrom m TeecSharedMemoryReference_new) = tr_has_parent m"
  "tr_has_moffset (TeecSharedMemoryReference_MergeFrom m TeecSharedMemoryReference_new) = tr_has_moffset m"
  "tr_has_mflag (TeecSharedMemoryReference_MergeFrom m TeecSharedMemoryReference_new) = tr_has_mflag m"
  "tr_unknown_fields (TeecSharedMemoryReference_MergeFrom m TeecSharedMemoryReference_new) = tr_unknown_fields m"
  "tr_has_parent m \<Longrightarrow> TeecSharedMemoryReference_get_parent
       (TeecSharedMemoryReference_MergeFrom m TeecSharedMemoryReference_new)
     = TeecSharedMemory_MergeFrom (TeecSharedMemoryReference_get_parent m) TeecSharedMemory_new"
  "tr_has_moffset m \<Longrightarrow> tr_moffset (TeecSharedMemoryReference_MergeFrom m TeecSharedMemoryReference_new) = tr_moffset m"
  "tr_has_mflag m \<Longrightarrow> tr_mflag (TeecSharedMemoryReference_MergeFrom m TeecSharedMemoryReference_new) = tr_mflag m"
  by (simp_all add: TeecSharedMemoryReference_copy_defs Let_def)

lemma TeecSharedMemoryReference_encoding [copy_simps]:
  "TeecSharedMemoryReference_IsInitialized (TeecSharedMemoryReference_MergeFrom m TeecSharedMemoryReference_new)
     = TeecSharedMemoryReference_IsInitialized m"
  "TeecSharedMemoryReference_ByteSize (TeecSharedMemoryReference_MergeFrom m TeecSharedMemoryReference_new)
     = TeecSharedMemoryReference_ByteSize m"
  "TeecSharedMemoryReference_SerializeWithCachedSizesToArray
       (TeecSharedMemoryReference_MergeFrom m TeecSharedMemoryReference_new)
     = TeecSharedMemoryReference_SerializeWithCachedSizesToArray m"
  by (auto simp add: TeecSharedMemoryReference_IsInitialized_def TeecSharedMemoryReference_ByteSize_def
      TeecSharedMemoryReference_SerializeWithCachedSizesToArray_def copy_simps Let_def)

lemma TeecParameter_copy [copy_simps]:
  "tp_has_type (TeecParameter_MergeFrom m TeecParameter_new) = tp_has_type m"
  "tp_has_teecsharedmemoryreference (TeecParameter_MergeFrom m TeecParameter_new)
     = tp_has_teecsharedmemoryreference m"
  "tp_has_teecvalue (TeecParameter_MergeFrom m TeecParameter_new) = tp_has_teecvalue m"
  "tp_has_placeholder (TeecParameter_MergeFrom m TeecParameter_new) = tp_has_placeholder m"
  "tp_unknown_fields (TeecParameter_MergeFrom m TeecParameter_new) = tp_unknown_fields m"
  "tp_has_type m \<Longrightarrow> tp_type (TeecParameter_MergeFrom m TeecParameter_new) = tp_type m"
  "tp_has_teecsharedmemoryreference m \<Longrightarrow> TeecParameter_get_teecsharedmemoryreference
       (TeecParameter_MergeFrom m TeecParameter_new)
     = TeecSharedMemoryReference_MergeFrom (TeecParameter_get_teecsharedmemoryreference m) TeecSharedMemoryReference_new"
  "tp_has_teecvalue m \<Longrightarrow> TeecParameter_get_teecvalue (TeecParameter_MergeFrom m TeecParameter_new)
     = TeecValue_MergeFrom (TeecParameter_get_teecvalue m) TeecValue_new"
  "tp_has_placeholder m \<Longrightarrow> tp_placeholder (TeecParameter_MergeFrom m TeecParameter_new) = tp_placeholder m"
  by (simp_all add: TeecParameter_copy_defs Let_def)

lemma TeecParameter_encoding [copy_simps]:
  "TeecParameter_IsInitialized (TeecParameter_MergeFrom m TeecParameter_new) = TeecParameter_IsInitialized m"
  "TeecParameter_ByteSize (TeecParameter_MergeFrom m TeecParameter_new) = TeecParameter_ByteSize m"
  "TeecParameter_SerializeWithCachedSizesToArray (TeecParameter_MergeFrom m TeecParameter_new)
     = TeecParameter_SerializeWithCachedSizesToArray m"
  by (auto simp add: TeecParameter_IsInitialized_def TeecParameter_ByteSize_def
      TeecParameter_SerializeWithCachedSizesToArray_def copy_simps Let_def)

lemma TeecOperation_copy [copy_simps]:
  "to_has_mstarted (TeecOperation_MergeFrom m TeecOperation_new) = to_has_mstarted m"
  "to_has_mstarted m \<Longrightarrow> to_mstarted (TeecOperation_MergeFrom m TeecOperation_new) = to_mstarted m"
  "to_mparams (TeecOperation_MergeFrom m TeecOperation_new)
     = map (\<lambda>x. TeecParameter_MergeFrom x TeecParameter_new) (to_mparams m)"
  "to_unknown_fields (TeecOperation_MergeFrom m TeecOperation_new) = to_unknown_fields m"
  by (simp_all add: TeecOperation_MergeFrom_def TeecOperation_new_def TeecOperation_set_mstarted_def Let_def)

lemma TeecOperation_encoding [copy_simps]:
  "TeecOperation_IsInitialized (TeecOperation_MergeFrom m TeecOperation_new) = TeecOperation_IsInitialized m"
  "TeecOperation_ByteSize (TeecOperation_MergeFrom m TeecOperation_new) = TeecOperation_ByteSize m"
  "TeecOperation_SerializeWithCachedSizesToArray (TeecOperation_MergeFrom m TeecOperation_new)
     = TeecOperation_SerializeWithCachedSizesToArray m"
  by (simp_all add: TeecOperation_IsInitialized_def TeecOperation_ByteSize_def
      TeecOperation_SerializeWithCachedSizesToArray_def TeecOperation_mparams_size_def copy_simps
      list_all_iff comp_def)

subsection \<open>Properties\<close>

text \<open>
  C8: parsing any bytes up to the 64 MB total limit, into any message object of
  any of the five classes, terminates within the fuel and has no undefined behaviour: malformed
  input is reported by the result. (\<open>None\<close> would be a read outside the buffer, a call through
  a null stream, or an exhausted fuel.)
\<close>
theorem messages_parse_total:
  assumes "int (length data) \<le> kDefaultTotalBytesLimit"
  shows "(\<exists>ok m. ParseFromString TeecOperation_class data op = Some (ok, m))
       \<and> (\<exists>ok m. ParseFromString TeecParameter_class data p = Some (ok, m))
       \<and> (\<exists>ok m. ParseFromString TeecSharedMemoryReference_class data r = Some (ok, m))
       \<and> (\<exists>ok m. ParseFromString TeecSharedMemory_class data sm = Some (ok, m))
       \<and> (\<exists>ok m. ParseFromString TeecValue_class data v = Some (ok, m))"
  using operation_msg.parse_total(1) [OF assms] parameter_msg.parse_total(1) [OF assms]
    reference_msg.parse_total(1) [OF assms] memory_msg.parse_total(1) [OF assms]
    value_msg.parse_total(1) [OF assms] by blast

lemma messages_parse_total_witness:
  "\<exists>ok m. ParseFromString TeecOperation_class [0x12, 0xFF, 0x80] TeecOperation_new = Some (ok, m)"
  using messages_parse_total [of "[0x12, 0xFF, 0x80]" TeecOperation_new]
  by (simp add: kDefaultTotalBytesLimit_def)



definition sample_operation :: TeecOperation where
  "sample_operation = TeecOperation_new\<lparr>to_has_mstarted := True, to_mstarted := 1,
     to_mparams := [TeecParameter_new\<lparr>tp_has_type := True, tp_type := 2, tp_has_teecvalue := True,
       tp_teecvalue := Some (TeecValue_new\<lparr>tv_has_a := True, tv_a := 5, tv_has_b := True, tv_b := - 1,
         tv_has_mflag := True, tv_mflag := 3\<rparr>)\<rparr>],
     to_unknown_fields := [Unknown_Varint 7 300, Unknown_Group 9 [Unknown_Fixed32 1 5]]\<rparr>"

lemma sample_operation_wf: "TeecOperation_wf 100 sample_operation"
  by code_simp

lemma sample_operation_size: "TeecOperation_ByteSize sample_operation \<le> kDefaultTotalBytesLimit"
  by code_simp


text \<open>
  C22: the same for the messages inside an operation: a shared memory block with
  its bytes, a reference to one, a value and a parameter.
\<close>
theorem parts_roundtrip:
  assumes "TeecSharedMemory_wf 100 sm" "TeecSharedMemory_ByteSize sm \<le> kDefaultTotalBytesLimit"
    and "TeecSharedMemoryReference_wf 100 r" "TeecSharedMemoryReference_ByteSize r \<le> kDefaultTotalBytesLimit"
    and "TeecValue_wf 100 v" "TeecValue_ByteSize v \<le> kDefaultTotalBytesLimit"
    and "TeecParameter_wf 100 p" "TeecParameter_ByteSize p \<le> kDefaultTotalBytesLimit"
  shows "ParseFromString TeecSharedMemory_class (TeecSharedMemory_SerializeWithCachedSizesToArray sm) TeecSharedMemory_new
       = Some (TeecSharedMemory_IsInitialized sm, TeecSharedMemory_CopyFrom sm TeecSharedMemory_new)
     \<and> ParseFromString TeecSharedMemoryReference_class (TeecSharedMemoryReference_SerializeWithCachedSizesToArray r)
         TeecSharedMemoryReference_new
       = Some (TeecSharedMemoryReference_IsInitialized r,
               TeecSharedMemoryReference_CopyFrom r TeecSharedMemoryReference_new)
     \<and> ParseFromString TeecValue_class (TeecValue_SerializeWithCachedSizesToArray v) TeecValue_new
       = Some (TeecValue_IsInitialized v, TeecValue_CopyFrom v TeecValue_new)
     \<and> ParseFromString TeecParameter_class (TeecParameter_SerializeWithCachedSizesToArray p) TeecParameter_new
       = Some (TeecParameter_IsInitialized p, TeecParameter_CopyFrom p TeecParameter_new)"
  using memory_msg.parse_serialized(1) [OF assms(1), of TeecSharedMemory_new] assms(2)
    reference_msg.parse_serialized(1) [OF assms(3), of TeecSharedMemoryReference_new] assms(4)
    value_msg.parse_serialized(1) [OF assms(5), of TeecValue_new] assms(6)
    parameter_msg.parse_serialized(1) [OF assms(7), of TeecParameter_new] assms(8)
  by (simp add: message_classes TeecSharedMemory_CopyFrom_def TeecSharedMemoryReference_CopyFrom_def
      TeecValue_CopyFrom_def TeecParameter_CopyFrom_def copy_simps)

definition sample_memory :: TeecSharedMemory where
  "sample_memory = TeecSharedMemory_set_mbuffer [1, 2, 3] (TeecSharedMemory_set_mflag 2
     (TeecSharedMemory_set_size 3 (TeecSharedMemory_set_mid (- 7) TeecSharedMemory_new)))"

definition sample_reference :: TeecSharedMemoryReference where
  "sample_reference = TeecSharedMemoryReference_set_moffset 1 (TeecSharedMemoryReference_set_mflag 14
     (TeecSharedMemoryReference_set_allocated_parent (Some sample_memory) TeecSharedMemoryReference_new))"

definition sample_value :: TeecValue where
  "sample_value = TeecValue_set_a 5 (TeecValue_set_b (- 1) (TeecValue_set_mflag 3 TeecValue_new))"

definition sample_parameter :: TeecParameter where
  "sample_parameter = TeecParameter_set_type 1
     (TeecParameter_set_allocated_teecsharedmemoryreference (Some sample_reference) TeecParameter_new)"

lemma samples_wf:
  "TeecSharedMemory_wf 100 sample_memory" "TeecSharedMemoryReference_wf 100 sample_reference"
  "TeecValue_wf 100 sample_value" "TeecParameter_wf 100 sample_parameter"
  "TeecSharedMemory_ByteSize sample_memory \<le> kDefaultTotalBytesLimit"
  "TeecSharedMemoryReference_ByteSize sample_reference \<le> kDefaultTotalBytesLimit"
  "TeecValue_ByteSize sample_value \<le> kDefaultTotalBytesLimit"
  "TeecParameter_ByteSize sample_parameter \<le> kDefaultTotalBytesLimit"
  by code_simp+

lemma parts_roundtrip_witness:
  "ParseFromString TeecParameter_class (TeecParameter_SerializeWithCachedSizesToArray sample_parameter) TeecParameter_new
     = Some (TeecParameter_IsInitialized sample_parameter, TeecParameter_CopyFrom sample_parameter TeecParameter_new)"
  using parts_roundtrip [OF samples_wf(1,5,2,6,3,7,4,8)] by blast

text \<open>
  \<open>CopyFrom\<close> into a fresh object gives a message with the same encoding,
  the same size and the same answer of \<open>IsInitialized\<close>, for all five classes.
\<close>
theorem copies_encode_alike:
  "TeecOperation_SerializeWithCachedSizesToArray (TeecOperation_CopyFrom op TeecOperation_new)
     = TeecOperation_SerializeWithCachedSizesToArray op
   \<and> TeecOperation_IsInitialized (TeecOperation_CopyFrom op TeecOperation_new) = TeecOperation_IsInitialized op
   \<and> TeecParameter_SerializeWithCachedSizesToArray (TeecParameter_CopyFrom p TeecParameter_new)
     = TeecParameter_SerializeWithCachedSizesToArray p
   \<and> TeecSharedMemoryReference_SerializeWithCachedSizesToArray
       (TeecSharedMemoryReference_CopyFrom r TeecSharedMemoryReference_new)
     = TeecSharedMemoryReference_SerializeWithCachedSizesToArray r
   \<and> TeecSharedMemory_SerializeWithCachedSizesToArray (TeecSharedMemory_CopyFrom sm TeecSharedMemory_new)
     = TeecSharedMemory_SerializeWithCachedSizesToArray sm
   \<and> TeecValue_SerializeWithCachedSizesToArray (TeecValue_CopyFrom v TeecValue_new)
     = TeecValue_SerializeWithCachedSizesToArray v"
  by (simp add: TeecOperation_CopyFrom_def TeecParameter_CopyFrom_def TeecSharedMemoryReference_CopyFrom_def
      TeecSharedMemory_CopyFrom_def TeecValue_CopyFrom_def copy_simps)


end
