(* ===== verification/GPOutput.thy ===== *)
theory GPOutput
  imports WireOutput MessageProps
begin

text \<open>
  Serialization to a \<open>CodedOutputStream\<close>: \<open>SerializeWithCachedSizes\<close> of the five generated
  classes (\<^verbatim>\<open>GPDataTypes.pb.cc\<close>) and the stream entry points of \<^verbatim>\<open>message_lite.cc\<close>.
  The theorems say that, over every stream of the library, the stream path produces the bytes
  of the array path, and when it may report failure.
\<close>

subsection \<open>The generated classes\<close>

definition when_out :: "bool \<Rightarrow> 'z out_step \<Rightarrow> 'z out_step" where
  "when_out b f c = (if b then f c else Some c)"

definition TeecValue_SerializeWithCachedSizes :: "'z zero_copy_output_ops \<Rightarrow> TeecValue \<Rightarrow> 'z out_step" where
  "TeecValue_SerializeWithCachedSizes ops m c =
     do { c \<leftarrow> when_out (tv_has_a m) (WriteInt32 ops 1 (tv_a m)) c;
          c \<leftarrow> when_out (tv_has_b m) (WriteInt32 ops 2 (tv_b m)) c;
          c \<leftarrow> when_out (tv_has_mflag m) (WriteEnum ops 3 (tv_mflag m)) c;
          when_out (tv_unknown_fields m \<noteq> []) (SerializeUnknownFields ops (tv_unknown_fields m)) c }"

definition TeecSharedMemory_SerializeWithCachedSizes ::
    "'z zero_copy_output_ops \<Rightarrow> TeecSharedMemory \<Rightarrow> 'z out_step" where
  "TeecSharedMemory_SerializeWithCachedSizes ops m c =
     do { c \<leftarrow> when_out (ts_has_mbuffer m) (WriteBytesMaybeAliased ops 1 (ts_mbuffer m)) c;
          c \<leftarrow> when_out (ts_has_mflag m) (WriteInt32 ops 2 (ts_mflag m)) c;
          c \<leftarrow> when_out (ts_has_size m) (WriteInt32 ops 3 (ts_size m)) c;
          c \<leftarrow> when_out (ts_has_mreturnsize m) (WriteInt32 ops 4 (ts_mreturnsize m)) c;
          c \<leftarrow> when_out (ts_has_mid m) (WriteInt32 ops 5 (ts_mid m)) c;
          when_out (ts_unknown_fields m \<noteq> []) (SerializeUnknownFields ops (ts_unknown_fields m)) c }"

definition TeecSharedMemoryReference_SerializeWithCachedSizes ::
    "'z zero_copy_output_ops \<Rightarrow> TeecSharedMemoryReference \<Rightarrow> 'z out_step" where
  "TeecSharedMemoryReference_SerializeWithCachedSizes ops m c =
     do { c \<leftarrow> when_out (tr_has_parent m)
                (let x = TeecSharedMemoryReference_get_parent m
                 in WriteMessageMaybeToArray ops 1 (TeecSharedMemory_ByteSize x)
                      (TeecSharedMemory_SerializeWithCachedSizesToArray x)
                      (TeecSharedMemory_SerializeWithCachedSizes ops x)) c;
          c \<leftarrow> when_out (tr_has_moffset m) (WriteInt32 ops 2 (tr_moffset m)) c;
          c \<leftarrow> when_out (tr_has_mflag m) (WriteEnum ops 3 (tr_mflag m)) c;
          when_out (tr_unknown_fields m \<noteq> []) (SerializeUnknownFields ops (tr_unknown_fields m)) c }"

definition TeecParameter_SerializeWithCachedSizes ::
    "'z zero_copy_output_ops \<Rightarrow> TeecParameter \<Rightarrow> 'z out_step" where
  "TeecParameter_SerializeWithCachedSizes ops m c =
     do { c \<leftarrow> when_out (tp_has_type m) (WriteEnum ops 1 (tp_type m)) c;
          c \<leftarrow> when_out (tp_has_teecsharedmemoryreference m)
                (let x = TeecParameter_get_teecsharedmemoryreference m
                 in WriteMessageMaybeToArray ops 2 (TeecSharedMemoryReference_ByteSize x)
                      (TeecSharedMemoryReference_SerializeWithCachedSizesToArray x)
                      (TeecSharedMemoryReference_SerializeWithCachedSizes ops x)) c;
          c \<leftarrow> when_out (tp_has_teecvalue m)
                (let x = TeecParameter_get_teecvalue m
                 in WriteMessageMaybeToArray ops 3 (TeecValue_ByteSize x)
                      (TeecValue_SerializeWithCachedSizesToArray x)
                      (TeecValue_SerializeWithCachedSizes ops x)) c;
          c \<leftarrow> when_out (tp_has_placeholder m) (WriteInt32 ops 4 (tp_placeholder m)) c;
          when_out (tp_unknown_fields m \<noteq> []) (SerializeUnknownFields ops (tp_unknown_fields m)) c }"

fun write_mparams :: "'z zero_copy_output_ops \<Rightarrow> TeecParameter list \<Rightarrow> 'z out_step" where
  \<comment> \<open>the loop over \<open>mparams()\<close>\<close>
  "write_mparams ops [] c = Some c"
| "write_mparams ops (x # xs) c =
     do { c \<leftarrow> WriteMessageMaybeToArray ops 2 (TeecParameter_ByteSize x)
                (TeecParameter_SerializeWithCachedSizesToArray x)
                (TeecParameter_SerializeWithCachedSizes ops x) c;
          write_mparams ops xs c }"

definition TeecOperation_SerializeWithCachedSizes ::
    "'z zero_copy_output_ops \<Rightarrow> TeecOperation \<Rightarrow> 'z out_step" where
  "TeecOperation_SerializeWithCachedSizes ops m c =
     do { c \<leftarrow> when_out (to_has_mstarted m) (WriteInt32 ops 1 (to_mstarted m)) c;
          c \<leftarrow> write_mparams ops (to_mparams m) c;
          when_out (to_unknown_fields m \<noteq> []) (SerializeUnknownFields ops (to_unknown_fields m)) c }"

subsection \<open>MessageLite\<close>

text \<open>
  \<open>serialize\<close> is the virtual \<open>SerializeWithCachedSizes\<close>. \<open>None\<close> includes
  \<open>ByteSizeConsistencyError\<close>, which aborts.
\<close>

definition SerializePartialToCodedStream ::
    "'m message_class \<Rightarrow> ('z zero_copy_output_ops \<Rightarrow> 'm \<Rightarrow> 'z out_step) \<Rightarrow> 'z zero_copy_output_ops
      \<Rightarrow> 'm \<Rightarrow> 'z coded_output \<Rightarrow> (bool \<times> 'z coded_output) option" where
  "SerializePartialToCodedStream mc serialize ops m c =
     (let sz = mc_ByteSize mc m
      in case GetDirectBufferForNBytesAndAdvance sz c of
           (Some buffer, c) \<Rightarrow>
             let bytes = mc_SerializeWithCachedSizesToArray mc m
             in do { c \<leftarrow> store_at ops buffer bytes c;
                     if int (length bytes) \<noteq> sz then None else Some (True, c) }
         | (None, c) \<Rightarrow>
             let original_byte_count = out_ByteCount c
             in do { c \<leftarrow> serialize ops m c;
                     if co_had_error c then Some (False, c)
                     else if out_ByteCount c - original_byte_count \<noteq> sz then None
                     else Some (True, c) })"

definition SerializeToCodedStream ::
    "'m message_class \<Rightarrow> ('z zero_copy_output_ops \<Rightarrow> 'm \<Rightarrow> 'z out_step) \<Rightarrow> 'z zero_copy_output_ops
      \<Rightarrow> 'm \<Rightarrow> 'z coded_output \<Rightarrow> (bool \<times> 'z coded_output) option" where
  "SerializeToCodedStream mc serialize ops m c = SerializePartialToCodedStream mc serialize ops m c"

definition SerializePartialToZeroCopyStream ::
    "'m message_class \<Rightarrow> ('z zero_copy_output_ops \<Rightarrow> 'm \<Rightarrow> 'z out_step) \<Rightarrow> 'z zero_copy_output_ops
      \<Rightarrow> 'm \<Rightarrow> 'z \<Rightarrow> (bool \<times> 'z) option" where
  "SerializePartialToZeroCopyStream mc serialize ops m output =
     do { encoder \<leftarrow> CodedOutputStream_new ops output;
          (ok, encoder) \<leftarrow> SerializePartialToCodedStream mc serialize ops m encoder;
          output \<leftarrow> CodedOutputStream_delete ops encoder;
          Some (ok, output) }"

definition SerializeToZeroCopyStream ::
    "'m message_class \<Rightarrow> ('z zero_copy_output_ops \<Rightarrow> 'm \<Rightarrow> 'z out_step) \<Rightarrow> 'z zero_copy_output_ops
      \<Rightarrow> 'm \<Rightarrow> 'z \<Rightarrow> (bool \<times> 'z) option" where
  "SerializeToZeroCopyStream mc serialize ops m output =
     do { encoder \<leftarrow> CodedOutputStream_new ops output;
          (ok, encoder) \<leftarrow> SerializeToCodedStream mc serialize ops m encoder;
          output \<leftarrow> CodedOutputStream_delete ops encoder;
          Some (ok, output) }"

text \<open>
  The base class \<open>MessageLite::SerializeWithCachedSizesToArray\<close>, which the generated classes
  override: the memory at \<open>target\<close> afterwards, \<open>GOOGLE_CHECK(!coded_out.HadError())\<close> included.
\<close>

definition MessageLite_SerializeWithCachedSizesToArray ::
    "'m message_class \<Rightarrow> (array_output zero_copy_output_ops \<Rightarrow> 'm \<Rightarrow> array_output out_step)
      \<Rightarrow> 'm \<Rightarrow> byte list \<Rightarrow> byte list option" where
  "MessageLite_SerializeWithCachedSizesToArray mc serialize m target =
     (let sz = mc_ByteSize mc m
      in do { coded_out \<leftarrow> CodedOutputStream_new array_output_ops (ArrayOutputStream_new target sz (- 1));
              coded_out \<leftarrow> serialize array_output_ops m coded_out;
              if co_had_error coded_out then None
              else do { out \<leftarrow> CodedOutputStream_delete array_output_ops coded_out;
                        Some (ao_data out) } })"

subsection \<open>The stream path against the array path\<close>

context zero_copy_output
begin

lemma when_does:
  "(b \<Longrightarrow> does bs (\<lambda>c. f c)) \<Longrightarrow> does (if b then bs else []) (\<lambda>c. when_out b f c)"
  by (auto simp: when_out_def writes_def sent_refl)

lemma TeecValue_does:
  assumes "length (TeecValue_SerializeWithCachedSizesToArray m) < 2 ^ 31"
  shows "does (TeecValue_SerializeWithCachedSizesToArray m) (\<lambda>c. TeecValue_SerializeWithCachedSizes ops m c)"
  unfolding TeecValue_SerializeWithCachedSizesToArray_def TeecValue_SerializeWithCachedSizes_def
  by (intro does_bind when_does tagged_does SerializeUnknownFields_does)
    (use assms in \<open>simp add: TeecValue_SerializeWithCachedSizesToArray_def\<close>)

lemma TeecSharedMemory_does:
  assumes "length (TeecSharedMemory_SerializeWithCachedSizesToArray m) < 2 ^ 31"
  shows "does (TeecSharedMemory_SerializeWithCachedSizesToArray m)
    (\<lambda>c. TeecSharedMemory_SerializeWithCachedSizes ops m c)"
  unfolding TeecSharedMemory_SerializeWithCachedSizesToArray_def TeecSharedMemory_SerializeWithCachedSizes_def
  by (intro does_bind when_does tagged_does string_does SerializeUnknownFields_does;
      use assms in \<open>simp add: TeecSharedMemory_SerializeWithCachedSizesToArray_def unknown_writer_bytes\<close>)

lemma TeecSharedMemoryReference_does:
  assumes "length (TeecSharedMemoryReference_SerializeWithCachedSizesToArray m) < 2 ^ 31"
  shows "does (TeecSharedMemoryReference_SerializeWithCachedSizesToArray m)
    (\<lambda>c. TeecSharedMemoryReference_SerializeWithCachedSizes ops m c)"
  unfolding TeecSharedMemoryReference_SerializeWithCachedSizesToArray_def
    TeecSharedMemoryReference_SerializeWithCachedSizes_def Let_def
  by (intro does_bind when_does tagged_does nested_does TeecSharedMemory_does SerializeUnknownFields_does
        TeecSharedMemory_ByteSize_length [symmetric];
      use assms in \<open>simp add: TeecSharedMemoryReference_SerializeWithCachedSizesToArray_def
        WriteMessageNoVirtualToArray_def Let_def\<close>)

lemma TeecParameter_does:
  assumes "length (TeecParameter_SerializeWithCachedSizesToArray m) < 2 ^ 31"
  shows "does (TeecParameter_SerializeWithCachedSizesToArray m)
    (\<lambda>c. TeecParameter_SerializeWithCachedSizes ops m c)"
  unfolding TeecParameter_SerializeWithCachedSizesToArray_def TeecParameter_SerializeWithCachedSizes_def Let_def
  by (intro does_bind when_does tagged_does nested_does TeecSharedMemoryReference_does TeecValue_does
        SerializeUnknownFields_does TeecSharedMemoryReference_ByteSize_length [symmetric]
        TeecValue_ByteSize_length [symmetric];
      use assms in \<open>simp add: TeecParameter_SerializeWithCachedSizesToArray_def
        WriteMessageNoVirtualToArray_def Let_def\<close>)

lemma write_mparams_does:
  "length (concat (map (\<lambda>x. WriteMessageNoVirtualToArray 2 (TeecParameter_ByteSize x)
        (TeecParameter_SerializeWithCachedSizesToArray x)) xs)) < 2 ^ 31
    \<Longrightarrow> does (concat (map (\<lambda>x. WriteMessageNoVirtualToArray 2 (TeecParameter_ByteSize x)
        (TeecParameter_SerializeWithCachedSizesToArray x)) xs)) (\<lambda>c. write_mparams ops xs c)"
proof (induction xs)
  case Nil
  show ?case unfolding write_mparams.simps list.map concat.simps by (rule does_Some)
next
  case (Cons x xs)
  then show ?case
    unfolding write_mparams.simps list.map concat.simps
    by (intro does_bind nested_does TeecParameter_does TeecParameter_ByteSize_length [symmetric])
      (simp_all add: WriteMessageNoVirtualToArray_def)
qed

lemma TeecOperation_does:
  assumes "length (TeecOperation_SerializeWithCachedSizesToArray m) < 2 ^ 31"
  shows "does (TeecOperation_SerializeWithCachedSizesToArray m)
    (\<lambda>c. TeecOperation_SerializeWithCachedSizes ops m c)"
  unfolding TeecOperation_SerializeWithCachedSizesToArray_def TeecOperation_SerializeWithCachedSizes_def
  by (intro does_bind when_does tagged_does write_mparams_does SerializeUnknownFields_does;
      use assms in \<open>simp add: TeecOperation_SerializeWithCachedSizesToArray_def\<close>)

end

text \<open>
  What \<open>MessageLite\<close> relies on in a message class: \<open>ByteSize\<close> is exact and the stream writer
  writes what the array writer returns.
\<close>

locale stream_message = zero_copy_output ops lends content sound room
  for ops :: "'z zero_copy_output_ops" and lends content sound room +
  fixes mc :: "'m message_class"
    and serialize :: "'z zero_copy_output_ops \<Rightarrow> 'm \<Rightarrow> 'z out_step"
  assumes size_exact: "int (length (mc_SerializeWithCachedSizesToArray mc m)) = mc_ByteSize mc m"
    and serialize_does: "length (mc_SerializeWithCachedSizesToArray mc m) < 2 ^ 31
      \<Longrightarrow> does (mc_SerializeWithCachedSizesToArray mc m) (\<lambda>c. serialize ops m c)"
begin

lemma to_coded_stream:
  assumes "valid c" "\<not> co_had_error c" "length (mc_SerializeWithCachedSizesToArray mc m) < 2 ^ 31"
  shows "\<exists>c'. SerializePartialToCodedStream mc serialize ops m c = Some (\<not> co_had_error c', c')
    \<and> sent (mc_SerializeWithCachedSizesToArray mc m) c c'"
proof -
  let ?bs = "mc_SerializeWithCachedSizesToArray mc m"
  obtain r c1 where g: "GetDirectBufferForNBytesAndAdvance (mc_ByteSize mc m) c = (r, c1)"
    by (cases "GetDirectBufferForNBytesAndAdvance (mc_ByteSize mc m) c")
  show ?thesis
  proof (cases r)
    case None
    with GetDirectBuffer_null [OF assms(1)] g have s: "sent [] c c1"
      by (simp flip: size_exact)
    from does_use [OF serialize_does [OF assms(3)] sent_valid [OF s]] obtain c2 where
        c2: "serialize ops m c1 = Some c2" "sent ?bs c1 c2" by blast
    then have "\<not> co_had_error c2 \<Longrightarrow> out_ByteCount c2 - out_ByteCount c1 = mc_ByteSize mc m"
      by (simp add: sends_def size_exact)
    with sent_trans [OF s c2(2)] c2 g None show ?thesis
      by (auto simp: SerializePartialToCodedStream_def)
  next
    case (Some p)
    with GetDirectBuffer_does [OF assms(1), of ?bs p c1] g obtain c2 where
        c2: "store_at ops p ?bs c1 = Some c2" "sent ?bs c c2" by (auto simp: size_exact)
    moreover have "co_had_error c2 = co_had_error c"
      using g Some c2(1) by (auto simp: GetDirectBufferForNBytesAndAdvance_def store_at_def split: if_splits)
    ultimately show ?thesis
      using g Some assms(2) by (auto simp: SerializePartialToCodedStream_def size_exact)
  qed
qed

lemma to_zero_copy_stream:
  assumes "lends z q 0" "length (mc_SerializeWithCachedSizesToArray mc m) < 2 ^ 31"
  shows "\<exists>ok z' q'. SerializeToZeroCopyStream mc serialize ops m z = Some (ok, z') \<and> lends z' q' 0
    \<and> (ok \<and> sound z' \<longrightarrow> content z' = content z @ mc_SerializeWithCachedSizesToArray mc m)
    \<and> (int (length (mc_SerializeWithCachedSizesToArray mc m)) \<le> room z \<longrightarrow>
         ok \<and> room z \<le> room z' + int (length (mc_SerializeWithCachedSizesToArray mc m)))
    \<and> (ok \<and> 0 < room z \<longrightarrow> sound z' = sound z)"
proof -
  obtain c where c: "CodedOutputStream_new ops z = Some c" "valid c" "\<not> co_had_error c"
      "room z \<le> co_room room c" "sound (co_output c) \<longrightarrow> sound z \<and> co_sent content c = content z"
      "0 < room z \<longrightarrow> sound (co_output c) = sound z"
    using new_valid [OF assms(1)] by blast
  obtain c' where c': "SerializePartialToCodedStream mc serialize ops m c = Some (\<not> co_had_error c', c')"
      "sent (mc_SerializeWithCachedSizesToArray mc m) c c'"
    using to_coded_stream [OF c(2,3) assms(2)] by blast
  obtain z' q' where z': "CodedOutputStream_delete ops c' = Some z'" "lends z' q' 0"
      "sound z' = sound (co_output c')" "content z' = co_sent content c'" "co_room room c' \<le> room z'"
    using delete_valid [OF sent_valid [OF c'(2)]] by blast
  have "SerializeToZeroCopyStream mc serialize ops m z = Some (\<not> co_had_error c', z')"
    using c(1) c'(1) z'(1) by (simp add: SerializeToZeroCopyStream_def SerializeToCodedStream_def)
  moreover have "\<not> co_had_error c' \<and> sound z' \<longrightarrow>
      content z' = content z @ mc_SerializeWithCachedSizesToArray mc m"
    using c'(2) c(5) z'(3,4) by (auto simp: sends_def)
  moreover have "int (length (mc_SerializeWithCachedSizesToArray mc m)) \<le> room z \<longrightarrow>
      \<not> co_had_error c' \<and> room z \<le> room z' + int (length (mc_SerializeWithCachedSizesToArray mc m))"
    using c'(2) c(3,4) z'(5) by (auto simp: sends_def)
  moreover have "\<not> co_had_error c' \<and> 0 < room z \<longrightarrow> sound z' = sound z"
    using c'(2) c(6) z'(3) by (auto simp: sends_def)
  ultimately show ?thesis using z'(2) by blast
qed

end

sublocale zero_copy_output \<subseteq> value_out: stream_message ops lends content sound room
  TeecValue_class TeecValue_SerializeWithCachedSizes
  by unfold_locales (simp_all add: TeecValue_class_def TeecValue_ByteSize_length TeecValue_does)

sublocale zero_copy_output \<subseteq> memory_out: stream_message ops lends content sound room
  TeecSharedMemory_class TeecSharedMemory_SerializeWithCachedSizes
  by unfold_locales (simp_all add: TeecSharedMemory_class_def TeecSharedMemory_ByteSize_length TeecSharedMemory_does)

sublocale zero_copy_output \<subseteq> reference_out: stream_message ops lends content sound room
  TeecSharedMemoryReference_class TeecSharedMemoryReference_SerializeWithCachedSizes
  by unfold_locales (simp_all add: TeecSharedMemoryReference_class_def
      TeecSharedMemoryReference_ByteSize_length TeecSharedMemoryReference_does)

sublocale zero_copy_output \<subseteq> parameter_out: stream_message ops lends content sound room
  TeecParameter_class TeecParameter_SerializeWithCachedSizes
  by unfold_locales (simp_all add: TeecParameter_class_def TeecParameter_ByteSize_length TeecParameter_does)

sublocale zero_copy_output \<subseteq> operation_out: stream_message ops lends content sound room
  TeecOperation_class TeecOperation_SerializeWithCachedSizes
  by unfold_locales (simp_all add: TeecOperation_class_def TeecOperation_ByteSize_length TeecOperation_does)

end
