(* ===== verification/OutputProps.thy ===== *)
theory OutputProps
  imports GPOutput
begin

text \<open>
  Properties of the output side: what reaches an array, a string or an \<open>ostream\<close> when a
  message is serialized through the buffered \<open>CodedOutputStream\<close>.
\<close>

lemma array_new_lends:
  assumes "n \<le> length data"
  shows "array_lends (int n) (drop n data) (ArrayOutputStream_new data (int n) block) 0 0"
    "array_content (ArrayOutputStream_new data (int n) block) = []"
    "array_room (ArrayOutputStream_new data (int n) block) = int n"
  using assms by (simp_all add: array_lends_def ArrayOutputStream_new_def array_content_def array_room_def)

lemma array_done:
  assumes "array_lends (int n) rest z p 0" "array_content z = bs"
  shows "length bs \<le> n" "take (length bs) (ao_data z) = bs" "drop n (ao_data z) = rest"
    "ArrayOutputStream_ByteCount z = int (length bs)"
  using assms by (auto simp: array_lends_def array_content_def ArrayOutputStream_ByteCount_def)


definition sample_array :: "byte list" where
  "sample_array = replicate 60 7"

lemma sample_lengths:
  "length (TeecOperation_SerializeWithCachedSizesToArray sample_operation) \<le> 60"
  "length (TeecParameter_SerializeWithCachedSizesToArray sample_parameter) \<le> 60"
  "length (TeecSharedMemoryReference_SerializeWithCachedSizesToArray sample_reference) \<le> 60"
  "length (TeecSharedMemory_SerializeWithCachedSizesToArray sample_memory) \<le> 60"
  "length (TeecValue_SerializeWithCachedSizesToArray sample_value) \<le> 60"
  by code_simp+


text \<open>The base class serializer through an \<open>ArrayOutputStream\<close>, for any message class.\<close>

lemma base_serializer:
  fixes mc :: "'m message_class" and m :: 'm
  defines "bs \<equiv> mc_SerializeWithCachedSizesToArray mc m"
  assumes "\<And>sz rest. stream_message array_output_ops (array_lends sz rest) array_content (\<lambda>z. True) array_room mc serialize"
    and "length bs \<le> length target" "length bs < 2 ^ 31"
  shows "MessageLite_SerializeWithCachedSizesToArray mc serialize m target = Some (bs @ drop (length bs) target)"
proof -
  note mc = assms(2) [of "int (length bs)" "drop (length bs) target"]
  note new = array_new_lends [OF assms(3), of "- 1"]
  have sz: "mc_ByteSize mc m = int (length bs)"
    using stream_message.size_exact [OF mc, of m] by (simp add: bs_def)
  obtain c where c: "CodedOutputStream_new array_output_ops
        (ArrayOutputStream_new target (int (length bs)) (- 1)) = Some c"
      "co_valid array_output_ops (array_lends (int (length bs)) (drop (length bs) target)) c"
      "\<not> co_had_error c" "int (length bs) \<le> co_room array_room c" "co_sent array_content c = []"
    using array_out.new_valid [OF new(1)] unfolding new(2,3) by blast
  have "writes array_output_ops (array_lends (int (length bs)) (drop (length bs) target)) array_content
      (\<lambda>z. True) array_room bs (\<lambda>c. serialize array_output_ops m c)"
    using stream_message.serialize_does [OF mc, of m] assms(4) by (simp add: bs_def)
  from array_out.does_use [OF this c(2)] obtain c' where c': "serialize array_output_ops m c = Some c'"
      "sends array_output_ops (array_lends (int (length bs)) (drop (length bs) target)) array_content
        (\<lambda>z. True) array_room bs c c'" by blast
  then have sent: "\<not> co_had_error c'" "co_sent array_content c' = bs"
    using c(3-5) by (simp_all add: sends_def)
  obtain z q where z: "CodedOutputStream_delete array_output_ops c' = Some z"
      "array_lends (int (length bs)) (drop (length bs) target) z q 0" "array_content z = bs"
    using array_out.delete_valid [OF array_out.sent_valid [OF c'(2)]] sent(2) by blast
  have "ao_data z = bs @ drop (length bs) target"
    using array_done(2,3) [OF z(2,3)] append_take_drop_id [of "length bs" "ao_data z"] by simp
  then show ?thesis
    using c(1) c'(1) z(1) sent(1) by (simp add: MessageLite_SerializeWithCachedSizesToArray_def sz)
qed

text \<open>
  For each of the five classes the generated \<open>SerializeWithCachedSizesToArray\<close> stores the
  same bytes as the base class \<open>MessageLite::SerializeWithCachedSizesToArray\<close> that it overrides
  (a \<open>CodedOutputStream\<close> on an \<open>ArrayOutputStream\<close>), which neither fails its check nor
  touches the memory behind them.
\<close>
theorem generated_serializer_overrides_base:
  assumes "length (TeecOperation_SerializeWithCachedSizesToArray op) \<le> length t"
      "length (TeecOperation_SerializeWithCachedSizesToArray op) < 2 ^ 31"
    and "length (TeecParameter_SerializeWithCachedSizesToArray p) \<le> length t"
      "length (TeecParameter_SerializeWithCachedSizesToArray p) < 2 ^ 31"
    and "length (TeecSharedMemoryReference_SerializeWithCachedSizesToArray r) \<le> length t"
      "length (TeecSharedMemoryReference_SerializeWithCachedSizesToArray r) < 2 ^ 31"
    and "length (TeecSharedMemory_SerializeWithCachedSizesToArray sm) \<le> length t"
      "length (TeecSharedMemory_SerializeWithCachedSizesToArray sm) < 2 ^ 31"
    and "length (TeecValue_SerializeWithCachedSizesToArray v) \<le> length t"
      "length (TeecValue_SerializeWithCachedSizesToArray v) < 2 ^ 31"
  shows "MessageLite_SerializeWithCachedSizesToArray TeecOperation_class TeecOperation_SerializeWithCachedSizes op t
       = Some (overwrite 0 (TeecOperation_SerializeWithCachedSizesToArray op) t)
     \<and> MessageLite_SerializeWithCachedSizesToArray TeecParameter_class TeecParameter_SerializeWithCachedSizes p t
       = Some (overwrite 0 (TeecParameter_SerializeWithCachedSizesToArray p) t)
     \<and> MessageLite_SerializeWithCachedSizesToArray TeecSharedMemoryReference_class
         TeecSharedMemoryReference_SerializeWithCachedSizes r t
       = Some (overwrite 0 (TeecSharedMemoryReference_SerializeWithCachedSizesToArray r) t)
     \<and> MessageLite_SerializeWithCachedSizesToArray TeecSharedMemory_class TeecSharedMemory_SerializeWithCachedSizes sm t
       = Some (overwrite 0 (TeecSharedMemory_SerializeWithCachedSizesToArray sm) t)
     \<and> MessageLite_SerializeWithCachedSizesToArray TeecValue_class TeecValue_SerializeWithCachedSizes v t
       = Some (overwrite 0 (TeecValue_SerializeWithCachedSizesToArray v) t)"
  using base_serializer [OF array_out.operation_out.stream_message_axioms, of op t]
    base_serializer [OF array_out.parameter_out.stream_message_axioms, of p t]
    base_serializer [OF array_out.reference_out.stream_message_axioms, of r t]
    base_serializer [OF array_out.memory_out.stream_message_axioms, of sm t]
    base_serializer [OF array_out.value_out.stream_message_axioms, of v t] assms
  by (simp add: message_classes overwrite_def)

lemma generated_serializer_overrides_base_witness:
  "MessageLite_SerializeWithCachedSizesToArray TeecOperation_class TeecOperation_SerializeWithCachedSizes
       sample_operation sample_array
     = Some (overwrite 0 (TeecOperation_SerializeWithCachedSizesToArray sample_operation) sample_array)"
  using generated_serializer_overrides_base [of sample_operation sample_array sample_parameter sample_reference
      sample_memory sample_value] sample_lengths
  by (simp add: sample_array_def)


definition sample_string :: string_output where
  "sample_string = \<lparr>so_target = [1, 2, 3], so_capacity = 5, so_grow = (\<lambda>c n. n)\<rparr>"



definition sample_ostream :: ostream where
  "sample_ostream = \<lparr>os_data = [9], os_good = True, os_space = 100\<rparr>"


end
