(* ===== verification/ZeroCopyIn.thy ===== *)
theory ZeroCopyIn
  imports ZeroCopy
begin

text \<open>
  \<open>ZeroCopyInputStream\<close> of \<^verbatim>\<open>google/protobuf/io/zero_copy_stream.h\<close>: its virtual methods as a
  record of functions, and its documented contract as the locale \<open>zero_copy_input\<close>. A block that
  \<open>Next\<close> returns is given by its bytes. The contract rests on the bytes still to come, so it
  says nothing about where the blocks end.
\<close>

record 'i zero_copy_input_ops =
  zi_Next :: "'i \<Rightarrow> (byte list option \<times> 'i) option"
  zi_BackUp :: "int \<Rightarrow> 'i \<Rightarrow> 'i option"
  zi_Skip :: "int \<Rightarrow> 'i \<Rightarrow> (bool \<times> 'i) option"
  zi_ByteCount :: "'i \<Rightarrow> int"

text \<open>
  \<open>ready_in z bs\<close>: the stream is well formed and one may back up over the end of \<open>bs\<close> (\<open>[]\<close>
  unless the last call was a successful \<open>Next\<close>). \<open>rest z\<close> are the bytes still to come.
\<close>

locale zero_copy_input =
  fixes ops :: "'i zero_copy_input_ops"
    and ready_in :: "'i \<Rightarrow> byte list \<Rightarrow> bool"
    and rest :: "'i \<Rightarrow> byte list"
  assumes next_block: "ready_in z bs \<Longrightarrow> rest z \<noteq> []
      \<Longrightarrow> \<exists>b z'. zi_Next ops z = Some (Some b, z') \<and> b \<noteq> [] \<and> ready_in z' b \<and> rest z = b @ rest z'
        \<and> zi_ByteCount ops z' = zi_ByteCount ops z + int (length b)"
    and next_end: "ready_in z bs \<Longrightarrow> rest z = []
      \<Longrightarrow> \<exists>z'. zi_Next ops z = Some (None, z') \<and> ready_in z' [] \<and> rest z' = []
        \<and> zi_ByteCount ops z' = zi_ByteCount ops z"
    and backup: "ready_in z bs \<Longrightarrow> 0 < k \<Longrightarrow> k \<le> int (length bs)
      \<Longrightarrow> \<exists>z'. zi_BackUp ops k z = Some z' \<and> ready_in z' []
        \<and> rest z' = drop (length bs - nat k) bs @ rest z \<and> zi_ByteCount ops z' = zi_ByteCount ops z - k"
    and skip: "ready_in z bs \<Longrightarrow> 0 \<le> n
      \<Longrightarrow> \<exists>ok z'. zi_Skip ops n z = Some (ok, z') \<and> (0 < n \<or> rest z \<noteq> [] \<longrightarrow> ok = (n \<le> int (length (rest z))))
        \<and> ready_in z' [] \<and> rest z' = drop (nat n) (rest z)
        \<and> zi_ByteCount ops z' = zi_ByteCount ops z + min n (int (length (rest z)))"
    and not_ready: "ready_in z bs \<Longrightarrow> ready_in z []"

text \<open>Reading a stream to its end: the blocks that \<open>Next\<close> returns.\<close>

partial_function (option) read_blocks :: "'i zero_copy_input_ops \<Rightarrow> 'i \<Rightarrow> (byte list list \<times> 'i) option" where
  "read_blocks ops z =
     do { (r, z) \<leftarrow> zi_Next ops z;
          case r of
            None \<Rightarrow> Some ([], z)
          | Some b \<Rightarrow> do { (bs, z) \<leftarrow> read_blocks ops z; Some (b # bs, z) } }"

context zero_copy_input
begin

lemma read_blocks_all:
  "ready_in z bs \<Longrightarrow> \<exists>ls z'. read_blocks ops z = Some (ls, z') \<and> concat ls = rest z \<and> [] \<notin> set ls
     \<and> ready_in z' [] \<and> rest z' = [] \<and> zi_ByteCount ops z' = zi_ByteCount ops z + int (length (rest z))"
proof (induction "length (rest z)" arbitrary: z bs rule: less_induct)
  case less
  show ?case
  proof (cases "rest z = []")
    case True
    with next_end [OF less.prems] show ?thesis
      by (subst read_blocks.simps) auto
  next
    case False
    from next_block [OF less.prems False] obtain b z1 where
        z1: "zi_Next ops z = Some (Some b, z1)" "b \<noteq> []" "ready_in z1 b" "rest z = b @ rest z1"
          "zi_ByteCount ops z1 = zi_ByteCount ops z + int (length b)" by blast
    then have "length (rest z1) < length (rest z)" by simp
    from less.hyps [OF this z1(3)] obtain ls z' where
        "read_blocks ops z1 = Some (ls, z')" "concat ls = rest z1" "[] \<notin> set ls" "ready_in z' []" "rest z' = []"
        "zi_ByteCount ops z' = zi_ByteCount ops z1 + int (length (rest z1))" by blast
    with z1 show ?thesis
      by (subst read_blocks.simps) auto
  qed
qed

end

end
