(* ===== verification/InStreams.thy ===== *)
theory InStreams
  imports ZeroCopyIn
begin

text \<open>
  The input streams of \<^verbatim>\<open>zero_copy_stream_impl_lite.cc\<close> and \<^verbatim>\<open>zero_copy_stream_impl.cc\<close>:
  \<open>ArrayInputStream\<close>, \<open>CopyingInputStreamAdaptor\<close> (with the C++ \<open>istream\<close>),
  \<open>LimitingInputStream\<close> and \<open>ConcatenatingInputStream\<close>, each shown to keep the contract
  \<open>zero_copy_input\<close>; the last two over any stream that keeps it.
\<close>

subsection \<open>ArrayInputStream\<close>

record array_input =
  ai_data :: "byte list"
  ai_size :: int
  ai_block_size :: int
  ai_position :: int
  ai_last_returned_size :: int

definition ArrayInputStream_new :: "byte list \<Rightarrow> int \<Rightarrow> int \<Rightarrow> array_input" where
  "ArrayInputStream_new data sz block_size =
     \<lparr>ai_data = data, ai_size = sz, ai_block_size = (if block_size > 0 then block_size else sz),
      ai_position = 0, ai_last_returned_size = 0\<rparr>"

definition ai_bytes :: "array_input \<Rightarrow> int \<Rightarrow> int \<Rightarrow> byte list option" where
  \<comment> \<open>the \<open>n\<close> bytes at \<open>data_ + p\<close>\<close>
  "ai_bytes z p n =
     (if 0 \<le> p \<and> 0 \<le> n \<and> p + n \<le> int (length (ai_data z))
      then Some (take (nat n) (drop (nat p) (ai_data z))) else None)"

definition ArrayInputStream_Next :: "array_input \<Rightarrow> (byte list option \<times> array_input) option" where
  "ArrayInputStream_Next z =
     (if ai_position z < ai_size z then
        let last = min (ai_block_size z) (ai_size z - ai_position z)
        in do { block \<leftarrow> ai_bytes z (ai_position z) last;
                Some (Some block, z\<lparr>ai_last_returned_size := last, ai_position := ai_position z + last\<rparr>) }
      else Some (None, z\<lparr>ai_last_returned_size := 0\<rparr>))"

definition ArrayInputStream_BackUp :: "int \<Rightarrow> array_input \<Rightarrow> array_input option" where
  "ArrayInputStream_BackUp count z =
     (if ai_last_returned_size z > 0 \<and> count \<le> ai_last_returned_size z \<and> count \<ge> 0
      then Some (z\<lparr>ai_position := ai_position z - count, ai_last_returned_size := 0\<rparr>) else None)"

definition ArrayInputStream_Skip :: "int \<Rightarrow> array_input \<Rightarrow> (bool \<times> array_input) option" where
  "ArrayInputStream_Skip count z =
     (if count \<ge> 0 then
        let z = z\<lparr>ai_last_returned_size := 0\<rparr>
        in if count > ai_size z - ai_position z then Some (False, z\<lparr>ai_position := ai_size z\<rparr>)
           else Some (True, z\<lparr>ai_position := ai_position z + count\<rparr>)
      else None)"

definition ArrayInputStream_ByteCount :: "array_input \<Rightarrow> int" where
  "ArrayInputStream_ByteCount z = ai_position z"

definition array_input_ops :: "array_input zero_copy_input_ops" where
  "array_input_ops = \<lparr>zi_Next = ArrayInputStream_Next, zi_BackUp = ArrayInputStream_BackUp,
     zi_Skip = ArrayInputStream_Skip, zi_ByteCount = ArrayInputStream_ByteCount\<rparr>"

definition array_ready :: "array_input \<Rightarrow> byte list \<Rightarrow> bool" where
  "array_ready z bs \<longleftrightarrow>
     0 \<le> ai_position z \<and> ai_position z \<le> ai_size z \<and> ai_size z \<le> int (length (ai_data z))
     \<and> (0 < ai_size z \<longrightarrow> 0 < ai_block_size z)
     \<and> (bs \<noteq> [] \<longrightarrow> ai_last_returned_size z = int (length bs) \<and> int (length bs) \<le> ai_position z
          \<and> bs = take (length bs) (drop (nat (ai_position z) - length bs) (ai_data z)))"

definition array_rest :: "array_input \<Rightarrow> byte list" where
  "array_rest z = take (nat (ai_size z - ai_position z)) (drop (nat (ai_position z)) (ai_data z))"

lemma length_array_rest:
  "array_ready z bs \<Longrightarrow> int (length (array_rest z)) = ai_size z - ai_position z"
  by (auto simp: array_rest_def array_ready_def min_def)

lemmas array_input_defs = array_input_ops_def ArrayInputStream_Next_def ArrayInputStream_BackUp_def
  ArrayInputStream_Skip_def ArrayInputStream_ByteCount_def

lemma array_rest_split:
  assumes "0 \<le> p" "0 \<le> k" "p + k \<le> sz"
  shows "take (nat (sz - p)) (drop (nat p) d)
    = take (nat k) (drop (nat p) d) @ take (nat (sz - (p + k))) (drop (nat (p + k)) d)"
proof -
  have "nat (sz - p) = nat k + nat (sz - (p + k))" "nat (p + k) = nat k + nat p"
    using assms by auto
  then show ?thesis by (simp add: take_add)
qed

interpretation array_in: zero_copy_input array_input_ops array_ready array_rest
proof (unfold_locales, goal_cases)
  case (1 z bs)
  have len: "int (length (array_rest z)) = ai_size z - ai_position z"
    using length_array_rest [OF 1(1)] .
  define k where "k = min (ai_block_size z) (ai_size z - ai_position z)"
  let ?z = "z\<lparr>ai_last_returned_size := k, ai_position := ai_position z + k\<rparr>"
  let ?b = "take (nat k) (drop (nat (ai_position z)) (ai_data z))"
  from 1(2) len have pos: "ai_position z < ai_size z"
    by (metis length_greater_0_conv of_nat_0_less_iff diff_gt_0_iff_gt)
  with 1(1) have k: "0 < k" "k \<le> ai_size z - ai_position z" "0 \<le> ai_position z"
      "ai_position z + k \<le> int (length (ai_data z))"
    by (auto simp: array_ready_def k_def)
  have "zi_Next array_input_ops z = Some (Some ?b, ?z)"
    using pos k by (simp add: array_input_defs ai_bytes_def flip: k_def)
  moreover have b: "length ?b = nat k" "?b \<noteq> []"
    using k by auto
  moreover have "array_ready ?z ?b"
    using 1(1) k b(1) by (auto simp: array_ready_def nat_add_distrib)
  moreover have "array_rest z = ?b @ array_rest ?z"
    using array_rest_split [of "ai_position z" k "ai_size z" "ai_data z"] k
    by (simp add: array_rest_def)
  moreover have "zi_ByteCount array_input_ops ?z = zi_ByteCount array_input_ops z + int (length ?b)"
    using k(1) unfolding b(1) by (simp add: array_input_defs)
  ultimately show ?case by blast
next
  case (2 z bs)
  then have "ai_position z = ai_size z"
    using length_array_rest [OF 2(1)] by simp
  with 2 show ?case
    by (auto simp: array_input_defs array_ready_def array_rest_def)
next
  case (3 z bs k)
  let ?z = "z\<lparr>ai_position := ai_position z - k, ai_last_returned_size := 0\<rparr>"
  from 3(2,3) have ne: "bs \<noteq> []" by auto
  with 3(1) have bs: "ai_last_returned_size z = int (length bs)" "int (length bs) \<le> ai_position z"
      "bs = take (length bs) (drop (nat (ai_position z) - length bs) (ai_data z))"
    by (auto simp: array_ready_def)
  have "zi_BackUp array_input_ops k z = Some ?z"
    using 3 bs(1) ne by (simp add: array_input_defs)
  moreover have "array_ready ?z []"
    using 3 bs(2) by (auto simp: array_ready_def)
  moreover have "array_rest ?z = drop (length bs - nat k) bs @ array_rest z"
  proof -
    have n: "length bs - nat k + (nat (ai_position z) - length bs) = nat (ai_position z - k)"
        "length bs - (length bs - nat k) = nat k"
      using 3 bs(2) by auto
    have "drop (length bs - nat k) bs
        = drop (length bs - nat k) (take (length bs) (drop (nat (ai_position z) - length bs) (ai_data z)))"
      using bs(3) by simp
    also have "\<dots> = take (nat k) (drop (nat (ai_position z - k)) (ai_data z))"
      by (simp add: drop_take n)
    finally show ?thesis
      using array_rest_split [of "ai_position z - k" k "ai_size z" "ai_data z"] 3 bs(2)
      by (auto simp: array_rest_def array_ready_def)
  qed
  ultimately show ?case
    by (intro exI [of _ ?z]) (simp add: array_input_defs)
next
  case (4 z bs n)
  have len: "int (length (array_rest z)) = ai_size z - ai_position z"
    using length_array_rest [OF 4(1)] .
  define k where "k = min n (ai_size z - ai_position z)"
  let ?z = "z\<lparr>ai_last_returned_size := 0, ai_position := ai_position z + k\<rparr>"
  have k: "0 \<le> k" "ai_position z + k \<le> ai_size z" "0 \<le> ai_position z"
    using 4 by (auto simp: array_ready_def k_def)
  have "zi_Skip array_input_ops n z = Some (n \<le> int (length (array_rest z)), ?z)"
    using 4(2) len by (auto simp: array_input_defs k_def Let_def)
  moreover have "array_ready ?z []"
    using 4 k by (auto simp: array_ready_def)
  moreover have "array_rest ?z = drop (nat n) (array_rest z)"
  proof (cases "n \<le> ai_size z - ai_position z")
    case True
    then have "nat (ai_size z - (ai_position z + n)) = nat (ai_size z - ai_position z) - nat n"
        "nat (ai_position z + n) = nat n + nat (ai_position z)" "k = n"
      using 4(2) k(3) by (auto simp: k_def)
    then show ?thesis
      by (simp add: array_rest_def drop_take)
  next
    case False
    then have "k = ai_size z - ai_position z" "length (array_rest z) \<le> nat n"
      using len by (auto simp: k_def)
    then show ?thesis
      by (simp add: array_rest_def)
  qed
  ultimately show ?case
    by (intro exI [of _ "n \<le> int (length (array_rest z))"] exI [of _ ?z]) (simp add: array_input_defs len k_def)
next
  case (5 z bs) then show ?case by (simp add: array_ready_def)
qed

subsection \<open>CopyingInputStream and its adaptor\<close>

text \<open>
  The virtual \<open>Read\<close> of a \<open>CopyingInputStream\<close> with a buffer of \<open>n\<close> bytes gives the bytes it
  stored, or \<open>None\<close> for the result \<open>-1\<close>; \<open>Skip\<close> gives the number of bytes skipped.
\<close>

type_synonym 's copying_read = "int \<Rightarrow> 's \<Rightarrow> byte list option \<times> 's"
type_synonym 's copying_skip = "int \<Rightarrow> 's \<Rightarrow> int \<times> 's"

definition junk_size :: int where
  "junk_size = 4096"

function CopyingInputStream_Skip_loop :: "'s copying_read \<Rightarrow> int \<Rightarrow> int \<Rightarrow> 's \<Rightarrow> int \<times> 's" where
  "CopyingInputStream_Skip_loop Read count skipped s =
     (if skipped < count then
        case Read (min (count - skipped) junk_size) s of
          (None, s') \<Rightarrow> (skipped, s')
        | (Some bytes, s') \<Rightarrow>
            if bytes = [] then (skipped, s')
            else CopyingInputStream_Skip_loop Read count (skipped + int (length bytes)) s'
      else (skipped, s))"
  by pat_completeness auto
termination
  by (relation "measure (\<lambda>(Read, count, skipped, s). nat (count - skipped))") auto

declare CopyingInputStream_Skip_loop.simps [simp del]

definition CopyingInputStream_Skip :: "'s copying_read \<Rightarrow> 's copying_skip" where
  "CopyingInputStream_Skip Read count s = CopyingInputStream_Skip_loop Read count 0 s"

record 's copying_input =
  ck_stream :: 's
  ck_failed :: bool
  ck_position :: int
  ck_buffer :: "byte list option"
  ck_buffer_size :: int
  ck_buffer_used :: int
  ck_backup_bytes :: int

definition CopyingInputStreamAdaptor_new :: "'s \<Rightarrow> int \<Rightarrow> 's copying_input" where
  "CopyingInputStreamAdaptor_new copying_stream block_size =
     \<lparr>ck_stream = copying_stream, ck_failed = False, ck_position = 0, ck_buffer = None,
      ck_buffer_size = (if block_size > 0 then block_size else kDefaultBlockSize),
      ck_buffer_used = 0, ck_backup_bytes = 0\<rparr>"

definition in_AllocateBufferIfNeeded :: "'s copying_input \<Rightarrow> 's copying_input" where
  "in_AllocateBufferIfNeeded z =
     (if ck_buffer z = None then z\<lparr>ck_buffer := Some (replicate (nat (ck_buffer_size z)) 0)\<rparr> else z)"

definition in_FreeBuffer :: "'s copying_input \<Rightarrow> 's copying_input option" where
  "in_FreeBuffer z =
     (if ck_backup_bytes z = 0 then Some (z\<lparr>ck_buffer_used := 0, ck_buffer := None\<rparr>) else None)"

definition ck_block :: "'s copying_input \<Rightarrow> byte list" where
  "ck_block z = (case ck_buffer z of None \<Rightarrow> [] | Some block \<Rightarrow> block)"

definition ck_bytes :: "'s copying_input \<Rightarrow> int \<Rightarrow> int \<Rightarrow> byte list option" where
  \<comment> \<open>the \<open>n\<close> bytes at \<open>buffer_.get() + p\<close>\<close>
  "ck_bytes z p n =
     (if 0 \<le> p \<and> 0 \<le> n \<and> p + n \<le> int (length (ck_block z))
      then Some (take (nat n) (drop (nat p) (ck_block z))) else None)"

definition CopyingInputStreamAdaptor_Next ::
    "'s copying_read \<Rightarrow> 's copying_input \<Rightarrow> (byte list option \<times> 's copying_input) option" where
  "CopyingInputStreamAdaptor_Next Read z =
     (if ck_failed z then Some (None, z)
      else
        let z = in_AllocateBufferIfNeeded z
        in if ck_backup_bytes z > 0 then
             do { block \<leftarrow> ck_bytes z (ck_buffer_used z - ck_backup_bytes z) (ck_backup_bytes z);
                  Some (Some block, z\<lparr>ck_backup_bytes := 0\<rparr>) }
           else
             case Read (ck_buffer_size z) (ck_stream z) of
               (None, s) \<Rightarrow>
                 map_option (\<lambda>z. (None, z))
                   (in_FreeBuffer (z\<lparr>ck_stream := s, ck_buffer_used := - 1, ck_failed := True\<rparr>))
             | (Some bytes, s) \<Rightarrow>
                 if bytes = [] then
                   map_option (\<lambda>z. (None, z)) (in_FreeBuffer (z\<lparr>ck_stream := s, ck_buffer_used := 0\<rparr>))
                 else
                   do { block \<leftarrow> store_block 0 bytes (ck_block z);
                        let z = z\<lparr>ck_stream := s, ck_buffer := Some block,
                                  ck_buffer_used := int (length bytes),
                                  ck_position := ck_position z + int (length bytes)\<rparr>;
                        block \<leftarrow> ck_bytes z 0 (ck_buffer_used z);
                        Some (Some block, z) })"

definition CopyingInputStreamAdaptor_BackUp :: "int \<Rightarrow> 's copying_input \<Rightarrow> 's copying_input option" where
  "CopyingInputStreamAdaptor_BackUp count z =
     (if ck_backup_bytes z = 0 \<and> ck_buffer z \<noteq> None \<and> count \<le> ck_buffer_used z \<and> count \<ge> 0
      then Some (z\<lparr>ck_backup_bytes := count\<rparr>) else None)"

definition CopyingInputStreamAdaptor_Skip ::
    "'s copying_skip \<Rightarrow> int \<Rightarrow> 's copying_input \<Rightarrow> (bool \<times> 's copying_input) option" where
  "CopyingInputStreamAdaptor_Skip skip count z =
     (if count \<ge> 0 then
        if ck_failed z then Some (False, z)
        else if ck_backup_bytes z \<ge> count then
          Some (True, z\<lparr>ck_backup_bytes := ck_backup_bytes z - count\<rparr>)
        else
          let count = count - ck_backup_bytes z;
              (skipped, s) = skip count (ck_stream z)
          in Some (skipped = count, z\<lparr>ck_backup_bytes := 0, ck_stream := s,
                                      ck_position := ck_position z + skipped\<rparr>)
      else None)"

definition CopyingInputStreamAdaptor_ByteCount :: "'s copying_input \<Rightarrow> int" where
  "CopyingInputStreamAdaptor_ByteCount z = ck_position z - ck_backup_bytes z"

definition copying_input_ops :: "'s copying_read \<Rightarrow> 's copying_skip \<Rightarrow> 's copying_input zero_copy_input_ops" where
  "copying_input_ops Read skip =
     \<lparr>zi_Next = CopyingInputStreamAdaptor_Next Read, zi_BackUp = CopyingInputStreamAdaptor_BackUp,
      zi_Skip = CopyingInputStreamAdaptor_Skip skip, zi_ByteCount = CopyingInputStreamAdaptor_ByteCount\<rparr>"

text \<open>
  What the adaptor relies on: \<open>Read\<close> delivers the bytes of the source in order, at most as many
  as asked for, and gives none or an error only at the end of the source.
\<close>

locale copying_input_stream =
  fixes Read :: "'s copying_read"
    and source :: "'s \<Rightarrow> byte list"
  assumes read_bytes: "0 < n \<Longrightarrow> Read n s = (Some bytes, s')
      \<Longrightarrow> int (length bytes) \<le> n \<and> source s = bytes @ source s' \<and> (bytes = [] \<longrightarrow> source s = [])"
    and read_error: "0 < n \<Longrightarrow> Read n s = (None, s') \<Longrightarrow> source s = [] \<and> source s' = []"
begin

lemma Skip_loop:
  "0 \<le> skipped \<Longrightarrow> skipped \<le> count
    \<Longrightarrow> fst (CopyingInputStream_Skip_loop Read count skipped s)
        = skipped + min (count - skipped) (int (length (source s)))
      \<and> source (snd (CopyingInputStream_Skip_loop Read count skipped s)) = drop (nat (count - skipped)) (source s)"
proof (induction "nat (count - skipped)" arbitrary: skipped s rule: less_induct)
  case less
  show ?case
  proof (cases "skipped < count")
    case False
    with less.prems show ?thesis by (simp add: CopyingInputStream_Skip_loop.simps)
  next
    case True
    let ?n = "min (count - skipped) junk_size"
    have n: "0 < ?n" using True by (simp add: junk_size_def)
    obtain r s' where r: "Read ?n s = (r, s')" by (cases "Read ?n s")
    show ?thesis
    proof (cases r)
      case None
      with read_error [OF n, of s s'] r True show ?thesis
        by (subst (1 2) CopyingInputStream_Skip_loop.simps) simp
    next
      case (Some bytes)
      with read_bytes [OF n, of s bytes s'] r have b: "int (length bytes) \<le> ?n" "source s = bytes @ source s'"
          "bytes = [] \<longrightarrow> source s = []" by auto
      show ?thesis
      proof (cases "bytes = []")
        case True
        with b r Some \<open>skipped < count\<close> show ?thesis
          by (subst (1 2) CopyingInputStream_Skip_loop.simps) simp
      next
        case False
        have "nat (count - (skipped + int (length bytes))) < nat (count - skipped)"
          using False True by simp
        from less.hyps [OF this] less.prems b(1) have
            "fst (CopyingInputStream_Skip_loop Read count (skipped + int (length bytes)) s')
              = skipped + int (length bytes)
                + min (count - (skipped + int (length bytes))) (int (length (source s')))"
            "source (snd (CopyingInputStream_Skip_loop Read count (skipped + int (length bytes)) s'))
              = drop (nat (count - (skipped + int (length bytes)))) (source s')"
          by simp_all
        moreover have "nat (count - skipped) = nat (count - (skipped + int (length bytes))) + length bytes"
          using b(1) by arith
        moreover have "CopyingInputStream_Skip_loop Read count skipped s
            = CopyingInputStream_Skip_loop Read count (skipped + int (length bytes)) s'"
          using r Some False True by (subst CopyingInputStream_Skip_loop.simps) simp
        ultimately show ?thesis
          using b(2) by (simp add: min_def)
      qed
    qed
  qed
qed

end

locale copying_input_source = copying_input_stream Read source
  for Read :: "'s copying_read" and source +
  fixes skip :: "'s copying_skip"
  assumes skip_bytes: "0 < n \<Longrightarrow> \<exists>s'. skip n s = (min n (int (length (source s))), s')
    \<and> source s' = drop (nat n) (source s)"

sublocale copying_input_stream \<subseteq> default_skip: copying_input_source Read source "CopyingInputStream_Skip Read"
proof
  fix n :: int and s
  assume "0 < n"
  with Skip_loop [of 0 n s] show "\<exists>s'. CopyingInputStream_Skip Read n s = (min n (int (length (source s))), s')
      \<and> source s' = drop (nat n) (source s)"
    by (cases "CopyingInputStream_Skip_loop Read n 0 s") (simp add: CopyingInputStream_Skip_def)
qed

definition copying_ready :: "('s \<Rightarrow> byte list) \<Rightarrow> 's copying_input \<Rightarrow> byte list \<Rightarrow> bool" where
  "copying_ready source z bs \<longleftrightarrow>
     0 < ck_buffer_size z \<and> 0 \<le> ck_backup_bytes z \<and> ck_backup_bytes z \<le> ck_buffer_used z
     \<and> ck_buffer_used z \<le> int (length (ck_block z))
     \<and> (ck_buffer z \<noteq> None \<longrightarrow> int (length (ck_block z)) = ck_buffer_size z)
     \<and> (ck_failed z \<longrightarrow> ck_backup_bytes z = 0 \<and> source (ck_stream z) = [])
     \<and> (bs \<noteq> [] \<longrightarrow> ck_backup_bytes z = 0 \<and> \<not> ck_failed z \<and> int (length bs) \<le> ck_buffer_used z
          \<and> bs = drop (nat (ck_buffer_used z) - length bs) (take (nat (ck_buffer_used z)) (ck_block z)))"

definition copying_rest :: "('s \<Rightarrow> byte list) \<Rightarrow> 's copying_input \<Rightarrow> byte list" where
  "copying_rest source z =
     drop (nat (ck_buffer_used z - ck_backup_bytes z)) (take (nat (ck_buffer_used z)) (ck_block z))
     @ source (ck_stream z)"

lemmas copying_input_defs = copying_input_ops_def CopyingInputStreamAdaptor_Next_def
  CopyingInputStreamAdaptor_BackUp_def CopyingInputStreamAdaptor_Skip_def CopyingInputStreamAdaptor_ByteCount_def

lemma copying_rest_empty:
  "copying_ready source z bs \<Longrightarrow> copying_rest source z = []
    \<longleftrightarrow> ck_backup_bytes z = 0 \<and> source (ck_stream z) = []"
  by (auto simp: copying_ready_def copying_rest_def)

lemma copying_ready_tail:
  assumes "copying_ready source z bs" "\<not> ck_failed z" "k \<le> nat (ck_buffer_used z)"
    and "b = drop (nat (ck_buffer_used z) - k) (take (nat (ck_buffer_used z)) (ck_block z))"
  shows "copying_ready source (z\<lparr>ck_backup_bytes := 0\<rparr>) b" "length b = k"
proof -
  have "ck_buffer_used z \<le> int (length (ck_block z))"
    using assms(1) by (simp add: copying_ready_def)
  with assms(3) show len: "length b = k"
    unfolding assms(4) by simp
  then show "copying_ready source (z\<lparr>ck_backup_bytes := 0\<rparr>) b"
    using assms(1-3) by (auto simp: copying_ready_def ck_block_def assms(4))
qed

lemma copying_in_alloc:
  assumes "copying_ready source z bs"
  shows "copying_ready source (in_AllocateBufferIfNeeded z) bs"
    "copying_rest source (in_AllocateBufferIfNeeded z) = copying_rest source z"
    "int (length (ck_block (in_AllocateBufferIfNeeded z))) = ck_buffer_size z"
    "ck_buffer (in_AllocateBufferIfNeeded z) \<noteq> None"
    "ck_failed (in_AllocateBufferIfNeeded z) = ck_failed z"
    "ck_stream (in_AllocateBufferIfNeeded z) = ck_stream z"
    "ck_backup_bytes (in_AllocateBufferIfNeeded z) = ck_backup_bytes z"
    "ck_buffer_size (in_AllocateBufferIfNeeded z) = ck_buffer_size z"
    "CopyingInputStreamAdaptor_ByteCount (in_AllocateBufferIfNeeded z) = CopyingInputStreamAdaptor_ByteCount z"
  using assms
  by (auto simp: in_AllocateBufferIfNeeded_def copying_ready_def copying_rest_def ck_block_def
      CopyingInputStreamAdaptor_ByteCount_def)

sublocale copying_input_source \<subseteq> adaptor: zero_copy_input "copying_input_ops Read skip"
  "copying_ready source" "copying_rest source"
proof (unfold_locales, goal_cases)
  case (1 z bs)
  let ?a = "in_AllocateBufferIfNeeded z"
  note a = copying_in_alloc [OF 1(1)]
  have not_failed: "\<not> ck_failed z"
    using 1 copying_rest_empty [OF 1(1)] by (auto simp: copying_ready_def)
  show ?case
  proof (cases "0 < ck_backup_bytes z")
    case True
    let ?u = "nat (ck_buffer_used ?a)" and ?k = "nat (ck_backup_bytes z)"
    let ?b = "drop (?u - ?k) (take ?u (ck_block ?a))" and ?z = "?a\<lparr>ck_backup_bytes := 0\<rparr>"
    have u: "ck_backup_bytes z \<le> ck_buffer_used ?a" "ck_buffer_used ?a \<le> int (length (ck_block ?a))"
      using a(1,7) by (auto simp: copying_ready_def)
    then have k: "?k \<le> ?u" "nat (ck_buffer_used ?a - ck_backup_bytes z) = ?u - ?k"
      using True by (auto simp: nat_diff_distrib intro: nat_mono)
    have "\<not> ck_failed ?a" using not_failed a(5) by simp
    from copying_ready_tail [OF a(1) this k(1) refl] k(2)
    have len: "length ?b = ?k" "nat (ck_buffer_used ?a - ck_backup_bytes z) = ?u - ?k"
      and ready: "copying_ready source ?z ?b" by simp_all
    have "zi_Next (copying_input_ops Read skip) z = Some (Some ?b, ?z)"
      using True u not_failed len(2) a(5,7)
      by (simp add: copying_input_defs ck_bytes_def Let_def take_drop)
    moreover have "?b \<noteq> []"
      using len(1) True by (metis list.size(3) zero_less_nat_eq less_irrefl)
    moreover note ready
    moreover have "copying_rest source z = ?b @ copying_rest source ?z"
      using a(7) len(2) unfolding a(2) [symmetric] by (simp add: copying_rest_def ck_block_def)
    moreover have "zi_ByteCount (copying_input_ops Read skip) ?z
        = zi_ByteCount (copying_input_ops Read skip) z + int (length ?b)"
      using a(7,9) True len(1) by (simp add: copying_input_defs)
    ultimately show ?thesis by blast
  next
    case False
    then have backup0: "ck_backup_bytes z = 0" using 1(1) by (simp add: copying_ready_def)
    with 1 copying_rest_empty [OF 1(1)] have src: "source (ck_stream z) \<noteq> []" by simp
    have size: "0 < ck_buffer_size z" using 1(1) by (simp add: copying_ready_def)
    obtain r s' where r: "Read (ck_buffer_size z) (ck_stream z) = (r, s')"
      by (cases "Read (ck_buffer_size z) (ck_stream z)")
    with src read_error [OF size] obtain bytes where bytes: "r = Some bytes"
      by (cases r) auto
    from read_bytes [OF size r [unfolded bytes]] src have b: "int (length bytes) \<le> ck_buffer_size z"
        "source (ck_stream z) = bytes @ source s'" "bytes \<noteq> []" by auto
    let ?block = "overwrite 0 bytes (ck_block ?a)"
    let ?z = "?a\<lparr>ck_stream := s', ck_buffer := Some ?block, ck_buffer_used := int (length bytes),
      ck_position := ck_position ?a + int (length bytes)\<rparr>"
    have len: "length bytes \<le> length (ck_block ?a)"
      using a(3) b(1) by simp
    have take: "take (length bytes) ?block = bytes" "length ?block = length (ck_block ?a)"
      using len by (simp_all add: overwrite_def)
    have "zi_Next (copying_input_ops Read skip) z = Some (Some bytes, ?z)"
      using not_failed backup0 a(5-8) r bytes b(3) len take
      by (simp add: copying_input_defs ck_bytes_def ck_block_def store_block_def Let_def)
    moreover have "copying_ready source ?z bytes"
      using a(1,3,5,7,8) not_failed backup0 take len b(1) by (simp add: copying_ready_def ck_block_def)
    moreover have "copying_rest source z = bytes @ copying_rest source ?z"
      using b(2) a(7) backup0 by (simp add: copying_rest_def)
    moreover have "zi_ByteCount (copying_input_ops Read skip) ?z
        = zi_ByteCount (copying_input_ops Read skip) z + int (length bytes)"
      using a(9) by (simp add: copying_input_defs)
    ultimately show ?thesis using b(3) by blast
  qed
next
  case (2 z bs)
  let ?a = "in_AllocateBufferIfNeeded z"
  note a = copying_in_alloc [OF 2(1)]
  have e: "ck_backup_bytes z = 0" "source (ck_stream z) = []" "0 < ck_buffer_size z"
    using 2 copying_rest_empty [OF 2(1)] by (auto simp: copying_ready_def)
  obtain r s' where r: "Read (ck_buffer_size z) (ck_stream z) = (r, s')"
    by (cases "Read (ck_buffer_size z) (ck_stream z)")
  have s': "source s' = []" "r \<noteq> None \<longrightarrow> r = Some []"
    using read_error [OF e(3), of "ck_stream z" s'] read_bytes [OF e(3), of "ck_stream z" _ s'] r e(2)
    by (cases r; auto)+
  show ?case
  proof (cases "ck_failed z")
    case True
    with 2 e show ?thesis
      by (intro exI [of _ z]) (auto simp: copying_input_defs copying_ready_def)
  next
    case False
    let ?z = "?a\<lparr>ck_stream := s', ck_buffer_used := 0, ck_buffer := None, ck_failed := (r = None)\<rparr>"
    have "zi_Next (copying_input_ops Read skip) z = Some (None, ?z)"
      using False e a(5-8) r s'(2)
      by (cases r) (simp_all add: copying_input_defs in_FreeBuffer_def Let_def)
    moreover have "copying_ready source ?z []" "copying_rest source ?z = []"
      using a(1,7) e s'(1) by (simp_all add: copying_ready_def copying_rest_def ck_block_def)
    moreover have "zi_ByteCount (copying_input_ops Read skip) ?z = zi_ByteCount (copying_input_ops Read skip) z"
      using a(9) by (simp add: copying_input_defs)
    ultimately show ?thesis by blast
  qed
next
  case (3 z bs k)
  let ?z = "z\<lparr>ck_backup_bytes := k\<rparr>" and ?u = "nat (ck_buffer_used z)"
  from 3(2,3) have "bs \<noteq> []" by auto
  with 3(1) have r: "ck_backup_bytes z = 0" "\<not> ck_failed z" "int (length bs) \<le> ck_buffer_used z"
      "bs = drop (?u - length bs) (take ?u (ck_block z))" "ck_buffer_used z \<le> int (length (ck_block z))"
    by (auto simp: copying_ready_def)
  have buf: "ck_buffer z \<noteq> None"
    using 3(2,3) r(3,5) by (cases "ck_buffer z") (auto simp: ck_block_def)
  have "zi_BackUp (copying_input_ops Read skip) k z = Some ?z"
    using 3(2,3) r(1,3) buf by (simp add: copying_input_defs)
  moreover have "copying_ready source ?z []"
    using 3 r(2,3) by (auto simp: copying_ready_def ck_block_def)
  moreover have "copying_rest source ?z = drop (length bs - nat k) bs @ copying_rest source z"
  proof -
    have "drop (length bs - nat k) bs = drop (length bs - nat k) (drop (?u - length bs) (take ?u (ck_block z)))"
      using r(4) by simp
    also have "\<dots> = drop (?u - nat k) (take ?u (ck_block z))"
      using 3(2,3) r(3) by (simp add: nat_le_iff le_nat_iff)
    finally show ?thesis
      using 3(2,3) r(1,3) by (simp add: copying_rest_def ck_block_def nat_diff_distrib)
  qed
  moreover have "zi_ByteCount (copying_input_ops Read skip) ?z = zi_ByteCount (copying_input_ops Read skip) z - k"
    using r(1) by (simp add: copying_input_defs)
  ultimately show ?case by blast
next
  case (4 z bs n)
  let ?u = "nat (ck_buffer_used z)" and ?k = "nat (ck_backup_bytes z)"
  let ?t = "drop (nat (ck_buffer_used z - ck_backup_bytes z)) (take ?u (ck_block z))"
  have r: "0 \<le> ck_backup_bytes z" "ck_backup_bytes z \<le> ck_buffer_used z"
      "ck_buffer_used z \<le> int (length (ck_block z))"
    using 4(1) by (auto simp: copying_ready_def)
  then have t: "length ?t = ?k" by auto
  show ?case
  proof (cases "ck_failed z")
    case True
    with 4 have "copying_rest source z = []"
      using copying_rest_empty [OF 4(1)] by (simp add: copying_ready_def)
    with True 4 show ?thesis
      by (intro exI [of _ False] exI [of _ z]) (auto simp: copying_input_defs copying_ready_def)
  next
    case False
    show ?thesis
    proof (cases "n \<le> ck_backup_bytes z")
      case True
      let ?z = "z\<lparr>ck_backup_bytes := ck_backup_bytes z - n\<rparr>"
      have "nat (ck_buffer_used z - (ck_backup_bytes z - n)) = nat n + nat (ck_buffer_used z - ck_backup_bytes z)"
        using True 4(2) r by arith
      moreover have "nat n \<le> length ?t" using True t by (simp add: nat_mono)
      ultimately have "copying_rest source ?z = drop (nat n) (copying_rest source z)"
        by (simp add: copying_rest_def ck_block_def)
      moreover have "n \<le> int (length (copying_rest source z))"
        using True t r(1) unfolding copying_rest_def length_append by simp
      moreover have "copying_ready source ?z []"
        using 4 True r False by (auto simp: copying_ready_def ck_block_def)
      ultimately show ?thesis
        using True 4(2) False by (intro exI [of _ True] exI [of _ ?z]) (simp add: copying_input_defs)
    next
      case more: False
      then have "0 < n - ck_backup_bytes z" by simp
      from skip_bytes [OF this, of "ck_stream z"] obtain s' where
          s': "skip (n - ck_backup_bytes z) (ck_stream z)
             = (min (n - ck_backup_bytes z) (int (length (source (ck_stream z)))), s')"
          "source s' = drop (nat (n - ck_backup_bytes z)) (source (ck_stream z))" by blast
      let ?m = "min (n - ck_backup_bytes z) (int (length (source (ck_stream z))))"
      let ?z = "z\<lparr>ck_backup_bytes := 0, ck_stream := s', ck_position := ck_position z + ?m\<rparr>"
      have len: "int (length (copying_rest source z)) = ck_backup_bytes z + int (length (source (ck_stream z)))"
        using t r(1) unfolding copying_rest_def length_append by simp
      have "zi_Skip (copying_input_ops Read skip) n z = Some (n \<le> int (length (copying_rest source z)), ?z)"
        using 4(2) False more s'(1) len by (auto simp: copying_input_defs Let_def)
      moreover have "copying_ready source ?z []"
        using 4 r False by (auto simp: copying_ready_def ck_block_def)
      moreover have "copying_rest source ?z = drop (nat n) (copying_rest source z)"
      proof -
        have "drop (nat n) ?t = []" "nat n - length ?t = nat (n - ck_backup_bytes z)"
          using more r(1) unfolding t by (auto simp: t nat_diff_distrib nat_mono)
        then show ?thesis
          using s'(2) by (simp add: copying_rest_def ck_block_def)
      qed
      moreover have "zi_ByteCount (copying_input_ops Read skip) ?z
          = zi_ByteCount (copying_input_ops Read skip) z + min n (int (length (copying_rest source z)))"
        using len by (simp add: copying_input_defs)
      ultimately show ?thesis by blast
    qed
  qed
next
  case (5 z bs) then show ?case by (simp add: copying_ready_def)
qed

subsection \<open>IstreamInputStream\<close>

text \<open>
  \<open>std::istream\<close>: the bytes it has still to give, its state bits, and whether the device then
  ends in an error (\<open>badbit\<close>) instead of end of file.
\<close>

record istream =
  is_rest :: "byte list"
  is_eof :: bool
  is_fail :: bool
  is_broken :: bool

definition istream_read :: "int \<Rightarrow> istream \<Rightarrow> byte list \<times> istream" where
  \<comment> \<open>\<open>read\<close>: the bytes stored, as many as \<open>gcount()\<close>\<close>
  "istream_read n s =
     (if is_eof s \<or> is_fail s then ([], s\<lparr>is_fail := True\<rparr>)
      else if n \<le> int (length (is_rest s)) then (take (nat n) (is_rest s), s\<lparr>is_rest := drop (nat n) (is_rest s)\<rparr>)
      else (is_rest s, s\<lparr>is_rest := [], is_eof := \<not> is_broken s, is_fail := True\<rparr>))"

definition CopyingIstreamInputStream_Read :: "istream copying_read" where
  "CopyingIstreamInputStream_Read n s =
     (let (bytes, s) = istream_read n s
      in if bytes = [] \<and> is_fail s \<and> \<not> is_eof s then (None, s) else (Some bytes, s))"

definition istream_source :: "istream \<Rightarrow> byte list" where
  "istream_source s = (if is_eof s \<or> is_fail s then [] else is_rest s)"

interpretation istream_in: copying_input_stream CopyingIstreamInputStream_Read istream_source
  by unfold_locales
    (auto simp: CopyingIstreamInputStream_Read_def istream_read_def istream_source_def split: if_splits)

definition IstreamInputStream_Next ::
    "istream copying_input \<Rightarrow> (byte list option \<times> istream copying_input) option" where
  "IstreamInputStream_Next z = CopyingInputStreamAdaptor_Next CopyingIstreamInputStream_Read z"

definition IstreamInputStream_BackUp :: "int \<Rightarrow> istream copying_input \<Rightarrow> istream copying_input option" where
  "IstreamInputStream_BackUp count z = CopyingInputStreamAdaptor_BackUp count z"

definition IstreamInputStream_Skip :: "int \<Rightarrow> istream copying_input \<Rightarrow> (bool \<times> istream copying_input) option" where
  "IstreamInputStream_Skip count z =
     CopyingInputStreamAdaptor_Skip (CopyingInputStream_Skip CopyingIstreamInputStream_Read) count z"

definition IstreamInputStream_ByteCount :: "istream copying_input \<Rightarrow> int" where
  "IstreamInputStream_ByteCount z = CopyingInputStreamAdaptor_ByteCount z"

definition istream_input_ops :: "istream copying_input zero_copy_input_ops" where
  "istream_input_ops = \<lparr>zi_Next = IstreamInputStream_Next, zi_BackUp = IstreamInputStream_BackUp,
     zi_Skip = IstreamInputStream_Skip, zi_ByteCount = IstreamInputStream_ByteCount\<rparr>"

lemma istream_input_ops_copying:
  "istream_input_ops = copying_input_ops CopyingIstreamInputStream_Read
     (CopyingInputStream_Skip CopyingIstreamInputStream_Read)"
  by (simp add: istream_input_ops_def copying_input_ops_def fun_eq_iff IstreamInputStream_Next_def
      IstreamInputStream_BackUp_def IstreamInputStream_Skip_def IstreamInputStream_ByteCount_def)

subsection \<open>LimitingInputStream\<close>

record 'i limiting_input =
  li_input :: 'i
  li_limit :: int
  li_prior_bytes_read :: int

definition LimitingInputStream_new :: "'i zero_copy_input_ops \<Rightarrow> 'i \<Rightarrow> int \<Rightarrow> 'i limiting_input" where
  "LimitingInputStream_new ops input limit =
     \<lparr>li_input = input, li_limit = limit, li_prior_bytes_read = zi_ByteCount ops input\<rparr>"

definition LimitingInputStream_delete :: "'i zero_copy_input_ops \<Rightarrow> 'i limiting_input \<Rightarrow> 'i option" where
  "LimitingInputStream_delete ops z =
     (if li_limit z < 0 then zi_BackUp ops (- li_limit z) (li_input z) else Some (li_input z))"

definition LimitingInputStream_Next ::
    "'i zero_copy_input_ops \<Rightarrow> 'i limiting_input \<Rightarrow> (byte list option \<times> 'i limiting_input) option" where
  "LimitingInputStream_Next ops z =
     (if li_limit z \<le> 0 then Some (None, z)
      else do {
        (r, input) \<leftarrow> zi_Next ops (li_input z);
        case r of
          None \<Rightarrow> Some (None, z\<lparr>li_input := input\<rparr>)
        | Some b \<Rightarrow>
            let limit = li_limit z - int (length b);
                sz = (if limit < 0 then int (length b) + limit else int (length b))
            in Some (Some (take (nat sz) b), z\<lparr>li_input := input, li_limit := limit\<rparr>) })"

definition LimitingInputStream_BackUp ::
    "'i zero_copy_input_ops \<Rightarrow> int \<Rightarrow> 'i limiting_input \<Rightarrow> 'i limiting_input option" where
  "LimitingInputStream_BackUp ops count z =
     (if li_limit z < 0 then
        map_option (\<lambda>input. z\<lparr>li_input := input, li_limit := count\<rparr>)
          (zi_BackUp ops (count - li_limit z) (li_input z))
      else
        map_option (\<lambda>input. z\<lparr>li_input := input, li_limit := li_limit z + count\<rparr>)
          (zi_BackUp ops count (li_input z)))"

definition LimitingInputStream_Skip ::
    "'i zero_copy_input_ops \<Rightarrow> int \<Rightarrow> 'i limiting_input \<Rightarrow> (bool \<times> 'i limiting_input) option" where
  "LimitingInputStream_Skip ops count z =
     (if count > li_limit z then
        if li_limit z < 0 then Some (False, z)
        else do { (ok, input) \<leftarrow> zi_Skip ops (li_limit z) (li_input z);
                  Some (False, z\<lparr>li_input := input, li_limit := 0\<rparr>) }
      else do { (ok, input) \<leftarrow> zi_Skip ops count (li_input z);
                if \<not> ok then Some (False, z\<lparr>li_input := input\<rparr>)
                else Some (True, z\<lparr>li_input := input, li_limit := li_limit z - count\<rparr>) })"

definition LimitingInputStream_ByteCount :: "'i zero_copy_input_ops \<Rightarrow> 'i limiting_input \<Rightarrow> int" where
  "LimitingInputStream_ByteCount ops z =
     (if li_limit z < 0 then zi_ByteCount ops (li_input z) + li_limit z - li_prior_bytes_read z
      else zi_ByteCount ops (li_input z) - li_prior_bytes_read z)"

definition limiting_input_ops :: "'i zero_copy_input_ops \<Rightarrow> 'i limiting_input zero_copy_input_ops" where
  "limiting_input_ops ops =
     \<lparr>zi_Next = LimitingInputStream_Next ops, zi_BackUp = LimitingInputStream_BackUp ops,
      zi_Skip = LimitingInputStream_Skip ops, zi_ByteCount = LimitingInputStream_ByteCount ops\<rparr>"

lemmas limiting_input_defs = limiting_input_ops_def LimitingInputStream_Next_def LimitingInputStream_BackUp_def
  LimitingInputStream_Skip_def LimitingInputStream_ByteCount_def

text \<open>After an overshoot the wrapped stream can back up over the hidden bytes \<open>over\<close>.\<close>

definition limiting_ready :: "('i \<Rightarrow> byte list \<Rightarrow> bool) \<Rightarrow> 'i limiting_input \<Rightarrow> byte list \<Rightarrow> bool" where
  "limiting_ready ready_in z bs \<longleftrightarrow>
     (if li_limit z < 0
      then \<exists>pre over. ready_in (li_input z) (pre @ over) \<and> int (length over) = - li_limit z
             \<and> (bs = [] \<or> bs = pre)
      else ready_in (li_input z) bs)"

definition limiting_rest :: "('i \<Rightarrow> byte list) \<Rightarrow> 'i limiting_input \<Rightarrow> byte list" where
  "limiting_rest rest z = take (nat (li_limit z)) (rest (li_input z))"

context zero_copy_input
begin

lemma limiting_not_ready:
  assumes "limiting_ready ready_in z bs"
  shows "limiting_ready ready_in z []"
proof (cases "li_limit z < 0")
  case True
  with assms obtain pre over where "ready_in (li_input z) (pre @ over)" "int (length over) = - li_limit z"
    by (auto simp: limiting_ready_def)
  with True show ?thesis
    unfolding limiting_ready_def by auto
qed (use assms in \<open>simp add: limiting_ready_def not_ready\<close>)

lemma limiting_next:
  assumes "limiting_ready ready_in z bs" "limiting_rest rest z \<noteq> []"
  shows "\<exists>b z'. zi_Next (limiting_input_ops ops) z = Some (Some b, z') \<and> b \<noteq> []
    \<and> limiting_ready ready_in z' b \<and> limiting_rest rest z = b @ limiting_rest rest z'
    \<and> zi_ByteCount (limiting_input_ops ops) z' = zi_ByteCount (limiting_input_ops ops) z + int (length b)"
proof -
  from assms have l: "0 < li_limit z" "rest (li_input z) \<noteq> []" "ready_in (li_input z) bs"
    by (auto simp: limiting_rest_def limiting_ready_def)
  from next_block [OF l(3,2)] obtain b i where b: "zi_Next ops (li_input z) = Some (Some b, i)" "b \<noteq> []"
      "ready_in i b" "rest (li_input z) = b @ rest i" "zi_ByteCount ops i = zi_ByteCount ops (li_input z) + int (length b)"
    by blast
  let ?l = "li_limit z - int (length b)" and ?n = "nat (li_limit z)"
  let ?z = "z\<lparr>li_input := i, li_limit := ?l\<rparr>"
  show ?thesis
  proof (cases "?l < 0")
    case True
    then have len: "length (take ?n b) = ?n" "int (length (drop ?n b)) = - ?l"
      using l(1) by auto
    have "limiting_ready ready_in ?z (take ?n b)"
    proof -
      have "ready_in i (take ?n b @ drop ?n b)" using b(3) by simp
      with len(2) have "\<exists>pre over. ready_in i (pre @ over) \<and> int (length over) = - ?l
          \<and> (take ?n b = [] \<or> take ?n b = pre)" by blast
      with True show ?thesis by (simp add: limiting_ready_def)
    qed
    with True l(1) b len show ?thesis
      by (intro exI [of _ "take ?n b"] exI [of _ ?z]) (auto simp: limiting_input_defs limiting_rest_def)
  next
    case False
    then have "nat ?l = ?n - length b" "length b \<le> ?n" by auto
    with False l(1) b show ?thesis
      by (intro exI [of _ b] exI [of _ ?z])
        (auto simp: limiting_input_defs limiting_rest_def limiting_ready_def)
  qed
qed

lemma limiting_end:
  assumes "limiting_ready ready_in z bs" "limiting_rest rest z = []"
  shows "\<exists>z'. zi_Next (limiting_input_ops ops) z = Some (None, z') \<and> limiting_ready ready_in z' []
    \<and> limiting_rest rest z' = []
    \<and> zi_ByteCount (limiting_input_ops ops) z' = zi_ByteCount (limiting_input_ops ops) z"
proof (cases "li_limit z \<le> 0")
  case True
  with assms show ?thesis
    using limiting_not_ready [OF assms(1)] by (intro exI [of _ z]) (simp add: limiting_input_defs)
next
  case False
  with assms have "ready_in (li_input z) bs" "rest (li_input z) = []"
    by (auto simp: limiting_ready_def limiting_rest_def)
  from next_end [OF this] False show ?thesis
    by (auto simp: limiting_input_defs limiting_ready_def limiting_rest_def)
qed

lemma limiting_backup:
  assumes "limiting_ready ready_in z bs" "0 < k" "k \<le> int (length bs)"
  shows "\<exists>z'. zi_BackUp (limiting_input_ops ops) k z = Some z' \<and> limiting_ready ready_in z' []
    \<and> limiting_rest rest z' = drop (length bs - nat k) bs @ limiting_rest rest z
    \<and> zi_ByteCount (limiting_input_ops ops) z' = zi_ByteCount (limiting_input_ops ops) z - k"
proof (cases "li_limit z < 0")
  case True
  from assms(2,3) have "bs \<noteq> []" by auto
  with True assms(1) obtain over where over: "ready_in (li_input z) (bs @ over)" "int (length over) = - li_limit z"
    by (auto simp: limiting_ready_def)
  have "0 < k - li_limit z" "k - li_limit z \<le> int (length (bs @ over))"
    using True assms(2,3) over(2) by auto
  from backup [OF over(1) this] obtain i where i: "zi_BackUp ops (k - li_limit z) (li_input z) = Some i"
      "ready_in i []" "rest i = drop (length (bs @ over) - nat (k - li_limit z)) (bs @ over) @ rest (li_input z)"
      "zi_ByteCount ops i = zi_ByteCount ops (li_input z) - (k - li_limit z)" by blast
  have n: "length (bs @ over) - nat (k - li_limit z) = length bs - nat k" "nat k \<le> length bs"
    using assms(2,3) over(2) by auto
  with i(3) have "take (nat k) (rest i) = drop (length bs - nat k) bs" by simp
  with True assms(2) i show ?thesis
    by (intro exI [of _ "z\<lparr>li_input := i, li_limit := k\<rparr>"])
      (simp add: limiting_input_defs limiting_ready_def limiting_rest_def)
next
  case False
  with assms(1) have "ready_in (li_input z) bs" by (simp add: limiting_ready_def)
  from backup [OF this assms(2,3)] obtain i where i: "zi_BackUp ops k (li_input z) = Some i"
      "ready_in i []" "rest i = drop (length bs - nat k) bs @ rest (li_input z)"
      "zi_ByteCount ops i = zi_ByteCount ops (li_input z) - k" by blast
  have n: "nat (li_limit z + k) = nat k + nat (li_limit z)" "length bs - (length bs - nat k) = nat k"
    using False assms(2,3) by auto
  with False assms(2) i show ?thesis
    by (intro exI [of _ "z\<lparr>li_input := i, li_limit := li_limit z + k\<rparr>"])
      (simp add: limiting_input_defs limiting_ready_def limiting_rest_def)
qed

lemma limiting_skip:
  assumes "limiting_ready ready_in z bs" "0 \<le> n"
  shows "\<exists>ok z'. zi_Skip (limiting_input_ops ops) n z = Some (ok, z')
    \<and> (0 < n \<or> limiting_rest rest z \<noteq> [] \<longrightarrow> ok = (n \<le> int (length (limiting_rest rest z))))
    \<and> limiting_ready ready_in z' [] \<and> limiting_rest rest z' = drop (nat n) (limiting_rest rest z)
    \<and> zi_ByteCount (limiting_input_ops ops) z'
      = zi_ByteCount (limiting_input_ops ops) z + min n (int (length (limiting_rest rest z)))"
proof (cases "li_limit z < 0")
  case True
  with assms show ?thesis
    using limiting_not_ready [OF assms(1)]
    by (intro exI [of _ False] exI [of _ z]) (auto simp: limiting_input_defs limiting_rest_def)
next
  case False
  with assms(1) have r: "ready_in (li_input z) bs" by (simp add: limiting_ready_def)
  show ?thesis
  proof (cases "n > li_limit z")
    case True
    from skip [OF r, of "li_limit z"] False obtain ok i where i: "zi_Skip ops (li_limit z) (li_input z) = Some (ok, i)"
        "ready_in i []" "zi_ByteCount ops i = zi_ByteCount ops (li_input z) + min (li_limit z) (int (length (rest (li_input z))))"
      by auto
    have "nat (li_limit z) \<le> nat n" using True by simp
    with True False i show ?thesis
      by (intro exI [of _ False] exI [of _ "z\<lparr>li_input := i, li_limit := 0\<rparr>"])
        (auto simp: limiting_input_defs limiting_ready_def limiting_rest_def)
  next
    case le: False
    from skip [OF r assms(2)] obtain ok i where i: "zi_Skip ops n (li_input z) = Some (ok, i)"
        "0 < n \<or> rest (li_input z) \<noteq> [] \<longrightarrow> ok = (n \<le> int (length (rest (li_input z))))" "ready_in i []"
        "rest i = drop (nat n) (rest (li_input z))"
        "zi_ByteCount ops i = zi_ByteCount ops (li_input z) + min n (int (length (rest (li_input z))))" by blast
    let ?z = "if ok then z\<lparr>li_input := i, li_limit := li_limit z - n\<rparr> else z\<lparr>li_input := i\<rparr>"
    have "zi_Skip (limiting_input_ops ops) n z = Some (ok, ?z)"
      using False le i(1) by (simp add: limiting_input_defs)
    moreover have "0 < n \<or> limiting_rest rest z \<noteq> [] \<longrightarrow> ok = (n \<le> int (length (limiting_rest rest z)))"
      using le i(2) by (auto simp: limiting_rest_def)
    moreover have "limiting_ready ready_in ?z []"
      using False le i(3) by (simp add: limiting_ready_def)
    moreover have "limiting_rest rest ?z = drop (nat n) (limiting_rest rest z)"
    proof (cases ok)
      case True
      with i(4) assms(2) le show ?thesis by (simp add: limiting_rest_def drop_take nat_diff_distrib)
    next
      case fail: False
      with i(2) assms(2) have "n = 0 \<or> length (rest (li_input z)) \<le> nat n" by auto
      with fail i(4) show ?thesis by (auto simp: limiting_rest_def)
    qed
    moreover have "zi_ByteCount (limiting_input_ops ops) ?z
        = zi_ByteCount (limiting_input_ops ops) z + min n (int (length (limiting_rest rest z)))"
      using False le i(5) assms(2) by (auto simp: limiting_input_defs limiting_rest_def)
    ultimately show ?thesis by blast
  qed
qed

lemma limiting: "zero_copy_input (limiting_input_ops ops) (limiting_ready ready_in) (limiting_rest rest)"
proof (unfold_locales, goal_cases)
  case (1 z bs) then show ?case by (rule limiting_next)
next
  case (2 z bs) then show ?case by (rule limiting_end)
next
  case (3 z bs k) then show ?case by (rule limiting_backup)
next
  case (4 z bs n) then show ?case by (rule limiting_skip)
next
  case (5 z bs) then show ?case by (rule limiting_not_ready)
qed

text \<open>Destroying it hands the hidden bytes back.\<close>

lemma limiting_delete:
  assumes "limiting_ready ready_in z bs"
  shows "\<exists>i over. LimitingInputStream_delete ops z = Some i \<and> ready_in i []
    \<and> rest i = over @ rest (li_input z) \<and> int (length over) = max 0 (- li_limit z)
    \<and> zi_ByteCount ops i = zi_ByteCount ops (li_input z) - int (length over)"
proof (cases "li_limit z < 0")
  case True
  with assms obtain pre over where over: "ready_in (li_input z) (pre @ over)" "int (length over) = - li_limit z"
    by (auto simp: limiting_ready_def)
  from backup [OF over(1), of "- li_limit z"] over(2) True obtain i where
      "zi_BackUp ops (- li_limit z) (li_input z) = Some i" "ready_in i []"
      "rest i = drop (length (pre @ over) - nat (- li_limit z)) (pre @ over) @ rest (li_input z)"
      "zi_ByteCount ops i = zi_ByteCount ops (li_input z) + li_limit z" by auto
  moreover have "nat (- li_limit z) = length over" using over(2) by simp
  ultimately show ?thesis
    using True over(2) by (intro exI [of _ i] exI [of _ over]) (simp add: LimitingInputStream_delete_def)
next
  case False
  with assms show ?thesis
    by (intro exI [of _ "li_input z"] exI [of _ "[]"])
      (auto simp: LimitingInputStream_delete_def limiting_ready_def intro: not_ready)
qed

end

subsection \<open>ConcatenatingInputStream\<close>

text \<open>The array \<open>streams_\<close> of \<open>stream_count_\<close> pointers is the list of the streams left.\<close>

record 'i concatenating_input =
  cn_streams :: "'i list"
  cn_bytes_retired :: int

definition ConcatenatingInputStream_new :: "'i list \<Rightarrow> 'i concatenating_input" where
  "ConcatenatingInputStream_new streams = \<lparr>cn_streams = streams, cn_bytes_retired = 0\<rparr>"

fun concatenating_next ::
    "'i zero_copy_input_ops \<Rightarrow> 'i list \<Rightarrow> int \<Rightarrow> (byte list option \<times> 'i concatenating_input) option" where
  \<comment> \<open>the loop of \<open>Next\<close>\<close>
  "concatenating_next ops [] retired = Some (None, \<lparr>cn_streams = [], cn_bytes_retired = retired\<rparr>)"
| "concatenating_next ops (z # zs) retired =
     do { (r, z) \<leftarrow> zi_Next ops z;
          case r of
            Some b \<Rightarrow> Some (Some b, \<lparr>cn_streams = z # zs, cn_bytes_retired = retired\<rparr>)
          | None \<Rightarrow> concatenating_next ops zs (retired + zi_ByteCount ops z) }"

definition ConcatenatingInputStream_Next ::
    "'i zero_copy_input_ops \<Rightarrow> 'i concatenating_input \<Rightarrow> (byte list option \<times> 'i concatenating_input) option" where
  "ConcatenatingInputStream_Next ops c = concatenating_next ops (cn_streams c) (cn_bytes_retired c)"

definition ConcatenatingInputStream_BackUp ::
    "'i zero_copy_input_ops \<Rightarrow> int \<Rightarrow> 'i concatenating_input \<Rightarrow> 'i concatenating_input option" where
  \<comment> \<open>without streams the call only logs\<close>
  "ConcatenatingInputStream_BackUp ops count c =
     (case cn_streams c of
        [] \<Rightarrow> Some c
      | z # zs \<Rightarrow> map_option (\<lambda>z. c\<lparr>cn_streams := z # zs\<rparr>) (zi_BackUp ops count z))"

fun concatenating_skip ::
    "'i zero_copy_input_ops \<Rightarrow> int \<Rightarrow> 'i list \<Rightarrow> int \<Rightarrow> (bool \<times> 'i concatenating_input) option" where
  \<comment> \<open>the loop of \<open>Skip\<close>\<close>
  "concatenating_skip ops count [] retired = Some (False, \<lparr>cn_streams = [], cn_bytes_retired = retired\<rparr>)"
| "concatenating_skip ops count (z # zs) retired =
     (let target_byte_count = zi_ByteCount ops z + count
      in do { (ok, z) \<leftarrow> zi_Skip ops count z;
              if ok then Some (True, \<lparr>cn_streams = z # zs, cn_bytes_retired = retired\<rparr>)
              else
                let final_byte_count = zi_ByteCount ops z
                in concatenating_skip ops (target_byte_count - final_byte_count) zs (retired + final_byte_count) })"

definition ConcatenatingInputStream_Skip ::
    "'i zero_copy_input_ops \<Rightarrow> int \<Rightarrow> 'i concatenating_input \<Rightarrow> (bool \<times> 'i concatenating_input) option" where
  "ConcatenatingInputStream_Skip ops count c = concatenating_skip ops count (cn_streams c) (cn_bytes_retired c)"

definition ConcatenatingInputStream_ByteCount :: "'i zero_copy_input_ops \<Rightarrow> 'i concatenating_input \<Rightarrow> int" where
  "ConcatenatingInputStream_ByteCount ops c =
     (case cn_streams c of
        [] \<Rightarrow> cn_bytes_retired c
      | z # zs \<Rightarrow> cn_bytes_retired c + zi_ByteCount ops z)"

definition concatenating_input_ops :: "'i zero_copy_input_ops \<Rightarrow> 'i concatenating_input zero_copy_input_ops" where
  "concatenating_input_ops ops =
     \<lparr>zi_Next = ConcatenatingInputStream_Next ops, zi_BackUp = ConcatenatingInputStream_BackUp ops,
      zi_Skip = ConcatenatingInputStream_Skip ops, zi_ByteCount = ConcatenatingInputStream_ByteCount ops\<rparr>"

lemmas concatenating_input_defs = concatenating_input_ops_def ConcatenatingInputStream_Next_def
  ConcatenatingInputStream_BackUp_def ConcatenatingInputStream_Skip_def ConcatenatingInputStream_ByteCount_def

text \<open>The streams after the first have not been touched.\<close>

definition concatenating_ready ::
    "'i zero_copy_input_ops \<Rightarrow> ('i \<Rightarrow> byte list \<Rightarrow> bool) \<Rightarrow> 'i concatenating_input \<Rightarrow> byte list \<Rightarrow> bool" where
  "concatenating_ready ops ready_in c bs \<longleftrightarrow>
     (case cn_streams c of
        [] \<Rightarrow> bs = []
      | z # zs \<Rightarrow> ready_in z bs \<and> (\<forall>y \<in> set zs. ready_in y [] \<and> zi_ByteCount ops y = 0))"

definition concatenating_rest :: "('i \<Rightarrow> byte list) \<Rightarrow> 'i concatenating_input \<Rightarrow> byte list" where
  "concatenating_rest rest c = concat (map rest (cn_streams c))"

context zero_copy_input
begin

abbreviation "untouched zs \<equiv> \<forall>y \<in> set zs. ready_in y [] \<and> zi_ByteCount ops y = 0"

lemma concatenating_tail:
  "untouched zs \<Longrightarrow> concatenating_ready ops ready_in \<lparr>cn_streams = zs, cn_bytes_retired = r\<rparr> []"
  by (cases zs) (auto simp: concatenating_ready_def)

lemma concatenating_tail_count:
  "untouched zs \<Longrightarrow> ConcatenatingInputStream_ByteCount ops \<lparr>cn_streams = zs, cn_bytes_retired = r\<rparr> = r"
  by (cases zs) (auto simp: ConcatenatingInputStream_ByteCount_def)

lemma concatenating_next_block:
  "concatenating_ready ops ready_in \<lparr>cn_streams = zs, cn_bytes_retired = r\<rparr> bs \<Longrightarrow> concat (map rest zs) \<noteq> []
    \<Longrightarrow> \<exists>b c'. concatenating_next ops zs r = Some (Some b, c') \<and> b \<noteq> [] \<and> concatenating_ready ops ready_in c' b
      \<and> concat (map rest zs) = b @ concatenating_rest rest c'
      \<and> ConcatenatingInputStream_ByteCount ops c'
        = ConcatenatingInputStream_ByteCount ops \<lparr>cn_streams = zs, cn_bytes_retired = r\<rparr> + int (length b)"
proof (induction zs arbitrary: r bs)
  case (Cons z zs)
  then have z: "ready_in z bs" "untouched zs" by (auto simp: concatenating_ready_def)
  show ?case
  proof (cases "rest z = []")
    case False
    from next_block [OF z(1) False] z(2) show ?thesis
      by (auto simp: concatenating_ready_def concatenating_rest_def ConcatenatingInputStream_ByteCount_def)
  next
    case True
    from next_end [OF z(1) True] obtain z' where z': "zi_Next ops z = Some (None, z')"
        "zi_ByteCount ops z' = zi_ByteCount ops z" by blast
    from Cons.IH [OF concatenating_tail [OF z(2)], of "r + zi_ByteCount ops z"] Cons.prems(2) True z' z(2)
    show ?thesis
      by (simp add: concatenating_tail_count) (simp add: ConcatenatingInputStream_ByteCount_def)
  qed
qed simp

lemma concatenating_end:
  "concatenating_ready ops ready_in \<lparr>cn_streams = zs, cn_bytes_retired = r\<rparr> bs \<Longrightarrow> concat (map rest zs) = []
    \<Longrightarrow> \<exists>c'. concatenating_next ops zs r = Some (None, c') \<and> concatenating_ready ops ready_in c' []
      \<and> concatenating_rest rest c' = []
      \<and> ConcatenatingInputStream_ByteCount ops c'
        = ConcatenatingInputStream_ByteCount ops \<lparr>cn_streams = zs, cn_bytes_retired = r\<rparr>"
proof (induction zs arbitrary: r bs)
  case Nil
  then show ?case
    by (simp add: concatenating_ready_def concatenating_rest_def ConcatenatingInputStream_ByteCount_def)
next
  case (Cons z zs)
  then have z: "ready_in z bs" "untouched zs" "rest z = []" by (auto simp: concatenating_ready_def)
  from next_end [OF z(1,3)] obtain z' where z': "zi_Next ops z = Some (None, z')"
      "zi_ByteCount ops z' = zi_ByteCount ops z" by blast
  from Cons.IH [OF concatenating_tail [OF z(2)], of "r + zi_ByteCount ops z"] Cons.prems(2) z' z(2)
  show ?case
    by (simp add: concatenating_tail_count) (simp add: ConcatenatingInputStream_ByteCount_def)
qed

lemma concatenating_skips:
  "concatenating_ready ops ready_in \<lparr>cn_streams = zs, cn_bytes_retired = r\<rparr> bs \<Longrightarrow> 0 \<le> n
    \<Longrightarrow> \<exists>ok c'. concatenating_skip ops n zs r = Some (ok, c')
      \<and> (0 < n \<or> concat (map rest zs) \<noteq> [] \<longrightarrow> ok = (n \<le> int (length (concat (map rest zs)))))
      \<and> concatenating_ready ops ready_in c' [] \<and> concatenating_rest rest c' = drop (nat n) (concat (map rest zs))
      \<and> ConcatenatingInputStream_ByteCount ops c'
        = ConcatenatingInputStream_ByteCount ops \<lparr>cn_streams = zs, cn_bytes_retired = r\<rparr>
          + min n (int (length (concat (map rest zs))))"
proof (induction zs arbitrary: r bs n)
  case Nil
  then show ?case
    by (intro exI [of _ False])
      (simp add: concatenating_ready_def concatenating_rest_def ConcatenatingInputStream_ByteCount_def)
next
  case (Cons z zs)
  then have z: "ready_in z bs" "untouched zs" by (auto simp: concatenating_ready_def)
  from skip [OF z(1) Cons.prems(2)] obtain ok z' where z': "zi_Skip ops n z = Some (ok, z')"
      "0 < n \<or> rest z \<noteq> [] \<longrightarrow> ok = (n \<le> int (length (rest z)))" "ready_in z' []" "rest z' = drop (nat n) (rest z)"
      "zi_ByteCount ops z' = zi_ByteCount ops z + min n (int (length (rest z)))" by blast
  show ?case
  proof (cases ok)
    case True
    with z'(2) Cons.prems(2) have "n \<le> int (length (rest z))" by (cases "rest z = [] \<and> n = 0") auto
    with True z' z(2) show ?thesis
      by (auto simp: concatenating_ready_def concatenating_rest_def ConcatenatingInputStream_ByteCount_def Let_def)
  next
    case False
    let ?m = "n - int (length (rest z))"
    have m: "0 \<le> ?m" "0 < n \<or> rest z \<noteq> [] \<longrightarrow> 0 < ?m"
      using False z'(2) Cons.prems(2) by auto
    then have count: "zi_ByteCount ops z' = zi_ByteCount ops z + int (length (rest z))"
        "zi_ByteCount ops z + n - zi_ByteCount ops z' = ?m"
      using z'(5) by auto
    from Cons.IH [OF concatenating_tail [OF z(2)] m(1), of "r + zi_ByteCount ops z'"] obtain ok' c' where
        c': "concatenating_skip ops ?m zs (r + zi_ByteCount ops z') = Some (ok', c')"
        "0 < ?m \<or> concat (map rest zs) \<noteq> [] \<longrightarrow> ok' = (?m \<le> int (length (concat (map rest zs))))"
        "concatenating_ready ops ready_in c' []" "concatenating_rest rest c' = drop (nat ?m) (concat (map rest zs))"
        "ConcatenatingInputStream_ByteCount ops c' = r + zi_ByteCount ops z' + min ?m (int (length (concat (map rest zs))))"
      unfolding concatenating_tail_count [OF z(2)] by blast
    have "concatenating_skip ops n (z # zs) r = Some (ok', c')"
      using False c'(1) by (simp add: z'(1) Let_def count(2))
    moreover have "0 < n \<or> concat (map rest (z # zs)) \<noteq> [] \<longrightarrow> ok' = (n \<le> int (length (concat (map rest (z # zs)))))"
      using c'(2) m by (cases "0 < n \<or> rest z \<noteq> []") auto
    moreover have "drop (nat n) (concat (map rest (z # zs))) = drop (nat ?m) (concat (map rest zs))"
      using m(1) by (simp add: nat_diff_distrib)
    moreover have "ConcatenatingInputStream_ByteCount ops c'
        = ConcatenatingInputStream_ByteCount ops \<lparr>cn_streams = z # zs, cn_bytes_retired = r\<rparr>
          + min n (int (length (concat (map rest (z # zs)))))"
      using c'(5) m(1) by (simp add: count(1)) (simp add: ConcatenatingInputStream_ByteCount_def min_def)
    ultimately show ?thesis using c'(3,4) by auto
  qed
qed

lemma concatenating: "zero_copy_input (concatenating_input_ops ops) (concatenating_ready ops ready_in)
    (concatenating_rest rest)"
proof (unfold_locales, goal_cases)
  case (1 c bs)
  then show ?case
    using concatenating_next_block [of "cn_streams c" "cn_bytes_retired c" bs]
    by (cases c) (simp add: concatenating_input_ops_def ConcatenatingInputStream_Next_def concatenating_rest_def)
next
  case (2 c bs)
  then show ?case
    using concatenating_end [of "cn_streams c" "cn_bytes_retired c" bs]
    by (cases c) (simp add: concatenating_input_ops_def ConcatenatingInputStream_Next_def concatenating_rest_def)
next
  case (3 c bs k)
  then obtain z zs where c: "cn_streams c = z # zs" "ready_in z bs" "untouched zs"
    by (cases "cn_streams c") (auto simp: concatenating_ready_def)
  from backup [OF c(2) 3(2,3)] c show ?case
    by (auto simp: concatenating_input_defs concatenating_ready_def concatenating_rest_def)
next
  case (4 c bs n)
  then show ?case
    using concatenating_skips [of "cn_streams c" "cn_bytes_retired c" bs n]
    by (cases c) (simp add: concatenating_input_ops_def ConcatenatingInputStream_Skip_def concatenating_rest_def)
next
  case (5 c bs)
  then show ?case by (auto simp: concatenating_ready_def split: list.splits intro: not_ready)
qed

end

interpretation limited_array: zero_copy_input "limiting_input_ops array_input_ops" "limiting_ready array_ready"
  "limiting_rest array_rest"
  by (rule array_in.limiting)

interpretation concatenated_limited: zero_copy_input "concatenating_input_ops (limiting_input_ops array_input_ops)"
  "concatenating_ready (limiting_input_ops array_input_ops) (limiting_ready array_ready)"
  "concatenating_rest (limiting_rest array_rest)"
  by (rule limited_array.concatenating)

interpretation limited_istream: zero_copy_input "limiting_input_ops istream_input_ops"
  "limiting_ready (copying_ready istream_source)" "limiting_rest (copying_rest istream_source)"
  unfolding istream_input_ops_copying by (rule istream_in.default_skip.adaptor.limiting)

end
