(* ===== verification/InputProps.thy ===== *)
theory InputProps
  imports InStreams MessageProps
begin

text \<open>
  The input streams put together: what a \<open>LimitingInputStream\<close> takes off another stream and
  leaves on it, and messages parsed from the blocks of a stream.
\<close>

subsection \<open>Positions\<close>

text \<open>
  A stream that has delivered \<open>whole\<close> from the count \<open>c0\<close> on: the same contract with the position
  tied to the bytes.
\<close>

definition tracks :: "byte list \<Rightarrow> int \<Rightarrow> int \<Rightarrow> byte list \<Rightarrow> byte list \<Rightarrow> bool" where
  "tracks whole c0 count bs rest \<longleftrightarrow> (\<exists>pre. whole = pre @ bs @ rest \<and> int (length pre + length bs) = count - c0)"

context zero_copy_input
begin

lemma tracked:
  "zero_copy_input ops (\<lambda>z bs. ready_in z bs \<and> tracks whole c0 (zi_ByteCount ops z) bs (rest z)) rest"
proof (unfold_locales, goal_cases)
  case (1 z bs)
  then obtain pre where t: "whole = pre @ bs @ rest z" "int (length pre + length bs) = zi_ByteCount ops z - c0"
    by (auto simp: tracks_def)
  obtain b z' where z': "zi_Next ops z = Some (Some b, z')" "b \<noteq> []" "ready_in z' b" "rest z = b @ rest z'"
    "zi_ByteCount ops z' = zi_ByteCount ops z + int (length b)"
    using next_block [of z bs] 1 by blast
  then have "tracks whole c0 (zi_ByteCount ops z') b (rest z')"
    using t by (auto simp: tracks_def intro!: exI [of _ "pre @ bs"])
  with z' show ?case by blast
next
  case (2 z bs)
  then obtain pre where t: "whole = pre @ bs @ rest z" "int (length pre + length bs) = zi_ByteCount ops z - c0"
    by (auto simp: tracks_def)
  obtain z' where z': "zi_Next ops z = Some (None, z')" "ready_in z' []" "rest z' = []"
    "zi_ByteCount ops z' = zi_ByteCount ops z"
    using next_end [of z bs] 2 by blast
  then have "tracks whole c0 (zi_ByteCount ops z') [] (rest z')"
    using t 2 by (auto simp: tracks_def intro!: exI [of _ "pre @ bs"])
  with z' show ?case by blast
next
  case (3 z bs k)
  then obtain pre where t: "whole = pre @ bs @ rest z" "int (length pre + length bs) = zi_ByteCount ops z - c0"
    by (auto simp: tracks_def)
  obtain z' where z': "zi_BackUp ops k z = Some z'" "ready_in z' []" "rest z' = drop (length bs - nat k) bs @ rest z"
    "zi_ByteCount ops z' = zi_ByteCount ops z - k"
    using backup [of z bs k] 3 by blast
  have "tracks whole c0 (zi_ByteCount ops z') [] (rest z')"
    unfolding tracks_def
    by (rule exI [of _ "pre @ take (length bs - nat k) bs"]) (use t z'(3,4) 3 in auto)
  with z' show ?case by blast
next
  case (4 z bs n)
  then obtain pre where t: "whole = pre @ bs @ rest z" "int (length pre + length bs) = zi_ByteCount ops z - c0"
    by (auto simp: tracks_def)
  obtain ok z' where z': "zi_Skip ops n z = Some (ok, z')" "0 < n \<or> rest z \<noteq> [] \<longrightarrow> ok = (n \<le> int (length (rest z)))"
    "ready_in z' []" "rest z' = drop (nat n) (rest z)"
    "zi_ByteCount ops z' = zi_ByteCount ops z + min n (int (length (rest z)))"
    using skip [of z bs n] 4 by blast
  have "tracks whole c0 (zi_ByteCount ops z') [] (rest z')"
    unfolding tracks_def
    by (rule exI [of _ "pre @ bs @ take (nat n) (rest z)"]) (use t z'(4,5) 4 in auto)
  with z' show ?case by blast
next
  case (5 z bs)
  then show ?case using not_ready [of z bs] by (fastforce simp: tracks_def)
qed

end

text \<open>The limiting stream never changes the count at which it was made.\<close>

lemma LimitingInputStream_Next_prior:
  "LimitingInputStream_Next ops z = Some (r, z') \<Longrightarrow> li_prior_bytes_read z' = li_prior_bytes_read z"
  by (cases "zi_Next ops (li_input z)") (auto simp: LimitingInputStream_Next_def Let_def split: if_splits option.splits)

lemma read_blocks_prior:
  assumes "read_blocks (limiting_input_ops ops) z = Some (ls, z')"
  shows "li_prior_bytes_read z' = li_prior_bytes_read z"
proof -
  have "limiting_input_ops ops = limiting_input_ops ops
      \<longrightarrow> li_prior_bytes_read (snd (ls, z')) = li_prior_bytes_read z"
  proof (rule read_blocks.raw_induct [where P = "\<lambda>i z r. i = limiting_input_ops ops
      \<longrightarrow> li_prior_bytes_read (snd r) = li_prior_bytes_read z", OF _ assms], intro impI)
    fix rec i and z :: "'a limiting_input" and r
    assume IH: "\<And>i z r. rec i z = Some r \<Longrightarrow> i = limiting_input_ops ops
        \<longrightarrow> li_prior_bytes_read (snd r) = li_prior_bytes_read z"
      and body: "(do { (r, z) \<leftarrow> zi_Next i z;
          case r of None \<Rightarrow> Some ([], z)
          | Some b \<Rightarrow> do { (bs, z) \<leftarrow> rec i z; Some (b # bs, z) } }) = Some r"
      and i: "i = limiting_input_ops ops"
    obtain b z1 where n: "zi_Next i z = Some (b, z1)" using body by (cases "zi_Next i z") auto
    have "li_prior_bytes_read z1 = li_prior_bytes_read z"
      using n LimitingInputStream_Next_prior [of ops z b z1] by (simp add: limiting_input_ops_def i)
    then show "li_prior_bytes_read (snd r) = li_prior_bytes_read z"
    proof (cases b)
      case (Some bs)
      then obtain q where "rec i z1 = Some q" "snd r = snd q" using body n by (auto simp: bind_eq_Some_conv)
      then show ?thesis using IH [of i z1 q] i \<open>li_prior_bytes_read z1 = li_prior_bytes_read z\<close> by simp
    qed (use body n \<open>li_prior_bytes_read z1 = li_prior_bytes_read z\<close> in auto)
  qed
  then show ?thesis by simp
qed

context zero_copy_input
begin

lemma limited_read:
  assumes z: "ready_in z []" and n: "0 \<le> n" "n \<le> int (length (rest z))"
  shows "\<exists>ls y i. read_blocks (limiting_input_ops ops) (LimitingInputStream_new ops z n) = Some (ls, y)
     \<and> concat ls = take (nat n) (rest z) \<and> LimitingInputStream_delete ops y = Some i
     \<and> ready_in i [] \<and> rest i = drop (nat n) (rest z) \<and> zi_ByteCount ops i = zi_ByteCount ops z + n"
proof -
  let ?y = "LimitingInputStream_new ops z n"
  let ?R = "\<lambda>x bs. ready_in x bs \<and> tracks (rest z) (zi_ByteCount ops z) (zi_ByteCount ops x) bs (rest x)"
  note T = tracked [of "rest z" "zi_ByteCount ops z"]
  have "limiting_ready ?R ?y []"
    using z n by (simp add: limiting_ready_def LimitingInputStream_new_def tracks_def)
  from zero_copy_input.read_blocks_all [OF zero_copy_input.limiting [OF T] this]
  obtain ls y where y: "read_blocks (limiting_input_ops ops) ?y = Some (ls, y)" "concat ls = limiting_rest rest ?y"
    "limiting_ready ?R y []"
    "LimitingInputStream_ByteCount ops y = LimitingInputStream_ByteCount ops ?y + int (length (limiting_rest rest ?y))"
    by (auto simp: limiting_input_ops_def)
  from zero_copy_input.limiting_delete [OF T y(3)] obtain i and over :: "byte list" where
    i: "LimitingInputStream_delete ops y = Some i" "?R i []" "int (length over) = max 0 (- li_limit y)"
    "zi_ByteCount ops i = zi_ByteCount ops (li_input y) - int (length over)" by blast
  have lr: "limiting_rest rest ?y = take (nat n) (rest z)" "LimitingInputStream_ByteCount ops ?y = 0"
    using n by (simp_all add: limiting_rest_def LimitingInputStream_new_def LimitingInputStream_ByteCount_def)
  have count: "zi_ByteCount ops i = zi_ByteCount ops z + n"
    using y(4) lr i(3,4) n read_blocks_prior [OF y(1)]
    by (auto simp: LimitingInputStream_ByteCount_def LimitingInputStream_new_def split: if_splits)
  then obtain pre where "rest z = pre @ rest i" "int (length pre) = n"
    using i(2) by (auto simp: tracks_def)
  then have "rest i = drop (nat n) (rest z)" by auto
  then show ?thesis using y(1,2) lr(1) i(1,2) count by (intro exI [of _ ls] exI [of _ y] exI [of _ i]) simp
qed

end

subsection \<open>Parsing a stream of blocks\<close>

lemma block_decoder:
  assumes "int (length (concat input)) \<le> INT_MAX"
  obtains s where "CodedInputStream_new input = Some s" "ci_inv s" "CurrentPosition s = 0"
    "avail s = take (nat kDefaultTotalBytesLimit) (concat input)" "ci_current_limit s = INT_MAX"
    "ci_total_bytes_limit s = kDefaultTotalBytesLimit" "ci_recursion_depth s = 0" "ci_recursion_limit s = 100"
proof -
  let ?s = "fresh_input input"
  have inv: "ci_inv ?s" "BufferSize ?s = 0" "avail ?s = take (nat kDefaultTotalBytesLimit) (concat input)"
    "CurrentPosition ?s = 0"
    using assms by (auto simp: fresh_input_def ci_inv_def avail_def closest_limit_def CurrentPosition_def
      BufferSize_def ci_raw_def pending_def kDefaultTotalBytesLimit_def INT_MAX_def)
  obtain ok s' where s': "Refresh ?s = Some (ok, s')" "adv 0 ?s s'"
    using inv(1,2) by (rule Refresh_cases) blast
  then have "ci_frame ?s s'" "CurrentPosition s' = 0" using inv(4) by (simp_all add: adv_def)
  then show thesis
    by (intro that [of s'])
       (use s' adv_inv [OF s'(2)] adv_avail [OF s'(2)] inv(3) in
         \<open>simp_all add: CodedInputStream_new_def fresh_input_def ci_frame_def default_recursion_limit_def\<close>)
qed

context wire_message
begin

lemma parse_bounded_blocks:
  fixes m m0
  assumes "wf m" "mc_ByteSize mc m \<le> kDefaultTotalBytesLimit"
    and "concat input = mc_SerializeWithCachedSizesToArray mc m @ behind" "int (length (concat input)) \<le> INT_MAX"
  defines "r \<equiv> merge_from m (mc_Clear mc m0)"
  shows "ParseFromBoundedZeroCopyStream mc (parse_fuel (length (concat input))) input (mc_ByteSize mc m) m0
    = Some (mc_IsInitialized mc r, r)"
proof -
  let ?data = "mc_SerializeWithCachedSizesToArray mc m" and ?n = "mc_ByteSize mc m"
  have n: "?n = int (length ?data)" by (simp add: size_exact)
  obtain s where s: "CodedInputStream_new input = Some s" "ci_inv s" "CurrentPosition s = 0"
    "avail s = take (nat kDefaultTotalBytesLimit) (concat input)" "ci_current_limit s = INT_MAX"
    "ci_total_bytes_limit s = kDefaultTotalBytesLimit" "ci_recursion_depth s = 0" "ci_recursion_limit s = 100"
    using block_decoder [OF assms(4)] .
  let ?s = "snd (PushLimit ?n s)"
  have fits: "nat ?n \<le> length (avail s)" using assms(2) by (simp add: s(4) assms(3) n)
  have limit: "ci_current_limit ?s = ?n"
    using assms(2) by (simp add: PushLimit_eq pushed_limit_def s(3,5) n kDefaultTotalBytesLimit_def INT_MAX_def)
  have ready: "ready ?s"
    using PushLimit_inv [OF s(2)] assms(2) by (simp add: ready_def limit s(6,7))
  have avail: "avail ?s = ?data"
    using PushLimit_avail [OF s(2) _ fits] assms(2) by (simp add: s(4) assms(3) n)
  obtain s' where s': "mc_MergePartialFromCodedStream mc (parse_fuel (length (concat input))) (mc_Clear mc m0) ?s
      = Some ((True, r), s')" "adv (length ?data) ?s s'" "ci_legitimate_message_end s'"
    unfolding r_def
    by (rule merges_use [OF merge_serialized [OF assms(1), of "mc_Clear mc m0"] ready _ avail,
          of "parse_fuel (length (concat input))"])
       (simp_all add: s(7,8) parse_fuel_def assms(3))
  have end_limit: "ci_current_limit s' = ci_current_limit ?s"
    and position: "CurrentPosition s' = CurrentPosition s + int (length ?data)"
    using s'(2) by (simp_all add: adv_def ci_frame_def)
  have "ci_current_limit s' = ?n" using end_limit limit by (rule trans)
  moreover have "CurrentPosition s' = ?n" using position by (simp add: s(3) n)
  ultimately have "BytesUntilLimit s' = 0"
    using assms(2) by (simp add: BytesUntilLimit_def kDefaultTotalBytesLimit_def INT_MAX_def)
  then show ?thesis
    using s'(1,3) by (simp add: ParseFromBoundedZeroCopyStream_def s(1) ParseFromCodedStream_def
        MergeFromCodedStream_def ConsumedEntireMessage_def Let_def)
qed

end

text \<open>
  C6: a message framed by its length travels over the stream classes. The encoding of an
  operation stands in front of other bytes in an \<open>istream\<close>; an \<open>IstreamInputStream\<close> with any
  block size reads it, a \<open>LimitingInputStream\<close> cuts it off. Reading the limited stream to its end
  terminates and gives blocks that \<open>ParseFromBoundedZeroCopyStream\<close> parses to a copy of the operation;
  destroying the limited stream hands back what it overread, so that the other stream goes on
  exactly behind the message, with the exact byte count, and reading it to its end terminates too.
\<close>
theorem framed_message_over_streams:
  assumes "TeecOperation_wf 100 op" "TeecOperation_ByteSize op \<le> kDefaultTotalBytesLimit"
    and "istream_source s = TeecOperation_SerializeWithCachedSizesToArray op @ behind"
  shows "\<exists>ls y i ls' i'. read_blocks (limiting_input_ops istream_input_ops)
         (LimitingInputStream_new istream_input_ops (CopyingInputStreamAdaptor_new s block) (TeecOperation_ByteSize op))
         = Some (ls, y)
     \<and> ParseFromBoundedZeroCopyStream TeecOperation_class (parse_fuel (length (concat ls))) ls
           (TeecOperation_ByteSize op) TeecOperation_new
         = Some (TeecOperation_IsInitialized op, TeecOperation_CopyFrom op TeecOperation_new)
     \<and> LimitingInputStream_delete istream_input_ops y = Some i
     \<and> IstreamInputStream_ByteCount i = TeecOperation_ByteSize op
     \<and> read_blocks istream_input_ops i = Some (ls', i') \<and> concat ls' = behind"
proof -
  let ?z = "CopyingInputStreamAdaptor_new s block" and ?n = "TeecOperation_ByteSize op"
  have n: "?n = int (length (TeecOperation_SerializeWithCachedSizesToArray op))"
    by (simp add: TeecOperation_ByteSize_length)
  have z: "copying_ready istream_source ?z []" "copying_rest istream_source ?z = istream_source s"
    by (auto simp: copying_ready_def copying_rest_def CopyingInputStreamAdaptor_new_def kDefaultBlockSize_def
        ck_block_def)
  note A = istream_in.default_skip.adaptor.zero_copy_input_axioms [folded istream_input_ops_copying]
  obtain ls y i where r: "read_blocks (limiting_input_ops istream_input_ops) (LimitingInputStream_new istream_input_ops ?z ?n)
      = Some (ls, y)" "concat ls = TeecOperation_SerializeWithCachedSizesToArray op"
    "LimitingInputStream_delete istream_input_ops y = Some i" "copying_ready istream_source i []"
    "copying_rest istream_source i = behind" "zi_ByteCount istream_input_ops i = zi_ByteCount istream_input_ops ?z + ?n"
    using zero_copy_input.limited_read [OF A z(1), of ?n] z(2) assms(3) by (auto simp: n)
  obtain ls' i' where r': "read_blocks istream_input_ops i = Some (ls', i')" "concat ls' = behind"
    using zero_copy_input.read_blocks_all [OF A r(4)] r(5) by auto
  have "IstreamInputStream_ByteCount i = ?n"
    using r(6) by (simp add: istream_input_ops_def IstreamInputStream_ByteCount_def CopyingInputStreamAdaptor_ByteCount_def
        CopyingInputStreamAdaptor_new_def)
  moreover have "ParseFromBoundedZeroCopyStream TeecOperation_class (parse_fuel (length (concat ls))) ls
           (TeecOperation_ByteSize op) TeecOperation_new
      = Some (TeecOperation_IsInitialized op, TeecOperation_CopyFrom op TeecOperation_new)"
    using operation_msg.parse_bounded_blocks [OF assms(1), of ls "[]" TeecOperation_new] assms(2) r(2)
    by (simp add: message_classes TeecOperation_CopyFrom_def copy_simps n kDefaultTotalBytesLimit_def INT_MAX_def)
  ultimately show ?thesis using r(1,3) r' by blast
qed

definition sample_istream :: istream where
  "sample_istream = \<lparr>is_rest = TeecOperation_SerializeWithCachedSizesToArray sample_operation @ [1, 2, 3],
     is_eof = False, is_fail = False, is_broken = False\<rparr>"

lemma framed_message_over_streams_witness:
  "\<exists>ls y i ls' i'. read_blocks (limiting_input_ops istream_input_ops)
         (LimitingInputStream_new istream_input_ops (CopyingInputStreamAdaptor_new sample_istream 5)
            (TeecOperation_ByteSize sample_operation)) = Some (ls, y)
     \<and> LimitingInputStream_delete istream_input_ops y = Some i
     \<and> read_blocks istream_input_ops i = Some (ls', i') \<and> concat ls' = [1, 2, 3]"
  using framed_message_over_streams [OF sample_operation_wf sample_operation_size, of sample_istream "[1, 2, 3]" 5]
  by (auto simp: sample_istream_def istream_source_def)

end
