(* ===== verification/LibteeApi.thy ===== *)
theory LibteeApi
  imports GPCodec "HOL-Library.AList"
begin

text \<open>
  What \<^verbatim>\<open>LibteeWrapper.cpp\<close> sees of the world: the C heap, the structs it hands to libtee and
  the GlobalPlatform TEE client API. libtee (\<^verbatim>\<open>tee_client_api.h\<close>) is no part of the
  repository, so its functions, constants and macros are the fields of \<open>libtee\<close>, a parameter of
  every definition that uses them; so are \<open>sizeof(void*)\<close> and whether \<open>malloc\<close> succeeds.
\<close>

subsection \<open>Constants of \<open>LibteeeWrapperConstants.h\<close>\<close>

definition VALUE_INPUT :: i32 where "VALUE_INPUT = 0x1"
definition VALUE_OUTPUT :: i32 where "VALUE_OUTPUT = 0x2"
definition VALUE_INOUT :: i32 where "VALUE_INOUT = 0x3"
definition MEMREF_INPUT :: i32 where "MEMREF_INPUT = 0xD"
definition MEMREF_OUTPUT :: i32 where "MEMREF_OUTPUT = 0xE"
definition MEMREF_INOUT :: i32 where "MEMREF_INOUT = 0xF"

lemmas java_constants = VALUE_INPUT_def VALUE_OUTPUT_def VALUE_INOUT_def
  MEMREF_INPUT_def MEMREF_OUTPUT_def MEMREF_INOUT_def

subsection \<open>Heap\<close>

type_synonym addr = nat

record TEEC_SharedMemory =
  c_buffer :: addr
  c_size :: nat
  c_flags :: u32

text \<open>The blocks that \<open>malloc\<close> returned and nobody freed: structs and byte buffers.\<close>

record heap =
  h_structs :: "(addr \<times> TEEC_SharedMemory) list"
  h_buffers :: "(addr \<times> byte list) list"
  h_next :: addr

definition malloc_struct :: "TEEC_SharedMemory \<Rightarrow> heap \<Rightarrow> addr \<times> heap" where
  "malloc_struct x h = (h_next h, h\<lparr>h_structs := (h_next h, x) # h_structs h, h_next := h_next h + 1\<rparr>)"

definition malloc_buffer :: "byte list \<Rightarrow> heap \<Rightarrow> addr \<times> heap" where
  "malloc_buffer bs h = (h_next h, h\<lparr>h_buffers := (h_next h, bs) # h_buffers h, h_next := h_next h + 1\<rparr>)"

text \<open>Freeing what is not allocated is undefined.\<close>

definition free_struct :: "addr \<Rightarrow> heap \<Rightarrow> heap option" where
  "free_struct a h =
     (if map_of (h_structs h) a = None then None
      else Some (h\<lparr>h_structs := AList.delete a (h_structs h)\<rparr>))"

definition free_buffer :: "addr \<Rightarrow> heap \<Rightarrow> heap option" where
  "free_buffer a h =
     (if map_of (h_buffers h) a = None then None
      else Some (h\<lparr>h_buffers := AList.delete a (h_buffers h)\<rparr>))"

definition write_buffer :: "addr \<Rightarrow> byte list \<Rightarrow> heap \<Rightarrow> heap" where
  "write_buffer a bs h = h\<lparr>h_buffers := AList.update a bs (h_buffers h)\<rparr>"

text \<open>\<open>memcpy(dst, src, n)\<close> from readable memory \<open>src\<close> to the start of a buffer.\<close>

definition memcpy_to :: "addr \<Rightarrow> byte list \<Rightarrow> nat \<Rightarrow> heap \<Rightarrow> heap option" where
  "memcpy_to dst src n h =
     do { old \<leftarrow> map_of (h_buffers h) dst;
          if n \<le> length src \<and> n \<le> length old
          then Some (write_buffer dst (take n src @ drop n old) h) else None }"

definition c_str :: "byte list \<Rightarrow> byte list" where
  "c_str s = s @ [0]"

subsection \<open>\<open>std::unordered_map\<close>\<close>

definition emplace :: "'k \<Rightarrow> 'v \<Rightarrow> ('k \<times> 'v) list \<Rightarrow> ('k \<times> 'v) list" where
  "emplace k v m = (if map_of m k = None then (k, v) # m else m)"

definition erase :: "'k \<Rightarrow> ('k \<times> 'v) list \<Rightarrow> ('k \<times> 'v) list" where
  "erase k m = AList.delete k m"

subsection \<open>The client API\<close>

record TEEC_UUID =
  timeLow :: u32
  timeMid :: "16 word"
  timeHiAndVersion :: "16 word"
  clockSeqAndNode :: "byte list"

datatype TEEC_Parameter =
    Param_value u32 u32                   \<comment> \<open>\<open>value.a\<close>, \<open>value.b\<close>\<close>
  | Param_memref "addr option" nat int    \<comment> \<open>\<open>memref.parent\<close>, \<open>memref.size\<close>, \<open>memref.offset\<close>\<close>

record TEEC_Operation =
  started :: u32
  paramTypes :: u32
  params :: "TEEC_Parameter list"

definition TEEC_Operation_zero :: TEEC_Operation where
  \<comment> \<open>\<open>TEEC_Operation teec_operation = {0}\<close>\<close>
  "TEEC_Operation_zero = \<lparr>started = 0, paramTypes = 0, params = replicate 4 (Param_value 0 0)\<rparr>"

record ('c, 's, 'l) libtee =
  TEEC_InitializeContext :: "string option \<Rightarrow> 'c \<Rightarrow> 'l \<Rightarrow> u32 \<times> 'c \<times> 'l"
  TEEC_FinalizeContext :: "'c \<Rightarrow> 'l \<Rightarrow> 'l"
  TEEC_RegisterSharedMemory :: "'c \<Rightarrow> addr \<Rightarrow> heap \<Rightarrow> 'l \<Rightarrow> u32 \<times> heap \<times> 'l"
  TEEC_ReleaseSharedMemory :: "addr \<Rightarrow> heap \<Rightarrow> 'l \<Rightarrow> heap \<times> 'l"
  TEEC_OpenSession :: "'c \<Rightarrow> 's \<Rightarrow> TEEC_UUID \<Rightarrow> u32 \<Rightarrow> u32 \<Rightarrow> TEEC_Operation option \<Rightarrow> heap \<Rightarrow> 'l
                       \<Rightarrow> (u32 \<times> u32) \<times> 's \<times> TEEC_Operation option \<times> heap \<times> 'l"
  TEEC_CloseSession :: "'s \<Rightarrow> 'l \<Rightarrow> 's \<times> 'l"
  TEEC_InvokeCommand :: "'s \<Rightarrow> u32 \<Rightarrow> TEEC_Operation option \<Rightarrow> heap \<Rightarrow> 'l
                         \<Rightarrow> (u32 \<times> u32) \<times> TEEC_Operation option \<times> heap \<times> 'l"
  TEEC_RequestCancellation :: "TEEC_Operation \<Rightarrow> 'l \<Rightarrow> 'l"
  zero_context :: 'c
  TEEC_SUCCESS :: u32
  TEEC_ERROR_NO_DATA :: u32
  TEEC_ERROR_OUT_OF_MEMORY :: u32
  TEEC_ERROR_BAD_PARAMETERS :: u32
  TEEC_ORIGIN_API :: u32
  TEEC_MEM_OUTPUT :: u32
  TEEC_NONE :: u32
  TEEC_VALUE_INPUT :: u32
  TEEC_VALUE_OUTPUT :: u32
  TEEC_VALUE_INOUT :: u32
  TEEC_MEMREF_WHOLE :: u32
  TEEC_MEMREF_PARTIAL_INPUT :: u32
  TEEC_MEMREF_PARTIAL_OUTPUT :: u32
  TEEC_MEMREF_PARTIAL_INOUT :: u32
  TEEC_PARAM_TYPES :: "u32 \<Rightarrow> u32 \<Rightarrow> u32 \<Rightarrow> u32 \<Rightarrow> u32"
  TEEC_PARAM_TYPE_GET :: "u32 \<Rightarrow> nat \<Rightarrow> u32"
  sizeof_pointer :: nat
  malloc_succeeds :: "heap \<Rightarrow> nat \<Rightarrow> bool"

end
