(* ===== verification/Wrapper.thy ===== *)
theory Wrapper
  imports LibteeApi
begin

text \<open>
  \<^verbatim>\<open>LibteeWrapper.cpp\<close>: the JNI functions between OT Guard and libtee.

  The global variables of the file are the record \<open>wrapper\<close>. A Java byte array is a byte list,
  a null reference is \<open>None\<close>; the two \<open>IntWrapper\<close> objects a call fills are part of its result.
  \<open>None\<close> as the outcome of an operation is undefined behaviour. Logging is left out.

  \<open>teecOpenSession\<close> and \<open>teecInvokeCommand\<close> publish a pointer to a local \<open>TEEC_Operation\<close> in
  \<open>operations_map\<close> so that \<open>teecRequestCancellation\<close>, on another thread, can find it. A local
  operation is an entry of \<open>w_frames\<close>, under the number of its stack frame, and each of the two
  calls is three steps: until the operation is published, the call into libtee, the rest.
\<close>

subsection \<open>State\<close>

datatype session_ptr = teec_session_ptr   \<comment> \<open>the address of the one static \<open>teec_session\<close>\<close>

record ('c, 's, 'l) wrapper =
  g_contextRecord :: 'c
  sharedmemory_map :: "(int \<times> addr) list"
  sessions_map :: "(int \<times> session_ptr) list"
  operations_map :: "(int \<times> nat) list"
  teec_session :: 's
  open_tee_socket_env_set :: bool
  w_getenv :: "string option"       \<comment> \<open>\<open>OPENTEE_SOCKET_FILE_PATH\<close>\<close>
  w_heap :: heap
  w_frames :: "(nat \<times> TEEC_Operation) list"
  w_next_frame :: nat
  w_lib :: 'l

definition find_sharedmemory_by_id :: "int \<Rightarrow> ('c, 's, 'l) wrapper \<Rightarrow> addr option" where
  "find_sharedmemory_by_id smid w = map_of (sharedmemory_map w) smid"

definition find_session_by_id :: "int \<Rightarrow> ('c, 's, 'l) wrapper \<Rightarrow> session_ptr option" where
  "find_session_by_id sid w = map_of (sessions_map w) sid"

definition deref_session :: "session_ptr \<Rightarrow> ('c, 's, 'l) wrapper \<Rightarrow> 's" where
  "deref_session p w = teec_session w"

definition remove_sharedmemory_by_id :: "int \<Rightarrow> ('c, 's, 'l) wrapper \<Rightarrow> (bool \<times> ('c, 's, 'l) wrapper) option" where
  "remove_sharedmemory_by_id smid w =
     (case find_sharedmemory_by_id smid w of
        None \<Rightarrow> Some (False, w)
      | Some sm \<Rightarrow>
          do { x \<leftarrow> map_of (h_structs (w_heap w)) sm;
               h \<leftarrow> free_buffer (c_buffer x) (w_heap w);
               h \<leftarrow> free_struct sm h;
               Some (True, w\<lparr>w_heap := h, sharedmemory_map := erase smid (sharedmemory_map w)\<rparr>) })"

subsection \<open>Context\<close>

definition preparationFunc :: "string \<Rightarrow> bool \<Rightarrow> ('c, 's, 'l) wrapper \<Rightarrow> ('c, 's, 'l) wrapper" where
  \<comment> \<open>\<open>setenv_ok\<close>: whether \<open>setenv\<close> returns 0\<close>
  "preparationFunc otSocketFilePath setenv_ok w =
     (case w_getenv w of
        None \<Rightarrow>
          if setenv_ok then w\<lparr>w_getenv := Some otSocketFilePath, open_tee_socket_env_set := True\<rparr> else w
      | Some tmpEnv \<Rightarrow> w)"

definition teecInitializeContext ::
    "('c, 's, 'l) libtee \<Rightarrow> string option \<Rightarrow> string \<Rightarrow> bool \<Rightarrow> ('c, 's, 'l) wrapper
      \<Rightarrow> u32 \<times> ('c, 's, 'l) wrapper" where
  "teecInitializeContext lt teeName otSocketFilePath setenv_ok w =
     (let w = (if \<not> open_tee_socket_env_set w then preparationFunc otSocketFilePath setenv_ok w else w);
          (tmpResult, c, l) = TEEC_InitializeContext lt teeName (g_contextRecord w) (w_lib w)
      in (tmpResult, w\<lparr>g_contextRecord := c, w_lib := l\<rparr>))"

fun clean_sharedmemory_buffer :: "(int \<times> addr) list \<Rightarrow> heap \<Rightarrow> heap option" where
  "clean_sharedmemory_buffer [] h = Some h"
| "clean_sharedmemory_buffer ((smid, sm) # m) h =
     do { x \<leftarrow> map_of (h_structs h) sm;
          h \<leftarrow> free_buffer (c_buffer x) h;
          h \<leftarrow> free_struct sm h;
          clean_sharedmemory_buffer m h }"

definition teecFinalizeContext ::
    "('c, 's, 'l) libtee \<Rightarrow> ('c, 's, 'l) wrapper \<Rightarrow> ('c, 's, 'l) wrapper option" where
  "teecFinalizeContext lt w =
     do { h \<leftarrow> clean_sharedmemory_buffer (sharedmemory_map w) (w_heap w);
          let l = TEEC_FinalizeContext lt (g_contextRecord w) (w_lib w);
          Some (w\<lparr>w_heap := h, sharedmemory_map := [], sessions_map := [],
                  g_contextRecord := zero_context lt, w_lib := l\<rparr>) }"

subsection \<open>Shared memory\<close>

definition teecRegisterSharedMemory ::
    "('c, 's, 'l) libtee \<Rightarrow> byte list option \<Rightarrow> int \<Rightarrow> ('c, 's, 'l) wrapper
      \<Rightarrow> (u32 \<times> ('c, 's, 'l) wrapper) option" where
  "teecRegisterSharedMemory lt jOTSharedMemory jSmId w =
     (case jOTSharedMemory of
        None \<Rightarrow> Some (TEEC_ERROR_NO_DATA lt, w)
      | Some data \<Rightarrow>
          do { (parsed, pbsm) \<leftarrow> ParseFromString TeecSharedMemory_class data TeecSharedMemory_new;
               let mFlag = ts_mflag pbsm;
               let mBuffer = ts_mbuffer pbsm;
               let h = w_heap w;
               if \<not> malloc_succeeds lt h 0 then Some (TEEC_ERROR_OUT_OF_MEMORY lt, w) else
               let (sm, h) = malloc_struct \<lparr>c_buffer = 0, c_size = length mBuffer, c_flags = 0\<rparr> h
               in if \<not> malloc_succeeds lt h (length mBuffer)
                  then Some (TEEC_ERROR_OUT_OF_MEMORY lt, w\<lparr>w_heap := h\<rparr>)
                  else
                    let (buffer, h) = malloc_buffer mBuffer h;
                        h = h\<lparr>h_structs := AList.update sm
                               \<lparr>c_buffer = buffer, c_size = length mBuffer, c_flags = mFlag\<rparr> (h_structs h)\<rparr>;
                        (return_code, h, l) = TEEC_RegisterSharedMemory lt (g_contextRecord w) sm h (w_lib w);
                        w = w\<lparr>w_heap := h, w_lib := l\<rparr>
                    in Some (return_code,
                             if return_code = TEEC_SUCCESS lt
                             then w\<lparr>sharedmemory_map := emplace jSmId sm (sharedmemory_map w)\<rparr> else w) })"

definition teecReleaseSharedMemory ::
    "('c, 's, 'l) libtee \<Rightarrow> int \<Rightarrow> ('c, 's, 'l) wrapper \<Rightarrow> ('c, 's, 'l) wrapper option" where
  "teecReleaseSharedMemory lt jsmId w =
     (case find_sharedmemory_by_id jsmId w of
        None \<Rightarrow> Some w
      | Some sm \<Rightarrow>
          let (h, l) = TEEC_ReleaseSharedMemory lt sm (w_heap w) (w_lib w)
          in do { (removed, w) \<leftarrow> remove_sharedmemory_by_id jsmId (w\<lparr>w_heap := h, w_lib := l\<rparr>);
                  Some w })"

subsection \<open>Operations: from the Java bytes to \<open>TEEC_Operation\<close>\<close>

text \<open>
  The loop of \<open>transfer_opString_to_TEEC_Operation\<close> from parameter \<open>i\<close> on; the result says
  whether it reached its end, with the type array, the operation and the heap.
\<close>

definition memref_type :: "('c, 's, 'l) libtee \<Rightarrow> TeecSharedMemoryReference \<Rightarrow> u32 \<Rightarrow> u32" where
  "memref_type lt rmr old =
     (if sint (tr_moffset rmr) > 0 then
        if tr_mflag rmr = MEMREF_INPUT then TEEC_MEMREF_PARTIAL_INPUT lt
        else if tr_mflag rmr = MEMREF_OUTPUT then TEEC_MEMREF_PARTIAL_OUTPUT lt
        else if tr_mflag rmr = MEMREF_INOUT then TEEC_MEMREF_PARTIAL_INOUT lt
        else old
      else TEEC_MEMREF_WHOLE lt)"

definition value_type :: "('c, 's, 'l) libtee \<Rightarrow> TeecValue \<Rightarrow> u32 \<Rightarrow> u32" where
  "value_type lt x old =
     (if tv_mflag x = VALUE_INPUT then TEEC_VALUE_INPUT lt
      else if tv_mflag x = VALUE_OUTPUT then TEEC_VALUE_OUTPUT lt
      else if tv_mflag x = VALUE_INOUT then TEEC_VALUE_INOUT lt
      else old)"

definition transfer_param ::
    "('c, 's, 'l) libtee \<Rightarrow> (int \<times> addr) list \<Rightarrow> nat \<Rightarrow> TeecParameter \<Rightarrow> u32 list \<Rightarrow> TEEC_Operation \<Rightarrow> heap
      \<Rightarrow> (bool \<times> u32 list \<times> TEEC_Operation \<times> heap) option" where
  \<comment> \<open>one iteration; \<open>False\<close>: the function returns false. An index past the four slots is undefined.\<close>
  "transfer_param lt sms i mparam types teec_operation h =
     (let param = TeecParameter_MergeFrom mparam TeecParameter_new
      in if tp_has_teecsharedmemoryreference param then
           let rmr = TeecSharedMemoryReference_MergeFrom (TeecParameter_get_teecsharedmemoryreference param)
                       TeecSharedMemoryReference_new;
               smId = sint (ts_mid (TeecSharedMemoryReference_get_parent rmr))
           in case map_of sms smId of
                None \<Rightarrow> Some (False, types, teec_operation, h)
              | Some sm \<Rightarrow>
                  do { x \<leftarrow> map_of (h_structs h) sm;
                       h \<leftarrow> (if ts_mflag (TeecSharedMemoryReference_get_parent rmr) \<noteq> MEMREF_OUTPUT
                             then memcpy_to (c_buffer x)
                                    (c_str (ts_mbuffer (TeecSharedMemoryReference_get_parent rmr)))
                                    (sizeof_pointer lt) h
                             else Some h);
                       if i < 4 then
                         Some (True, types[i := memref_type lt rmr (types ! i)],
                           teec_operation\<lparr>params := (params teec_operation)
                              [i := Param_memref (Some sm) (c_size x) (sint (tr_moffset rmr))]\<rparr>, h)
                       else None }
         else if tp_has_teecvalue param then
           let x = TeecValue_MergeFrom (TeecParameter_get_teecvalue param) TeecValue_new
           in if i < 4 then
                Some (True, types[i := value_type lt x (types ! i)],
                  teec_operation\<lparr>params := (params teec_operation)[i := Param_value (tv_a x) (tv_b x)]\<rparr>, h)
              else None
         else Some (True, types, teec_operation, h))"

fun transfer_params ::
    "('c, 's, 'l) libtee \<Rightarrow> (int \<times> addr) list \<Rightarrow> nat \<Rightarrow> TeecParameter list \<Rightarrow> u32 list \<Rightarrow> TEEC_Operation \<Rightarrow> heap
      \<Rightarrow> (bool \<times> u32 list \<times> TEEC_Operation \<times> heap) option" where
  "transfer_params lt sms i [] types teec_operation h = Some (True, types, teec_operation, h)"
| "transfer_params lt sms i (mparam # mparams) types teec_operation h =
     do { (ok, types, teec_operation, h) \<leftarrow> transfer_param lt sms i mparam types teec_operation h;
          if ok then transfer_params lt sms (Suc i) mparams types teec_operation h
          else Some (False, types, teec_operation, h) }"

definition transfer_opString_to_TEEC_Operation ::
    "('c, 's, 'l) libtee \<Rightarrow> (int \<times> addr) list \<Rightarrow> byte list \<Rightarrow> TEEC_Operation \<Rightarrow> heap
      \<Rightarrow> (bool \<times> TEEC_Operation \<times> heap) option" where
  "transfer_opString_to_TEEC_Operation lt sms opsInString teec_operation h =
     do { (parsed, op) \<leftarrow> ParseFromString TeecOperation_class opsInString TeecOperation_new;
          let teec_operation = teec_operation\<lparr>started := to_mstarted op\<rparr>;
          (completed, types, teec_operation, h) \<leftarrow>
            transfer_params lt sms 0 (to_mparams op) (replicate 4 (TEEC_NONE lt)) teec_operation h;
          if \<not> completed then Some (False, teec_operation, h)
          else Some (True, teec_operation\<lparr>paramTypes :=
                 TEEC_PARAM_TYPES lt (types ! 0) (types ! 1) (types ! 2) (types ! 3)\<rparr>, h) }"

definition transfer_op_to_TEEC_Operation ::
    "('c, 's, 'l) libtee \<Rightarrow> (int \<times> addr) list \<Rightarrow> byte list option \<Rightarrow> TEEC_Operation \<Rightarrow> heap
      \<Rightarrow> (TEEC_Operation \<times> heap) option" where
  "transfer_op_to_TEEC_Operation lt sms opInBytes teec_operation h =
     (case opInBytes of
        None \<Rightarrow> Some (teec_operation, h)
      | Some opsInString \<Rightarrow>
          do { (completed, teec_operation, h) \<leftarrow>
                 transfer_opString_to_TEEC_Operation lt sms opsInString teec_operation h;
               Some (teec_operation, h) })"

subsection \<open>Operations: back to the Java bytes\<close>

definition sync_value :: "nat \<Rightarrow> TEEC_Parameter \<Rightarrow> TeecOperation \<Rightarrow> TeecOperation option" where
  "sync_value i p op =
     do { mparam \<leftarrow> TeecOperation_get_mparams op i;
          case p of
            Param_memref parent sz off \<Rightarrow> None
          | Param_value a b \<Rightarrow>
              let (x, mparam) = TeecParameter_mutable_teecvalue mparam;
                  mparam = TeecParameter_put_teecvalue (TeecValue_set_a a x) mparam;
                  (x, mparam) = TeecParameter_mutable_teecvalue mparam;
                  mparam = TeecParameter_put_teecvalue (TeecValue_set_b b x) mparam
              in Some (TeecOperation_put_mparams i mparam op) }"

definition sync_memref ::
    "('c, 's, 'l) libtee \<Rightarrow> heap \<Rightarrow> nat \<Rightarrow> TEEC_Parameter \<Rightarrow> TeecOperation \<Rightarrow> TeecOperation option" where
  "sync_memref lt h i p op =
     do { mparam \<leftarrow> TeecOperation_get_mparams op i;
          let (r, mparam) = TeecParameter_mutable_teecsharedmemoryreference mparam;
          let (sm, r) = TeecSharedMemoryReference_mutable_parent r;
          case p of
            Param_value a b \<Rightarrow> None
          | Param_memref parent sz off \<Rightarrow>
              do { parent \<leftarrow> parent;
                   shared_memory \<leftarrow> map_of (h_structs h) parent;
                   sm \<leftarrow> (if c_flags shared_memory \<ge> TEEC_MEM_OUTPUT lt then
                            do { buffer \<leftarrow> map_of (h_buffers h) (c_buffer shared_memory);
                                 if c_size shared_memory \<le> length buffer then
                                   Some (TeecSharedMemory_set_mreturnsize (of_nat sz)
                                           (TeecSharedMemory_set_mbuffer (take (c_size shared_memory) buffer) sm))
                                 else None }
                          else Some sm);
                   Some (TeecOperation_put_mparams i
                           (TeecParameter_put_teecsharedmemoryreference
                              (TeecSharedMemoryReference_put_parent sm r) mparam) op) } }"

fun sync_params :: "('c, 's, 'l) libtee \<Rightarrow> heap \<Rightarrow> TEEC_Operation \<Rightarrow> nat list \<Rightarrow> TeecOperation \<Rightarrow> TeecOperation option" where
  "sync_params lt h teec_operation [] op = Some op"
| "sync_params lt h teec_operation (i # is) op =
     (let type = TEEC_PARAM_TYPE_GET lt (paramTypes teec_operation) i
      in do { op \<leftarrow>
                (if type = TEEC_VALUE_OUTPUT lt \<or> type = TEEC_VALUE_INOUT lt
                 then sync_value i (params teec_operation ! i) op
                 else if type = TEEC_MEMREF_WHOLE lt \<or> type = TEEC_MEMREF_PARTIAL_OUTPUT lt
                         \<or> type = TEEC_MEMREF_PARTIAL_INOUT lt
                 then sync_memref lt h i (params teec_operation ! i) op
                 else Some op);
              sync_params lt h teec_operation is op })"

definition transfer_TEEC_Operation_to_op ::
    "('c, 's, 'l) libtee \<Rightarrow> heap \<Rightarrow> TEEC_Operation \<Rightarrow> byte list option \<Rightarrow> byte list option option" where
  "transfer_TEEC_Operation_to_op lt h teec_operation opInBytes =
     (case opInBytes of
        None \<Rightarrow> Some None
      | Some opsInString \<Rightarrow>
          do { (parsed, op) \<leftarrow> ParseFromString TeecOperation_class opsInString TeecOperation_new;
               op \<leftarrow> sync_params lt h teec_operation [0, 1, 2, 3]
                       (TeecOperation_set_mstarted (started teec_operation) op);
               (ok, new_op) \<leftarrow> SerializeToString TeecOperation_class [] op;
               Some (Some new_op) })"

subsection \<open>Sessions\<close>

text \<open>What a call returns: the new operation bytes and the contents of the two \<open>IntWrapper\<close>s.\<close>

record call_result =
  new_op_in_bytes :: "byte list option"
  return_origin :: u32
  return_code :: u32

definition uuid_of_bits :: "u64 \<Rightarrow> u64 \<Rightarrow> TEEC_UUID" where
  "uuid_of_bits msBits lsBits =
     \<lparr>timeLow = ucast (drop_bit 32 msBits), timeMid = ucast (drop_bit 16 msBits),
      timeHiAndVersion = ucast msBits,
      clockSeqAndNode = map (\<lambda>i. ucast (drop_bit (8 * (7 - i)) lsBits)) [0..<8]\<rparr>"

text \<open>Until the operation is published: a new frame holds it, \<open>operations_map\<close> points to it.\<close>

definition begin_operation ::
    "('c, 's, 'l) libtee \<Rightarrow> byte list \<Rightarrow> int \<Rightarrow> ('c, 's, 'l) wrapper \<Rightarrow> (nat \<times> ('c, 's, 'l) wrapper) option" where
  "begin_operation lt opInBytes opHashCodeWithPid w =
     do { (teec_operation, h) \<leftarrow>
            transfer_op_to_TEEC_Operation lt (sharedmemory_map w) (Some opInBytes) TEEC_Operation_zero (w_heap w);
          let frame = w_next_frame w;
          Some (frame, w\<lparr>w_heap := h, w_frames := (frame, teec_operation) # w_frames w,
                         w_next_frame := Suc frame,
                         operations_map := emplace opHashCodeWithPid frame (operations_map w)\<rparr>) }"

text \<open>After libtee returned: unpublish, write the results back, leave the frame.\<close>

definition end_operation ::
    "('c, 's, 'l) libtee \<Rightarrow> byte list \<Rightarrow> int \<Rightarrow> nat \<Rightarrow> ('c, 's, 'l) wrapper
      \<Rightarrow> (byte list option \<times> ('c, 's, 'l) wrapper) option" where
  "end_operation lt opInBytes opHashCodeWithPid frame w =
     do { teec_operation \<leftarrow> map_of (w_frames w) frame;
          let w = w\<lparr>operations_map := erase opHashCodeWithPid (operations_map w)\<rparr>;
          new_op \<leftarrow> transfer_TEEC_Operation_to_op lt (w_heap w) teec_operation (Some opInBytes);
          Some (new_op, w\<lparr>w_frames := AList.delete frame (w_frames w)\<rparr>) }"

definition open_call ::
    "('c, 's, 'l) libtee \<Rightarrow> TEEC_UUID \<Rightarrow> u32 \<Rightarrow> u32 \<Rightarrow> nat option \<Rightarrow> ('c, 's, 'l) wrapper
      \<Rightarrow> ((u32 \<times> u32) \<times> ('c, 's, 'l) wrapper) option" where
  "open_call lt uuid connMethod connData frame w =
     (case frame of
        None \<Rightarrow>
          let (r, s, op, h, l) = TEEC_OpenSession lt (g_contextRecord w) (teec_session w) uuid connMethod connData
                                   None (w_heap w) (w_lib w)
          in Some (r, w\<lparr>teec_session := s, w_heap := h, w_lib := l\<rparr>)
      | Some frame \<Rightarrow>
          do { teec_operation \<leftarrow> map_of (w_frames w) frame;
               let (r, s, op, h, l) = TEEC_OpenSession lt (g_contextRecord w) (teec_session w) uuid connMethod connData
                                        (Some teec_operation) (w_heap w) (w_lib w);
               let teec_operation = (case op of None \<Rightarrow> teec_operation | Some x \<Rightarrow> x);
               Some (r, w\<lparr>teec_session := s, w_heap := h, w_lib := l,
                          w_frames := AList.update frame teec_operation (w_frames w)\<rparr>) })"

definition open_finish ::
    "('c, 's, 'l) libtee \<Rightarrow> int \<Rightarrow> u32 \<times> u32 \<Rightarrow> byte list option \<Rightarrow> ('c, 's, 'l) wrapper
      \<Rightarrow> call_result \<times> ('c, 's, 'l) wrapper" where
  "open_finish lt sid r new_op w =
     (let (teec_ret, teec_ret_ori) = r;
          w = (if teec_ret = TEEC_SUCCESS lt
               then w\<lparr>sessions_map := emplace sid teec_session_ptr (sessions_map w)\<rparr> else w)
      in (\<lparr>new_op_in_bytes = new_op, return_origin = teec_ret_ori, return_code = teec_ret\<rparr>, w))"

text \<open>
  \<open>uuid = None\<close> stands for an object without the two methods: the code sets the two results
  and then calls through the null method ids.
\<close>

definition teecOpenSession ::
    "('c, 's, 'l) libtee \<Rightarrow> int \<Rightarrow> (u64 \<times> u64) option \<Rightarrow> u32 \<Rightarrow> u32 \<Rightarrow> byte list option \<Rightarrow> int
      \<Rightarrow> ('c, 's, 'l) wrapper \<Rightarrow> (call_result \<times> ('c, 's, 'l) wrapper) option" where
  "teecOpenSession lt sid uuid connMethod connData opInBytes opHashCodeWithPid w =
     do { (msBits, lsBits) \<leftarrow> uuid;
          let teec_uuid = uuid_of_bits msBits lsBits;
          case opInBytes of
            Some op \<Rightarrow>
              do { (frame, w) \<leftarrow> begin_operation lt op opHashCodeWithPid w;
                   (r, w) \<leftarrow> open_call lt teec_uuid connMethod connData (Some frame) w;
                   (new_op, w) \<leftarrow> end_operation lt op opHashCodeWithPid frame w;
                   Some (open_finish lt sid r new_op w) }
          | None \<Rightarrow>
              do { (r, w) \<leftarrow> open_call lt teec_uuid connMethod connData None w;
                   Some (open_finish lt sid r None w) } }"

definition teecCloseSession :: "('c, 's, 'l) libtee \<Rightarrow> int \<Rightarrow> ('c, 's, 'l) wrapper \<Rightarrow> ('c, 's, 'l) wrapper" where
  "teecCloseSession lt sidInJni w =
     (case map_of (sessions_map w) sidInJni of
        None \<Rightarrow> w
      | Some p \<Rightarrow>
          let (s, l) = TEEC_CloseSession lt (deref_session p w) (w_lib w)
          in w\<lparr>teec_session := s, w_lib := l\<rparr>)"

definition invoke_call ::
    "('c, 's, 'l) libtee \<Rightarrow> session_ptr \<Rightarrow> u32 \<Rightarrow> nat option \<Rightarrow> ('c, 's, 'l) wrapper
      \<Rightarrow> ((u32 \<times> u32) \<times> ('c, 's, 'l) wrapper) option" where
  "invoke_call lt p commandId frame w =
     (case frame of
        None \<Rightarrow>
          let (r, op, h, l) = TEEC_InvokeCommand lt (deref_session p w) commandId None (w_heap w) (w_lib w)
          in Some (r, w\<lparr>w_heap := h, w_lib := l\<rparr>)
      | Some frame \<Rightarrow>
          do { teec_operation \<leftarrow> map_of (w_frames w) frame;
               let (r, op, h, l) = TEEC_InvokeCommand lt (deref_session p w) commandId (Some teec_operation)
                                     (w_heap w) (w_lib w);
               let teec_operation = (case op of None \<Rightarrow> teec_operation | Some x \<Rightarrow> x);
               Some (r, w\<lparr>w_heap := h, w_lib := l,
                          w_frames := AList.update frame teec_operation (w_frames w)\<rparr>) })"

definition teecInvokeCommand ::
    "('c, 's, 'l) libtee \<Rightarrow> int \<Rightarrow> u32 \<Rightarrow> byte list option \<Rightarrow> int
      \<Rightarrow> ('c, 's, 'l) wrapper \<Rightarrow> (call_result \<times> ('c, 's, 'l) wrapper) option" where
  "teecInvokeCommand lt sid commandId opInBytes opHashCodeWithPid w =
     (case find_session_by_id sid w of
        None \<Rightarrow> Some (\<lparr>new_op_in_bytes = None, return_origin = TEEC_ORIGIN_API lt,
                       return_code = TEEC_ERROR_BAD_PARAMETERS lt\<rparr>, w)
      | Some p \<Rightarrow>
          (case opInBytes of
             Some op \<Rightarrow>
               do { (frame, w) \<leftarrow> begin_operation lt op opHashCodeWithPid w;
                    ((teec_ret, teec_ret_ori), w) \<leftarrow> invoke_call lt p commandId (Some frame) w;
                    (new_op, w) \<leftarrow> end_operation lt op opHashCodeWithPid frame w;
                    Some (\<lparr>new_op_in_bytes = new_op, return_origin = teec_ret_ori, return_code = teec_ret\<rparr>, w) }
           | None \<Rightarrow>
               do { ((teec_ret, teec_ret_ori), w) \<leftarrow> invoke_call lt p commandId None w;
                    Some (\<lparr>new_op_in_bytes = None, return_origin = teec_ret_ori, return_code = teec_ret\<rparr>, w) }))"

text \<open>\<open>operations_map\<close> holds no null pointers; a frame that is gone makes it dangle.\<close>

definition teecRequestCancellation ::
    "('c, 's, 'l) libtee \<Rightarrow> int \<Rightarrow> ('c, 's, 'l) wrapper \<Rightarrow> ('c, 's, 'l) wrapper option" where
  "teecRequestCancellation lt opHashCodeWithPid w =
     (case map_of (operations_map w) opHashCodeWithPid of
        None \<Rightarrow> Some w
      | Some frame \<Rightarrow>
          do { teec_operation \<leftarrow> map_of (w_frames w) frame;
               Some (w\<lparr>w_lib := TEEC_RequestCancellation lt teec_operation (w_lib w)\<rparr>) })"

end
