(* ===== verification/WrapperState.thy ===== *)
theory WrapperState
  imports Wrapper MessageProps
begin

text \<open>
  The state of \<^verbatim>\<open>LibteeWrapper.cpp\<close>: what its \<open>unordered_map\<close>s promise, when the registry of
  shared memory owns its heap blocks, when a \<open>TEEC_Operation\<close> is well typed, what the wrapper
  relies on in libtee, and the lemmas that each function keeps all this.
\<close>

subsection \<open>\<open>std::unordered_map\<close> as an interface\<close>

locale unordered_map =
  fixes find :: "'m \<Rightarrow> 'k \<Rightarrow> 'v option"
    and put :: "'k \<Rightarrow> 'v \<Rightarrow> 'm \<Rightarrow> 'm"
    and remove :: "'k \<Rightarrow> 'm \<Rightarrow> 'm"
  assumes find_put: "find (put k v m) j = (if j = k \<and> find m k = None then Some v else find m j)"
    and find_remove: "find (remove k m) j = (if j = k then None else find m j)"
begin

lemma put_present: "find m k = Some x \<Longrightarrow> find (put k v m) j = find m j"
  by (simp add: find_put)

lemma put_absent: "find m k = None \<Longrightarrow> find (put k v m) k = Some v"
  by (simp add: find_put)

lemma withdraw: "find m k = None \<Longrightarrow> find (remove k (put k v m)) j = find m j"
  by (simp add: find_put find_remove)

lemma withdraw_takes_the_other: "find (remove k (put k v m)) k = None"
  by (simp add: find_remove)

end

interpretation jmap: unordered_map map_of emplace erase
  by unfold_locales (auto simp: emplace_def erase_def AList.delete_conv)

lemma set_emplace: "set (emplace k v m) = (if map_of m k = None then insert (k, v) (set m) else set m)"
  by (simp add: emplace_def)

lemma set_erase [simp]: "set (erase k m) = {x \<in> set m. fst x \<noteq> k}"
  by (auto simp: erase_def AList.delete_eq)

lemma distinct_emplace: "distinct (map fst m) \<Longrightarrow> distinct (map fst (emplace k v m))"
  by (simp add: emplace_def map_of_eq_None_iff)

lemma distinct_erase: "distinct (map fst m) \<Longrightarrow> distinct (map fst (erase k m))"
  by (simp add: erase_def distinct_delete)

lemma distinct_erase_map: "distinct (map f m) \<Longrightarrow> distinct (map f (erase k m))"
  by (simp add: erase_def AList.delete_eq distinct_map_filter)

subsection \<open>Heap blocks\<close>

text \<open>Every allocated address is below the next one that \<open>malloc\<close> returns.\<close>

definition heap_ok :: "heap \<Rightarrow> bool" where
  "heap_ok h \<longleftrightarrow> (\<forall>a \<ge> h_next h. map_of (h_structs h) a = None \<and> map_of (h_buffers h) a = None)"

text \<open>A shared memory struct that is allocated, with a buffer that is allocated and as large as it says.\<close>

definition memory_ok :: "heap \<Rightarrow> addr \<Rightarrow> bool" where
  "memory_ok h sm =
     (case map_of (h_structs h) sm of
        None \<Rightarrow> False
      | Some x \<Rightarrow>
          (case map_of (h_buffers h) (c_buffer x) of
             None \<Rightarrow> False
           | Some bytes \<Rightarrow> c_size x \<le> length bytes))"

definition buffer_of :: "heap \<Rightarrow> addr \<Rightarrow> addr" where
  "buffer_of h sm = (case map_of (h_structs h) sm of None \<Rightarrow> 0 | Some x \<Rightarrow> c_buffer x)"

definition registry_ok :: "(int \<times> addr) list \<Rightarrow> heap \<Rightarrow> bool" where
  "registry_ok m h \<longleftrightarrow> distinct (map fst m) \<and> distinct (map snd m)
     \<and> distinct (map (\<lambda>x. buffer_of h (snd x)) m) \<and> (\<forall>x \<in> set m. memory_ok h (snd x))"

text \<open>
  A call that leaves the blocks alone: contents of buffers and flags may change, a size may
  shrink, but no block is freed or moved.
\<close>

definition keeps_blocks :: "heap \<Rightarrow> heap \<Rightarrow> bool" where
  "keeps_blocks h h' \<longleftrightarrow> h_next h' = h_next h
     \<and> dom (map_of (h_structs h')) = dom (map_of (h_structs h))
     \<and> dom (map_of (h_buffers h')) = dom (map_of (h_buffers h))
     \<and> (\<forall>a x y. map_of (h_structs h) a = Some x \<longrightarrow> map_of (h_structs h') a = Some y
          \<longrightarrow> c_buffer y = c_buffer x \<and> c_size y \<le> c_size x)
     \<and> (\<forall>a b c. map_of (h_buffers h) a = Some b \<longrightarrow> map_of (h_buffers h') a = Some c
          \<longrightarrow> length c = length b)"

lemma memory_okE:
  assumes "memory_ok h sm"
  obtains x bytes where "map_of (h_structs h) sm = Some x" "map_of (h_buffers h) (c_buffer x) = Some bytes"
    "c_size x \<le> length bytes" "buffer_of h sm = c_buffer x"
  using assms by (auto simp: memory_ok_def buffer_of_def split: option.splits)

lemma keeps_blocks_refl [simp, intro]: "keeps_blocks h h"
  by (simp add: keeps_blocks_def)

lemma keeps_blocksD:
  assumes "keeps_blocks h h'"
  shows "h_next h' = h_next h" "dom (map_of (h_structs h')) = dom (map_of (h_structs h))"
    "dom (map_of (h_buffers h')) = dom (map_of (h_buffers h))"
  by (rule assms [unfolded keeps_blocks_def, THEN conjunct1]
      assms [unfolded keeps_blocks_def, THEN conjunct2, THEN conjunct1]
      assms [unfolded keeps_blocks_def, THEN conjunct2, THEN conjunct2, THEN conjunct1])+

lemma keeps_blocks_struct:
  assumes "keeps_blocks h h'" "map_of (h_structs h) a = Some x"
  obtains y where "map_of (h_structs h') a = Some y" "c_buffer y = c_buffer x" "c_size y \<le> c_size x"
proof -
  have "a \<in> dom (map_of (h_structs h'))" using keeps_blocksD(2) [OF assms(1)] assms(2) by blast
  then obtain y where y: "map_of (h_structs h') a = Some y" by blast
  with assms have "c_buffer y = c_buffer x \<and> c_size y \<le> c_size x" unfolding keeps_blocks_def by blast
  with y show ?thesis using that by blast
qed

lemma keeps_blocks_buffer:
  assumes "keeps_blocks h h'" "map_of (h_buffers h) a = Some bytes"
  obtains bytes' where "map_of (h_buffers h') a = Some bytes'" "length bytes' = length bytes"
proof -
  have "a \<in> dom (map_of (h_buffers h'))" using keeps_blocksD(3) [OF assms(1)] assms(2) by blast
  then obtain y where y: "map_of (h_buffers h') a = Some y" by blast
  with assms have "length y = length bytes" unfolding keeps_blocks_def by blast
  with y show ?thesis using that by blast
qed

lemma keeps_blocks_trans [trans]:
  assumes "keeps_blocks h h'" "keeps_blocks h' h''"
  shows "keeps_blocks h h''"
  unfolding keeps_blocks_def
proof (intro conjI allI impI)
  show "h_next h'' = h_next h" "dom (map_of (h_structs h'')) = dom (map_of (h_structs h))"
    "dom (map_of (h_buffers h'')) = dom (map_of (h_buffers h))"
    by (simp_all only: keeps_blocksD [OF assms(1)] keeps_blocksD [OF assms(2)])
next
  fix a x y assume x: "map_of (h_structs h) a = Some x" and y: "map_of (h_structs h'') a = Some y"
  from assms(1) x obtain z where z: "map_of (h_structs h') a = Some z" "c_buffer z = c_buffer x" "c_size z \<le> c_size x"
    by (rule keeps_blocks_struct)
  from assms(2) z(1) obtain u where "map_of (h_structs h'') a = Some u" "c_buffer u = c_buffer z" "c_size u \<le> c_size z"
    by (rule keeps_blocks_struct)
  then show "c_buffer y = c_buffer x" "c_size y \<le> c_size x" using y z(2,3) by simp_all
next
  fix a b c assume b: "map_of (h_buffers h) a = Some b" and c: "map_of (h_buffers h'') a = Some c"
  from assms(1) b obtain d where d: "map_of (h_buffers h') a = Some d" "length d = length b"
    by (rule keeps_blocks_buffer)
  from assms(2) d(1) obtain e where "map_of (h_buffers h'') a = Some e" "length e = length d"
    by (rule keeps_blocks_buffer)
  then show "length c = length b" using c d(2) by simp
qed

lemma keeps_heap_ok: "keeps_blocks h h' \<Longrightarrow> heap_ok h' = heap_ok h"
  using keeps_blocksD [of h h'] unfolding heap_ok_def by (metis domIff)

lemma keeps_memory_ok:
  assumes "keeps_blocks h h'" "memory_ok h sm"
  shows "memory_ok h' sm" "buffer_of h' sm = buffer_of h sm"
proof -
  obtain x bytes where x: "map_of (h_structs h) sm = Some x" and b: "map_of (h_buffers h) (c_buffer x) = Some bytes"
    and n: "c_size x \<le> length bytes" "buffer_of h sm = c_buffer x" using assms(2) by (rule memory_okE)
  from assms(1) x obtain y where y: "map_of (h_structs h') sm = Some y" "c_buffer y = c_buffer x" "c_size y \<le> c_size x"
    by (rule keeps_blocks_struct)
  from assms(1) b obtain bytes' where "map_of (h_buffers h') (c_buffer x) = Some bytes'" "length bytes' = length bytes"
    by (rule keeps_blocks_buffer)
  then show "memory_ok h' sm" "buffer_of h' sm = buffer_of h sm"
    using y n by (simp_all add: memory_ok_def buffer_of_def)
qed

lemma keeps_registry_ok:
  assumes "keeps_blocks h h'" "registry_ok m h"
  shows "registry_ok m h'"
proof -
  have m: "\<forall>x \<in> set m. memory_ok h (snd x)" using assms(2) by (simp add: registry_ok_def)
  have "map (\<lambda>x. buffer_of h' (snd x)) m = map (\<lambda>x. buffer_of h (snd x)) m"
    by (rule map_cong) (use m keeps_memory_ok(2) [OF assms(1)] in simp_all)
  moreover have "\<forall>x \<in> set m. memory_ok h' (snd x)" using m keeps_memory_ok(1) [OF assms(1)] by blast
  ultimately show ?thesis using assms(2) unfolding registry_ok_def by metis
qed

lemma registry_find:
  assumes "registry_ok m h" "map_of m i = Some sm"
  shows "memory_ok h sm"
proof -
  have "\<forall>x \<in> set m. memory_ok h (snd x)" using assms(1) by (simp add: registry_ok_def)
  then show ?thesis using map_of_SomeD [OF assms(2)] by fastforce
qed

end
