(* ===== verification/WrapperLaws.thy ===== *)
theory WrapperLaws
  imports WrapperState
begin

text \<open>
  What the wrapper relies on in libtee, and that the two translations between the Java bytes and
  \<open>TEEC_Operation\<close> agree: the parameter types that \<open>transfer_op_to_TEEC_Operation\<close> stores tell
  which member of each parameter union it wrote, so \<open>transfer_TEEC_Operation_to_op\<close> reads no other.
\<close>

subsection \<open>libtee\<close>

definition value_types :: "('c, 's, 'l) libtee \<Rightarrow> u32 set" where
  "value_types lt = {TEEC_VALUE_INPUT lt, TEEC_VALUE_OUTPUT lt, TEEC_VALUE_INOUT lt}"

definition memory_types :: "('c, 's, 'l) libtee \<Rightarrow> u32 set" where
  "memory_types lt = {TEEC_MEMREF_WHOLE lt, TEEC_MEMREF_PARTIAL_INPUT lt, TEEC_MEMREF_PARTIAL_OUTPUT lt,
     TEEC_MEMREF_PARTIAL_INOUT lt}"

text \<open>\<open>TEEC_PARAM_TYPES\<close> packs four 4-bit types and \<open>TEEC_PARAM_TYPE_GET\<close> reads them.\<close>

definition param_types_laws :: "('c, 's, 'l) libtee \<Rightarrow> bool" where
  "param_types_laws lt \<longleftrightarrow>
     (\<forall>a b c d i. a < 16 \<and> b < 16 \<and> c < 16 \<and> d < 16 \<and> i < 4 \<longrightarrow>
        TEEC_PARAM_TYPE_GET lt (TEEC_PARAM_TYPES lt a b c d) i = [a, b, c, d] ! i)
     \<and> (\<forall>i < 4. TEEC_PARAM_TYPE_GET lt 0 i = TEEC_NONE lt)
     \<and> distinct [TEEC_NONE lt, TEEC_VALUE_INPUT lt, TEEC_VALUE_OUTPUT lt, TEEC_VALUE_INOUT lt,
          TEEC_MEMREF_WHOLE lt, TEEC_MEMREF_PARTIAL_INPUT lt, TEEC_MEMREF_PARTIAL_OUTPUT lt,
          TEEC_MEMREF_PARTIAL_INOUT lt]
     \<and> (\<forall>t \<in> insert (TEEC_NONE lt) (value_types lt \<union> memory_types lt). t < 16)"

text \<open>
  The TA answers through the operation: values and sizes change, the types, the members of the
  unions and the blocks referred to do not.
\<close>

fun same_kind :: "TEEC_Parameter \<Rightarrow> TEEC_Parameter \<Rightarrow> bool" where
  "same_kind (Param_value a b) (Param_value c d) \<longleftrightarrow> True"
| "same_kind (Param_memref p n off) (Param_memref q k off') \<longleftrightarrow> q = p"
| "same_kind (Param_value a b) (Param_memref q k off') \<longleftrightarrow> False"
| "same_kind (Param_memref p n off) (Param_value c d) \<longleftrightarrow> False"

definition keeps_operation :: "TEEC_Operation option \<Rightarrow> TEEC_Operation option \<Rightarrow> bool" where
  "keeps_operation op op' =
     (case op of
        None \<Rightarrow> True
      | Some x \<Rightarrow>
          (case op' of
             None \<Rightarrow> True
           | Some y \<Rightarrow> paramTypes y = paramTypes x \<and> list_all2 same_kind (params x) (params y)))"

definition libtee_keeps_memory :: "('c, 's, 'l) libtee \<Rightarrow> bool" where
  "libtee_keeps_memory lt \<longleftrightarrow>
     (\<forall>c sm h l. case TEEC_RegisterSharedMemory lt c sm h l of (r, h', l') \<Rightarrow> keeps_blocks h h')
     \<and> (\<forall>sm h l. case TEEC_ReleaseSharedMemory lt sm h l of (h', l') \<Rightarrow> keeps_blocks h h')
     \<and> (\<forall>c s u m d op h l. case TEEC_OpenSession lt c s u m d op h l of
          (r, s', op', h', l') \<Rightarrow> keeps_blocks h h' \<and> keeps_operation op op')
     \<and> (\<forall>s m op h l. case TEEC_InvokeCommand lt s m op h l of
          (r, op', h', l') \<Rightarrow> keeps_blocks h h' \<and> keeps_operation op op')"

lemma libtee_keeps:
  assumes "libtee_keeps_memory lt"
  shows "TEEC_RegisterSharedMemory lt c sm h l = (r, h', l') \<Longrightarrow> keeps_blocks h h'"
    and "TEEC_ReleaseSharedMemory lt sm h l = (h', l') \<Longrightarrow> keeps_blocks h h'"
    and "TEEC_OpenSession lt c s u m d op h l = (r2, s', op', h', l') \<Longrightarrow> keeps_blocks h h' \<and> keeps_operation op op'"
    and "TEEC_InvokeCommand lt s m op h l = (r2, op', h', l') \<Longrightarrow> keeps_blocks h h' \<and> keeps_operation op op'"
  using assms unfolding libtee_keeps_memory_def by (metis (no_types, lifting) case_prod_conv)+

subsection \<open>Well-typed operations\<close>

text \<open>Slot \<open>j\<close> of an operation that came from \<open>n\<close> protobuf parameters.\<close>

definition slot_ok :: "('c, 's, 'l) libtee \<Rightarrow> (addr \<Rightarrow> bool) \<Rightarrow> nat \<Rightarrow> u32 \<Rightarrow> TEEC_Parameter \<Rightarrow> nat \<Rightarrow> bool" where
  "slot_ok lt live n t p j \<longleftrightarrow>
     (t \<in> value_types lt \<longrightarrow> j < n \<and> (\<exists>a b. p = Param_value a b))
     \<and> (t \<in> memory_types lt \<longrightarrow> j < n \<and> (\<exists>sm k off. p = Param_memref (Some sm) k off \<and> live sm))"

definition operation_ok :: "('c, 's, 'l) libtee \<Rightarrow> (addr \<Rightarrow> bool) \<Rightarrow> nat \<Rightarrow> TEEC_Operation \<Rightarrow> bool" where
  "operation_ok lt live n op \<longleftrightarrow> length (params op) = 4
     \<and> (\<forall>j < 4. slot_ok lt live n (TEEC_PARAM_TYPE_GET lt (paramTypes op) j) (params op ! j) j)"

lemma types_apart:
  assumes "param_types_laws lt"
  shows "TEEC_NONE lt \<notin> value_types lt" "TEEC_NONE lt \<notin> memory_types lt" "value_types lt \<inter> memory_types lt = {}"
    "\<And>t. t \<in> insert (TEEC_NONE lt) (value_types lt \<union> memory_types lt) \<Longrightarrow> t < 16"
  using assms by (auto simp: param_types_laws_def value_types_def memory_types_def)

lemma memcpy_keeps:
  assumes "memcpy_to dst src n h = Some h'"
  shows "keeps_blocks h h'"
proof -
  obtain old where old: "map_of (h_buffers h) dst = Some old" and n: "n \<le> length src" "n \<le> length old"
    and h': "h' = write_buffer dst (take n src @ drop n old) h"
    using assms by (cases "map_of (h_buffers h) dst") (auto simp: memcpy_to_def split: if_splits)
  then show ?thesis
    by (auto simp: keeps_blocks_def write_buffer_def update_conv' dom_def split: if_splits)
qed

lemma memref_type_cases:
  "memref_type lt rmr (TEEC_NONE lt) \<in> insert (TEEC_NONE lt) (memory_types lt)"
  by (simp add: memref_type_def memory_types_def)

lemma value_type_cases:
  "value_type lt x (TEEC_NONE lt) \<in> insert (TEEC_NONE lt) (value_types lt)"
  by (simp add: value_type_def value_types_def)

text \<open>The slots after \<open>i\<close> of the \<open>n\<close> parameters have been filled.\<close>

definition slots_ok :: "('c, 's, 'l) libtee \<Rightarrow> (addr \<Rightarrow> bool) \<Rightarrow> nat \<Rightarrow> nat \<Rightarrow> u32 list \<Rightarrow> TEEC_Operation \<Rightarrow> bool" where
  "slots_ok lt live n i types op \<longleftrightarrow> length types = 4 \<and> length (params op) = 4
     \<and> (\<forall>j < 4. types ! j < 16 \<and> slot_ok lt live n (types ! j) (params op ! j) j)
     \<and> (\<forall>j < 4. i \<le> j \<longrightarrow> types ! j = TEEC_NONE lt)"

lemma slots_ok_update:
  assumes "slots_ok lt live n i types op" "i < 4" "t < 16" "slot_ok lt live n t p i"
  shows "slots_ok lt live n (Suc i) (types[i := t]) (op\<lparr>params := (params op)[i := p]\<rparr>)"
  using assms by (auto simp: slots_ok_def nth_list_update)

lemma slots_ok_Suc: "slots_ok lt live n i types op \<Longrightarrow> slots_ok lt live n (Suc i) types op"
  by (auto simp: slots_ok_def)

lemma memref_slot:
  assumes "param_types_laws lt" "i < n" "live sm"
  shows "slot_ok lt live n (memref_type lt rmr (TEEC_NONE lt)) (Param_memref (Some sm) k off) i"
    and "memref_type lt rmr (TEEC_NONE lt) < 16"
  using memref_type_cases [of lt rmr] types_apart [OF assms(1)] assms(2,3) by (auto simp: slot_ok_def)

lemma value_slot:
  assumes "param_types_laws lt" "i < n"
  shows "slot_ok lt live n (value_type lt x (TEEC_NONE lt)) (Param_value a b) i"
    and "value_type lt x (TEEC_NONE lt) < 16"
  using value_type_cases [of lt x] types_apart [OF assms(1)] assms(2) by (auto simp: slot_ok_def)

lemma transfer_param_typed:
  assumes laws: "param_types_laws lt" and reg: "\<And>k sm. map_of sms k = Some sm \<Longrightarrow> live sm"
    and slots: "slots_ok lt live n i types op" and i: "i < n"
    and run: "transfer_param lt sms i mparam types op h = Some (ok, types', op', h')"
  shows "keeps_blocks h h' \<and> slots_ok lt live n (Suc i) types' op'
     \<and> started op' = started op \<and> paramTypes op' = paramTypes op"
proof -
  have none: "types ! i = TEEC_NONE lt" if "i < 4" using slots that by (simp add: slots_ok_def)
  show ?thesis
    using run slots_ok_update [OF slots] slots_ok_Suc [OF slots] none reg memref_slot [OF laws i] value_slot [OF laws i]
    by (auto simp: transfer_param_def Let_def bind_eq_Some_conv memcpy_keeps split: if_splits option.splits)
qed

lemma slots_ok_mono: "slots_ok lt live n i types op \<Longrightarrow> i \<le> k \<Longrightarrow> slots_ok lt live n k types op"
  by (auto simp: slots_ok_def)

lemma transfer_params_typed:
  assumes laws: "param_types_laws lt" and reg: "\<And>k sm. map_of sms k = Some sm \<Longrightarrow> live sm"
    and "slots_ok lt live n i types op" "i + length mps \<le> n"
    and "transfer_params lt sms i mps types op h = Some (ok, types', op', h')"
  shows "keeps_blocks h h' \<and> slots_ok lt live n n types' op'
     \<and> started op' = started op \<and> paramTypes op' = paramTypes op"
  using assms(3-)
proof (induction mps arbitrary: i types op h)
  case Nil
  then show ?case by (auto intro: slots_ok_mono)
next
  case (Cons p mps)
  obtain c types1 op1 h1 where p: "transfer_param lt sms i p types op h = Some (c, types1, op1, h1)"
    and rest: "(if c then transfer_params lt sms (Suc i) mps types1 op1 h1 else Some (False, types1, op1, h1))
        = Some (ok, types', op', h')"
    using Cons.prems(3) by (auto simp: bind_eq_Some_conv)
  have first: "keeps_blocks h h1 \<and> slots_ok lt live n (Suc i) types1 op1
      \<and> started op1 = started op \<and> paramTypes op1 = paramTypes op"
    using transfer_param_typed [OF laws reg Cons.prems(1) _ p] Cons.prems(2) by simp
  show ?case
  proof (cases c)
    case True
    then show ?thesis using rest first Cons.IH [of "Suc i" types1 op1 h1] Cons.prems(2)
      by (auto intro: keeps_blocks_trans)
  next
    case False
    then show ?thesis using rest first Cons.prems(2) by (auto intro: slots_ok_mono)
  qed
qed

lemma slots_start:
  assumes "param_types_laws lt"
  shows "slots_ok lt live n 0 (replicate 4 (TEEC_NONE lt)) (TEEC_Operation_zero\<lparr>started := st\<rparr>)"
proof -
  have "TEEC_NONE lt < 16" using types_apart(4) [OF assms, of "TEEC_NONE lt"] by simp
  then show ?thesis
    using types_apart(1,2) [OF assms] by (simp add: slots_ok_def slot_ok_def TEEC_Operation_zero_def)
qed

lemma slots_packed:
  assumes "param_types_laws lt" "slots_ok lt live n k types op"
  shows "operation_ok lt live n (op\<lparr>paramTypes :=
     TEEC_PARAM_TYPES lt (types ! 0) (types ! 1) (types ! 2) (types ! 3)\<rparr>)"
proof -
  have four: "j < 4 \<Longrightarrow> [types ! 0, types ! 1, types ! 2, types ! 3] ! j = types ! j" for j :: nat
    by (auto simp: less_Suc_eq numeral_eq_Suc)
  show ?thesis
    using assms four by (simp add: operation_ok_def slots_ok_def param_types_laws_def)
qed

lemma slots_unpacked:
  assumes "param_types_laws lt" "slots_ok lt live n k types op" "paramTypes op = 0"
  shows "operation_ok lt live n op"
proof -
  have "\<forall>j < 4. TEEC_PARAM_TYPE_GET lt 0 j = TEEC_NONE lt" using assms(1) by (simp add: param_types_laws_def)
  then show ?thesis
    using assms(2,3) types_apart(1,2) [OF assms(1)] by (simp add: operation_ok_def slots_ok_def slot_ok_def)
qed

lemma transfer_op_typed:
  assumes laws: "param_types_laws lt" and reg: "registry_ok sms h"
    and parsed: "ParseFromString TeecOperation_class bytes TeecOperation_new = Some (b, m)"
    and run: "transfer_op_to_TEEC_Operation lt sms (Some bytes) TEEC_Operation_zero h = Some (op, h')"
  shows "keeps_blocks h h'" "operation_ok lt (memory_ok h') (length (to_mparams m)) op"
    "started op = to_mstarted m"
proof -
  let ?n = "length (to_mparams m)"
  obtain ok types op1 where
    loop: "transfer_params lt sms 0 (to_mparams m) (replicate 4 (TEEC_NONE lt))
             (TEEC_Operation_zero\<lparr>started := to_mstarted m\<rparr>) h = Some (ok, types, op1, h')"
    and op: "op = (if ok then op1\<lparr>paramTypes :=
             TEEC_PARAM_TYPES lt (types ! 0) (types ! 1) (types ! 2) (types ! 3)\<rparr> else op1)"
    using run parsed
    by (simp add: transfer_op_to_TEEC_Operation_def transfer_opString_to_TEEC_Operation_def bind_eq_Some_conv
        split_beta split: if_splits) fastforce+
  have live: "map_of sms k = Some sm \<Longrightarrow> memory_ok h sm" for k sm using registry_find [OF reg] .
  have k: "keeps_blocks h h'"
    using transfer_params_typed [OF laws live slots_start [OF laws] _ loop, where n = ?n] by simp
  have "map_of sms k = Some sm \<Longrightarrow> memory_ok h' sm" for k sm
    using live keeps_memory_ok(1) [OF k] by blast
  from transfer_params_typed [OF laws this slots_start [OF laws] _ loop, where n = ?n]
  have "slots_ok lt (memory_ok h') ?n ?n types op1" "paramTypes op1 = 0" "started op1 = to_mstarted m"
    by (simp_all add: TEEC_Operation_zero_def)
  then show "keeps_blocks h h'" "operation_ok lt (memory_ok h') ?n op" "started op = to_mstarted m"
    using k op slots_packed [OF laws] slots_unpacked [OF laws] by auto
qed

subsection \<open>Definedness\<close>

text \<open>The shared memory message of a parameter, as the wrapper's copies show it.\<close>

definition passed_memory :: "TeecParameter \<Rightarrow> TeecSharedMemory" where
  "passed_memory mparam = TeecSharedMemoryReference_get_parent (TeecSharedMemoryReference_MergeFrom
     (TeecParameter_get_teecsharedmemoryreference (TeecParameter_MergeFrom mparam TeecParameter_new))
     TeecSharedMemoryReference_new)"

text \<open>
  The \<^verbatim>\<open>memcpy(sm->buffer, smBuffer, sizeof(smBuffer))\<close> reads and writes as many bytes as a
  pointer has, whatever the size of the buffers.
\<close>

definition param_fits :: "('c, 's, 'l) libtee \<Rightarrow> (int \<times> addr) list \<Rightarrow> heap \<Rightarrow> TeecParameter \<Rightarrow> bool" where
  "param_fits lt sms h mparam =
     (if tp_has_teecsharedmemoryreference mparam \<and> ts_mflag (passed_memory mparam) \<noteq> MEMREF_OUTPUT
      then (case map_of sms (sint (ts_mid (passed_memory mparam))) of
              None \<Rightarrow> True
            | Some sm \<Rightarrow>
                (case map_of (h_buffers h) (buffer_of h sm) of
                   None \<Rightarrow> False
                 | Some bytes \<Rightarrow> sizeof_pointer lt \<le> Suc (length (ts_mbuffer (passed_memory mparam)))
                     \<and> sizeof_pointer lt \<le> length bytes))
      else True)"

lemma param_fits_keeps:
  assumes reg: "registry_ok sms h" and k: "keeps_blocks h h'"
  shows "param_fits lt sms h' p = param_fits lt sms h p"
proof (cases "map_of sms (sint (ts_mid (passed_memory p)))")
  case (Some sm)
  have m: "memory_ok h sm" using registry_find [OF reg Some] .
  then obtain x bytes where b: "map_of (h_buffers h) (buffer_of h sm) = Some bytes" by (metis memory_okE)
  obtain bytes' where "map_of (h_buffers h') (buffer_of h sm) = Some bytes'" "length bytes' = length bytes"
    using k b by (rule keeps_blocks_buffer)
  then show ?thesis using Some b keeps_memory_ok(2) [OF k m] by (simp add: param_fits_def)
qed (simp add: param_fits_def)

lemma transfer_param_defined:
  assumes reg: "registry_ok sms h" and i: "i < 4"
  shows "transfer_param lt sms i p types op h = None \<longleftrightarrow> \<not> param_fits lt sms h p"
proof (cases "tp_has_teecsharedmemoryreference p")
  case True
  show ?thesis
  proof (cases "map_of sms (sint (ts_mid (passed_memory p)))")
    case (Some sm)
    obtain x bytes where "map_of (h_structs h) sm = Some x" "map_of (h_buffers h) (c_buffer x) = Some bytes"
      "buffer_of h sm = c_buffer x" using registry_find [OF reg Some] by (rule memory_okE)
    then show ?thesis using True Some i
      by (simp add: transfer_param_def param_fits_def TeecParameter_copy(2) Let_def memcpy_to_def c_str_def
          passed_memory_def bind_eq_None_conv)
  qed (use True in \<open>simp add: transfer_param_def param_fits_def TeecParameter_copy(2) Let_def passed_memory_def\<close>)
qed (use i in \<open>auto simp: transfer_param_def param_fits_def TeecParameter_copy(2) Let_def\<close>)

lemma transfer_params_defined:
  assumes laws: "param_types_laws lt" and "registry_ok sms h" "slots_ok lt (memory_ok h) 4 i types op"
    and "i + length mps \<le> 4" "\<forall>p \<in> set mps. param_fits lt sms h p"
  shows "transfer_params lt sms i mps types op h \<noteq> None"
  using assms(2-)
proof (induction mps arbitrary: i types op h)
  case (Cons p mps)
  have "transfer_param lt sms i p types op h \<noteq> None"
    using transfer_param_defined [OF Cons.prems(1), of i lt p types op] Cons.prems(3,4) by simp
  then obtain c types1 op1 h1 where p: "transfer_param lt sms i p types op h = Some (c, types1, op1, h1)"
    by auto
  from transfer_param_typed [OF laws registry_find [OF Cons.prems(1)] Cons.prems(2) _ p] Cons.prems(3)
  have k: "keeps_blocks h h1" and s: "slots_ok lt (memory_ok h) 4 (Suc i) types1 op1" by simp_all
  have "slots_ok lt (memory_ok h1) 4 (Suc i) types1 op1"
    using s keeps_memory_ok(1) [OF k] unfolding slots_ok_def slot_ok_def by blast
  moreover have "\<forall>p \<in> set mps. param_fits lt sms h1 p"
    using Cons.prems(4) param_fits_keeps [OF Cons.prems(1) k, of lt] by simp
  ultimately have "transfer_params lt sms (Suc i) mps types1 op1 h1 \<noteq> None"
    using Cons.IH [OF keeps_registry_ok [OF k Cons.prems(1)]] Cons.prems(3) by simp
  then show ?case by (auto simp: p)
qed simp

lemma transfer_op_defined:
  assumes "param_types_laws lt" "registry_ok sms h" "length (to_mparams m) \<le> 4"
    and "\<forall>p \<in> set (to_mparams m). param_fits lt sms h p"
    and "ParseFromString TeecOperation_class bytes TeecOperation_new = Some (b, m)"
  shows "transfer_op_to_TEEC_Operation lt sms (Some bytes) TEEC_Operation_zero h \<noteq> None"
  using transfer_params_defined [OF assms(1,2) slots_start [OF assms(1)] _ assms(4), of "to_mstarted m"] assms(3,5)
  by (auto simp: transfer_op_to_TEEC_Operation_def transfer_opString_to_TEEC_Operation_def split_beta)

lemma sync_value_defined:
  assumes "i < length (to_mparams m)"
  shows "\<exists>m'. sync_value i (Param_value a b) m = Some m' \<and> length (to_mparams m') = length (to_mparams m)"
  using assms by (simp add: sync_value_def TeecOperation_get_mparams_def TeecOperation_put_mparams_def split_beta Let_def)

lemma sync_memref_defined:
  assumes "i < length (to_mparams m)" "memory_ok h sm"
  shows "\<exists>m'. sync_memref lt h i (Param_memref (Some sm) k off) m = Some m' \<and> length (to_mparams m') = length (to_mparams m)"
proof -
  obtain x bytes where "map_of (h_structs h) sm = Some x" "map_of (h_buffers h) (c_buffer x) = Some bytes"
    "c_size x \<le> length bytes" using assms(2) by (rule memory_okE)
  then show ?thesis using assms(1)
    by (simp add: sync_memref_def TeecOperation_get_mparams_def TeecOperation_put_mparams_def split_beta Let_def)
qed

lemma sync_params_defined:
  assumes ok: "operation_ok lt (memory_ok h) n op" and js: "set js \<subseteq> {..<4}" and m: "length (to_mparams m) = n"
  shows "\<exists>m'. sync_params lt h op js m = Some m' \<and> length (to_mparams m') = n"
  using js m
proof (induction js arbitrary: m)
  case (Cons j js)
  let ?t = "TEEC_PARAM_TYPE_GET lt (paramTypes op) j"
  have slot: "slot_ok lt (memory_ok h) n ?t (params op ! j) j"
    using ok Cons.prems(1) by (simp add: operation_ok_def)
  consider "?t = TEEC_VALUE_OUTPUT lt \<or> ?t = TEEC_VALUE_INOUT lt"
    | "\<not> (?t = TEEC_VALUE_OUTPUT lt \<or> ?t = TEEC_VALUE_INOUT lt)"
      "?t = TEEC_MEMREF_WHOLE lt \<or> ?t = TEEC_MEMREF_PARTIAL_OUTPUT lt \<or> ?t = TEEC_MEMREF_PARTIAL_INOUT lt"
    | "\<not> (?t = TEEC_VALUE_OUTPUT lt \<or> ?t = TEEC_VALUE_INOUT lt)"
      "\<not> (?t = TEEC_MEMREF_WHOLE lt \<or> ?t = TEEC_MEMREF_PARTIAL_OUTPUT lt \<or> ?t = TEEC_MEMREF_PARTIAL_INOUT lt)"
    by blast
  then show ?case
  proof cases
    case 1
    then obtain a b where "params op ! j = Param_value a b" "j < n" using slot by (auto simp: slot_ok_def value_types_def)
    then show ?thesis using 1 Cons sync_value_defined [of j m a b] by auto
  next
    case 2
    then obtain sm k off where "params op ! j = Param_memref (Some sm) k off" "j < n" "memory_ok h sm"
      using slot by (auto simp: slot_ok_def memory_types_def)
    then show ?thesis using 2 Cons sync_memref_defined [of j m h sm lt k off] by auto
  next
    case 3
    then show ?thesis using Cons by simp
  qed
qed simp

lemma transfer_back_defined:
  assumes "operation_ok lt (memory_ok h) (length (to_mparams m)) op"
    and "ParseFromString TeecOperation_class bytes TeecOperation_new = Some (b, m)"
  shows "\<exists>new_op. transfer_TEEC_Operation_to_op lt h op (Some bytes) = Some (Some new_op)"
  using sync_params_defined [OF assms(1), of "[0, 1, 2, 3]" "TeecOperation_set_mstarted (started op) m"]
    assms(2) operation_msg.serialize_string
  by (auto simp: transfer_TEEC_Operation_to_op_def TeecOperation_set_mstarted_def)

end
