(* ===== verification/WrapperMemory.thy ===== *)
theory WrapperMemory
  imports WrapperLaws
begin

text \<open>
  Registering, releasing and cleaning shared memory: each keeps the registry the owner of its
  blocks, and freeing what the registry holds is never a double free.
\<close>

subsection \<open>Allocation\<close>

definition grows :: "heap \<Rightarrow> heap \<Rightarrow> bool" where
  "grows h h' \<longleftrightarrow> map_of (h_structs h) \<subseteq>\<^sub>m map_of (h_structs h') \<and> map_of (h_buffers h) \<subseteq>\<^sub>m map_of (h_buffers h')
     \<and> heap_ok h'"

lemma heap_ok_fresh:
  assumes "heap_ok h" "h_next h \<le> a"
  shows "map_of (h_structs h) a = None" "map_of (h_buffers h) a = None"
  using assms by (simp_all add: heap_ok_def)

lemma heap_ok_below:
  assumes "heap_ok h" "memory_ok h sm"
  shows "sm < h_next h" "buffer_of h sm < h_next h"
proof -
  obtain x bytes where "map_of (h_structs h) sm = Some x" "map_of (h_buffers h) (c_buffer x) = Some bytes"
    "buffer_of h sm = c_buffer x" using assms(2) by (rule memory_okE)
  then show "sm < h_next h" "buffer_of h sm < h_next h"
    using heap_ok_fresh [OF assms(1)] by (metis not_le option.distinct(1))+
qed

lemma grows_memory_ok:
  assumes "grows h h'" "memory_ok h sm"
  shows "memory_ok h' sm" "buffer_of h' sm = buffer_of h sm"
proof -
  obtain x bytes where "map_of (h_structs h) sm = Some x" "map_of (h_buffers h) (c_buffer x) = Some bytes"
    "c_size x \<le> length bytes" "buffer_of h sm = c_buffer x" using assms(2) by (rule memory_okE)
  moreover from this have "map_of (h_structs h') sm = Some x" "map_of (h_buffers h') (c_buffer x) = Some bytes"
    using assms(1) by (auto simp: grows_def map_le_def dom_def)
  ultimately show "memory_ok h' sm" "buffer_of h' sm = buffer_of h sm"
    by (simp_all add: memory_ok_def buffer_of_def)
qed

lemma registry_ok_cong:
  assumes "registry_ok m h" "\<And>sm. memory_ok h sm \<Longrightarrow> sm \<in> snd ` set m \<Longrightarrow> memory_ok h' sm \<and> buffer_of h' sm = buffer_of h sm"
  shows "registry_ok m h'"
proof -
  have ok: "\<forall>x \<in> set m. memory_ok h' (snd x) \<and> buffer_of h' (snd x) = buffer_of h (snd x)"
    using assms by (auto simp: registry_ok_def)
  then have "map (\<lambda>x. buffer_of h' (snd x)) m = map (\<lambda>x. buffer_of h (snd x)) m" by simp
  then show ?thesis using assms(1) ok unfolding registry_ok_def by metis
qed

lemma grows_registry_ok: "grows h h' \<Longrightarrow> registry_ok m h \<Longrightarrow> registry_ok m h'"
  using grows_memory_ok [of h h'] by (blast intro: registry_ok_cong)

lemma malloc_struct_grows:
  assumes "heap_ok h" "malloc_struct x h = (a, h')"
  shows "grows h h'" "a = h_next h" "map_of (h_structs h') a = Some x" "h_next h' = Suc a" "h_buffers h' = h_buffers h"
  using assms heap_ok_fresh [OF assms(1) order_refl]
  by (auto simp: malloc_struct_def grows_def map_le_def heap_ok_def)

text \<open>The block that \<open>teecRegisterSharedMemory\<close> fills for libtee.\<close>

lemma registered_block:
  assumes h: "heap_ok h" and sm: "malloc_struct x h = (sm, h1)" and b: "malloc_buffer bytes h1 = (buffer, h2)"
    and h3: "h3 = h2\<lparr>h_structs := AList.update sm \<lparr>c_buffer = buffer, c_size = length bytes, c_flags = fl\<rparr> (h_structs h2)\<rparr>"
  shows "grows h h3" "memory_ok h3 sm" "h_next h \<le> sm" "h_next h \<le> buffer_of h3 sm"
    "map_of (h_structs h3) sm = Some \<lparr>c_buffer = buffer, c_size = length bytes, c_flags = fl\<rparr>"
    "map_of (h_buffers h3) buffer = Some bytes" "h_next h3 = Suc (Suc (h_next h))"
    "sm = h_next h" "buffer = Suc (h_next h)"
    "dom (map_of (h_structs h3)) = insert sm (dom (map_of (h_structs h)))"
    "dom (map_of (h_buffers h3)) = insert buffer (dom (map_of (h_buffers h)))"
proof -
  have sm': "sm = h_next h" "h1 = h\<lparr>h_structs := (sm, x) # h_structs h, h_next := Suc sm\<rparr>"
    using sm by (auto simp: malloc_struct_def)
  have b': "buffer = Suc sm" "h2 = h1\<lparr>h_buffers := (buffer, bytes) # h_buffers h, h_next := Suc buffer\<rparr>"
    using b by (auto simp: malloc_buffer_def sm')
  note fresh = heap_ok_fresh [OF h]
  show "grows h h3" using h fresh [of "h_next h"] fresh [of "Suc (h_next h)"]
    by (auto simp: h3 b' sm' grows_def map_le_def update_conv' heap_ok_def)
  show "memory_ok h3 sm" "h_next h \<le> sm" "h_next h \<le> buffer_of h3 sm"
    "map_of (h_structs h3) sm = Some \<lparr>c_buffer = buffer, c_size = length bytes, c_flags = fl\<rparr>"
    "map_of (h_buffers h3) buffer = Some bytes" "h_next h3 = Suc (Suc (h_next h))"
    "sm = h_next h" "buffer = Suc (h_next h)"
    "dom (map_of (h_structs h3)) = insert sm (dom (map_of (h_structs h)))"
    "dom (map_of (h_buffers h3)) = insert buffer (dom (map_of (h_buffers h)))"
    by (simp_all add: h3 b' sm' memory_ok_def buffer_of_def update_conv')
qed

lemma registry_ok_emplace:
  assumes reg: "registry_ok m h" and h: "heap_ok h" and g: "grows h h'" and sm: "memory_ok h' sm"
    and fresh: "h_next h \<le> sm" "h_next h \<le> buffer_of h' sm"
  shows "registry_ok (emplace i sm m) h'"
proof (cases "map_of m i")
  case None
  have m: "registry_ok m h'" using grows_registry_ok [OF g reg] .
  have "sm \<notin> snd ` set m" "buffer_of h' sm \<notin> (\<lambda>x. buffer_of h' (snd x)) ` set m"
    using reg fresh heap_ok_below [OF h] grows_memory_ok(2) [OF g]
    by (fastforce simp: registry_ok_def)+
  then show ?thesis using m sm None by (auto simp: registry_ok_def emplace_def map_of_eq_None_iff)
qed (use grows_registry_ok [OF g reg] in \<open>simp add: emplace_def\<close>)

subsection \<open>Freeing\<close>

text \<open>The state of the heap after \<open>free(sm->buffer); free(sm)\<close>.\<close>

lemma free_memory:
  assumes "memory_ok h sm"
  obtains x h1 h2 where "map_of (h_structs h) sm = Some x" "free_buffer (c_buffer x) h = Some h1"
    "free_struct sm h1 = Some h2" "h_next h2 = h_next h"
    "map_of (h_structs h2) = (map_of (h_structs h)) (sm := None)"
    "map_of (h_buffers h2) = (map_of (h_buffers h)) (buffer_of h sm := None)"
  using assms
  by (rule memory_okE) (auto simp: free_buffer_def free_struct_def AList.delete_conv')

lemma freed_memory_ok:
  assumes "map_of (h_structs h2) = (map_of (h_structs h)) (sm := None)"
    and "map_of (h_buffers h2) = (map_of (h_buffers h)) (buffer_of h sm := None)"
    and "memory_ok h y" "y \<noteq> sm" "buffer_of h y \<noteq> buffer_of h sm"
  shows "memory_ok h2 y \<and> buffer_of h2 y = buffer_of h y"
  using assms(3) by (rule memory_okE) (use assms in \<open>simp add: memory_ok_def buffer_of_def\<close>)

lemma freed_heap_ok:
  assumes "heap_ok h" "h_next h2 = h_next h"
    and "map_of (h_structs h2) = (map_of (h_structs h)) (sm := None)"
    and "map_of (h_buffers h2) = (map_of (h_buffers h)) (b := None)"
  shows "heap_ok h2"
proof -
  show ?thesis using assms(1,2) by (simp add: heap_ok_def assms(3,4))
qed

text \<open>After freeing the memory of one entry, the other entries still own their blocks.\<close>

lemma registry_ok_erase:
  assumes "registry_ok m h" "(i, sm) \<in> set m"
    and "map_of (h_structs h2) = (map_of (h_structs h)) (sm := None)"
    and "map_of (h_buffers h2) = (map_of (h_buffers h)) (buffer_of h sm := None)"
  shows "registry_ok (erase i m) h2"
proof -
  have i: "map_of m i = Some sm" using assms(1,2) by (simp add: registry_ok_def)
  have sub: "registry_ok (erase i m) h" using assms(1)
    by (simp add: registry_ok_def distinct_erase distinct_erase_map)
  have apart: "y \<noteq> sm \<and> buffer_of h y \<noteq> buffer_of h sm" if "(k, y) \<in> set m" "k \<noteq> i" for k y
  proof -
    have "inj_on snd (set m)" "inj_on (\<lambda>x. buffer_of h (snd x)) (set m)"
      using assms(1) by (simp_all add: registry_ok_def distinct_map)
    from inj_onD [OF this(1) _ that(1) assms(2)] inj_onD [OF this(2) _ that(1) assms(2)] that(2)
    show ?thesis by auto
  qed
  show ?thesis
  proof (rule registry_ok_cong [OF sub])
    fix y assume "memory_ok h y" "y \<in> snd ` set (erase i m)"
    then obtain k where "(k, y) \<in> set m" "k \<noteq> i" by auto
    with apart show "memory_ok h2 y \<and> buffer_of h2 y = buffer_of h y"
      using freed_memory_ok [OF assms(3,4) \<open>memory_ok h y\<close>] by blast
  qed
qed

lemma clean_sharedmemory_buffer_frees:
  assumes "registry_ok m h" "heap_ok h"
  shows "\<exists>h'. clean_sharedmemory_buffer m h = Some h' \<and> heap_ok h' \<and> h_next h' = h_next h
     \<and> map_of (h_structs h') = map_of (h_structs h) |` (- snd ` set m)
     \<and> map_of (h_buffers h') = map_of (h_buffers h) |` (- (\<lambda>x. buffer_of h (snd x)) ` set m)"
  using assms
proof (induction m arbitrary: h)
  case (Cons e m)
  obtain i sm where e: "e = (i, sm)" by fastforce
  have "memory_ok h sm" using Cons.prems(1) by (simp add: registry_ok_def e)
  then obtain x h1 h2 where step: "map_of (h_structs h) sm = Some x" "free_buffer (c_buffer x) h = Some h1"
    "free_struct sm h1 = Some h2" and n: "h_next h2 = h_next h"
    and s: "map_of (h_structs h2) = (map_of (h_structs h)) (sm := None)"
    and b: "map_of (h_buffers h2) = (map_of (h_buffers h)) (buffer_of h sm := None)"
    by (rule free_memory)
  have "i \<notin> fst ` set m" using Cons.prems(1) by (simp add: registry_ok_def e)
  then have er: "erase i (e # m) = m"
    by (auto simp: erase_def e AList.delete_eq rev_image_eqI intro!: filter_True)
  have reg: "registry_ok m h2"
    using registry_ok_erase [OF Cons.prems(1) _ s b, of i] er by (simp add: e)
  have same: "\<forall>y \<in> set m. buffer_of h2 (snd y) = buffer_of h (snd y)"
    using Cons.prems(1) freed_memory_ok [OF s b] by (force simp: registry_ok_def e)
  obtain h' where h': "clean_sharedmemory_buffer m h2 = Some h'" "heap_ok h'" "h_next h' = h_next h2"
    "map_of (h_structs h') = map_of (h_structs h2) |` (- snd ` set m)"
    "map_of (h_buffers h') = map_of (h_buffers h2) |` (- (\<lambda>x. buffer_of h2 (snd x)) ` set m)"
    using Cons.IH [OF reg freed_heap_ok [OF Cons.prems(2) n s b]] by blast
  have img: "(\<lambda>x. buffer_of h2 (snd x)) ` set m = (\<lambda>x. buffer_of h (snd x)) ` set m"
    using same by (intro image_cong) auto
  have "clean_sharedmemory_buffer (e # m) h = Some h'" by (simp add: e step h'(1))
  moreover have "map_of (h_structs h') = map_of (h_structs h) |` (- snd ` set (e # m))"
    by (auto simp: h'(4) s e restrict_map_def fun_eq_iff)
  moreover have "map_of (h_buffers h') = map_of (h_buffers h) |` (- (\<lambda>x. buffer_of h (snd x)) ` set (e # m))"
    by (auto simp: h'(5) b e img restrict_map_def fun_eq_iff)
  ultimately show ?case using h'(2,3) n by simp
qed (simp add: fun_eq_iff restrict_map_def)

subsection \<open>The four operations\<close>

definition memory_state :: "('c, 's, 'l) wrapper \<Rightarrow> bool" where
  "memory_state w \<longleftrightarrow> heap_ok (w_heap w) \<and> registry_ok (sharedmemory_map w) (w_heap w)"

lemma finalize_frees:
  assumes "memory_state w"
  obtains w' where "teecFinalizeContext lt w = Some w'" "memory_state w'" "sharedmemory_map w' = []"
    "sessions_map w' = []" "operations_map w' = operations_map w" "w_frames w' = w_frames w"
    "w_next_frame w' = w_next_frame w"
    "map_of (h_structs (w_heap w')) = map_of (h_structs (w_heap w)) |` (- snd ` set (sharedmemory_map w))"
    "map_of (h_buffers (w_heap w'))
       = map_of (h_buffers (w_heap w)) |` (- (\<lambda>x. buffer_of (w_heap w) (snd x)) ` set (sharedmemory_map w))"
proof -
  obtain h' where h': "clean_sharedmemory_buffer (sharedmemory_map w) (w_heap w) = Some h'" "heap_ok h'"
    "map_of (h_structs h') = map_of (h_structs (w_heap w)) |` (- snd ` set (sharedmemory_map w))"
    "map_of (h_buffers h') = map_of (h_buffers (w_heap w))
        |` (- (\<lambda>x. buffer_of (w_heap w) (snd x)) ` set (sharedmemory_map w))"
    using clean_sharedmemory_buffer_frees assms unfolding memory_state_def by blast
  show ?thesis
    by (rule that [of "w\<lparr>w_heap := h', sharedmemory_map := [], sessions_map := [], g_contextRecord := zero_context lt,
          w_lib := TEEC_FinalizeContext lt (g_contextRecord w) (w_lib w)\<rparr>"])
       (use h' in \<open>simp_all add: teecFinalizeContext_def Let_def memory_state_def registry_ok_def\<close>)
qed

lemma release_frees:
  assumes keeps: "libtee_keeps_memory lt" and w: "memory_state w" and i: "map_of (sharedmemory_map w) i = Some sm"
  obtains w' where "teecReleaseSharedMemory lt i w = Some w'" "memory_state w'"
    "sharedmemory_map w' = erase i (sharedmemory_map w)" "operations_map w' = operations_map w"
    "w_frames w' = w_frames w" "w_next_frame w' = w_next_frame w" "sessions_map w' = sessions_map w"
    "dom (map_of (h_structs (w_heap w'))) = dom (map_of (h_structs (w_heap w))) - {sm}"
    "dom (map_of (h_buffers (w_heap w'))) = dom (map_of (h_buffers (w_heap w))) - {buffer_of (w_heap w) sm}"
proof -
  obtain h l where call: "TEEC_ReleaseSharedMemory lt sm (w_heap w) (w_lib w) = (h, l)" by fastforce
  have k: "keeps_blocks (w_heap w) h" using libtee_keeps(2) [OF keeps call] .
  have reg: "registry_ok (sharedmemory_map w) h" and h: "heap_ok h"
    using w keeps_registry_ok [OF k] keeps_heap_ok [OF k] by (simp_all add: memory_state_def)
  have m0: "memory_ok (w_heap w) sm" using w registry_find [OF _ i] by (simp add: memory_state_def)
  have m: "memory_ok h sm" "buffer_of h sm = buffer_of (w_heap w) sm" using keeps_memory_ok [OF k m0] .
  from m(1) obtain x h1 h2 where step: "map_of (h_structs h) sm = Some x" "free_buffer (c_buffer x) h = Some h1"
    "free_struct sm h1 = Some h2" and n: "h_next h2 = h_next h"
    and s: "map_of (h_structs h2) = (map_of (h_structs h)) (sm := None)"
    and b: "map_of (h_buffers h2) = (map_of (h_buffers h)) (buffer_of h sm := None)"
    by (rule free_memory)
  have "registry_ok (erase i (sharedmemory_map w)) h2" "heap_ok h2"
    using registry_ok_erase [OF reg map_of_SomeD [OF i] s b] freed_heap_ok [OF h n s b] .
  then show ?thesis
    by (intro that [of "w\<lparr>w_lib := l, w_heap := h2, sharedmemory_map := erase i (sharedmemory_map w)\<rparr>"])
       (simp_all add: teecReleaseSharedMemory_def find_sharedmemory_by_id_def i call remove_sharedmemory_by_id_def
          step memory_state_def s b m(2) keeps_blocksD [OF k] split_beta)
qed

lemma release_unknown:
  "map_of (sharedmemory_map w) i = None \<Longrightarrow> teecReleaseSharedMemory lt i w = Some w"
  by (simp add: teecReleaseSharedMemory_def find_sharedmemory_by_id_def)

subsection \<open>Registering\<close>

text \<open>
  The three ways through \<^verbatim>\<open>teecRegisterSharedMemory\<close> once the bytes are there: no memory for the
  struct; none for the buffer, and the struct stays behind; a call of libtee with a block that
  holds the bytes.
\<close>

lemma register_cases:
  assumes run: "teecRegisterSharedMemory lt (Some data) i w = Some (r, w')" and h: "heap_ok (w_heap w)"
    and parsed: "ParseFromString TeecSharedMemory_class data TeecSharedMemory_new = Some (b, m)"
  obtains (no_struct) "r = TEEC_ERROR_OUT_OF_MEMORY lt" "w' = w"
  | (no_buffer) h' where "r = TEEC_ERROR_OUT_OF_MEMORY lt" "grows (w_heap w) h'" "w' = w\<lparr>w_heap := h'\<rparr>"
      "h_next (w_heap w) \<in> dom (map_of (h_structs h'))"
  | (called) sm h' h'' l where "grows (w_heap w) h'" "h_next (w_heap w) \<le> sm" "h_next (w_heap w) \<le> buffer_of h' sm"
      "map_of (h_structs h') sm = Some \<lparr>c_buffer = buffer_of h' sm, c_size = length (ts_mbuffer m), c_flags = ts_mflag m\<rparr>"
      "map_of (h_buffers h') (buffer_of h' sm) = Some (ts_mbuffer m)"
      "dom (map_of (h_structs h')) = insert sm (dom (map_of (h_structs (w_heap w))))"
      "dom (map_of (h_buffers h')) = insert (buffer_of h' sm) (dom (map_of (h_buffers (w_heap w))))"
      "TEEC_RegisterSharedMemory lt (g_contextRecord w) sm h' (w_lib w) = (r, h'', l)"
      "w' = w\<lparr>w_heap := h'', w_lib := l, sharedmemory_map :=
         (if r = TEEC_SUCCESS lt then emplace i sm (sharedmemory_map w) else sharedmemory_map w)\<rparr>"
proof -
  let ?n = "length (ts_mbuffer m)"
  let ?x = "\<lparr>c_buffer = 0, c_size = ?n, c_flags = 0\<rparr>"
  obtain sm h1 where sm: "malloc_struct ?x (w_heap w) = (sm, h1)" by fastforce
  obtain buffer h2 where b: "malloc_buffer (ts_mbuffer m) h1 = (buffer, h2)" by fastforce
  define h3 where "h3 = h2\<lparr>h_structs := AList.update sm \<lparr>c_buffer = buffer, c_size = ?n, c_flags = ts_mflag m\<rparr> (h_structs h2)\<rparr>"
  note block = registered_block [OF h sm b h3_def]
  have buf: "buffer_of h3 sm = buffer" by (simp add: buffer_of_def block(5))
  obtain r' h4 l where call: "TEEC_RegisterSharedMemory lt (g_contextRecord w) sm h3 (w_lib w) = (r', h4, l)"
    by (cases "TEEC_RegisterSharedMemory lt (g_contextRecord w) sm h3 (w_lib w)") auto
  consider "\<not> malloc_succeeds lt (w_heap w) 0"
    | "malloc_succeeds lt (w_heap w) 0" "\<not> malloc_succeeds lt h1 ?n"
    | "malloc_succeeds lt (w_heap w) 0" "malloc_succeeds lt h1 ?n" by blast
  then show thesis
  proof cases
    case 1
    then show thesis using no_struct run parsed by (simp add: teecRegisterSharedMemory_def)
  next
    case 2
    then show thesis
      using no_buffer [of h1] run parsed malloc_struct_grows [OF h sm]
      by (auto simp: teecRegisterSharedMemory_def sm)
  next
    case 3
    then have "teecRegisterSharedMemory lt (Some data) i w = Some (r', w\<lparr>w_heap := h4, w_lib := l, sharedmemory_map :=
        (if r' = TEEC_SUCCESS lt then emplace i sm (sharedmemory_map w) else sharedmemory_map w)\<rparr>)"
      using parsed by (simp add: teecRegisterSharedMemory_def sm b h3_def [symmetric] call)
    then show thesis
      using called [of h3 sm h4 l] run block(1-6,10,11) call by (simp add: buf)
  qed
qed

lemma register_keeps:
  assumes keeps: "libtee_keeps_memory lt" and w: "memory_state w"
    and run: "teecRegisterSharedMemory lt data i w = Some (r, w')"
  shows "memory_state w' \<and> operations_map w' = operations_map w \<and> w_frames w' = w_frames w
     \<and> w_next_frame w' = w_next_frame w"
proof (cases data)
  case None
  then show ?thesis using run w by (auto simp: teecRegisterSharedMemory_def)
next
  case (Some bytes)
  obtain b m where parsed: "ParseFromString TeecSharedMemory_class bytes TeecSharedMemory_new = Some (b, m)"
    using run Some by (auto simp: teecRegisterSharedMemory_def bind_eq_Some_conv)
  have h: "heap_ok (w_heap w)" and reg: "registry_ok (sharedmemory_map w) (w_heap w)"
    using w by (simp_all add: memory_state_def)
  show ?thesis
    using run [unfolded Some] h parsed
  proof (cases rule: register_cases)
    case no_struct
    then show ?thesis using w by simp
  next
    case (no_buffer h')
    then show ?thesis using grows_registry_ok [OF no_buffer(2) reg] by (simp add: memory_state_def grows_def)
  next
    case (called sm h' h'' l)
    have k: "keeps_blocks h' h''" using libtee_keeps(1) [OF keeps called(8)] .
    have m: "memory_ok h' sm" using called(4,5) by (simp add: memory_ok_def)
    have "registry_ok (emplace i sm (sharedmemory_map w)) h''" "registry_ok (sharedmemory_map w) h''"
      using keeps_registry_ok [OF k] registry_ok_emplace [OF reg h called(1) m called(2,3)]
        grows_registry_ok [OF called(1) reg] by blast+
    moreover have "heap_ok h''" using called(1) keeps_heap_ok [OF k] by (simp add: grows_def)
    ultimately show ?thesis by (simp add: called(9) memory_state_def)
  qed
qed

lemma register_defined:
  assumes "int (length bytes) \<le> kDefaultTotalBytesLimit"
  shows "teecRegisterSharedMemory lt (Some bytes) i w \<noteq> None"
  using memory_msg.parse_total(1) [OF assms, of TeecSharedMemory_new]
  by (auto simp: teecRegisterSharedMemory_def split_beta Let_def)

end
