(* ===== verification/WrapperSteps.thy ===== *)
theory WrapperSteps
  imports WrapperMemory
begin

text \<open>
  The wrapper as a transition system. The service serves each client call on its own thread, and
  \<open>teecOpenSession\<close> and \<open>teecInvokeCommand\<close> block inside libtee with their \<open>TEEC_Operation\<close>
  published, so other calls run in between: a state is the global variables with the operations
  in flight, and a call that takes an operation is three steps.
\<close>

subsection \<open>Steps\<close>

record flight =
  fl_frame :: nat
  fl_key :: int            \<comment> \<open>\<open>opHashCodeWithPid\<close>\<close>
  fl_bytes :: "byte list"  \<comment> \<open>\<open>opInBytes\<close>\<close>

definition land :: "nat \<Rightarrow> flight list \<Rightarrow> flight list" where
  "land frame fs = filter (\<lambda>f. fl_frame f \<noteq> frame) fs"

inductive wrapper_step ::
    "('c, 's, 'l) libtee \<Rightarrow> ('c, 's, 'l) wrapper \<times> flight list \<Rightarrow> ('c, 's, 'l) wrapper \<times> flight list \<Rightarrow> bool"
  for lt :: "('c, 's, 'l) libtee" where
  initialize: "teecInitializeContext lt n path ok w = (r, w') \<Longrightarrow> wrapper_step lt (w, fs) (w', fs)"
| finalize: "teecFinalizeContext lt w = Some w' \<Longrightarrow> wrapper_step lt (w, fs) (w', fs)"
| register: "teecRegisterSharedMemory lt data i w = Some (r, w') \<Longrightarrow> wrapper_step lt (w, fs) (w', fs)"
| release: "teecReleaseSharedMemory lt i w = Some w' \<Longrightarrow> wrapper_step lt (w, fs) (w', fs)"
| publish: "begin_operation lt bytes key w = Some (frame, w') \<Longrightarrow>
    wrapper_step lt (w, fs) (w', \<lparr>fl_frame = frame, fl_key = key, fl_bytes = bytes\<rparr> # fs)"
| open_session: "f \<in> set fs \<Longrightarrow> open_call lt u m d (Some (fl_frame f)) w = Some (r2, w') \<Longrightarrow>
    wrapper_step lt (w, fs) (w', fs)"
| open_session_without: "open_call lt u m d None w = Some (r2, w') \<Longrightarrow> wrapper_step lt (w, fs) (w', fs)"
| invoke: "find_session_by_id sid w = Some p \<Longrightarrow> f \<in> set fs \<Longrightarrow>
    invoke_call lt p cmd (Some (fl_frame f)) w = Some (r2, w') \<Longrightarrow> wrapper_step lt (w, fs) (w', fs)"
| invoke_without: "find_session_by_id sid w = Some p \<Longrightarrow>
    invoke_call lt p cmd None w = Some (r2, w') \<Longrightarrow> wrapper_step lt (w, fs) (w', fs)"
| withdraw: "f \<in> set fs \<Longrightarrow> end_operation lt (fl_bytes f) (fl_key f) (fl_frame f) w = Some (new_op, w') \<Longrightarrow>
    wrapper_step lt (w, fs) (w', land (fl_frame f) fs)"
| record_session: "open_finish lt sid r2 new_op w = (res, w') \<Longrightarrow> wrapper_step lt (w, fs) (w', fs)"
| close: "teecCloseSession lt sid w = w' \<Longrightarrow> wrapper_step lt (w, fs) (w', fs)"
| cancel: "teecRequestCancellation lt key w = Some w' \<Longrightarrow> wrapper_step lt (w, fs) (w', fs)"

inductive_cases wrapper_stepE: "wrapper_step lt s t"

text \<open>The state of a freshly loaded library, whatever the environment is.\<close>

definition loaded :: "('c, 's, 'l) wrapper \<Rightarrow> bool" where
  "loaded w \<longleftrightarrow> sharedmemory_map w = [] \<and> sessions_map w = [] \<and> operations_map w = [] \<and> w_frames w = []
     \<and> h_structs (w_heap w) = [] \<and> h_buffers (w_heap w) = []"

inductive reachable :: "('c, 's, 'l) libtee \<Rightarrow> ('c, 's, 'l) wrapper \<times> flight list \<Rightarrow> bool"
  for lt :: "('c, 's, 'l) libtee" where
  start: "loaded w \<Longrightarrow> reachable lt (w, [])"
| step: "reachable lt s \<Longrightarrow> wrapper_step lt s t \<Longrightarrow> reachable lt t"

inductive_simps reachable_simp: "reachable lt s"

subsection \<open>Invariant\<close>

text \<open>
  Every operation in flight has its own live frame; every entry of \<open>operations_map\<close> points to
  the frame of an operation in flight that was published under that key; every frame is well
  typed for its bytes.
\<close>

definition frame_typed :: "('c, 's, 'l) libtee \<Rightarrow> byte list \<Rightarrow> TEEC_Operation \<Rightarrow> bool" where
  "frame_typed lt bytes op \<longleftrightarrow>
     (case ParseFromString TeecOperation_class bytes TeecOperation_new of
        None \<Rightarrow> False
      | Some (b, m) \<Rightarrow> operation_ok lt (\<lambda>sm. True) (length (to_mparams m)) op)"

definition flights_ok :: "('c, 's, 'l) libtee \<Rightarrow> ('c, 's, 'l) wrapper \<Rightarrow> flight list \<Rightarrow> bool" where
  "flights_ok lt w fs \<longleftrightarrow> distinct (map fl_frame fs)
     \<and> (\<forall>frame \<ge> w_next_frame w. map_of (w_frames w) frame = None)
     \<and> (\<forall>f \<in> set fs. case map_of (w_frames w) (fl_frame f) of
          None \<Rightarrow> False | Some op \<Rightarrow> frame_typed lt (fl_bytes f) op)
     \<and> (\<forall>e \<in> set (operations_map w). \<exists>f \<in> set fs. fl_key f = fst e \<and> fl_frame f = snd e)"

definition wrapper_ok :: "('c, 's, 'l) libtee \<Rightarrow> ('c, 's, 'l) wrapper \<times> flight list \<Rightarrow> bool" where
  "wrapper_ok lt s \<longleftrightarrow> memory_state (fst s) \<and> flights_ok lt (fst s) (snd s)"

lemma loaded_ok: "loaded w \<Longrightarrow> wrapper_ok lt (w, [])"
  by (simp add: loaded_def wrapper_ok_def memory_state_def flights_ok_def heap_ok_def registry_ok_def)

lemma flights_ok_cong:
  assumes "flights_ok lt w fs" "operations_map w' = operations_map w" "w_frames w' = w_frames w"
    "w_next_frame w' = w_next_frame w"
  shows "flights_ok lt w' fs"
  using assms by (simp add: flights_ok_def)

lemma memory_state_heap:
  assumes "memory_state w" "keeps_blocks (w_heap w) (w_heap w')" "sharedmemory_map w' = sharedmemory_map w"
  shows "memory_state w'"
  using assms keeps_registry_ok [OF assms(2)] keeps_heap_ok [OF assms(2)] by (simp add: memory_state_def)

lemma flight_frame:
  assumes "flights_ok lt w fs" "f \<in> set fs"
  obtains op where "map_of (w_frames w) (fl_frame f) = Some op" "frame_typed lt (fl_bytes f) op"
  using assms by (auto simp: flights_ok_def split: option.splits)

lemma operation_ok_mono:
  assumes "operation_ok lt live n op" "\<And>sm. live sm \<Longrightarrow> live' sm"
  shows "operation_ok lt live' n op"
  using assms unfolding operation_ok_def slot_ok_def by blast

lemma publish_ok:
  assumes laws: "param_types_laws lt" and w: "memory_state w" "flights_ok lt w fs"
    and run: "begin_operation lt bytes key w = Some (frame, w')"
  shows "memory_state w' \<and> flights_ok lt w' (\<lparr>fl_frame = frame, fl_key = key, fl_bytes = bytes\<rparr> # fs)"
proof -
  obtain op h where t: "transfer_op_to_TEEC_Operation lt (sharedmemory_map w) (Some bytes) TEEC_Operation_zero (w_heap w)
      = Some (op, h)" and frame: "frame = w_next_frame w"
    and w': "w' = w\<lparr>w_heap := h, w_frames := (frame, op) # w_frames w, w_next_frame := Suc frame,
                    operations_map := emplace key frame (operations_map w)\<rparr>"
    using run by (auto simp: begin_operation_def bind_eq_Some_conv Let_def)
  obtain b m where parsed: "ParseFromString TeecOperation_class bytes TeecOperation_new = Some (b, m)"
    using t by (auto simp: transfer_op_to_TEEC_Operation_def transfer_opString_to_TEEC_Operation_def bind_eq_Some_conv)
  have k: "keeps_blocks (w_heap w) h" and op: "operation_ok lt (memory_ok h) (length (to_mparams m)) op"
    using transfer_op_typed [OF laws _ parsed t] w(1) by (simp_all add: memory_state_def)
  have typed: "frame_typed lt bytes op"
    using operation_ok_mono [OF op] by (simp add: frame_typed_def parsed)
  have "memory_state w'" using memory_state_heap [OF w(1), of w'] k by (simp add: w')
  moreover have "\<forall>f \<in> set fs. fl_frame f \<noteq> frame"
    using w(2) frame by (fastforce simp: flights_ok_def split: option.splits)
  ultimately show ?thesis
    using w(2) typed frame by (auto simp: flights_ok_def w' set_emplace)
qed

lemma keeps_operation_ok:
  assumes "keeps_operation (Some op) (Some op')" "operation_ok lt live n op" "\<And>sm. live sm \<Longrightarrow> live' sm"
  shows "operation_ok lt live' n op'"
proof -
  have p: "paramTypes op' = paramTypes op" and l: "list_all2 same_kind (params op) (params op')"
    using assms(1) by (simp_all add: keeps_operation_def)
  have slot: "slot_ok lt live' n t p' j" if "same_kind p p'" "slot_ok lt live n t p j" for t p p' j
    using that assms(3)
    by (cases "(p, p')" rule: same_kind.cases) (auto simp: slot_ok_def)
  have "length (params op) = 4" "length (params op') = 4"
    using assms(2) list_all2_lengthD [OF l] by (simp_all add: operation_ok_def)
  moreover have "slot_ok lt live' n (TEEC_PARAM_TYPE_GET lt (paramTypes op) j) (params op' ! j) j" if "j < 4" for j
    using slot [OF list_all2_nthD [OF l]] assms(2) that by (simp add: operation_ok_def)
  ultimately show ?thesis by (simp add: operation_ok_def p)
qed

text \<open>libtee answered through the operation of a frame.\<close>

lemma answer_ok:
  assumes w: "memory_state w" "flights_ok lt w fs" and f: "f \<in> set fs"
    and op: "map_of (w_frames w) (fl_frame f) = Some op"
    and answer: "keeps_blocks (w_heap w) h" "keeps_operation (Some op) op'"
    and w': "w_heap w' = h" "sharedmemory_map w' = sharedmemory_map w" "operations_map w' = operations_map w"
      "w_next_frame w' = w_next_frame w"
      "w_frames w' = AList.update (fl_frame f) (case op' of None \<Rightarrow> op | Some x \<Rightarrow> x) (w_frames w)"
  shows "memory_state w' \<and> flights_ok lt w' fs"
proof -
  let ?op = "case op' of None \<Rightarrow> op | Some x \<Rightarrow> x"
  have typed: "frame_typed lt bytes ?op" if "frame_typed lt bytes op" for bytes
    using that answer(2) keeps_operation_ok [of op _ lt "\<lambda>sm. True"]
    by (auto simp: frame_typed_def split: option.splits)
  have "memory_state w'" using memory_state_heap [OF w(1), of w'] answer(1) by (simp add: w')
  moreover have "flights_ok lt w' fs"
    using w(2) typed f op by (auto simp: flights_ok_def w' update_conv')
  ultimately show ?thesis ..
qed

text \<open>After the call the operation lands: its key and its frame are gone.\<close>

lemma withdraw_ok:
  assumes w: "memory_state w" "flights_ok lt w fs" and f: "f \<in> set fs"
    and run: "end_operation lt (fl_bytes f) (fl_key f) (fl_frame f) w = Some (new_op, w')"
  shows "memory_state w' \<and> flights_ok lt w' (land (fl_frame f) fs)"
proof -
  have w': "w' = w\<lparr>operations_map := erase (fl_key f) (operations_map w), w_frames := AList.delete (fl_frame f) (w_frames w)\<rparr>"
    using run by (auto simp: end_operation_def bind_eq_Some_conv Let_def)
  have published: "\<exists>g \<in> set (land (fl_frame f) fs). fl_key g = fst e \<and> fl_frame g = snd e"
    if "e \<in> set (operations_map w)" "fst e \<noteq> fl_key f" for e
  proof -
    have "\<forall>e \<in> set (operations_map w). \<exists>g \<in> set fs. fl_key g = fst e \<and> fl_frame g = snd e"
      using w(2) by (simp add: flights_ok_def)
    from bspec [OF this that(1)] obtain g where g: "g \<in> set fs" "fl_key g = fst e" "fl_frame g = snd e" by blast
    moreover have "fl_frame g \<noteq> fl_frame f"
    proof
      assume "fl_frame g = fl_frame f"
      then have "g = f" using w(2) g(1) f by (auto simp: flights_ok_def distinct_map dest: inj_onD)
      then show False using g(2) that(2) by simp
    qed
    ultimately show ?thesis by (auto simp: land_def)
  qed
  have "flights_ok lt w' (land (fl_frame f) fs)"
    using w(2) published
    by (auto simp: flights_ok_def w' land_def distinct_map_filter AList.delete_conv')
  then show ?thesis using w(1) by (simp add: w' memory_state_def)
qed

lemma wrapper_step_ok:
  assumes laws: "param_types_laws lt" "libtee_keeps_memory lt"
    and "wrapper_step lt s t" "wrapper_ok lt s"
  shows "wrapper_ok lt t"
  using assms(3,4)
proof (induction rule: wrapper_step.induct)
  case (initialize n path ok w r w' fs)
  then show ?case
    by (auto simp: wrapper_ok_def memory_state_def flights_ok_def teecInitializeContext_def preparationFunc_def Let_def
        split: if_splits option.splits prod.splits)
next
  case (finalize w w' fs)
  then have "memory_state w" by (simp add: wrapper_ok_def)
  then obtain w'' where "teecFinalizeContext lt w = Some w''" "memory_state w''" "operations_map w'' = operations_map w"
    "w_frames w'' = w_frames w" "w_next_frame w'' = w_next_frame w" by (rule finalize_frees)
  then show ?case using finalize flights_ok_cong [of lt w fs w'] by (simp add: wrapper_ok_def)
next
  case (register data i w r w' fs)
  then show ?case using register_keeps [OF laws(2) _ register.hyps] flights_ok_cong [of lt w fs w']
    by (simp add: wrapper_ok_def)
next
  case (release i w w' fs)
  have w: "memory_state w" using release by (simp add: wrapper_ok_def)
  show ?case
  proof (cases "map_of (sharedmemory_map w) i")
    case None
    then show ?thesis using release release_unknown [of w i lt] by simp
  next
    case (Some sm)
    obtain w'' where "teecReleaseSharedMemory lt i w = Some w''" "memory_state w''" "operations_map w'' = operations_map w"
      "w_frames w'' = w_frames w" "w_next_frame w'' = w_next_frame w"
      using laws(2) w Some by (rule release_frees)
    then show ?thesis using release flights_ok_cong [of lt w fs w'] by (simp add: wrapper_ok_def)
  qed
next
  case (publish bytes key w frame w' fs)
  then show ?case using publish_ok [OF laws(1) _ _ publish.hyps, of fs] by (simp add: wrapper_ok_def)
next
  case (open_session f fs u m d w r2 w')
  then have w: "memory_state w" "flights_ok lt w fs" by (simp_all add: wrapper_ok_def)
  obtain op where op: "map_of (w_frames w) (fl_frame f) = Some op" using w(2) open_session(1) by (rule flight_frame)
  obtain r' s' op' h' l' where call: "TEEC_OpenSession lt (g_contextRecord w) (teec_session w) u m d (Some op) (w_heap w) (w_lib w)
      = (r', s', op', h', l')" by (metis prod_cases5)
  show ?case
    using answer_ok [OF w open_session(1) op, of h' op' w'] libtee_keeps(3) [OF laws(2)] call open_session(2)
    by (auto simp: wrapper_ok_def open_call_def op)
next
  case (open_session_without u m d w r2 w' fs)
  then have w: "memory_state w" "flights_ok lt w fs" by (simp_all add: wrapper_ok_def)
  obtain r' s' op' h' l' where call: "TEEC_OpenSession lt (g_contextRecord w) (teec_session w) u m d None (w_heap w) (w_lib w)
      = (r', s', op', h', l')" by (metis prod_cases5)
  then have k: "keeps_blocks (w_heap w) h'" using libtee_keeps(3) [OF laws(2)] by (cases r') simp
  show ?case
    using memory_state_heap [OF w(1), of w'] k flights_ok_cong [OF w(2), of w'] call open_session_without(1)
    by (auto simp: wrapper_ok_def open_call_def)
next
  case (invoke sid w p f fs cmd r2 w')
  then have w: "memory_state w" "flights_ok lt w fs" by (simp_all add: wrapper_ok_def)
  obtain op where op: "map_of (w_frames w) (fl_frame f) = Some op" using w(2) invoke(2) by (rule flight_frame)
  obtain r' op' h' l' where call: "TEEC_InvokeCommand lt (deref_session p w) cmd (Some op) (w_heap w) (w_lib w)
      = (r', op', h', l')" by (metis prod_cases4)
  show ?case
    using answer_ok [OF w invoke(2) op, of h' op' w'] libtee_keeps(4) [OF laws(2)] call invoke(3)
    by (cases r') (auto simp: wrapper_ok_def invoke_call_def op)
next
  case (invoke_without sid w p cmd r2 w' fs)
  then have w: "memory_state w" "flights_ok lt w fs" by (simp_all add: wrapper_ok_def)
  obtain r' op' h' l' where call: "TEEC_InvokeCommand lt (deref_session p w) cmd None (w_heap w) (w_lib w)
      = (r', op', h', l')" by (metis prod_cases4)
  then have k: "keeps_blocks (w_heap w) h'" using libtee_keeps(4) [OF laws(2)] by (cases r') simp
  show ?case
    using memory_state_heap [OF w(1), of w'] k flights_ok_cong [OF w(2), of w'] call invoke_without(2)
    by (auto simp: wrapper_ok_def invoke_call_def)
next
  case (withdraw f fs w new_op w')
  then show ?case using withdraw_ok [of w lt fs f new_op w'] by (simp add: wrapper_ok_def)
qed (auto simp: wrapper_ok_def memory_state_def flights_ok_def open_finish_def teecCloseSession_def
    teecRequestCancellation_def Let_def bind_eq_Some_conv split: prod.splits option.splits if_splits)

lemma reachable_ok:
  assumes "param_types_laws lt" "libtee_keeps_memory lt" "reachable lt s"
  shows "wrapper_ok lt s"
  using assms(3) by induction (use wrapper_step_ok [OF assms(1,2)] loaded_ok in blast)+

subsection \<open>Calls as steps\<close>

lemma fresh_frame:
  assumes "flights_ok lt w fs" "f \<in> set fs"
  shows "fl_frame f \<noteq> w_next_frame w"
  using assms by (fastforce simp: flights_ok_def split: option.splits)

lemma begin_frame: "begin_operation lt bytes key w = Some (frame, w') \<Longrightarrow> frame = w_next_frame w"
  by (auto simp: begin_operation_def bind_eq_Some_conv Let_def)

lemma call_steps:
  assumes "flights_ok lt w fs"
    and publish: "begin_operation lt bytes key w = Some (frame, w1)"
    and call: "\<And>f. f \<in> set (\<lparr>fl_frame = frame, fl_key = key, fl_bytes = bytes\<rparr> # fs) \<Longrightarrow> fl_frame f = frame \<Longrightarrow>
        wrapper_step lt (w1, \<lparr>fl_frame = frame, fl_key = key, fl_bytes = bytes\<rparr> # fs)
                        (w2, \<lparr>fl_frame = frame, fl_key = key, fl_bytes = bytes\<rparr> # fs)"
    and withdraw: "end_operation lt bytes key frame w2 = Some (new_op, w3)"
  shows "(wrapper_step lt)\<^sup>*\<^sup>* (w, fs) (w3, fs)"
proof -
  let ?f = "\<lparr>fl_frame = frame, fl_key = key, fl_bytes = bytes\<rparr>"
  have "\<forall>f \<in> set fs. fl_frame f \<noteq> frame"
    using fresh_frame [OF assms(1)] begin_frame [OF publish] by simp
  then have "land frame (?f # fs) = fs" by (simp add: land_def)
  then have "wrapper_step lt (w2, ?f # fs) (w3, fs)"
    using wrapper_step.withdraw [of ?f "?f # fs" lt w2 new_op w3] withdraw by simp
  with wrapper_step.publish [OF publish, of fs] call [of ?f] show ?thesis
    by (meson converse_rtranclp_into_rtranclp list.set_intros(1) flight.select_convs(1) r_into_rtranclp)
qed

lemma open_steps:
  assumes "flights_ok lt w fs" "teecOpenSession lt sid uuid m d op key w = Some (res, w')"
  shows "(wrapper_step lt)\<^sup>*\<^sup>* (w, fs) (w', fs)"
proof -
  obtain bits where bits: "uuid = Some bits" using assms(2) by (cases uuid) (auto simp: teecOpenSession_def)
  let ?u = "uuid_of_bits (fst bits) (snd bits)"
  show ?thesis
  proof (cases op)
    case None
    then obtain r w1 where call: "open_call lt ?u m d None w = Some (r, w1)" and fin: "open_finish lt sid r None w1 = (res, w')"
      using assms(2) bits by (auto simp: teecOpenSession_def bind_eq_Some_conv split_beta Let_def)
    show ?thesis
      using wrapper_step.open_session_without [OF call, of fs] wrapper_step.record_session [OF fin, of fs]
      by (meson converse_rtranclp_into_rtranclp r_into_rtranclp)
  next
    case (Some bytes)
    then obtain frame w1 r w2 new_op w3 where b: "begin_operation lt bytes key w = Some (frame, w1)"
      and call: "open_call lt ?u m d (Some frame) w1 = Some (r, w2)"
      and e: "end_operation lt bytes key frame w2 = Some (new_op, w3)" and fin: "open_finish lt sid r new_op w3 = (res, w')"
      using assms(2) bits by (auto simp: teecOpenSession_def bind_eq_Some_conv split_beta Let_def)
    have "(wrapper_step lt)\<^sup>*\<^sup>* (w, fs) (w3, fs)"
      by (rule call_steps [OF assms(1) b _ e]) (use call wrapper_step.open_session in blast)
    then show ?thesis using wrapper_step.record_session [OF fin, of fs] by (rule rtranclp.rtrancl_into_rtrancl)
  qed
qed

lemma invoke_steps:
  assumes "flights_ok lt w fs" "teecInvokeCommand lt sid cmd op key w = Some (res, w')"
  shows "(wrapper_step lt)\<^sup>*\<^sup>* (w, fs) (w', fs)"
proof (cases "find_session_by_id sid w")
  case None
  then show ?thesis using assms(2) by (simp add: teecInvokeCommand_def)
next
  case (Some p)
  show ?thesis
  proof (cases op)
    case None
    then obtain r where "invoke_call lt p cmd None w = Some (r, w')"
      using assms(2) Some by (auto simp: teecInvokeCommand_def bind_eq_Some_conv split_beta)
    then show ?thesis using wrapper_step.invoke_without [OF Some] by blast
  next
    case (Some bytes)
    then obtain frame w1 r w2 new_op where b: "begin_operation lt bytes key w = Some (frame, w1)"
      and call: "invoke_call lt p cmd (Some frame) w1 = Some (r, w2)"
      and e: "end_operation lt bytes key frame w2 = Some (new_op, w')"
      using assms(2) \<open>find_session_by_id sid w = Some p\<close>
      by (auto simp: teecInvokeCommand_def bind_eq_Some_conv split_beta)
    have "find_session_by_id sid w1 = Some p"
      using \<open>find_session_by_id sid w = Some p\<close> b
      by (auto simp: begin_operation_def find_session_by_id_def bind_eq_Some_conv Let_def)
    then show ?thesis
      by (intro call_steps [OF assms(1) b _ e]) (use call wrapper_step.invoke in blast)
  qed
qed

end
