(* ===== verification/SampleLibtee.thy ===== *)
theory SampleLibtee
  imports WrapperSteps
begin

text \<open>
  A concrete libtee, for the inputs at which the properties are applied: the constants and the
  \<open>TEEC_PARAM_TYPES\<close> packing of the GlobalPlatform specification, a TA that adds one to the
  first value of every parameter, and a log of the calls.
\<close>

datatype call =
    Called_initialize
  | Called_finalize
  | Called_register addr
  | Called_release addr
  | Called_open nat TEEC_UUID "TEEC_Operation option"
  | Called_close nat
  | Called_invoke nat u32 "TEEC_Operation option"
  | Called_cancel TEEC_Operation

fun sample_answer :: "TEEC_Parameter \<Rightarrow> TEEC_Parameter" where
  "sample_answer (Param_value a b) = Param_value (a + 1) b"
| "sample_answer (Param_memref sm k off) = Param_memref sm k off"

unbundle bit_operations_syntax

definition sample_types :: "u32 \<Rightarrow> u32 \<Rightarrow> u32 \<Rightarrow> u32 \<Rightarrow> u32" where
  "sample_types a b c d = a OR push_bit 4 b OR push_bit 8 c OR push_bit 12 d"

definition sample_libtee :: "(bool, nat, call list) libtee" where
  "sample_libtee = \<lparr>
     TEEC_InitializeContext = (\<lambda>n c l. (0, True, Called_initialize # l)),
     TEEC_FinalizeContext = (\<lambda>c l. Called_finalize # l),
     TEEC_RegisterSharedMemory = (\<lambda>c sm h l. (0, h, Called_register sm # l)),
     TEEC_ReleaseSharedMemory = (\<lambda>sm h l. (h, Called_release sm # l)),
     TEEC_OpenSession = (\<lambda>c s u m d op h l. ((0, 4), Suc s,
        map_option (\<lambda>x. x\<lparr>params := map sample_answer (params x)\<rparr>) op, h, Called_open (Suc s) u op # l)),
     TEEC_CloseSession = (\<lambda>s l. (s, Called_close s # l)),
     TEEC_InvokeCommand = (\<lambda>s m op h l. ((0, 4),
        map_option (\<lambda>x. x\<lparr>params := map sample_answer (params x)\<rparr>) op, h, Called_invoke s m op # l)),
     TEEC_RequestCancellation = (\<lambda>op l. Called_cancel op # l),
     zero_context = False,
     TEEC_SUCCESS = 0, TEEC_ERROR_NO_DATA = 0xFFFF000B, TEEC_ERROR_OUT_OF_MEMORY = 0xFFFF000C,
     TEEC_ERROR_BAD_PARAMETERS = 0xFFFF0006, TEEC_ORIGIN_API = 1, TEEC_MEM_OUTPUT = 2,
     TEEC_NONE = 0, TEEC_VALUE_INPUT = 1, TEEC_VALUE_OUTPUT = 2, TEEC_VALUE_INOUT = 3,
     TEEC_MEMREF_WHOLE = 0xC, TEEC_MEMREF_PARTIAL_INPUT = 0xD, TEEC_MEMREF_PARTIAL_OUTPUT = 0xE,
     TEEC_MEMREF_PARTIAL_INOUT = 0xF,
     TEEC_PARAM_TYPES = sample_types,
     TEEC_PARAM_TYPE_GET = (\<lambda>t i. take_bit 4 (drop_bit (4 * i) t)),
     sizeof_pointer = 8,
     malloc_succeeds = (\<lambda>h n. True)\<rparr>"

definition sample_wrapper :: "(bool, nat, call list) wrapper" where
  "sample_wrapper = \<lparr>g_contextRecord = False, sharedmemory_map = [], sessions_map = [], operations_map = [],
     teec_session = 0, open_tee_socket_env_set = False, w_getenv = None,
     w_heap = \<lparr>h_structs = [], h_buffers = [], h_next = 1\<rparr>, w_frames = [], w_next_frame = 0, w_lib = []\<rparr>"

lemma sample_loaded: "loaded sample_wrapper"
  by (simp add: loaded_def sample_wrapper_def)

lemma nibble_bits:
  fixes a :: u32
  assumes "a < 16" "bit a k"
  shows "k < 4"
proof (rule ccontr)
  assume "\<not> k < 4"
  have "unat (a mod 16) = unat a" using assms(1) by (simp add: unat_mod word_less_nat_alt)
  then have "take_bit 4 a = a" by (simp add: take_bit_eq_mod unsigned_word_eqI)
  then show False using assms(2) \<open>\<not> k < 4\<close> bit_take_bit_iff [of 4 a k] by simp
qed

lemma sample_types_get:
  assumes "a < 16" "b < 16" "c < 16" "d < 16" "i < 4"
  shows "take_bit 4 (drop_bit (4 * i) (sample_types a b c d)) = [a, b, c, d] ! i"
proof (rule bit_word_eqI)
  fix k assume k: "k < LENGTH(32)"
  consider "i = 0" | "i = 1" | "i = 2" | "i = 3" using assms(5) by linarith
  then show "bit (take_bit 4 (drop_bit (4 * i) (sample_types a b c d))) k = bit ([a, b, c, d] ! i) k"
    using k
    by cases (auto simp: sample_types_def bit_simps not_less
        dest: nibble_bits [OF assms(1)] nibble_bits [OF assms(2)] nibble_bits [OF assms(3)] nibble_bits [OF assms(4)])
qed

lemma sample_param_types_laws: "param_types_laws sample_libtee"
  using sample_types_get
  by (simp add: param_types_laws_def sample_libtee_def value_types_def memory_types_def)

lemma sample_answer_kind: "list_all2 same_kind ps (map sample_answer ps)"
proof -
  have "same_kind p (sample_answer p)" for p by (cases p) simp_all
  then show ?thesis by (simp add: list_all2_conv_all_nth)
qed

lemma sample_keeps_memory: "libtee_keeps_memory sample_libtee"
  using sample_answer_kind
  by (simp add: libtee_keeps_memory_def sample_libtee_def keeps_operation_def split: option.splits)

subsection \<open>A sample run\<close>

text \<open>Memory 7 is registered, session 1 opened, an operation on the memory published under key 42.\<close>

definition sample_block :: TeecSharedMemory where
  "sample_block = TeecSharedMemory_set_mbuffer [1, 2, 3, 4, 5, 6, 7, 8, 9] (TeecSharedMemory_set_mflag 2
     (TeecSharedMemory_set_size 9 (TeecSharedMemory_set_mid 7 TeecSharedMemory_new)))"

definition sample_call :: TeecOperation where
  "sample_call = TeecOperation_new\<lparr>to_has_mstarted := True, to_mstarted := 0, to_mparams :=
     [TeecParameter_set_type 1 (TeecParameter_set_allocated_teecsharedmemoryreference
        (Some (TeecSharedMemoryReference_set_moffset 0 (TeecSharedMemoryReference_set_mflag 13
           (TeecSharedMemoryReference_set_allocated_parent (Some sample_block) TeecSharedMemoryReference_new))))
        TeecParameter_new),
      TeecParameter_set_type 2 (TeecParameter_set_allocated_teecvalue (Some sample_value) TeecParameter_new)]\<rparr>"

definition sample_block_bytes :: "byte list" where
  "sample_block_bytes = TeecSharedMemory_SerializeWithCachedSizesToArray sample_block"

definition sample_call_bytes :: "byte list" where
  "sample_call_bytes = TeecOperation_SerializeWithCachedSizesToArray sample_call"

definition sample_registered :: "(bool, nat, call list) wrapper" where
  "sample_registered = (case teecRegisterSharedMemory sample_libtee (Some sample_block_bytes) 7 sample_wrapper of
     Some (r, w) \<Rightarrow> w | None \<Rightarrow> sample_wrapper)"

definition sample_opened :: "(bool, nat, call list) wrapper" where
  "sample_opened = (case teecOpenSession sample_libtee 1 (Some (5, 6)) 0 0 None 42 sample_registered of
     Some (r, w) \<Rightarrow> w | None \<Rightarrow> sample_wrapper)"

definition sample_published :: "(bool, nat, call list) wrapper" where
  "sample_published = (case begin_operation sample_libtee sample_call_bytes 42 sample_opened of
     Some (frame, w) \<Rightarrow> w | None \<Rightarrow> sample_wrapper)"

lemma sample_run:
  "teecRegisterSharedMemory sample_libtee (Some sample_block_bytes) 7 sample_wrapper = Some (0, sample_registered)"
  "open_call sample_libtee (uuid_of_bits 5 6) 0 0 None sample_registered
     = Some ((0, 4), sample_opened\<lparr>sessions_map := []\<rparr>)"
  "snd (open_finish sample_libtee 1 (0, 4) None (sample_opened\<lparr>sessions_map := []\<rparr>)) = sample_opened"
  "begin_operation sample_libtee sample_call_bytes 42 sample_opened = Some (0, sample_published)"
  "int (length sample_block_bytes) \<le> kDefaultTotalBytesLimit"
  by code_simp+

definition sample_flight :: flight where
  "sample_flight = \<lparr>fl_frame = 0, fl_key = 42, fl_bytes = sample_call_bytes\<rparr>"

lemma sample_opened_reachable: "reachable sample_libtee (sample_opened, [])"
proof -
  have "wrapper_step sample_libtee (sample_wrapper, []) (sample_registered, [])"
    using sample_run(1) by (rule wrapper_step.register)
  moreover have "wrapper_step sample_libtee (sample_registered, []) (sample_opened\<lparr>sessions_map := []\<rparr>, [])"
    using sample_run(2) by (rule wrapper_step.open_session_without)
  moreover have "wrapper_step sample_libtee (sample_opened\<lparr>sessions_map := []\<rparr>, []) (sample_opened, [])"
  proof (rule wrapper_step.record_session)
    show "open_finish sample_libtee 1 (0, 4) None (sample_opened\<lparr>sessions_map := []\<rparr>)
        = (fst (open_finish sample_libtee 1 (0, 4) None (sample_opened\<lparr>sessions_map := []\<rparr>)), sample_opened)"
      by (subst sample_run(3) [symmetric]) simp
  qed
  ultimately show ?thesis
    using reachable.step [OF reachable.step [OF reachable.step [OF reachable.start [OF sample_loaded]]]] by blast
qed

lemma sample_published_reachable: "reachable sample_libtee (sample_published, [sample_flight])"
  using reachable.step [OF sample_opened_reachable wrapper_step.publish [OF sample_run(4)]]
  by (simp add: sample_flight_def)

lemmas sample_laws = sample_param_types_laws sample_keeps_memory

lemma sample_invoke: "teecInvokeCommand sample_libtee 1 3 (Some sample_call_bytes) 43 sample_published \<noteq> None"
  by code_simp

end
