(* ===== verification/WrapperProps.thy ===== *)
theory WrapperProps
  imports SampleLibtee
begin

text \<open>Properties of the JNI wrapper.\<close>

subsection \<open>Properties\<close>

text \<open>
  C1: in every state that any interleaving of the JNI calls reaches, each id of
  \<open>sharedmemory_map\<close> owns its own struct and its own buffer, allocated and large enough; no two ids
  share one; every entry of \<open>operations_map\<close> points to the live stack frame of a call in flight
  that was published under that key; and every such operation is typed as its bytes say.
\<close>
theorem wrapper_invariant:
  assumes "param_types_laws lt" "libtee_keeps_memory lt" "reachable lt (w, fs)"
  shows "registry_ok (sharedmemory_map w) (w_heap w) \<and> heap_ok (w_heap w) \<and> distinct (map fl_frame fs)
     \<and> (\<forall>e \<in> set (operations_map w). \<exists>f \<in> set fs. fl_key f = fst e \<and> fl_frame f = snd e)
     \<and> (\<forall>f \<in> set fs. \<exists>op. map_of (w_frames w) (fl_frame f) = Some op \<and> frame_typed lt (fl_bytes f) op)"
proof -
  have m: "memory_state w" and fl: "flights_ok lt w fs"
    using reachable_ok [OF assms] by (simp_all add: wrapper_ok_def)
  from fl have "\<forall>f \<in> set fs. \<exists>op. map_of (w_frames w) (fl_frame f) = Some op \<and> frame_typed lt (fl_bytes f) op"
    by (blast elim: flight_frame)
  moreover have "distinct (map fl_frame fs)"
      "\<forall>e \<in> set (operations_map w). \<exists>f \<in> set fs. fl_key f = fst e \<and> fl_frame f = snd e"
    using fl unfolding flights_ok_def by fast+
  moreover have "registry_ok (sharedmemory_map w) (w_heap w) \<and> heap_ok (w_heap w)"
    using m by (simp add: memory_state_def)
  ultimately show ?thesis by blast
qed

lemma wrapper_invariant_witness:
  "registry_ok (sharedmemory_map sample_published) (w_heap sample_published) \<and> heap_ok (w_heap sample_published)
   \<and> list_all (\<lambda>e. fst e = 42 \<and> snd e = 0) (operations_map sample_published)
   \<and> (\<exists>op. map_of (w_frames sample_published) 0 = Some op \<and> frame_typed sample_libtee sample_call_bytes op)"
  using wrapper_invariant [OF sample_laws sample_published_reachable]
  by (auto simp: sample_flight_def list_all_iff)







text \<open>
  C15: the copy of a memory parameter into the registered block is
  \<open>memcpy(sm->buffer, smBuffer, sizeof(smBuffer))\<close>: it moves as many bytes as a pointer has. It is
  undefined exactly if the block or the message with its terminating zero is shorter than that,
  and when it is defined every byte of the block past the size of a pointer keeps its old value.
\<close>
theorem memory_parameter_copies_pointer_size:
  assumes "registry_ok sms h" "i < 4" "tp_has_teecsharedmemoryreference p"
    and "ts_mflag (passed_memory p) \<noteq> MEMREF_OUTPUT"
    and "map_of sms (sint (ts_mid (passed_memory p))) = Some sm"
    and "map_of (h_buffers h) (buffer_of h sm) = Some old"
  shows "(transfer_param lt sms i p types op h = None
        \<longleftrightarrow> Suc (length (ts_mbuffer (passed_memory p))) < sizeof_pointer lt \<or> length old < sizeof_pointer lt)
     \<and> (\<forall>ok types' op' h'. transfer_param lt sms i p types op h = Some (ok, types', op', h') \<longrightarrow>
          map_of (h_buffers h') (buffer_of h sm)
            = Some (take (sizeof_pointer lt) (ts_mbuffer (passed_memory p) @ [0]) @ drop (sizeof_pointer lt) old))"
proof -
  obtain x where x: "map_of (h_structs h) sm = Some x" "buffer_of h sm = c_buffer x"
    using registry_find [OF assms(1,5)] by (rule memory_okE)
  have "transfer_param lt sms i p types op h = None \<longleftrightarrow> \<not> param_fits lt sms h p"
    using assms(1,2) by (rule transfer_param_defined)
  moreover have "param_fits lt sms h p \<longleftrightarrow> \<not> (Suc (length (ts_mbuffer (passed_memory p))) < sizeof_pointer lt
      \<or> length old < sizeof_pointer lt)"
    using assms(3-6) by (auto simp: param_fits_def)
  ultimately show ?thesis
    using assms(3-6) x
    by (auto simp: transfer_param_def TeecParameter_copy(2) Let_def passed_memory_def [symmetric] memcpy_to_def
        c_str_def write_buffer_def update_conv' bind_eq_Some_conv split: if_splits)
qed

lemma memory_parameter_copies_pointer_size_witness:
  "transfer_param sample_libtee (sharedmemory_map sample_opened) 0 (hd (to_mparams sample_call))
     [0, 0, 0, 0] TEEC_Operation_zero (w_heap sample_opened) \<noteq> None"
proof -
  have reg: "registry_ok (sharedmemory_map sample_opened) (w_heap sample_opened)"
    using reachable_ok [OF sample_laws sample_opened_reachable] by (simp add: wrapper_ok_def memory_state_def)
  have facts: "tp_has_teecsharedmemoryreference (hd (to_mparams sample_call))"
    "ts_mflag (passed_memory (hd (to_mparams sample_call))) \<noteq> MEMREF_OUTPUT"
    "map_of (sharedmemory_map sample_opened) (sint (ts_mid (passed_memory (hd (to_mparams sample_call))))) = Some 1"
    "map_of (h_buffers (w_heap sample_opened)) (buffer_of (w_heap sample_opened) 1) = Some [1, 2, 3, 4, 5, 6, 7, 8, 9]"
    "ts_mbuffer (passed_memory (hd (to_mparams sample_call))) = [1, 2, 3, 4, 5, 6, 7, 8, 9]"
    by code_simp+
  have "sizeof_pointer sample_libtee = 8" by (simp add: sample_libtee_def)
  with memory_parameter_copies_pointer_size [OF reg _ facts(1-4), of 0 sample_libtee] facts(5)
  show ?thesis by simp
qed

text \<open>
  C19: an operation with a parameter in memory that is not registered is not rejected.
  The translation stops there with \<open>false\<close>, nobody looks at that, and the call goes on with an
  operation whose \<open>paramTypes\<close> is 0, no parameter at all.
\<close>
theorem unknown_memory_drops_parameters:
  assumes "ParseFromString TeecOperation_class bytes TeecOperation_new = Some (b, m)"
    and "p \<in> set (to_mparams m)" "tp_has_teecsharedmemoryreference p"
    and "map_of sms (sint (ts_mid (passed_memory p))) = None"
    and "transfer_op_to_TEEC_Operation lt sms (Some bytes) TEEC_Operation_zero h = Some (op, h')"
  shows "paramTypes op = 0 \<and> started op = to_mstarted m"
proof -
  have here: "transfer_param lt sms i p types op h = Some (False, types, op, h)" for i types op h
    using assms(3,4) by (simp add: transfer_param_def TeecParameter_copy(2) Let_def passed_memory_def)
  have keeps: "paramTypes op' = paramTypes op \<and> started op' = started op"
    if "transfer_param lt sms i q types op h = Some (ok, types', op', h')" for i q types op h ok types' op' h'
    using that by (auto simp: transfer_param_def Let_def bind_eq_Some_conv split: if_splits option.splits)
  have stops: "\<not> ok \<and> paramTypes op' = paramTypes op \<and> started op' = started op"
    if "transfer_params lt sms i mps types op h = Some (ok, types', op', h')" "p \<in> set mps"
    for i mps types op h ok types' op' h'
    using that
  proof (induction mps arbitrary: i types op h)
    case (Cons q mps)
    obtain c types1 op1 h1 where q: "transfer_param lt sms i q types op h = Some (c, types1, op1, h1)"
      and rest: "(if c then transfer_params lt sms (Suc i) mps types1 op1 h1 else Some (False, types1, op1, h1))
          = Some (ok, types', op', h')"
      using Cons.prems(1) by (auto simp: bind_eq_Some_conv)
    show ?case
    proof (cases c)
      case True
      then have "q \<noteq> p" using q here [of i types op h] by auto
      then show ?thesis using Cons.IH [of "Suc i" types1 op1 h1] Cons.prems(2) rest keeps [OF q] True by simp
    next
      case False
      then show ?thesis using rest keeps [OF q] by simp
    qed
  qed simp
  show ?thesis
    using assms(1,2,5) stops
    by (fastforce simp: transfer_op_to_TEEC_Operation_def transfer_opString_to_TEEC_Operation_def bind_eq_Some_conv
        TEEC_Operation_zero_def)
qed

lemma unknown_memory_drops_parameters_witness:
  "\<exists>op h'. transfer_op_to_TEEC_Operation sample_libtee [] (Some sample_call_bytes) TEEC_Operation_zero
       (w_heap sample_wrapper) = Some (op, h') \<and> paramTypes op = 0"
proof -
  have "transfer_op_to_TEEC_Operation sample_libtee [] (Some sample_call_bytes) TEEC_Operation_zero
      (w_heap sample_wrapper) \<noteq> None"
    by code_simp
  then obtain op h' where t: "transfer_op_to_TEEC_Operation sample_libtee [] (Some sample_call_bytes)
      TEEC_Operation_zero (w_heap sample_wrapper) = Some (op, h')" by fastforce
  have "map_option (\<lambda>x. to_mparams (snd x) \<noteq> [] \<and> tp_has_teecsharedmemoryreference (hd (to_mparams (snd x))))
      (ParseFromString TeecOperation_class sample_call_bytes TeecOperation_new) = Some True"
    by code_simp
  then obtain b m where p: "ParseFromString TeecOperation_class sample_call_bytes TeecOperation_new = Some (b, m)"
    and m: "to_mparams m \<noteq> []" "tp_has_teecsharedmemoryreference (hd (to_mparams m))" by auto
  show ?thesis
    using unknown_memory_drops_parameters [OF p hd_in_set [OF m(1)] m(2) _ t] t by simp
qed



text \<open>
  Calls that name nothing change nothing: a command on an unknown session id
  returns \<open>TEEC_ERROR_BAD_PARAMETERS\<close> with origin \<open>TEEC_ORIGIN_API\<close> without calling libtee, a null
  shared memory is refused with \<open>TEEC_ERROR_NO_DATA\<close>, and releasing, closing or cancelling an
  unknown id is a no-op.
\<close>
theorem unknown_ids_change_nothing:
  assumes "find_session_by_id sid w = None" "find_sharedmemory_by_id i w = None" "map_of (operations_map w) key = None"
  shows "teecInvokeCommand lt sid cmd op k w = Some (\<lparr>new_op_in_bytes = None, return_origin = TEEC_ORIGIN_API lt,
           return_code = TEEC_ERROR_BAD_PARAMETERS lt\<rparr>, w)
     \<and> teecRegisterSharedMemory lt None j w = Some (TEEC_ERROR_NO_DATA lt, w)
     \<and> teecReleaseSharedMemory lt i w = Some w
     \<and> teecCloseSession lt sid w = w
     \<and> teecRequestCancellation lt key w = Some w"
  using assms
  by (simp add: teecInvokeCommand_def teecRegisterSharedMemory_def teecReleaseSharedMemory_def teecCloseSession_def
      teecRequestCancellation_def find_session_by_id_def)

lemma unknown_ids_change_nothing_witness:
  "teecInvokeCommand sample_libtee 1 3 None 0 sample_wrapper = Some (\<lparr>new_op_in_bytes = None, return_origin = 1,
     return_code = 0xFFFF0006\<rparr>, sample_wrapper)"
proof -
  have "find_session_by_id 1 sample_wrapper = None" "find_sharedmemory_by_id 7 sample_wrapper = None"
    "map_of (operations_map sample_wrapper) 42 = None"
    by (simp_all add: sample_wrapper_def find_session_by_id_def find_sharedmemory_by_id_def)
  from unknown_ids_change_nothing [OF this, of sample_libtee 3 None 0]
  show ?thesis by (simp add: sample_libtee_def)
qed

end
