(* ===== verification/WrapperResults.thy ===== *)
theory WrapperResults
  imports SampleLibtee
begin

text \<open>
  What the client gets from the wrapper: calls that return, values that travel to the TA and
  back, shared memory that is registered and released, and the cases where the code loses track.
\<close>

subsection \<open>Calls return\<close>

lemma begin_defined:
  assumes "param_types_laws lt" "memory_state w"
    and "ParseFromString TeecOperation_class bytes TeecOperation_new = Some (b, m)"
    and "length (to_mparams m) \<le> 4" "\<forall>p \<in> set (to_mparams m). param_fits lt (sharedmemory_map w) (w_heap w) p"
  obtains op h where "begin_operation lt bytes key w = Some (w_next_frame w, w\<lparr>w_heap := h,
      w_frames := (w_next_frame w, op) # w_frames w, w_next_frame := Suc (w_next_frame w),
      operations_map := emplace key (w_next_frame w) (operations_map w)\<rparr>)"
    "keeps_blocks (w_heap w) h" "operation_ok lt (memory_ok h) (length (to_mparams m)) op"
proof -
  have reg: "registry_ok (sharedmemory_map w) (w_heap w)" using assms(2) by (simp add: memory_state_def)
  obtain op h where t: "transfer_op_to_TEEC_Operation lt (sharedmemory_map w) (Some bytes) TEEC_Operation_zero (w_heap w)
      = Some (op, h)"
    using transfer_op_defined [OF assms(1) reg assms(4,5,3)] by auto
  show thesis
    by (rule that [of op h]) (use t transfer_op_typed [OF assms(1) reg assms(3) t] in \<open>simp_all add: begin_operation_def Let_def\<close>)
qed

text \<open>From the answer of libtee to the bytes that go back to Java.\<close>

lemma end_defined:
  assumes op: "operation_ok lt (memory_ok h) n op" and answer: "keeps_blocks h h'" "keeps_operation (Some op) op'"
    and m: "ParseFromString TeecOperation_class bytes TeecOperation_new = Some (b, m)" "n = length (to_mparams m)"
    and w: "w_heap w = h'" "map_of (w_frames w) frame = Some (case op' of None \<Rightarrow> op | Some x \<Rightarrow> x)"
  obtains new_op where "end_operation lt bytes key frame w = Some (Some new_op,
    w\<lparr>operations_map := erase key (operations_map w), w_frames := AList.delete frame (w_frames w)\<rparr>)"
proof -
  let ?op = "case op' of None \<Rightarrow> op | Some x \<Rightarrow> x"
  have "operation_ok lt (memory_ok h') n ?op"
  proof (cases op')
    case None
    then show ?thesis using operation_ok_mono [OF op] keeps_memory_ok(1) [OF answer(1)] by simp
  next
    case (Some x)
    then show ?thesis using keeps_operation_ok [OF _ op] answer keeps_memory_ok(1) [OF answer(1)] by simp
  qed
  then obtain new_op where "transfer_TEEC_Operation_to_op lt h' ?op (Some bytes) = Some (Some new_op)"
    using transfer_back_defined m by blast
  then show thesis using that [of new_op] w by (simp add: end_operation_def)
qed

lemma delete_first: "map_of m k = None \<Longrightarrow> AList.delete k (AList.update k v ((k, u) # m)) = m"
  by (auto simp: AList.delete_eq map_of_eq_None_iff rev_image_eqI intro!: filter_True)

lemma fresh_next_frame:
  assumes "flights_ok lt w fs"
  shows "map_of (w_frames w) (w_next_frame w) = None"
  using assms by (simp add: flights_ok_def)


lemma sample_call_fits:
  "map_option (\<lambda>x. length (to_mparams (snd x)) \<le> 4 \<and> list_all (param_fits sample_libtee (sharedmemory_map sample_published)
       (w_heap sample_published)) (to_mparams (snd x)))
     (ParseFromString TeecOperation_class sample_call_bytes TeecOperation_new) = Some True"
  "find_session_by_id 1 sample_published = Some teec_session_ptr"
  by code_simp+


subsection \<open>Shared memory\<close>

text \<open>
  C11: a block that the client serializes reaches libtee as it is (size, flags and
  bytes) and is found under its id afterwards; releasing it gives back exactly the two blocks of
  the heap that registering took.
\<close>
theorem register_release_roundtrip:
  assumes "libtee_keeps_memory lt" "memory_state w" "find_sharedmemory_by_id i w = None"
    and "TEEC_ERROR_OUT_OF_MEMORY lt \<noteq> TEEC_SUCCESS lt"
    and "TeecSharedMemory_wf 100 m" "TeecSharedMemory_ByteSize m \<le> kDefaultTotalBytesLimit" "TeecSharedMemory_IsInitialized m"
    and "teecRegisterSharedMemory lt (Some (TeecSharedMemory_SerializeWithCachedSizesToArray m)) i w
       = Some (TEEC_SUCCESS lt, w1)"
  shows "\<exists>sm b h l w2. TEEC_RegisterSharedMemory lt (g_contextRecord w) sm h (w_lib w) = (TEEC_SUCCESS lt, w_heap w1, l)
     \<and> map_of (h_structs h) sm = Some \<lparr>c_buffer = b, c_size = length (ts_mbuffer m), c_flags = ts_mflag m\<rparr>
     \<and> map_of (h_buffers h) b = Some (ts_mbuffer m)
     \<and> find_sharedmemory_by_id i w1 = Some sm
     \<and> teecReleaseSharedMemory lt i w1 = Some w2 \<and> sharedmemory_map w2 = sharedmemory_map w
     \<and> dom (map_of (h_structs (w_heap w2))) = dom (map_of (h_structs (w_heap w)))
     \<and> dom (map_of (h_buffers (w_heap w2))) = dom (map_of (h_buffers (w_heap w)))"
proof -
  let ?m = "TeecSharedMemory_MergeFrom m TeecSharedMemory_new"
  have h: "heap_ok (w_heap w)" and none: "map_of (sharedmemory_map w) i = None"
    using assms(2,3) by (simp_all add: memory_state_def find_sharedmemory_by_id_def)
  have m: "ts_mbuffer ?m = ts_mbuffer m" "ts_mflag ?m = ts_mflag m"
    using assms(7) by (simp_all add: TeecSharedMemory_IsInitialized_def copy_simps)
  have "ParseFromString TeecSharedMemory_class (TeecSharedMemory_SerializeWithCachedSizesToArray m) TeecSharedMemory_new
      = Some (TeecSharedMemory_IsInitialized ?m, ?m)"
    using memory_msg.parse_serialized(1) [OF assms(5), of TeecSharedMemory_new] assms(6) by (simp add: message_classes)
  from assms(8) h this show ?thesis
  proof (cases rule: register_cases)
    case (called sm h' h'' l)
    have w1: "w1 = w\<lparr>w_heap := h'', w_lib := l, sharedmemory_map := emplace i sm (sharedmemory_map w)\<rparr>"
      using called(9) by simp
    have i1: "map_of (sharedmemory_map w1) i = Some sm" using jmap.put_absent [OF none] by (simp add: w1)
    have mem: "memory_state w1" using register_keeps [OF assms(1,2,8)] by blast
    have k: "keeps_blocks h' h''" using libtee_keeps(1) [OF assms(1) called(8)] .
    have buf: "buffer_of h'' sm = buffer_of h' sm"
      using keeps_memory_ok(2) [OF k] called(4,5) by (simp add: memory_ok_def)
    obtain w2 where w2: "teecReleaseSharedMemory lt i w1 = Some w2" "sharedmemory_map w2 = erase i (sharedmemory_map w1)"
      "dom (map_of (h_structs (w_heap w2))) = dom (map_of (h_structs (w_heap w1))) - {sm}"
      "dom (map_of (h_buffers (w_heap w2))) = dom (map_of (h_buffers (w_heap w1))) - {buffer_of (w_heap w1) sm}"
      using assms(1) mem i1 by (rule release_frees)
    have "sm \<notin> dom (map_of (h_structs (w_heap w)))" "buffer_of h' sm \<notin> dom (map_of (h_buffers (w_heap w)))"
      using heap_ok_fresh [OF h called(2)] heap_ok_fresh [OF h called(3)] by auto
    then have "dom (map_of (h_structs (w_heap w2))) = dom (map_of (h_structs (w_heap w)))"
      "dom (map_of (h_buffers (w_heap w2))) = dom (map_of (h_buffers (w_heap w)))"
      using w2(3,4) called(6,7) keeps_blocksD [OF k] buf by (simp_all add: w1)
    moreover have "sharedmemory_map w2 = sharedmemory_map w"
      using w2(2) none by (auto simp: w1 emplace_def erase_def AList.delete_eq map_of_eq_None_iff rev_image_eqI
          intro!: filter_True)
    ultimately show ?thesis
      using called(4,5,8) w2(1) i1 by (auto simp: m w1 find_sharedmemory_by_id_def)
  qed (use assms(4) in simp_all)
qed

lemma sample_initial: "memory_state sample_wrapper" "find_sharedmemory_by_id 7 sample_wrapper = None"
  "TEEC_ERROR_OUT_OF_MEMORY sample_libtee \<noteq> TEEC_SUCCESS sample_libtee" "TEEC_SUCCESS sample_libtee = 0"
  using loaded_ok [OF sample_loaded]
  by (simp_all add: wrapper_ok_def find_sharedmemory_by_id_def sample_wrapper_def sample_libtee_def)

lemma sample_block_ok: "TeecSharedMemory_wf 100 sample_block"
  "TeecSharedMemory_ByteSize sample_block \<le> kDefaultTotalBytesLimit" "TeecSharedMemory_IsInitialized sample_block"
  by code_simp+

lemma register_release_roundtrip_witness:
  "\<exists>w2. teecReleaseSharedMemory sample_libtee 7 sample_registered = Some w2 \<and> sharedmemory_map w2 = []"
proof -
  have "teecRegisterSharedMemory sample_libtee (Some (TeecSharedMemory_SerializeWithCachedSizesToArray sample_block)) 7
      sample_wrapper = Some (TEEC_SUCCESS sample_libtee, sample_registered)"
    using sample_run(1) sample_initial(4) by (simp add: sample_block_bytes_def)
  from register_release_roundtrip [OF sample_keeps_memory sample_initial(1-3) sample_block_ok this]
  show ?thesis by (auto simp: sample_wrapper_def)
qed

text \<open>
  C16: finalizing frees exactly the blocks of the registry, each once: what else is on
  the heap stays, and if the registry owned everything the heap is empty afterwards.
\<close>
theorem finalize_frees_registry:
  assumes "memory_state w"
  shows "\<exists>w'. teecFinalizeContext lt w = Some w' \<and> sharedmemory_map w' = [] \<and> sessions_map w' = []
     \<and> dom (map_of (h_structs (w_heap w'))) = dom (map_of (h_structs (w_heap w))) - snd ` set (sharedmemory_map w)
     \<and> dom (map_of (h_buffers (w_heap w')))
         = dom (map_of (h_buffers (w_heap w))) - buffer_of (w_heap w) ` snd ` set (sharedmemory_map w)"
proof -
  obtain w' where "teecFinalizeContext lt w = Some w'" "sharedmemory_map w' = []" "sessions_map w' = []"
    "map_of (h_structs (w_heap w')) = map_of (h_structs (w_heap w)) |` (- snd ` set (sharedmemory_map w))"
    "map_of (h_buffers (w_heap w'))
       = map_of (h_buffers (w_heap w)) |` (- (\<lambda>x. buffer_of (w_heap w) (snd x)) ` set (sharedmemory_map w))"
    using assms by (rule finalize_frees [of w lt])
  then show ?thesis by (simp add: image_image Diff_eq Int_commute)
qed

lemma finalize_frees_registry_witness:
  "\<exists>w'. teecFinalizeContext sample_libtee sample_published = Some w' \<and> sharedmemory_map w' = []"
  using finalize_frees_registry [of sample_published sample_libtee]
    reachable_ok [OF sample_laws sample_published_reachable] by (auto simp: wrapper_ok_def)




subsection \<open>UUIDs\<close>

lemma next_byte:
  fixes x :: u64
  shows "push_bit 8 (drop_bit (k + 8) x) OR ucast (ucast (drop_bit k x) :: 8 word) = drop_bit k x"
proof (rule bit_word_eqI)
  fix n assume "n < LENGTH(64)"
  then show "bit (push_bit 8 (drop_bit (k + 8) x) OR ucast (ucast (drop_bit k x) :: 8 word)) n = bit (drop_bit k x) n"
    by (cases "n < 8") (auto simp: bit_simps dest: bit_imp_le_length)
qed

lemma drop_bit_beyond: "drop_bit 64 (x :: u64) = 0"
  by (rule bit_word_eqI) (auto simp: bit_simps dest: bit_imp_le_length)

text \<open>
  The fields of the \<open>TEEC_UUID\<close> that \<open>teecOpenSession\<close> builds hold all 128 bits of
  the Java UUID: the three time fields, put together, are the most significant bits, the eight
  bytes of \<open>clockSeqAndNode\<close>, read in order, the least significant.
\<close>
theorem uuid_bits_recovered:
  "push_bit 32 (ucast (timeLow (uuid_of_bits msb lsb))) OR push_bit 16 (ucast (timeMid (uuid_of_bits msb lsb)))
     OR ucast (timeHiAndVersion (uuid_of_bits msb lsb)) = msb
   \<and> foldl (\<lambda>acc b. push_bit 8 acc OR ucast b) 0 (clockSeqAndNode (uuid_of_bits msb lsb)) = lsb
   \<and> length (clockSeqAndNode (uuid_of_bits msb lsb)) = 8"
proof (intro conjI)
  show "push_bit 32 (ucast (timeLow (uuid_of_bits msb lsb))) OR push_bit 16 (ucast (timeMid (uuid_of_bits msb lsb)))
     OR ucast (timeHiAndVersion (uuid_of_bits msb lsb)) = msb" (is "?bits = _")
  proof (rule bit_word_eqI)
    fix n assume n: "n < LENGTH(64)"
    consider "n < 16" | "16 \<le> n" "n < 32" | "32 \<le> n" by linarith
    then show "bit ?bits n = bit msb n"
      using n by cases (auto simp: uuid_of_bits_def bit_simps)
  qed
  show "foldl (\<lambda>acc b. push_bit 8 acc OR ucast b) 0 (clockSeqAndNode (uuid_of_bits msb lsb)) = lsb"
    using next_byte [of 56 lsb] next_byte [of 48 lsb] next_byte [of 40 lsb] next_byte [of 32 lsb]
      next_byte [of 24 lsb] next_byte [of 16 lsb] next_byte [of 8 lsb] next_byte [of 0 lsb]
    by (simp add: uuid_of_bits_def upt_rec drop_bit_beyond)
  show "length (clockSeqAndNode (uuid_of_bits msb lsb)) = 8" by (simp add: uuid_of_bits_def)
qed

end
