(* ===== verification/WrapperValues.thy ===== *)
theory WrapperValues
  imports SampleLibtee
begin

text \<open>
  Operations whose parameters are values: what libtee is handed and what Java gets back, bit for
  bit, through both parsers, the serializer and the two translations.
\<close>

definition value_params :: "TeecOperation \<Rightarrow> bool" where
  "value_params m \<longleftrightarrow> length (to_mparams m) \<le> 4
     \<and> (\<forall>p \<in> set (to_mparams m). \<not> tp_has_teecsharedmemoryreference p \<and> tp_has_teecvalue p
          \<and> TeecValue_IsInitialized (TeecParameter_get_teecvalue p))"

definition output_type :: "('c, 's, 'l) libtee \<Rightarrow> u32 \<Rightarrow> bool" where
  "output_type lt t \<longleftrightarrow> t = TEEC_VALUE_OUTPUT lt \<or> t = TEEC_VALUE_INOUT lt"

text \<open>The parameter with the two numbers of the answer.\<close>

definition answered_param :: "TEEC_Parameter \<Rightarrow> TeecParameter \<Rightarrow> TeecParameter" where
  "answered_param q p =
     (case q of
        Param_value a b \<Rightarrow>
          TeecParameter_put_teecvalue (TeecValue_set_b b (TeecValue_set_a a (TeecParameter_get_teecvalue p))) p
      | Param_memref sm k off \<Rightarrow> p)"

definition answered :: "('c, 's, 'l) libtee \<Rightarrow> TEEC_Operation \<Rightarrow> TeecOperation \<Rightarrow> TeecOperation" where
  "answered lt op m = (TeecOperation_set_mstarted (started op) m)\<lparr>to_mparams :=
     map (\<lambda>j. if output_type lt (TEEC_PARAM_TYPE_GET lt (paramTypes op) j)
              then answered_param (params op ! j) (to_mparams m ! j) else to_mparams m ! j)
         [0..<length (to_mparams m)]\<rparr>"

subsection \<open>To libtee\<close>

lemma transfer_param_value:
  assumes "\<not> tp_has_teecsharedmemoryreference p" "tp_has_teecvalue p"
    "TeecValue_IsInitialized (TeecParameter_get_teecvalue p)" "i < 4"
  shows "transfer_param lt sms i p types op h = Some (True, types[i := value_type lt (TeecParameter_get_teecvalue p) (types ! i)],
    op\<lparr>params := (params op)[i := Param_value (tv_a (TeecParameter_get_teecvalue p)) (tv_b (TeecParameter_get_teecvalue p))]\<rparr>, h)"
  using assms by (simp add: transfer_param_def copy_simps TeecValue_IsInitialized_def value_type_def Let_def)

lemma transfer_params_values:
  assumes "\<forall>p \<in> set ps. \<not> tp_has_teecsharedmemoryreference p \<and> tp_has_teecvalue p
      \<and> TeecValue_IsInitialized (TeecParameter_get_teecvalue p)"
    and "i + length ps \<le> 4" "length types = 4" "length (params op) = 4"
  shows "\<exists>types' qs. transfer_params lt sms i ps types op h = Some (True, types', op\<lparr>params := qs\<rparr>, h)
     \<and> length types' = 4 \<and> length qs = 4
     \<and> (\<forall>j < 4. types' ! j = (if i \<le> j \<and> j < i + length ps
           then value_type lt (TeecParameter_get_teecvalue (ps ! (j - i))) (types ! j) else types ! j))
     \<and> (\<forall>j < 4. qs ! j = (if i \<le> j \<and> j < i + length ps
           then Param_value (tv_a (TeecParameter_get_teecvalue (ps ! (j - i)))) (tv_b (TeecParameter_get_teecvalue (ps ! (j - i))))
           else params op ! j))"
  using assms
proof (induction ps arbitrary: i types op)
  case Nil
  then show ?case by (intro exI [of _ types] exI [of _ "params op"]) auto
next
  case (Cons p ps)
  let ?v = "TeecParameter_get_teecvalue p"
  let ?types = "types[i := value_type lt ?v (types ! i)]"
  let ?op = "op\<lparr>params := (params op)[i := Param_value (tv_a ?v) (tv_b ?v)]\<rparr>"
  obtain types' qs where r: "transfer_params lt sms (Suc i) ps ?types ?op h = Some (True, types', ?op\<lparr>params := qs\<rparr>, h)"
    "length types' = 4" "length qs = 4"
    "\<forall>j < 4. types' ! j = (if Suc i \<le> j \<and> j < Suc i + length ps
        then value_type lt (TeecParameter_get_teecvalue (ps ! (j - Suc i))) (?types ! j) else ?types ! j)"
    "\<forall>j < 4. qs ! j = (if Suc i \<le> j \<and> j < Suc i + length ps
        then Param_value (tv_a (TeecParameter_get_teecvalue (ps ! (j - Suc i)))) (tv_b (TeecParameter_get_teecvalue (ps ! (j - Suc i))))
        else params ?op ! j)"
    using Cons.IH [of "Suc i" ?types ?op] Cons.prems by auto
  have "transfer_params lt sms i (p # ps) types op h = Some (True, types', op\<lparr>params := qs\<rparr>, h)"
    using transfer_param_value [of p i lt sms types op h] Cons.prems r(1) by simp
  moreover have "\<forall>j < 4. types' ! j = (if i \<le> j \<and> j < i + length (p # ps)
        then value_type lt (TeecParameter_get_teecvalue ((p # ps) ! (j - i))) (types ! j) else types ! j)"
    using r(4) Cons.prems(2,3) by (auto simp: nth_list_update nth_Cons' Suc_le_eq)
  moreover have "\<forall>j < 4. qs ! j = (if i \<le> j \<and> j < i + length (p # ps)
        then Param_value (tv_a (TeecParameter_get_teecvalue ((p # ps) ! (j - i)))) (tv_b (TeecParameter_get_teecvalue ((p # ps) ! (j - i))))
        else params op ! j)"
    using r(5) Cons.prems(2,4) by (auto simp: nth_list_update nth_Cons' Suc_le_eq)
  ultimately show ?case using r(2,3) by blast
qed

subsection \<open>Back to Java\<close>

definition sync_slot :: "('c, 's, 'l) libtee \<Rightarrow> TEEC_Operation \<Rightarrow> nat \<Rightarrow> TeecOperation \<Rightarrow> TeecOperation" where
  "sync_slot lt op j m =
     (if output_type lt (TEEC_PARAM_TYPE_GET lt (paramTypes op) j)
      then TeecOperation_put_mparams j (answered_param (params op ! j) (to_mparams m ! j)) m else m)"

lemma sync_value_answered:
  assumes "j < length (to_mparams m)" "tp_has_teecvalue (to_mparams m ! j)"
  shows "sync_value j (Param_value a b) m = Some (TeecOperation_put_mparams j (answered_param (Param_value a b) (to_mparams m ! j)) m)"
proof -
  obtain p where p: "to_mparams m ! j = p" "tp_has_teecvalue p" using assms(2) by blast
  have "TeecParameter_put_teecvalue (TeecValue_set_b b (TeecValue_set_a a (TeecParameter_get_teecvalue p)))
      (p\<lparr>tp_has_teecvalue := True, tp_teecvalue := x\<rparr>)
    = TeecParameter_put_teecvalue (TeecValue_set_b b (TeecValue_set_a a (TeecParameter_get_teecvalue p))) p" for x
    using p(2) by (cases p) (simp add: TeecParameter_put_teecvalue_def)
  then show ?thesis using assms(1) p
    by (cases p) (auto simp: sync_value_def TeecOperation_get_mparams_def answered_param_def TeecParameter_mutable_teecvalue_def
        TeecParameter_get_teecvalue_def TeecParameter_put_teecvalue_def Let_def split: option.splits)
qed

lemma answered_param_has [simp]: "tp_has_teecvalue (answered_param q p) = tp_has_teecvalue p"
  by (cases q) (simp_all add: answered_param_def TeecParameter_put_teecvalue_def)

definition values_answered :: "('c, 's, 'l) libtee \<Rightarrow> TEEC_Operation \<Rightarrow> TeecOperation \<Rightarrow> bool" where
  "values_answered lt op m \<longleftrightarrow> (\<forall>j < 4. TEEC_PARAM_TYPE_GET lt (paramTypes op) j \<notin> memory_types lt
     \<and> (output_type lt (TEEC_PARAM_TYPE_GET lt (paramTypes op) j) \<longrightarrow>
          j < length (to_mparams m) \<and> tp_has_teecvalue (to_mparams m ! j) \<and> (\<exists>a b. params op ! j = Param_value a b)))"

lemma sync_slot_mparams:
  "length (to_mparams (sync_slot lt op j m)) = length (to_mparams m)"
  "k < length (to_mparams m) \<Longrightarrow> tp_has_teecvalue (to_mparams (sync_slot lt op j m) ! k) = tp_has_teecvalue (to_mparams m ! k)"
  by (simp_all add: sync_slot_def TeecOperation_put_mparams_def) (cases "k = j"; simp)

lemma sync_params_values:
  assumes "set js \<subseteq> {..<4}" "values_answered lt op m"
  shows "sync_params lt h op js m = Some (fold (sync_slot lt op) js m)"
  using assms
proof (induction js arbitrary: m)
  case (Cons j js)
  let ?t = "TEEC_PARAM_TYPE_GET lt (paramTypes op) j"
  have j: "?t \<notin> memory_types lt" "output_type lt ?t \<Longrightarrow> j < length (to_mparams m) \<and> tp_has_teecvalue (to_mparams m ! j)
      \<and> (\<exists>a b. params op ! j = Param_value a b)"
    using Cons.prems by (auto simp: values_answered_def)
  have "values_answered lt op (sync_slot lt op j m)"
    using Cons.prems(2) by (auto simp: values_answered_def sync_slot_mparams)
  then have rest: "sync_params lt h op js (sync_slot lt op j m) = Some (fold (sync_slot lt op) js (sync_slot lt op j m))"
    using Cons.IH Cons.prems(1) by simp
  show ?case
  proof (cases "output_type lt ?t")
    case True
    then obtain a b where "params op ! j = Param_value a b" using j(2) by blast
    then have "sync_value j (params op ! j) m = Some (sync_slot lt op j m)"
      using True j(2) sync_value_answered [of j m a b] by (simp add: sync_slot_def)
    moreover have "?t = TEEC_VALUE_OUTPUT lt \<or> ?t = TEEC_VALUE_INOUT lt" using True by (simp add: output_type_def)
    ultimately show ?thesis using rest by simp
  next
    case False
    then have "sync_slot lt op j m = m" by (simp add: sync_slot_def)
    then show ?thesis using False rest j(1) by (auto simp: output_type_def memory_types_def)
  qed
qed simp

lemma fold_sync_slot:
  assumes "distinct js"
  shows "fold (sync_slot lt op) js m = m\<lparr>to_mparams :=
     map (\<lambda>k. if k \<in> set js \<and> output_type lt (TEEC_PARAM_TYPE_GET lt (paramTypes op) k)
              then answered_param (params op ! k) (to_mparams m ! k) else to_mparams m ! k)
         [0..<length (to_mparams m)]\<rparr>"
  using assms
proof (induction js arbitrary: m)
  case Nil
  then show ?case by (cases m) (simp add: map_nth)
next
  case (Cons j js)
  have "map (\<lambda>k. if k \<in> set js \<and> output_type lt (TEEC_PARAM_TYPE_GET lt (paramTypes op) k)
          then answered_param (params op ! k) (to_mparams (sync_slot lt op j m) ! k) else to_mparams (sync_slot lt op j m) ! k)
        [0..<length (to_mparams m)]
      = map (\<lambda>k. if k \<in> set (j # js) \<and> output_type lt (TEEC_PARAM_TYPE_GET lt (paramTypes op) k)
          then answered_param (params op ! k) (to_mparams m ! k) else to_mparams m ! k) [0..<length (to_mparams m)]"
  proof (rule map_cong [OF refl])
    fix k assume "k \<in> set [0..<length (to_mparams m)]"
    then show "(if k \<in> set js \<and> output_type lt (TEEC_PARAM_TYPE_GET lt (paramTypes op) k)
          then answered_param (params op ! k) (to_mparams (sync_slot lt op j m) ! k) else to_mparams (sync_slot lt op j m) ! k)
        = (if k \<in> set (j # js) \<and> output_type lt (TEEC_PARAM_TYPE_GET lt (paramTypes op) k)
          then answered_param (params op ! k) (to_mparams m ! k) else to_mparams m ! k)"
      using Cons.prems by (cases "k = j") (simp_all add: sync_slot_def TeecOperation_put_mparams_def)
  qed
  moreover have "to_mparams_update (\<lambda>_. xs) (sync_slot lt op j m) = m\<lparr>to_mparams := xs\<rparr>" for xs
    by (simp add: sync_slot_def TeecOperation_put_mparams_def)
  ultimately show ?case using Cons by (simp add: sync_slot_mparams)
qed

subsection \<open>Property\<close>


definition sample_values :: TeecOperation where
  "sample_values = TeecOperation_new\<lparr>to_has_mstarted := True, to_mparams :=
     [TeecParameter_set_type 2 (TeecParameter_set_allocated_teecvalue (Some sample_value) TeecParameter_new)]\<rparr>"


end
