(* ===== verification/Repeated.thy ===== *)
theory Repeated
  imports Prelude
begin

text \<open>
  \<^verbatim>\<open>RepeatedField<Element>\<close> of \<^verbatim>\<open>repeated_field.h\<close>: the growable array of a repeated field of
  primitive type. \<open>elements_\<close> is the list of its \<open>total_size_\<close> slots (\<open>NULL\<close> is the empty
  list); a slot that was never written is \<open>None\<close>. \<open>None\<close> as a result is a failed
  \<^verbatim>\<open>GOOGLE_DCHECK\<close>, an access outside the array, or an overflowing \<open>int\<close>.
\<close>

subsection \<open>Slots and loops\<close>

definition slot :: "'a list \<Rightarrow> int \<Rightarrow> 'a option" where
  "slot xs i = (if 0 \<le> i \<and> i < int (length xs) then Some (xs ! nat i) else None)"

definition put_slot :: "int \<Rightarrow> 'a \<Rightarrow> 'a list \<Rightarrow> 'a list option" where
  "put_slot i x xs = (if 0 \<le> i \<and> i < int (length xs) then Some (xs[nat i := x]) else None)"

text \<open>\<^verbatim>\<open>for (int i = a; i < b; ++i)\<close> is \<open>for_each\<close> over \<open>[a..b - 1]\<close>.\<close>

fun for_each :: "('i \<Rightarrow> 's \<Rightarrow> 's option) \<Rightarrow> 'i list \<Rightarrow> 's \<Rightarrow> 's option" where
  "for_each f [] s = Some s"
| "for_each f (i # is) s = do { s \<leftarrow> f i s; for_each f is s }"

definition checked_int :: "int \<Rightarrow> int option" where
  "checked_int n = (if - INT_MAX - 1 \<le> n \<and> n \<le> INT_MAX then Some n else None)"

definition kMinRepeatedFieldAllocationSize :: int where
  "kMinRepeatedFieldAllocationSize = 4"

subsection \<open>RepeatedField\<close>

record 'e repeated_field =
  rf_elements :: "'e option list"
  rf_current_size :: int
  rf_total_size :: int

definition RepeatedField_new :: "'e repeated_field" where
  "RepeatedField_new = \<lparr>rf_elements = [], rf_current_size = 0, rf_total_size = 0\<rparr>"

definition RepeatedField_empty :: "'e repeated_field \<Rightarrow> bool" where
  "RepeatedField_empty z \<longleftrightarrow> rf_current_size z = 0"

definition RepeatedField_size :: "'e repeated_field \<Rightarrow> int" where
  "RepeatedField_size z = rf_current_size z"

definition RepeatedField_Capacity :: "'e repeated_field \<Rightarrow> int" where
  "RepeatedField_Capacity z = rf_total_size z"

text \<open>\<open>MoveArray\<close> and \<open>CopyArray\<close>: \<open>memcpy\<close> of the first slots, indeterminate ones included.\<close>

definition RepeatedField_CopyArray :: "int \<Rightarrow> 'a list \<Rightarrow> 'a list \<Rightarrow> int \<Rightarrow> 'a list option" where
  "RepeatedField_CopyArray at to from_array array_size =
     (if 0 \<le> array_size \<and> array_size \<le> int (length from_array) \<and> 0 \<le> at \<and> at + array_size \<le> int (length to)
      then Some (take (nat at) to @ take (nat array_size) from_array @ drop (nat at + nat array_size) to) else None)"

definition RepeatedField_Reserve :: "int \<Rightarrow> 'e repeated_field \<Rightarrow> 'e repeated_field option" where
  "RepeatedField_Reserve new_size z =
     (if rf_total_size z \<ge> new_size then Some z
      else do { let old_elements = rf_elements z;
                doubled \<leftarrow> checked_int (rf_total_size z * 2);
                let total = max kMinRepeatedFieldAllocationSize (max doubled new_size);
                let elements = replicate (nat total) None;
                elements \<leftarrow> (if old_elements \<noteq> []
                              then RepeatedField_CopyArray 0 elements old_elements (rf_current_size z)
                              else Some elements);
                Some (z\<lparr>rf_total_size := total, rf_elements := elements\<rparr>) })"

definition RepeatedField_AddAlreadyReserved :: "'e \<Rightarrow> 'e repeated_field \<Rightarrow> 'e repeated_field option" where
  "RepeatedField_AddAlreadyReserved v z =
     (if RepeatedField_size z < RepeatedField_Capacity z then
        do { elements \<leftarrow> put_slot (rf_current_size z) (Some v) (rf_elements z);
             Some (z\<lparr>rf_elements := elements, rf_current_size := rf_current_size z + 1\<rparr>) }
      else None)"

definition RepeatedField_AddAlreadyReserved_slot :: "'e repeated_field \<Rightarrow> (int \<times> 'e repeated_field) option" where
  \<comment> \<open>the pointer returned is the index of its slot, which keeps what it held\<close>
  "RepeatedField_AddAlreadyReserved_slot z =
     (if RepeatedField_size z < RepeatedField_Capacity z
      then Some (rf_current_size z, z\<lparr>rf_current_size := rf_current_size z + 1\<rparr>) else None)"

definition RepeatedField_Resize :: "int \<Rightarrow> 'e \<Rightarrow> 'e repeated_field \<Rightarrow> 'e repeated_field option" where
  "RepeatedField_Resize new_size v z =
     (if new_size \<ge> 0 then
        do { z \<leftarrow> (if new_size > RepeatedField_size z then
                     do { z \<leftarrow> RepeatedField_Reserve new_size z;
                          elements \<leftarrow> for_each (\<lambda>i. put_slot i (Some v)) [rf_current_size z..new_size - 1] (rf_elements z);
                          Some (z\<lparr>rf_elements := elements\<rparr>) }
                   else Some z);
             Some (z\<lparr>rf_current_size := new_size\<rparr>) }
      else None)"

definition RepeatedField_Get :: "int \<Rightarrow> 'e repeated_field \<Rightarrow> 'e option" where
  "RepeatedField_Get index z =
     (if index \<ge> 0 \<and> index < RepeatedField_size z then do { x \<leftarrow> slot (rf_elements z) index; x } else None)"

definition RepeatedField_Mutable :: "int \<Rightarrow> 'e repeated_field \<Rightarrow> int option" where
  "RepeatedField_Mutable index z = (if index \<ge> 0 \<and> index < RepeatedField_size z then Some index else None)"

definition RepeatedField_Set :: "int \<Rightarrow> 'e \<Rightarrow> 'e repeated_field \<Rightarrow> 'e repeated_field option" where
  "RepeatedField_Set index v z =
     (if index \<ge> 0 \<and> index < RepeatedField_size z then
        do { elements \<leftarrow> put_slot index (Some v) (rf_elements z); Some (z\<lparr>rf_elements := elements\<rparr>) }
      else None)"

definition RepeatedField_Add :: "'e \<Rightarrow> 'e repeated_field \<Rightarrow> 'e repeated_field option" where
  "RepeatedField_Add v z =
     do { z \<leftarrow> (if rf_current_size z = rf_total_size z
                then do { n \<leftarrow> checked_int (rf_total_size z + 1); RepeatedField_Reserve n z } else Some z);
          elements \<leftarrow> put_slot (rf_current_size z) (Some v) (rf_elements z);
          Some (z\<lparr>rf_elements := elements, rf_current_size := rf_current_size z + 1\<rparr>) }"

definition RepeatedField_Add_slot :: "'e repeated_field \<Rightarrow> (int \<times> 'e repeated_field) option" where
  "RepeatedField_Add_slot z =
     do { z \<leftarrow> (if rf_current_size z = rf_total_size z
                then do { n \<leftarrow> checked_int (rf_total_size z + 1); RepeatedField_Reserve n z } else Some z);
          Some (rf_current_size z, z\<lparr>rf_current_size := rf_current_size z + 1\<rparr>) }"

definition RepeatedField_RemoveLast :: "'e repeated_field \<Rightarrow> 'e repeated_field option" where
  "RepeatedField_RemoveLast z =
     (if rf_current_size z > 0 then Some (z\<lparr>rf_current_size := rf_current_size z - 1\<rparr>) else None)"

definition RepeatedField_Truncate :: "int \<Rightarrow> 'e repeated_field \<Rightarrow> 'e repeated_field option" where
  "RepeatedField_Truncate new_size z =
     (if new_size \<le> rf_current_size z then Some (z\<lparr>rf_current_size := new_size\<rparr>) else None)"

definition RepeatedField_ExtractSubrange ::
    "int \<Rightarrow> int \<Rightarrow> 'e repeated_field \<Rightarrow> ('e list \<times> 'e repeated_field) option" where
  \<comment> \<open>the list is what is stored in \<open>elements\<close>, for \<open>elements != NULL\<close>\<close>
  "RepeatedField_ExtractSubrange start num z =
     (if start \<ge> 0 \<and> num \<ge> 0 \<and> start + num \<le> RepeatedField_size z then
        do { xs \<leftarrow> for_each (\<lambda>i xs. do { x \<leftarrow> RepeatedField_Get (i + start) z; Some (xs @ [x]) }) [0..num - 1] [];
             z \<leftarrow> (if num > 0 then
                     do { z \<leftarrow> for_each (\<lambda>i z. do { x \<leftarrow> RepeatedField_Get i z; RepeatedField_Set (i - num) x z })
                                 [start + num..RepeatedField_size z - 1] z;
                          RepeatedField_Truncate (RepeatedField_size z - num) z }
                   else Some z);
             Some (xs, z) }
      else None)"

definition RepeatedField_Clear :: "'e repeated_field \<Rightarrow> 'e repeated_field" where
  "RepeatedField_Clear z = z\<lparr>rf_current_size := 0\<rparr>"

definition RepeatedField_MergeFrom :: "'e repeated_field \<Rightarrow> 'e repeated_field \<Rightarrow> 'e repeated_field option" where
  \<comment> \<open>for \<open>&other != this\<close>, which \<^verbatim>\<open>GOOGLE_CHECK_NE\<close> demands\<close>
  "RepeatedField_MergeFrom other z =
     (if rf_current_size other \<noteq> 0 then
        do { n \<leftarrow> checked_int (rf_current_size z + rf_current_size other);
             z \<leftarrow> RepeatedField_Reserve n z;
             elements \<leftarrow> RepeatedField_CopyArray (rf_current_size z) (rf_elements z) (rf_elements other) (rf_current_size other);
             Some (z\<lparr>rf_elements := elements, rf_current_size := rf_current_size z + rf_current_size other\<rparr>) }
      else Some z)"

definition RepeatedField_CopyFrom :: "'e repeated_field \<Rightarrow> 'e repeated_field \<Rightarrow> 'e repeated_field option" where
  "RepeatedField_CopyFrom other z = RepeatedField_MergeFrom other (RepeatedField_Clear z)"

definition RepeatedField_from_range :: "bool \<Rightarrow> 'e list \<Rightarrow> 'e repeated_field option" where
  \<comment> \<open>the constructor from iterators; forward iterators know their distance\<close>
  "RepeatedField_from_range forward_iterator xs =
     (if forward_iterator then
        do { n \<leftarrow> checked_int (int (length xs));
             z \<leftarrow> RepeatedField_Reserve n RepeatedField_new;
             for_each RepeatedField_AddAlreadyReserved xs z }
      else for_each RepeatedField_Add xs RepeatedField_new)"

definition RepeatedField_Swap :: "'e repeated_field \<times> 'e repeated_field \<Rightarrow> 'e repeated_field \<times> 'e repeated_field" where
  \<comment> \<open>for \<open>other != this\<close>\<close>
  "RepeatedField_Swap = (\<lambda>(z, other).
     (\<lparr>rf_elements = rf_elements other, rf_current_size = rf_current_size other, rf_total_size = rf_total_size other\<rparr>,
      \<lparr>rf_elements = rf_elements z, rf_current_size = rf_current_size z, rf_total_size = rf_total_size z\<rparr>))"

definition RepeatedField_SwapElements :: "int \<Rightarrow> int \<Rightarrow> 'e repeated_field \<Rightarrow> 'e repeated_field option" where
  "RepeatedField_SwapElements index1 index2 z =
     do { x \<leftarrow> slot (rf_elements z) index1;
          y \<leftarrow> slot (rf_elements z) index2;
          elements \<leftarrow> put_slot index1 y (rf_elements z);
          elements \<leftarrow> put_slot index2 x elements;
          Some (z\<lparr>rf_elements := elements\<rparr>) }"

definition RepeatedField_SpaceUsedExcludingSelf :: "int \<Rightarrow> 'e repeated_field \<Rightarrow> int option" where
  "RepeatedField_SpaceUsedExcludingSelf sizeof_element z =
     (if rf_elements z \<noteq> [] then checked_int (rf_total_size z * sizeof_element) else Some 0)"

end
