(* ===== verification/RepeatedLaws.thy ===== *)
theory RepeatedLaws
  imports Repeated
begin

text \<open>
  Laws of \<open>repeated_field\<close>: the slots below \<open>current_size_\<close> behave as a list, whatever the
  capacity, and the capacity at least doubles when it grows.
\<close>

named_theorems slot_simps

lemma for_each_append: "for_each f (xs @ ys) s = do { s \<leftarrow> for_each f xs s; for_each f ys s }"
  by (induction xs arbitrary: s) (auto simp: bind_eq_Some_conv split: Option.bind_splits)

lemma upto_snoc: "(a :: int) \<le> b \<Longrightarrow> [a..b] = [a..b - 1] @ [b]"
  by (rule upto_rec2)

lemma upto_last [simp]: "[a..a - 1] = ([] :: int list)"
  by simp

text \<open>The loop rule for counted loops: \<open>P i s\<close> holds before iteration \<open>i\<close>.\<close>

lemma counted_loop:
  fixes a b :: int
  assumes "a \<le> b" "P a s"
    and "\<And>i s. a \<le> i \<Longrightarrow> i < b \<Longrightarrow> P i s \<Longrightarrow> \<exists>s'. f i s = Some s' \<and> P (i + 1) s'"
  shows "\<exists>s'. for_each f [a..b - 1] s = Some s' \<and> P b s'"
  using assms
proof (induction "nat (b - a)" arbitrary: a s)
  case 0
  then show ?case by simp
next
  case (Suc n)
  then have ab: "a < b" by linarith
  then obtain s' where s': "f a s = Some s'" "P (a + 1) s'" using Suc.prems(2,3) by blast
  have "\<exists>s''. for_each f [a + 1..b - 1] s' = Some s'' \<and> P b s''"
    using Suc.hyps(2) ab s'(2) Suc.prems(3) by (intro Suc.hyps(1)) auto
  then show ?case using s'(1) ab by (subst upto_rec1) auto
qed

lemma slot_Some [slot_simps]: "0 \<le> i \<Longrightarrow> i < int (length xs) \<Longrightarrow> slot xs i = Some (xs ! nat i)"
  by (simp add: slot_def)

lemma put_slot_Some [slot_simps]: "0 \<le> i \<Longrightarrow> i < int (length xs) \<Longrightarrow> put_slot i x xs = Some (xs[nat i := x])"
  by (simp add: put_slot_def)

lemma checked_int_Some [slot_simps]: "- INT_MAX - 1 \<le> n \<Longrightarrow> n \<le> INT_MAX \<Longrightarrow> checked_int n = Some n"
  by (simp add: checked_int_def)

lemma INT_MAX_pos [simp]: "0 \<le> INT_MAX" "0 < INT_MAX" "4 \<le> INT_MAX"
  by (simp_all add: INT_MAX_def)

subsection \<open>The list a field holds\<close>

definition rf_ok :: "'e repeated_field \<Rightarrow> bool" where
  "rf_ok z \<longleftrightarrow> rf_total_size z = int (length (rf_elements z)) \<and> 0 \<le> rf_current_size z
     \<and> rf_current_size z \<le> rf_total_size z \<and> rf_total_size z \<le> INT_MAX"

definition rf_slots :: "'e repeated_field \<Rightarrow> 'e option list" where
  "rf_slots z = take (nat (rf_current_size z)) (rf_elements z)"

definition rf_holds :: "'e repeated_field \<Rightarrow> 'e list \<Rightarrow> bool" where
  "rf_holds z xs \<longleftrightarrow> rf_ok z \<and> rf_slots z = map Some xs"

lemma rf_holds_current: "rf_holds z xs \<Longrightarrow> rf_current_size z = int (length xs)"
  by (auto simp: rf_holds_def rf_ok_def rf_slots_def dest!: arg_cong [of _ _ length])

lemma rf_holds_nth:
  assumes "rf_holds z xs" "i < length xs"
  shows "rf_elements z ! i = Some (xs ! i)"
proof -
  have "rf_slots z ! i = Some (xs ! i)" using assms by (simp add: rf_holds_def)
  then show ?thesis using assms rf_holds_current [OF assms(1)] by (simp add: rf_slots_def)
qed

lemma rf_holds_iff:
  "rf_holds z xs \<longleftrightarrow> rf_ok z \<and> rf_current_size z = int (length xs)
     \<and> (\<forall>i < length xs. rf_elements z ! i = Some (xs ! i))"
proof
  assume h: "rf_ok z \<and> rf_current_size z = int (length xs) \<and> (\<forall>i < length xs. rf_elements z ! i = Some (xs ! i))"
  then have "length (rf_slots z) = length xs" by (simp add: rf_slots_def rf_ok_def)
  with h show "rf_holds z xs" by (simp add: rf_holds_def list_eq_iff_nth_eq) (simp add: rf_slots_def)
qed (use rf_holds_current rf_holds_nth rf_holds_def in blast)

lemma rf_holds_bounds:
  assumes "rf_holds z xs"
  shows "rf_total_size z = int (length (rf_elements z))" "rf_current_size z = int (length xs)"
    "length xs \<le> length (rf_elements z)" "int (length (rf_elements z)) \<le> INT_MAX"
  using assms rf_holds_current [OF assms] by (auto simp: rf_holds_def rf_ok_def)

lemma rf_holds_new: "rf_holds RepeatedField_new []"
  by (simp add: rf_holds_iff rf_ok_def RepeatedField_new_def)

subsection \<open>Growing\<close>

lemma Reserve_slots:
  assumes "rf_holds z xs" "n \<le> INT_MAX" "2 * rf_total_size z \<le> INT_MAX"
  obtains z' where "RepeatedField_Reserve n z = Some z'" "rf_holds z' xs" "n \<le> rf_total_size z'"
    "rf_total_size z' = rf_total_size z \<or> 2 * rf_total_size z \<le> rf_total_size z'"
proof (cases "rf_total_size z \<ge> n")
  case True
  then show ?thesis using that [of z] assms by (simp add: RepeatedField_Reserve_def)
next
  case False
  note b = rf_holds_bounds [OF assms(1)]
  let ?t = "max 4 (max (rf_total_size z * 2) n)"
  have t: "?t \<le> INT_MAX" "int (length xs) \<le> ?t" "rf_total_size z < ?t" "n \<le> ?t" "2 * rf_total_size z \<le> ?t"
    using assms(2,3) b(1,3) False by auto
  have c: "checked_int (rf_total_size z * 2) = Some (rf_total_size z * 2)"
    using assms(3) b(1) by (simp add: checked_int_def)
  have e: "(if rf_elements z \<noteq> [] then RepeatedField_CopyArray 0 (replicate (nat ?t) None) (rf_elements z) (rf_current_size z)
      else Some (replicate (nat ?t) None)) = Some (map Some xs @ replicate (nat ?t - length xs) None)"
    using assms(1) b t(2) by (auto simp: RepeatedField_CopyArray_def rf_holds_def rf_slots_def)
  let ?z = "z\<lparr>rf_total_size := ?t, rf_elements := map Some xs @ replicate (nat ?t - length xs) None\<rparr>"
  have "RepeatedField_Reserve n z = Some ?z"
    using False e by (simp add: RepeatedField_Reserve_def c kMinRepeatedFieldAllocationSize_def Let_def)
  moreover have "rf_holds ?z xs"
    using t(1,2) b by (auto simp: rf_holds_iff rf_ok_def nth_append)
  ultimately show ?thesis using that t by auto
qed

lemma Add_slots:
  assumes "rf_holds z xs" "2 * rf_total_size z \<le> INT_MAX - 1"
  obtains z' where "RepeatedField_Add v z = Some z'" "rf_holds z' (xs @ [v])"
    "rf_total_size z' = rf_total_size z \<or> 2 * rf_total_size z \<le> rf_total_size z'"
proof -
  note b = rf_holds_bounds [OF assms(1)]
  have "\<exists>z1. (if rf_current_size z = rf_total_size z
      then do { n \<leftarrow> checked_int (rf_total_size z + 1); RepeatedField_Reserve n z } else Some z) = Some z1
    \<and> rf_holds z1 xs \<and> int (length xs) < rf_total_size z1
    \<and> (rf_total_size z1 = rf_total_size z \<or> 2 * rf_total_size z \<le> rf_total_size z1)"
  proof (cases "rf_current_size z = rf_total_size z")
    case True
    have "rf_total_size z + 1 \<le> INT_MAX" using assms(2) b(1) by (auto simp: INT_MAX_def)
    then show ?thesis
      using True b assms Reserve_slots [of z xs "rf_total_size z + 1"] by (fastforce simp: checked_int_def)
  qed (use assms b in auto)
  then obtain z1 where z1: "(if rf_current_size z = rf_total_size z
      then do { n \<leftarrow> checked_int (rf_total_size z + 1); RepeatedField_Reserve n z } else Some z) = Some z1"
    "rf_holds z1 xs" "int (length xs) < rf_total_size z1"
    "rf_total_size z1 = rf_total_size z \<or> 2 * rf_total_size z \<le> rf_total_size z1" by blast
  note b1 = rf_holds_bounds [OF z1(2)]
  let ?z = "z1\<lparr>rf_elements := (rf_elements z1)[length xs := Some v], rf_current_size := rf_current_size z1 + 1\<rparr>"
  have "RepeatedField_Add v z = Some ?z"
    using z1(1,3) b1 by (simp add: RepeatedField_Add_def put_slot_def)
  moreover have "rf_holds ?z (xs @ [v])"
    using z1(2,3) b1 rf_holds_nth [OF z1(2)]
    by (auto simp: rf_holds_iff rf_ok_def nth_append nth_list_update less_Suc_eq)
  ultimately show ?thesis using that z1(4) by simp
qed

subsection \<open>Reading, writing, shrinking\<close>

lemma Get_slots [slot_simps]: "rf_holds z xs \<Longrightarrow> 0 \<le> i \<Longrightarrow> i < int (length xs) \<Longrightarrow> RepeatedField_Get i z = Some (xs ! nat i)"
  using rf_holds_bounds [of z xs] rf_holds_nth [of z xs "nat i"]
  by (simp add: RepeatedField_Get_def RepeatedField_size_def slot_def)

lemma Set_slots:
  assumes "rf_holds z xs" "0 \<le> i" "i < int (length xs)"
  obtains z' where "RepeatedField_Set i v z = Some z'" "rf_holds z' (xs[nat i := v])" "rf_total_size z' = rf_total_size z"
proof -
  note b = rf_holds_bounds [OF assms(1)]
  let ?z = "z\<lparr>rf_elements := (rf_elements z)[nat i := Some v]\<rparr>"
  have "RepeatedField_Set i v z = Some ?z"
    using assms(2,3) b by (simp add: RepeatedField_Set_def RepeatedField_size_def put_slot_def)
  moreover have "rf_holds ?z (xs[nat i := v])"
    using assms b rf_holds_nth [OF assms(1)] by (auto simp: rf_holds_iff rf_ok_def nth_list_update)
  ultimately show ?thesis using that by simp
qed

lemma shrink_slots: "rf_holds z xs \<Longrightarrow> n \<le> length xs \<Longrightarrow> rf_holds (z\<lparr>rf_current_size := int n\<rparr>) (take n xs)"
  by (auto simp: rf_holds_iff rf_ok_def)

lemma RemoveLast_slots:
  assumes "rf_holds z xs" "xs \<noteq> []"
  shows "RepeatedField_RemoveLast z = Some (z\<lparr>rf_current_size := int (length xs - 1)\<rparr>)"
    "rf_holds (z\<lparr>rf_current_size := int (length xs - 1)\<rparr>) (butlast xs)"
  using assms rf_holds_bounds(2) [OF assms(1)] shrink_slots [OF assms(1), of "length xs - 1"]
  by (simp_all add: RepeatedField_RemoveLast_def butlast_conv_take of_nat_diff Suc_leI)

lemma Truncate_slots:
  assumes "rf_holds z xs" "0 \<le> n" "n \<le> int (length xs)"
  shows "RepeatedField_Truncate n z = Some (z\<lparr>rf_current_size := n\<rparr>)"
    "rf_holds (z\<lparr>rf_current_size := n\<rparr>) (take (nat n) xs)"
  using assms rf_holds_bounds(2) [OF assms(1)] shrink_slots [OF assms(1), of "nat n"]
  by (simp_all add: RepeatedField_Truncate_def)

lemma Clear_slots: "rf_holds z xs \<Longrightarrow> rf_holds (RepeatedField_Clear z) []"
  using shrink_slots [of z xs 0] by (simp add: RepeatedField_Clear_def)

lemma SwapElements_slots:
  assumes "rf_holds z xs" "0 \<le> i" "i < int (length xs)" "0 \<le> j" "j < int (length xs)"
  obtains z' where "RepeatedField_SwapElements i j z = Some z'"
    "rf_holds z' (xs[nat i := xs ! nat j, nat j := xs ! nat i])"
proof -
  note b = rf_holds_bounds [OF assms(1)]
  let ?z = "z\<lparr>rf_elements := (rf_elements z)[nat i := rf_elements z ! nat j, nat j := rf_elements z ! nat i]\<rparr>"
  have "RepeatedField_SwapElements i j z = Some ?z"
    using assms(2-) b by (simp add: RepeatedField_SwapElements_def slot_def put_slot_def)
  moreover have "rf_holds ?z (xs[nat i := xs ! nat j, nat j := xs ! nat i])"
    using assms b rf_holds_nth [OF assms(1)] by (auto simp: rf_holds_iff rf_ok_def nth_list_update)
  ultimately show ?thesis using that by simp
qed


subsection \<open>Bulk operations\<close>

lemma Resize_slots:
  assumes "rf_holds z xs" "0 \<le> n" "n \<le> INT_MAX" "2 * rf_total_size z \<le> INT_MAX"
  obtains z' where "RepeatedField_Resize n v z = Some z'"
    "rf_holds z' (take (nat n) xs @ replicate (nat n - length xs) v)"
proof (cases "n > int (length xs)")
  case False
  then show ?thesis
    using that [of "z\<lparr>rf_current_size := n\<rparr>"] assms shrink_slots [OF assms(1), of "nat n"] rf_holds_bounds [OF assms(1)]
    by (simp add: RepeatedField_Resize_def RepeatedField_size_def)
next
  case True
  obtain z1 where z1: "RepeatedField_Reserve n z = Some z1" "rf_holds z1 xs" "n \<le> rf_total_size z1"
    using Reserve_slots [OF assms(1,3,4)] by blast
  note b = rf_holds_bounds [OF z1(2)]
  let ?P = "\<lambda>i es. length es = length (rf_elements z1) \<and> (\<forall>k < nat i. es ! k = Some ((xs @ replicate (nat n - length xs) v) ! k))"
  have "\<exists>es. for_each (\<lambda>i. put_slot i (Some v)) [int (length xs)..n - 1] (rf_elements z1) = Some es \<and> ?P n es"
  proof (rule counted_loop [where P = ?P])
    show "?P (int (length xs)) (rf_elements z1)" using rf_holds_nth [OF z1(2)] by (simp add: nth_append)
  next
    fix i es assume i: "int (length xs) \<le> i" "i < n" and P: "?P i es"
    have "put_slot i (Some v) es = Some (es[nat i := Some v])"
      using i P z1(3) b by (intro put_slot_Some) auto
    moreover have "?P (i + 1) (es[nat i := Some v])"
      using i P z1(3) b by (auto simp: nth_list_update nth_append nat_add_distrib less_Suc_eq nat_less_iff)
    ultimately show "\<exists>es'. put_slot i (Some v) es = Some es' \<and> ?P (i + 1) es'" by blast
  qed (use True in simp)
  then obtain es where es: "for_each (\<lambda>i. put_slot i (Some v)) [int (length xs)..n - 1] (rf_elements z1) = Some es"
    "length es = length (rf_elements z1)" "\<forall>k < nat n. es ! k = Some ((xs @ replicate (nat n - length xs) v) ! k)" by blast
  let ?z = "z1\<lparr>rf_elements := es, rf_current_size := n\<rparr>"
  have "RepeatedField_Resize n v z = Some ?z"
    using True z1(1) es(1) b(2) assms(2) rf_holds_bounds(2) [OF assms(1)]
    by (simp add: RepeatedField_Resize_def RepeatedField_size_def)
  moreover have "rf_holds ?z (xs @ replicate (nat n - length xs) v)"
    using es(2,3) b z1(2,3) True assms(2) by (auto simp: rf_holds_iff rf_ok_def)
  ultimately show ?thesis using that True by simp
qed

lemma MergeFrom_slots:
  assumes "rf_holds z xs" "rf_holds other ys" "int (length xs + length ys) \<le> INT_MAX" "2 * rf_total_size z \<le> INT_MAX"
  obtains z' where "RepeatedField_MergeFrom other z = Some z'" "rf_holds z' (xs @ ys)"
    "rf_total_size z' = rf_total_size z \<or> 2 * rf_total_size z \<le> rf_total_size z'"
proof (cases "ys = []")
  case True
  then show ?thesis using that [of z] assms rf_holds_bounds(2) [OF assms(2)] by (simp add: RepeatedField_MergeFrom_def)
next
  case False
  let ?n = "int (length xs) + int (length ys)"
  obtain z1 where z1: "RepeatedField_Reserve ?n z = Some z1" "rf_holds z1 xs" "?n \<le> rf_total_size z1"
    "rf_total_size z1 = rf_total_size z \<or> 2 * rf_total_size z \<le> rf_total_size z1"
    using Reserve_slots [OF assms(1) _ assms(4), of ?n] assms(3) by auto
  note b = rf_holds_bounds [OF z1(2)] and o = rf_holds_bounds [OF assms(2)]
  let ?es = "take (length xs) (rf_elements z1) @ take (length ys) (rf_elements other)
    @ drop (length xs + length ys) (rf_elements z1)"
  have "RepeatedField_CopyArray (int (length xs)) (rf_elements z1) (rf_elements other) (int (length ys)) = Some ?es"
    using b o z1(3) by (simp add: RepeatedField_CopyArray_def)
  then have "RepeatedField_MergeFrom other z = Some (z1\<lparr>rf_elements := ?es, rf_current_size := ?n\<rparr>)"
    using False z1(1) b(2) o(2) assms(3) rf_holds_bounds(2) [OF assms(1)]
    by (simp add: RepeatedField_MergeFrom_def checked_int_def)
  moreover have "rf_holds (z1\<lparr>rf_elements := ?es, rf_current_size := ?n\<rparr>) (xs @ ys)"
    using b o z1(3) rf_holds_nth [OF z1(2)] rf_holds_nth [OF assms(2)]
    by (auto simp: rf_holds_iff rf_ok_def nth_append)
  ultimately show ?thesis using that z1(4) by simp
qed

lemma CopyFrom_slots:
  assumes "rf_holds z xs" "rf_holds other ys" "2 * rf_total_size z \<le> INT_MAX"
  obtains z' where "RepeatedField_CopyFrom other z = Some z'" "rf_holds z' ys"
proof -
  have "int (length ys) \<le> INT_MAX" using rf_holds_bounds [OF assms(2)] by linarith
  then show ?thesis
    using MergeFrom_slots [OF Clear_slots [OF assms(1)] assms(2)] assms(3) that
    by (auto simp: RepeatedField_CopyFrom_def RepeatedField_Clear_def)
qed

lemma ExtractSubrange_slots:
  assumes "rf_holds z xs" "0 \<le> start" "0 \<le> num" "start + num \<le> int (length xs)"
  obtains z' where "RepeatedField_ExtractSubrange start num z = Some (take (nat num) (drop (nat start) xs), z')"
    "rf_holds z' (take (nat start) xs @ drop (nat start + nat num) xs)"
proof -
  note b = rf_holds_bounds [OF assms(1)]
  have sz [simp]: "RepeatedField_size z = int (length xs)" using b by (simp add: RepeatedField_size_def)
  let ?get = "\<lambda>i ys. do { x \<leftarrow> RepeatedField_Get (i + start) z; Some (ys @ [x]) }"
  have "\<exists>ys. for_each ?get [0..num - 1] [] = Some ys \<and> ys = take (nat num) (drop (nat start) xs)"
  proof (rule counted_loop [where P = "\<lambda>i ys. ys = take (nat i) (drop (nat start) xs)"])
    fix i ys assume "0 \<le> i" "i < num" "ys = take (nat i) (drop (nat start) xs)"
    then show "\<exists>ys'. ?get i ys = Some ys' \<and> ys' = take (nat (i + 1)) (drop (nat start) xs)"
      using assms Get_slots [OF assms(1), of "i + start"]
      by (auto simp: nat_add_distrib take_Suc_conv_app_nth ac_simps)
  qed (use assms(3) in auto)
  then have got: "for_each ?get [0..num - 1] [] = Some (take (nat num) (drop (nat start) xs))" by simp
  show ?thesis
  proof (cases "num > 0")
    case False
    then show ?thesis
      using that [of z] got assms by (simp add: RepeatedField_ExtractSubrange_def)
  next
    case True
    let ?step = "\<lambda>i z. do { x \<leftarrow> RepeatedField_Get i z; RepeatedField_Set (i - num) x z }"
    let ?P = "\<lambda>i z. \<exists>ys. rf_holds z ys \<and> length ys = length xs \<and> (\<forall>k < nat start. ys ! k = xs ! k)
      \<and> (\<forall>k. nat start \<le> k \<and> k < nat (i - num) \<longrightarrow> ys ! k = xs ! (k + nat num))
      \<and> (\<forall>k. nat i \<le> k \<and> k < length xs \<longrightarrow> ys ! k = xs ! k)"
    have "\<exists>z'. for_each ?step [start + num..int (length xs) - 1] z = Some z' \<and> ?P (int (length xs)) z'"
    proof (rule counted_loop [where P = ?P])
      show "?P (start + num) z" using assms(1) by auto
    next
      fix i z assume i: "start + num \<le> i" "i < int (length xs)" and "?P i z"
      then obtain ys where ys: "rf_holds z ys" "length ys = length xs" "\<forall>k < nat start. ys ! k = xs ! k"
        "\<forall>k. nat start \<le> k \<and> k < nat (i - num) \<longrightarrow> ys ! k = xs ! (k + nat num)"
        "\<forall>k. nat i \<le> k \<and> k < length xs \<longrightarrow> ys ! k = xs ! k" by blast
      obtain z' where z': "RepeatedField_Set (i - num) (ys ! nat i) z = Some z'" "rf_holds z' (ys[nat (i - num) := ys ! nat i])"
        using Set_slots [OF ys(1), of "i - num" "ys ! nat i"] i assms ys(2) by auto
      have "?step i z = Some z'" using i assms ys(2) z'(1) Get_slots [OF ys(1), of i] by simp
      moreover have "?P (i + 1) z'"
      proof (intro exI conjI)
        show "rf_holds z' (ys[nat (i - num) := ys ! nat i])" by (rule z'(2))
        show "\<forall>k. nat start \<le> k \<and> k < nat (i + 1 - num) \<longrightarrow> ys[nat (i - num) := ys ! nat i] ! k = xs ! (k + nat num)"
        proof (intro allI impI)
          fix k assume k: "nat start \<le> k \<and> k < nat (i + 1 - num)"
          show "ys[nat (i - num) := ys ! nat i] ! k = xs ! (k + nat num)"
          proof (cases "k = nat (i - num)")
            case True
            then show ?thesis using ys(2,5) i assms(2,3) by (simp add: nth_list_update nat_diff_distrib)
          qed (use k ys(4) i assms(2,3) in auto)
        qed
      qed (use ys i assms True in auto)
      ultimately show "\<exists>z'. ?step i z = Some z' \<and> ?P (i + 1) z'" by blast
    qed (use assms in simp)
    then obtain z1 ys where z1: "for_each ?step [start + num..int (length xs) - 1] z = Some z1" "rf_holds z1 ys"
      "length ys = length xs" "\<forall>k < nat start. ys ! k = xs ! k"
      "\<forall>k. nat start \<le> k \<and> k < nat (int (length xs) - num) \<longrightarrow> ys ! k = xs ! (k + nat num)" by blast
    have n: "0 \<le> int (length xs) - num" "int (length xs) - num \<le> int (length ys)"
      using assms z1(3) by auto
    have "take (nat (int (length xs) - num)) ys = take (nat start) xs @ drop (nat start + nat num) xs"
      using z1(3,4,5) assms by (intro nth_equalityI) (auto simp: nth_append nat_diff_distrib ac_simps)
    moreover have "RepeatedField_ExtractSubrange start num z
        = Some (take (nat num) (drop (nat start) xs), z1\<lparr>rf_current_size := int (length xs) - num\<rparr>)"
      using True assms got z1(1,3) Truncate_slots(1) [OF z1(2) n] rf_holds_bounds(2) [OF z1(2)]
      by (simp add: RepeatedField_ExtractSubrange_def RepeatedField_size_def [of z1])
    ultimately show ?thesis using that Truncate_slots(2) [OF z1(2) n] by simp
  qed
qed


lemma AddAlreadyReserved_slots:
  assumes "rf_holds z xs" "int (length xs) < rf_total_size z"
  obtains z' where "RepeatedField_AddAlreadyReserved v z = Some z'" "rf_holds z' (xs @ [v])"
    "rf_total_size z' = rf_total_size z"
proof -
  note b = rf_holds_bounds [OF assms(1)]
  let ?z = "z\<lparr>rf_elements := (rf_elements z)[length xs := Some v], rf_current_size := rf_current_size z + 1\<rparr>"
  have "RepeatedField_AddAlreadyReserved v z = Some ?z"
    using assms(2) b
    by (simp add: RepeatedField_AddAlreadyReserved_def RepeatedField_size_def RepeatedField_Capacity_def put_slot_def)
  moreover have "rf_holds ?z (xs @ [v])"
    using assms(2) b rf_holds_nth [OF assms(1)]
    by (auto simp: rf_holds_iff rf_ok_def nth_append nth_list_update less_Suc_eq)
  ultimately show ?thesis using that by simp
qed

lemma add_reserved_all:
  assumes "rf_holds z xs" "int (length xs + length ys) \<le> rf_total_size z"
  shows "\<exists>z'. for_each RepeatedField_AddAlreadyReserved ys z = Some z' \<and> rf_holds z' (xs @ ys)"
  using assms
proof (induction ys arbitrary: z xs)
  case (Cons y ys)
  obtain z1 where "RepeatedField_AddAlreadyReserved y z = Some z1" "rf_holds z1 (xs @ [y])" "rf_total_size z1 = rf_total_size z"
    using AddAlreadyReserved_slots [OF Cons.prems(1), of y] Cons.prems(2) by auto
  then show ?case using Cons.IH [of z1 "xs @ [y]"] Cons.prems(2) by auto
qed simp

text \<open>
  A run of \<open>Add\<close> never needs more than twice the final length (and four slots), which is how
  the doubling of \<open>Reserve\<close> bounds the memory.
\<close>

lemma add_all:
  assumes "rf_holds z xs" "rf_total_size z \<le> max 4 (2 * int (length xs))"
    and "2 * int (length xs + length ys) < INT_MAX div 2"
  shows "\<exists>z'. for_each RepeatedField_Add ys z = Some z' \<and> rf_holds z' (xs @ ys)
     \<and> rf_total_size z' \<le> max 4 (2 * int (length xs + length ys))"
  using assms
proof (induction ys arbitrary: z xs)
  case (Cons y ys)
  note b = rf_holds_bounds [OF Cons.prems(1)]
  have room: "2 * rf_total_size z \<le> INT_MAX - 1" using Cons.prems(2,3) by (auto simp: INT_MAX_def)
  obtain z1 where z1: "RepeatedField_Add y z = Some z1" "rf_holds z1 (xs @ [y])"
    using Add_slots [OF Cons.prems(1) room] by metis
  have "rf_total_size z1 \<le> max 4 (2 * int (length (xs @ [y])))"
  proof (cases "rf_current_size z = rf_total_size z")
    case False
    then have "rf_total_size z1 = rf_total_size z"
      using z1(1) by (auto simp: RepeatedField_Add_def bind_eq_Some_conv)
    then show ?thesis using Cons.prems(2) by simp
  next
    case True
    then obtain z2 where "RepeatedField_Reserve (rf_total_size z + 1) z = Some z2" "rf_total_size z1 = rf_total_size z2"
      using z1(1) by (auto simp: RepeatedField_Add_def bind_eq_Some_conv checked_int_def split: if_splits)
    then show ?thesis using True b
      by (auto simp: RepeatedField_Reserve_def bind_eq_Some_conv kMinRepeatedFieldAllocationSize_def Let_def
          checked_int_def split: if_splits)
  qed
  then show ?case using z1 Cons.IH [of z1 "xs @ [y]"] Cons.prems(3) by auto
qed simp

lemma from_range_slots:
  assumes "2 * int (length xs) < INT_MAX div 2"
  shows "\<exists>z. RepeatedField_from_range b xs = Some z \<and> rf_holds z xs"
proof (cases b)
  case False
  then show ?thesis
    using add_all [OF rf_holds_new, of xs] assms
    by (auto simp: RepeatedField_from_range_def RepeatedField_new_def)
next
  case True
  have n: "int (length xs) \<le> INT_MAX" using assms by (simp add: INT_MAX_def)
  have "2 * rf_total_size (RepeatedField_new :: 'a repeated_field) \<le> INT_MAX" by (simp add: RepeatedField_new_def)
  then obtain z :: "'a repeated_field" where "RepeatedField_Reserve (int (length xs)) RepeatedField_new = Some z"
    "rf_holds z []" "int (length xs) \<le> rf_total_size z"
    using Reserve_slots [OF rf_holds_new n] by blast
  then show ?thesis
    using True n add_reserved_all [of z "[]" xs] by (auto simp: RepeatedField_from_range_def checked_int_def)
qed

end
