(* ===== verification/RepeatedPtr.thy ===== *)
theory RepeatedPtr
  imports RepeatedLaws
begin

text \<open>
  \<^verbatim>\<open>RepeatedPtrFieldBase\<close> and \<^verbatim>\<open>RepeatedPtrField<Element>\<close> of \<^verbatim>\<open>repeated_field.h\<close> and
  \<^verbatim>\<open>repeated_field.cc\<close>: the repeated messages and strings of a message. The elements are
  objects of a store, the array holds pointers to them; the pointers between \<open>current_size_\<close> and
  \<open>allocated_size_\<close> are cleared objects kept for reuse. \<open>None\<close> is a failed check, an access
  outside the array, a dangling pointer, a second delete, or an overflowing \<open>int\<close>.
\<close>

subsection \<open>Objects\<close>

type_synonym object_ptr = nat

record 'e object_store =
  os_objects :: "object_ptr \<rightharpoonup> 'e"
  os_next :: object_ptr

record 'e type_handler =
  th_default :: 'e
  th_Clear :: "'e \<Rightarrow> 'e"
  th_Merge :: "'e \<Rightarrow> 'e \<Rightarrow> 'e"
  th_SpaceUsed :: "'e \<Rightarrow> int"

definition TypeHandler_New :: "'e type_handler \<Rightarrow> 'e object_store \<Rightarrow> object_ptr \<times> 'e object_store" where
  "TypeHandler_New th s =
     (os_next s, s\<lparr>os_objects := (os_objects s)(os_next s \<mapsto> th_default th), os_next := Suc (os_next s)\<rparr>)"

definition TypeHandler_Delete :: "object_ptr \<Rightarrow> 'e object_store \<Rightarrow> 'e object_store option" where
  "TypeHandler_Delete p s =
     (case os_objects s p of None \<Rightarrow> None | Some x \<Rightarrow> Some (s\<lparr>os_objects := (os_objects s)(p := None)\<rparr>))"

definition object_update :: "('e \<Rightarrow> 'e) \<Rightarrow> object_ptr \<Rightarrow> 'e object_store \<Rightarrow> 'e object_store option" where
  \<comment> \<open>a call of a method of the object \<open>p\<close> points to\<close>
  "object_update f p s =
     (case os_objects s p of None \<Rightarrow> None | Some x \<Rightarrow> Some (s\<lparr>os_objects := (os_objects s)(p \<mapsto> f x)\<rparr>))"

subsection \<open>The field\<close>

record repeated_ptr =
  rp_elements :: "object_ptr option list"
  rp_current_size :: int
  rp_allocated_size :: int
  rp_total_size :: int

type_synonym 'e ptr_state = "repeated_ptr \<times> 'e object_store"

definition RepeatedPtrField_new :: repeated_ptr where
  "RepeatedPtrField_new = \<lparr>rp_elements = [], rp_current_size = 0, rp_allocated_size = 0, rp_total_size = 0\<rparr>"

definition ptr_at :: "int \<Rightarrow> repeated_ptr \<Rightarrow> object_ptr option" where
  "ptr_at i z = do { x \<leftarrow> slot (rp_elements z) i; x }"

definition RepeatedPtrField_Destroy :: "'e ptr_state \<Rightarrow> 'e object_store option" where
  "RepeatedPtrField_Destroy = (\<lambda>(z, s).
     for_each (\<lambda>i s. do { p \<leftarrow> ptr_at i z; TypeHandler_Delete p s }) [0..rp_allocated_size z - 1] s)"

definition RepeatedPtrField_empty :: "repeated_ptr \<Rightarrow> bool" where
  "RepeatedPtrField_empty z \<longleftrightarrow> rp_current_size z = 0"

definition RepeatedPtrField_size :: "repeated_ptr \<Rightarrow> int" where
  "RepeatedPtrField_size z = rp_current_size z"

definition RepeatedPtrField_Capacity :: "repeated_ptr \<Rightarrow> int" where
  "RepeatedPtrField_Capacity z = rp_total_size z"

definition RepeatedPtrField_ClearedCount :: "repeated_ptr \<Rightarrow> int" where
  "RepeatedPtrField_ClearedCount z = rp_allocated_size z - rp_current_size z"

definition RepeatedPtrField_Mutable :: "int \<Rightarrow> repeated_ptr \<Rightarrow> object_ptr option" where
  "RepeatedPtrField_Mutable index z =
     (if index \<ge> 0 \<and> index < RepeatedPtrField_size z then ptr_at index z else None)"

definition RepeatedPtrField_Get :: "int \<Rightarrow> 'e ptr_state \<Rightarrow> 'e option" where
  "RepeatedPtrField_Get index = (\<lambda>(z, s).
     if index \<ge> 0 \<and> index < RepeatedPtrField_size z then do { p \<leftarrow> ptr_at index z; os_objects s p } else None)"

definition RepeatedPtrField_Reserve :: "int \<Rightarrow> repeated_ptr \<Rightarrow> repeated_ptr option" where
  "RepeatedPtrField_Reserve new_size z =
     (if rp_total_size z \<ge> new_size then Some z
      else do { let old_elements = rp_elements z;
                doubled \<leftarrow> checked_int (rp_total_size z * 2);
                let total = max kMinRepeatedFieldAllocationSize (max doubled new_size);
                let elements = replicate (nat total) None;
                elements \<leftarrow> (if old_elements \<noteq> []
                              then RepeatedField_CopyArray 0 elements old_elements (rp_allocated_size z)
                              else Some elements);
                Some (z\<lparr>rp_total_size := total, rp_elements := elements\<rparr>) })"

definition RepeatedPtrField_Add :: "'e type_handler \<Rightarrow> 'e ptr_state \<Rightarrow> (object_ptr \<times> 'e ptr_state) option" where
  "RepeatedPtrField_Add th = (\<lambda>(z, s).
     if rp_current_size z < rp_allocated_size z then
       do { p \<leftarrow> ptr_at (rp_current_size z) z;
            Some (p, z\<lparr>rp_current_size := rp_current_size z + 1\<rparr>, s) }
     else
       do { z \<leftarrow> (if rp_allocated_size z = rp_total_size z
                  then do { n \<leftarrow> checked_int (rp_total_size z + 1); RepeatedPtrField_Reserve n z } else Some z);
            let (result, s) = TypeHandler_New th s;
            let z = z\<lparr>rp_allocated_size := rp_allocated_size z + 1\<rparr>;
            elements \<leftarrow> put_slot (rp_current_size z) (Some result) (rp_elements z);
            Some (result, z\<lparr>rp_elements := elements, rp_current_size := rp_current_size z + 1\<rparr>, s) })"

definition RepeatedPtrField_RemoveLast :: "'e type_handler \<Rightarrow> 'e ptr_state \<Rightarrow> 'e ptr_state option" where
  "RepeatedPtrField_RemoveLast th = (\<lambda>(z, s).
     if rp_current_size z > 0 then
       do { let z = z\<lparr>rp_current_size := rp_current_size z - 1\<rparr>;
            p \<leftarrow> ptr_at (rp_current_size z) z;
            s \<leftarrow> object_update (th_Clear th) p s;
            Some (z, s) }
     else None)"

definition RepeatedPtrField_Clear :: "'e type_handler \<Rightarrow> 'e ptr_state \<Rightarrow> 'e ptr_state option" where
  "RepeatedPtrField_Clear th = (\<lambda>(z, s).
     do { s \<leftarrow> for_each (\<lambda>i s. do { p \<leftarrow> ptr_at i z; object_update (th_Clear th) p s }) [0..rp_current_size z - 1] s;
          Some (z\<lparr>rp_current_size := 0\<rparr>, s) })"

definition RepeatedPtrField_MergeFrom ::
    "'e type_handler \<Rightarrow> repeated_ptr \<Rightarrow> 'e ptr_state \<Rightarrow> 'e ptr_state option" where
  \<comment> \<open>for \<open>&other != this\<close>; the objects of both fields are in the one store\<close>
  "RepeatedPtrField_MergeFrom th other = (\<lambda>(z, s).
     do { n \<leftarrow> checked_int (rp_current_size z + rp_current_size other);
          z \<leftarrow> RepeatedPtrField_Reserve n z;
          for_each (\<lambda>i (z, s).
              do { from_object \<leftarrow> RepeatedPtrField_Get i (other, s);
                   (p, z, s) \<leftarrow> RepeatedPtrField_Add th (z, s);
                   s \<leftarrow> object_update (th_Merge th from_object) p s;
                   Some (z, s) })
            [0..rp_current_size other - 1] (z, s) })"

definition RepeatedPtrField_CopyFrom ::
    "'e type_handler \<Rightarrow> repeated_ptr \<Rightarrow> 'e ptr_state \<Rightarrow> 'e ptr_state option" where
  "RepeatedPtrField_CopyFrom th other zs =
     do { zs \<leftarrow> RepeatedPtrField_Clear th zs; RepeatedPtrField_MergeFrom th other zs }"

definition RepeatedPtrField_from_range :: "'e type_handler \<Rightarrow> bool \<Rightarrow> 'e list \<Rightarrow> 'e object_store \<Rightarrow> 'e ptr_state option" where
  "RepeatedPtrField_from_range th forward_iterator xs s =
     do { z \<leftarrow> (if forward_iterator
                then do { n \<leftarrow> checked_int (int (length xs)); RepeatedPtrField_Reserve n RepeatedPtrField_new }
                else Some RepeatedPtrField_new);
          for_each (\<lambda>x zs. do { (p, z, s) \<leftarrow> RepeatedPtrField_Add th zs;
                               s \<leftarrow> object_update (\<lambda>_. x) p s;
                               Some (z, s) }) xs (z, s) }"

definition RepeatedPtrField_CloseGap :: "int \<Rightarrow> int \<Rightarrow> repeated_ptr \<Rightarrow> repeated_ptr option" where
  "RepeatedPtrField_CloseGap start num z =
     do { elements \<leftarrow> for_each (\<lambda>i es. do { x \<leftarrow> slot es i; put_slot (i - num) x es })
                       [start + num..rp_allocated_size z - 1] (rp_elements z);
          Some (z\<lparr>rp_elements := elements, rp_current_size := rp_current_size z - num,
                  rp_allocated_size := rp_allocated_size z - num\<rparr>) }"

definition RepeatedPtrField_ExtractSubrange ::
    "int \<Rightarrow> int \<Rightarrow> repeated_ptr \<Rightarrow> (object_ptr list \<times> repeated_ptr) option" where
  \<comment> \<open>the list is what is stored in \<open>elements\<close>, for \<open>elements != NULL\<close>\<close>
  "RepeatedPtrField_ExtractSubrange start num z =
     (if start \<ge> 0 \<and> num \<ge> 0 \<and> start + num \<le> RepeatedPtrField_size z then
        if num > 0 then
          do { ps \<leftarrow> for_each (\<lambda>i ps. do { p \<leftarrow> RepeatedPtrField_Mutable (i + start) z; Some (ps @ [p]) }) [0..num - 1] [];
               z \<leftarrow> RepeatedPtrField_CloseGap start num z;
               Some (ps, z) }
        else Some ([], z)
      else None)"

definition RepeatedPtrField_DeleteSubrange :: "int \<Rightarrow> int \<Rightarrow> 'e ptr_state \<Rightarrow> 'e ptr_state option" where
  "RepeatedPtrField_DeleteSubrange start num = (\<lambda>(z, s).
     if start \<ge> 0 \<and> num \<ge> 0 \<and> start + num \<le> RepeatedPtrField_size z then
       do { s \<leftarrow> for_each (\<lambda>i s. do { p \<leftarrow> RepeatedPtrField_Mutable (start + i) z; TypeHandler_Delete p s }) [0..num - 1] s;
            (ps, z) \<leftarrow> RepeatedPtrField_ExtractSubrange start num z;
            Some (z, s) }
     else None)"

definition RepeatedPtrField_Swap :: "repeated_ptr \<times> repeated_ptr \<Rightarrow> repeated_ptr \<times> repeated_ptr" where
  \<comment> \<open>for \<open>other != this\<close>\<close>
  "RepeatedPtrField_Swap = (\<lambda>(z, other).
     (\<lparr>rp_elements = rp_elements other, rp_current_size = rp_current_size other,
        rp_allocated_size = rp_allocated_size other, rp_total_size = rp_total_size other\<rparr>,
      \<lparr>rp_elements = rp_elements z, rp_current_size = rp_current_size z,
        rp_allocated_size = rp_allocated_size z, rp_total_size = rp_total_size z\<rparr>))"

definition RepeatedPtrField_SwapElements :: "int \<Rightarrow> int \<Rightarrow> repeated_ptr \<Rightarrow> repeated_ptr option" where
  "RepeatedPtrField_SwapElements index1 index2 z =
     do { x \<leftarrow> slot (rp_elements z) index1;
          y \<leftarrow> slot (rp_elements z) index2;
          elements \<leftarrow> put_slot index1 y (rp_elements z);
          elements \<leftarrow> put_slot index2 x elements;
          Some (z\<lparr>rp_elements := elements\<rparr>) }"

definition RepeatedPtrField_SpaceUsedExcludingSelf :: "'e type_handler \<Rightarrow> int \<Rightarrow> 'e ptr_state \<Rightarrow> int option" where
  "RepeatedPtrField_SpaceUsedExcludingSelf th sizeof_pointer = (\<lambda>(z, s).
     do { allocated_bytes \<leftarrow> (if rp_elements z \<noteq> [] then checked_int (rp_total_size z * sizeof_pointer) else Some 0);
          for_each (\<lambda>i n. do { p \<leftarrow> ptr_at i z; x \<leftarrow> os_objects s p; checked_int (n + th_SpaceUsed th x) })
            [0..rp_allocated_size z - 1] allocated_bytes })"

subsection \<open>Ownership\<close>

definition RepeatedPtrField_AddFromCleared :: "repeated_ptr \<Rightarrow> (object_ptr option \<times> repeated_ptr) option" where
  "RepeatedPtrField_AddFromCleared z =
     (if rp_current_size z < rp_allocated_size z then
        do { p \<leftarrow> ptr_at (rp_current_size z) z; Some (Some p, z\<lparr>rp_current_size := rp_current_size z + 1\<rparr>) }
      else Some (None, z))"

definition RepeatedPtrField_AddAllocated :: "object_ptr \<Rightarrow> 'e ptr_state \<Rightarrow> 'e ptr_state option" where
  "RepeatedPtrField_AddAllocated p = (\<lambda>(z, s).
     do { (z, s) \<leftarrow>
            (if rp_current_size z = rp_total_size z then
               do { n \<leftarrow> checked_int (rp_total_size z + 1);
                    z \<leftarrow> RepeatedPtrField_Reserve n z;
                    Some (z\<lparr>rp_allocated_size := rp_allocated_size z + 1\<rparr>, s) }
             else if rp_allocated_size z = rp_total_size z then
               do { c \<leftarrow> ptr_at (rp_current_size z) z;
                    s \<leftarrow> TypeHandler_Delete c s;
                    Some (z, s) }
             else if rp_current_size z < rp_allocated_size z then
               do { c \<leftarrow> slot (rp_elements z) (rp_current_size z);
                    elements \<leftarrow> put_slot (rp_allocated_size z) c (rp_elements z);
                    Some (z\<lparr>rp_elements := elements, rp_allocated_size := rp_allocated_size z + 1\<rparr>, s) }
             else Some (z\<lparr>rp_allocated_size := rp_allocated_size z + 1\<rparr>, s));
          elements \<leftarrow> put_slot (rp_current_size z) (Some p) (rp_elements z);
          Some (z\<lparr>rp_elements := elements, rp_current_size := rp_current_size z + 1\<rparr>, s) })"

definition RepeatedPtrField_ReleaseLast :: "repeated_ptr \<Rightarrow> (object_ptr \<times> repeated_ptr) option" where
  "RepeatedPtrField_ReleaseLast z =
     (if rp_current_size z > 0 then
        do { let z = z\<lparr>rp_current_size := rp_current_size z - 1\<rparr>;
             result \<leftarrow> ptr_at (rp_current_size z) z;
             let z = z\<lparr>rp_allocated_size := rp_allocated_size z - 1\<rparr>;
             z \<leftarrow> (if rp_current_size z < rp_allocated_size z then
                     do { x \<leftarrow> slot (rp_elements z) (rp_allocated_size z);
                          elements \<leftarrow> put_slot (rp_current_size z) x (rp_elements z);
                          Some (z\<lparr>rp_elements := elements\<rparr>) }
                   else Some z);
             Some (result, z) }
      else None)"

definition RepeatedPtrField_AddCleared :: "object_ptr \<Rightarrow> repeated_ptr \<Rightarrow> repeated_ptr option" where
  "RepeatedPtrField_AddCleared p z =
     do { z \<leftarrow> (if rp_allocated_size z = rp_total_size z
                then do { n \<leftarrow> checked_int (rp_total_size z + 1); RepeatedPtrField_Reserve n z } else Some z);
          elements \<leftarrow> put_slot (rp_allocated_size z) (Some p) (rp_elements z);
          Some (z\<lparr>rp_elements := elements, rp_allocated_size := rp_allocated_size z + 1\<rparr>) }"

definition RepeatedPtrField_ReleaseCleared :: "repeated_ptr \<Rightarrow> (object_ptr \<times> repeated_ptr) option" where
  "RepeatedPtrField_ReleaseCleared z =
     (if rp_allocated_size z > rp_current_size z then
        do { let z = z\<lparr>rp_allocated_size := rp_allocated_size z - 1\<rparr>;
             p \<leftarrow> ptr_at (rp_allocated_size z) z;
             Some (p, z) }
      else None)"

end
