(* ===== verification/RepeatedPtrLaws.thy ===== *)
theory RepeatedPtrLaws
  imports RepeatedPtr
begin

text \<open>
  Laws of \<open>RepeatedPtrField\<close>: where its pointers are (\<open>rp_layout\<close>), which objects it owns
  (\<open>owns\<close>, with the objects of everybody else as a frame).
\<close>

subsection \<open>The pointer array\<close>

definition rp_layout :: "repeated_ptr \<Rightarrow> object_ptr list \<Rightarrow> object_ptr list \<Rightarrow> bool" where
  "rp_layout z ps cs \<longleftrightarrow> rp_total_size z = int (length (rp_elements z)) \<and> rp_current_size z = int (length ps)
     \<and> rp_allocated_size z = int (length ps + length cs) \<and> length ps + length cs \<le> length (rp_elements z)
     \<and> int (length (rp_elements z)) \<le> INT_MAX
     \<and> (\<forall>i < length ps + length cs. rp_elements z ! i = Some ((ps @ cs) ! i))"

lemma rp_layoutD:
  assumes "rp_layout z ps cs"
  shows "rp_total_size z = int (length (rp_elements z))" "rp_current_size z = int (length ps)"
    "rp_allocated_size z = int (length ps + length cs)" "length ps + length cs \<le> length (rp_elements z)"
    "int (length (rp_elements z)) \<le> INT_MAX"
    "\<And>i. i < length ps + length cs \<Longrightarrow> rp_elements z ! i = Some ((ps @ cs) ! i)"
  using assms by (simp_all add: rp_layout_def)

lemma layout_new: "rp_layout RepeatedPtrField_new [] []"
  by (simp add: rp_layout_def RepeatedPtrField_new_def)

lemma layout_take: "rp_layout z ps cs \<Longrightarrow> take (length ps + length cs) (rp_elements z) = map Some (ps @ cs)"
  using rp_layoutD [of z ps cs] by (intro nth_equalityI) (auto simp flip: map_append)

lemma ptr_at_sizes [simp]:
  "ptr_at i (z\<lparr>rp_current_size := n\<rparr>) = ptr_at i z" "ptr_at i (z\<lparr>rp_allocated_size := n\<rparr>) = ptr_at i z"
  by (simp_all add: ptr_at_def)

lemma ptr_at_layout:
  assumes "rp_layout z ps cs" "k < length ps + length cs"
  shows "ptr_at (int k) z = Some ((ps @ cs) ! k)"
  using assms(2) rp_layoutD(4,6) [OF assms(1)] by (simp add: ptr_at_def slot_def)

lemma Mutable_layout:
  assumes "rp_layout z ps cs" "k < length ps"
  shows "RepeatedPtrField_Mutable (int k) z = Some (ps ! k)"
  using assms(2) ptr_at_layout [OF assms(1), of k] rp_layoutD(2) [OF assms(1)]
  by (simp add: RepeatedPtrField_Mutable_def RepeatedPtrField_size_def nth_append)

lemma Reserve_layout:
  assumes "rp_layout z ps cs" "n \<le> INT_MAX" "2 * rp_total_size z \<le> INT_MAX"
  obtains z' where "RepeatedPtrField_Reserve n z = Some z'" "rp_layout z' ps cs" "n \<le> rp_total_size z'"
    "rp_total_size z' = rp_total_size z \<or> 2 * rp_total_size z \<le> rp_total_size z'"
proof (cases "rp_total_size z \<ge> n")
  case True
  then show ?thesis using that [of z] assms by (simp add: RepeatedPtrField_Reserve_def)
next
  case False
  note b = rp_layoutD [OF assms(1)]
  let ?t = "max 4 (max (rp_total_size z * 2) n)" and ?k = "length ps + length cs"
  have t: "?t \<le> INT_MAX" "int ?k \<le> ?t" "n \<le> ?t" "2 * rp_total_size z \<le> ?t"
    using assms(2,3) b(1,4) False by auto
  have c: "checked_int (rp_total_size z * 2) = Some (rp_total_size z * 2)"
    using assms(3) b(1) by (simp add: checked_int_def)
  have e: "(if rp_elements z \<noteq> [] then RepeatedField_CopyArray 0 (replicate (nat ?t) None) (rp_elements z) (rp_allocated_size z)
      else Some (replicate (nat ?t) None)) = Some (map Some (ps @ cs) @ replicate (nat ?t - ?k) None)"
    using b(1-5) t(2) layout_take [OF assms(1)] by (auto simp: RepeatedField_CopyArray_def nat_add_distrib)
  let ?z = "z\<lparr>rp_total_size := ?t, rp_elements := map Some (ps @ cs) @ replicate (nat ?t - ?k) None\<rparr>"
  have "RepeatedPtrField_Reserve n z = Some ?z"
    using False e by (simp add: RepeatedPtrField_Reserve_def c kMinRepeatedFieldAllocationSize_def Let_def)
  moreover have "length (map Some (ps @ cs) @ replicate (nat ?t - ?k) (None :: nat option)) = nat ?t"
    using t(2) by (simp add: le_nat_iff)
  then have "rp_layout ?z ps cs"
    using t(1,2) b(2,3) by (simp add: rp_layout_def nth_append le_nat_iff del: length_append) auto
  ultimately show ?thesis using that t by auto
qed

lemma layout_append:
  assumes "rp_layout z ps []" "length ps < length (rp_elements z)"
  shows "rp_layout (z\<lparr>rp_elements := (rp_elements z)[length ps := Some p], rp_current_size := rp_current_size z + 1,
     rp_allocated_size := rp_allocated_size z + 1\<rparr>) (ps @ [p]) []"
  using assms(2) rp_layoutD [OF assms(1)] by (auto simp: rp_layout_def nth_append nth_list_update less_Suc_eq)

lemma layout_reuse: "rp_layout z ps (c # cs) \<Longrightarrow> rp_layout (z\<lparr>rp_current_size := rp_current_size z + 1\<rparr>) (ps @ [c]) cs"
  by (auto simp: rp_layout_def)

lemma layout_retire:
  "rp_layout z (ps @ [p]) cs \<Longrightarrow> rp_layout (z\<lparr>rp_current_size := int (length ps)\<rparr>) ps (p # cs)"
  by (auto simp: rp_layout_def)

lemma layout_clear: "rp_layout z ps cs \<Longrightarrow> rp_layout (z\<lparr>rp_current_size := 0\<rparr>) [] (ps @ cs)"
  by (auto simp: rp_layout_def)

lemma SwapElements_layout:
  assumes "rp_layout z ps cs" "0 \<le> i" "i < int (length ps)" "0 \<le> j" "j < int (length ps)"
  obtains z' where "RepeatedPtrField_SwapElements i j z = Some z'"
    "rp_layout z' (ps[nat i := ps ! nat j, nat j := ps ! nat i]) cs"
proof -
  note b = rp_layoutD [OF assms(1)]
  let ?z = "z\<lparr>rp_elements := (rp_elements z)[nat i := rp_elements z ! nat j, nat j := rp_elements z ! nat i]\<rparr>"
  have "RepeatedPtrField_SwapElements i j z = Some ?z"
    using assms(2-) b(4) by (simp add: RepeatedPtrField_SwapElements_def slot_def put_slot_def)
  moreover have "rp_layout ?z (ps[nat i := ps ! nat j, nat j := ps ! nat i]) cs"
    using assms(2-) b by (auto simp: rp_layout_def nth_append nth_list_update)
  ultimately show ?thesis using that by blast
qed

lemma ReleaseLast_layout:
  assumes "rp_layout z (ps @ [p]) cs"
  obtains z' where "RepeatedPtrField_ReleaseLast z = Some (p, z')"
    "rp_layout z' ps (if cs = [] then [] else last cs # butlast cs)"
proof (cases "cs = []")
  case True
  note b = rp_layoutD [OF assms]
  let ?z = "z\<lparr>rp_current_size := int (length ps), rp_allocated_size := int (length ps)\<rparr>"
  have "ptr_at (int (length ps)) z = Some p" using ptr_at_layout [OF assms, of "length ps"] by simp
  then have "RepeatedPtrField_ReleaseLast z = Some (p, ?z)"
    using b(2,3) True by (simp add: RepeatedPtrField_ReleaseLast_def Let_def)
  moreover have "rp_layout ?z ps []" using b True by (auto simp: rp_layout_def nth_append)
  ultimately show ?thesis using that True by simp
next
  case False
  then obtain ds d where cs: "cs = ds @ [d]" by (cases cs rule: rev_cases) auto
  note b = rp_layoutD [OF assms]
  let ?k = "length ps + Suc (length ds)"
  let ?z = "z\<lparr>rp_current_size := int (length ps), rp_allocated_size := int ?k,
      rp_elements := (rp_elements z)[length ps := rp_elements z ! ?k]\<rparr>"
  have "ptr_at (int (length ps)) z = Some p" using ptr_at_layout [OF assms, of "length ps"] by simp
  moreover have "slot (rp_elements z) (int ?k) = Some (rp_elements z ! ?k)"
    using b(4) cs by (simp add: slot_def nat_add_distrib)
  moreover have "put_slot (int (length ps)) (rp_elements z ! ?k) (rp_elements z) = Some ((rp_elements z)[length ps := rp_elements z ! ?k])"
    using b(4) by (simp add: put_slot_def)
  ultimately have "RepeatedPtrField_ReleaseLast z = Some (p, ?z)"
    using b(2,3) cs by (simp add: RepeatedPtrField_ReleaseLast_def Let_def)
  moreover have "rp_layout ?z ps (d # ds)"
    using b cs by (auto simp: rp_layout_def nth_append nth_list_update nth_Cons' split: if_splits)
  ultimately show ?thesis using that cs by simp
qed

lemma ReleaseCleared_layout:
  assumes "rp_layout z ps (cs @ [c])"
  shows "RepeatedPtrField_ReleaseCleared z = Some (c, z\<lparr>rp_allocated_size := int (length ps + length cs)\<rparr>)"
    "rp_layout (z\<lparr>rp_allocated_size := int (length ps + length cs)\<rparr>) ps cs"
proof -
  note b = rp_layoutD [OF assms]
  have "ptr_at (int (length ps + length cs)) z = Some c"
    using ptr_at_layout [OF assms, of "length ps + length cs"] by (simp add: nth_append)
  then show "RepeatedPtrField_ReleaseCleared z = Some (c, z\<lparr>rp_allocated_size := int (length ps + length cs)\<rparr>)"
    using b(2,3) by (simp add: RepeatedPtrField_ReleaseCleared_def)
  show "rp_layout (z\<lparr>rp_allocated_size := int (length ps + length cs)\<rparr>) ps cs"
    using b by (auto simp: rp_layout_def nth_append)
qed


text \<open>The loop that slides the tail of an array down.\<close>

lemma slide_loop:
  assumes "a + num \<le> n" "n \<le> length es" "0 < num"
  shows "for_each (\<lambda>i es. do { x \<leftarrow> slot es i; put_slot (i - int num) x es }) [int (a + num)..int n - 1] es
    = Some (take a es @ drop (a + num) (take n es) @ drop (n - num) es)"
proof -
  let ?f = "\<lambda>i es. do { x \<leftarrow> slot es i; put_slot (i - int num) x es }"
  let ?P = "\<lambda>i es'. es' = take a es @ drop (a + num) (take (nat i) es) @ drop (nat i - num) es"
  have "\<exists>es'. for_each ?f [int (a + num)..int n - 1] es = Some es' \<and> ?P (int n) es'"
  proof (rule counted_loop [where P = ?P])
    fix i es' assume i: "int (a + num) \<le> i" "i < int n" and P: "?P i es'"
    obtain k where k: "i = int k" using i(1) by (metis int_nat_eq nat_le_iff of_nat_0_le_iff order_trans nat_int)
    have kn: "a + num \<le> k" "k < n" "k < length es" using i assms k by auto
    let ?A = "take a es @ drop (a + num) (take k es)"
    have A: "length ?A = k - num" using kn assms by simp
    have split: "drop (k - num) es = es ! (k - num) # drop (Suc (k - num)) es"
      using kn by (intro Cons_nth_drop_Suc [symmetric]) simp
    have "es' ! k = drop (k - num) es ! num" using kn P k A by (simp add: nth_append [of ?A, simplified append_assoc])
    then have "es' ! k = es ! k" using kn by simp
    moreover have "length es' = length es" using P k kn by simp
    ultimately have "?f i es' = Some (es'[k - num := es ! k])"
      using kn k assms(3) by (simp add: slot_def put_slot_def nat_diff_distrib)
    moreover have "es'[k - num := es ! k] = ?A @ es ! k # drop (Suc (k - num)) es"
      using P k list_update_append [of ?A "es ! (k - num) # drop (Suc (k - num)) es" "k - num" "es ! k"]
      by (simp only: split nat_int append_assoc A) simp
    moreover have "?A @ es ! k # drop (Suc (k - num)) es
        = take a es @ drop (a + num) (take (Suc k) es) @ drop (Suc k - num) es"
      using kn assms by (simp add: take_Suc_conv_app_nth Suc_diff_le)
    ultimately show "\<exists>es''. ?f i es' = Some es'' \<and> ?P (i + 1) es''" using k by (simp add: nat_add_distrib)
  qed (use assms in \<open>auto simp: nat_add_distrib\<close>)
  then show ?thesis by simp
qed

lemma CloseGap_layout:
  assumes "rp_layout z (ps @ qs @ rs) cs" "qs \<noteq> []"
  obtains z' where "RepeatedPtrField_CloseGap (int (length ps)) (int (length qs)) z = Some z'"
    "rp_layout z' (ps @ rs) cs"
proof -
  note b = rp_layoutD [OF assms(1)]
  let ?n = "length ps + length qs + length rs + length cs" and ?es = "rp_elements z"
  let ?es' = "take (length ps) ?es @ drop (length ps + length qs) (take ?n ?es) @ drop (?n - length qs) ?es"
  let ?z = "z\<lparr>rp_elements := ?es', rp_current_size := int (length ps + length rs),
      rp_allocated_size := int (length ps + length rs + length cs)\<rparr>"
  have "for_each (\<lambda>i es. do { x \<leftarrow> slot es i; put_slot (i - int (length qs)) x es })
      [int (length ps) + int (length qs)..rp_allocated_size z - 1] ?es = Some ?es'"
    using slide_loop [of "length ps" "length qs" ?n ?es] b(3,4) assms(2) by (simp add: ac_simps)
  then have "RepeatedPtrField_CloseGap (int (length ps)) (int (length qs)) z = Some ?z"
    using b(2,3) by (simp add: RepeatedPtrField_CloseGap_def)
  moreover have "rp_layout ?z (ps @ rs) cs"
  proof -
    have n: "?n \<le> length ?es" using b(4) by simp
    have tk: "take ?n ?es = map Some (ps @ qs @ rs @ cs)" using layout_take [OF assms(1)] by (simp add: ac_simps)
    then have "take (length ps) ?es = map Some ps"
      by (metis append_eq_conv_conj length_map map_append take_take min.absorb1 le_add1 add.assoc)
    then have e: "?es' = map Some (ps @ rs @ cs) @ drop (?n - length qs) ?es" using tk by simp
    have "length ?es' = length ?es" using n by simp
    then show ?thesis using b(1,5) n unfolding e by (auto simp: rp_layout_def nth_append)
  qed
  ultimately show ?thesis using that by blast
qed

lemma ExtractSubrange_layout:
  assumes "rp_layout z (ps @ qs @ rs) cs"
  obtains z' where "RepeatedPtrField_ExtractSubrange (int (length ps)) (int (length qs)) z = Some (qs, z')"
    "rp_layout z' (ps @ rs) cs"
proof (cases "qs = []")
  case True
  then show ?thesis
    using that [of z] assms rp_layoutD(2) [OF assms]
    by (simp add: RepeatedPtrField_ExtractSubrange_def RepeatedPtrField_size_def)
next
  case False
  obtain z' where z': "RepeatedPtrField_CloseGap (int (length ps)) (int (length qs)) z = Some z'" "rp_layout z' (ps @ rs) cs"
    using CloseGap_layout [OF assms False] by blast
  let ?f = "\<lambda>i xs. do { p \<leftarrow> RepeatedPtrField_Mutable (i + int (length ps)) z; Some (xs @ [p]) }"
  have "\<exists>xs. for_each ?f [0..int (length qs) - 1] [] = Some xs \<and> xs = take (nat (int (length qs))) qs"
  proof (rule counted_loop [where P = "\<lambda>i xs. xs = take (nat i) qs"])
    fix i xs assume i: "0 \<le> i" "i < int (length qs)" "xs = take (nat i) qs"
    then obtain k where k: "i = int k" "k < length qs" using zero_le_imp_eq_int by auto
    have "RepeatedPtrField_Mutable (i + int (length ps)) z = Some (qs ! k)"
      using Mutable_layout [OF assms, of "k + length ps"] k by (simp add: nth_append)
    then show "\<exists>xs'. ?f i xs = Some xs' \<and> xs' = take (nat (i + 1)) qs"
      using i(3) k by (simp add: nat_add_distrib take_Suc_conv_app_nth)
  qed auto
  then show ?thesis
    using that z' False rp_layoutD(2) [OF assms]
    by (auto simp: RepeatedPtrField_ExtractSubrange_def RepeatedPtrField_size_def)
qed


subsection \<open>Ownership\<close>

definition owns :: "'e object_store \<Rightarrow> object_ptr list \<Rightarrow> (object_ptr \<rightharpoonup> 'e) \<Rightarrow> bool" where
  \<comment> \<open>\<open>ps\<close> are distinct live objects, \<open>F\<close> is the rest of the store\<close>
  "owns s ps F \<longleftrightarrow> distinct ps \<and> set ps \<subseteq> dom (os_objects s) \<and> os_objects s |` (- set ps) = F
     \<and> (\<forall>p \<in> dom (os_objects s). p < os_next s)"

lemma owns_apart: "owns s ps F \<Longrightarrow> p \<in> set ps \<Longrightarrow> F p = None"
  by (auto simp: owns_def)

lemma owns_elsewhere: "owns s ps F \<Longrightarrow> F p = Some x \<Longrightarrow> os_objects s p = Some x"
  by (auto simp: owns_def restrict_map_def split: if_splits)

lemma owns_live: "owns s ps F \<Longrightarrow> p \<in> set ps \<Longrightarrow> \<exists>x. os_objects s p = Some x"
  by (auto simp: owns_def)

lemma owns_mset: "owns s ps F \<Longrightarrow> distinct qs \<Longrightarrow> set qs = set ps \<Longrightarrow> owns s qs F"
  by (simp add: owns_def)

lemma New_owns:
  assumes "owns s ps F"
  shows "owns (snd (TypeHandler_New th s)) (fst (TypeHandler_New th s) # ps) F"
    "os_objects (snd (TypeHandler_New th s)) = (os_objects s)(fst (TypeHandler_New th s) \<mapsto> th_default th)"
    "fst (TypeHandler_New th s) \<notin> dom (os_objects s)"
proof -
  have n: "os_next s \<notin> dom (os_objects s)" using assms by (auto simp: owns_def)
  show "fst (TypeHandler_New th s) \<notin> dom (os_objects s)" using n by (simp add: TypeHandler_New_def)
  have "os_next s \<notin> set ps" using n assms by (auto simp: owns_def)
  moreover have "((os_objects s)(os_next s \<mapsto> th_default th)) |` (- set (os_next s # ps)) = os_objects s |` (- set ps)"
    using n by (auto simp: restrict_map_def fun_eq_iff domIff)
  ultimately show "owns (snd (TypeHandler_New th s)) (fst (TypeHandler_New th s) # ps) F"
    using assms by (auto simp: owns_def TypeHandler_New_def less_Suc_eq)
qed (simp add: TypeHandler_New_def)

lemma update_owns:
  assumes "owns s ps F" "p \<in> set ps"
  obtains x s' where "os_objects s p = Some x" "object_update f p s = Some s'" "owns s' ps F"
    "os_objects s' = (os_objects s)(p \<mapsto> f x)"
proof -
  obtain x where x: "os_objects s p = Some x" using owns_live [OF assms] by blast
  moreover have "owns (s\<lparr>os_objects := (os_objects s)(p \<mapsto> f x)\<rparr>) ps F"
    using assms x by (auto simp: owns_def)
  ultimately show ?thesis using that by (simp add: object_update_def)
qed

lemma Delete_owns:
  assumes "owns s (p # ps) F"
  obtains s' where "TypeHandler_Delete p s = Some s'" "owns s' ps F" "os_objects s' = (os_objects s)(p := None)"
proof -
  obtain x where x: "os_objects s p = Some x" using owns_live [OF assms] by auto
  have "os_objects s |` (- insert p (set ps)) = ((os_objects s)(p := None)) |` (- set ps)"
    by (auto simp: restrict_map_def fun_eq_iff)
  then have "owns (s\<lparr>os_objects := (os_objects s)(p := None)\<rparr>) ps F"
    using assms by (auto simp: owns_def)
  then show ?thesis using that x by (simp add: TypeHandler_Delete_def)
qed

lemma give_away: "owns s (p # ps) F \<Longrightarrow> owns s ps (F(p := os_objects s p))"
proof -
  assume o: "owns s (p # ps) F"
  then have "p \<notin> set ps" by (simp add: owns_def)
  then have "(os_objects s |` (- set (p # ps)))(p := os_objects s p) = os_objects s |` (- set ps)"
    by (auto simp: restrict_map_def fun_eq_iff)
  with o show ?thesis by (auto simp: owns_def)
qed

lemma take_over:
  assumes "owns s ps F" "F p = Some x"
  shows "owns s (p # ps) (F(p := None))"
proof -
  have "os_objects s p = Some x" using owns_elsewhere [OF assms] .
  moreover have "p \<notin> set ps" using owns_apart [OF assms(1)] assms(2) by auto
  ultimately show ?thesis using assms(1) by (auto simp: owns_def restrict_map_def fun_eq_iff)
qed

lemma delete_all:
  assumes "owns s (ps @ qs) F" "\<And>k. k < length ps \<Longrightarrow> g (int k) = Some (ps ! k)"
  shows "\<exists>s'. for_each (\<lambda>i s. do { p \<leftarrow> g i; TypeHandler_Delete p s }) [0..int (length ps) - 1] s = Some s'
     \<and> owns s' qs F \<and> (\<forall>p. p \<notin> set ps \<longrightarrow> os_objects s' p = os_objects s p)"
proof -
  let ?f = "\<lambda>i s. do { p \<leftarrow> g i; TypeHandler_Delete p s }"
  let ?P = "\<lambda>i s'. owns s' (drop (nat i) ps @ qs) F \<and> (\<forall>p. p \<notin> set ps \<longrightarrow> os_objects s' p = os_objects s p)"
  have "\<exists>s'. for_each ?f [0..int (length ps) - 1] s = Some s' \<and> ?P (int (length ps)) s'"
  proof (rule counted_loop [where P = ?P])
    fix i s1 assume i: "0 \<le> i" "i < int (length ps)" and P: "?P i s1"
    then obtain k where k: "i = int k" "k < length ps" using zero_le_imp_eq_int by auto
    have "drop k ps = ps ! k # drop (Suc k) ps" using Cons_nth_drop_Suc k(2) by metis
    with P k have "owns s1 (ps ! k # drop (Suc k) ps @ qs) F" by simp
    then obtain s2 where s2: "TypeHandler_Delete (ps ! k) s1 = Some s2" "owns s2 (drop (Suc k) ps @ qs) F"
      "os_objects s2 = (os_objects s1)(ps ! k := None)" by (rule Delete_owns)
    then show "\<exists>s'. ?f i s1 = Some s' \<and> ?P (i + 1) s'"
      using P k assms(2) [OF k(2)] by (auto simp: nat_add_distrib)
  qed (use assms(1) in auto)
  then show ?thesis by auto
qed

lemma Destroy_owns:
  assumes "rp_layout z ps cs" "owns s (ps @ cs) F"
  obtains s' where "RepeatedPtrField_Destroy (z, s) = Some s'" "os_objects s' = F"
proof -
  obtain s' where s': "for_each (\<lambda>i s. do { p \<leftarrow> ptr_at i z; TypeHandler_Delete p s }) [0..int (length (ps @ cs)) - 1] s = Some s'"
    "owns s' [] F"
    using delete_all [of s "ps @ cs" "[]" F "\<lambda>i. ptr_at i z"] assms(2) ptr_at_layout [OF assms(1)] by auto
  then have "RepeatedPtrField_Destroy (z, s) = Some s'"
    using rp_layoutD(3) [OF assms(1)] by (simp add: RepeatedPtrField_Destroy_def)
  moreover have "os_objects s' = F" using s'(2) by (auto simp: owns_def restrict_map_def)
  ultimately show ?thesis using that by blast
qed

lemma DeleteSubrange_owns:
  assumes "rp_layout z (ps @ qs @ rs) cs" "owns s (ps @ qs @ rs @ cs) F"
  obtains z' s' where "RepeatedPtrField_DeleteSubrange (int (length ps)) (int (length qs)) (z, s) = Some (z', s')"
    "rp_layout z' (ps @ rs) cs" "owns s' (ps @ rs @ cs) F"
    "\<forall>p \<in> set (ps @ rs @ cs). os_objects s' p = os_objects s p"
proof -
  have "owns s (qs @ ps @ rs @ cs) F"
    by (rule owns_mset [OF assms(2)]) (use assms(2) in \<open>auto simp: owns_def\<close>)
  then have "\<exists>s'. for_each (\<lambda>i s. do { p \<leftarrow> RepeatedPtrField_Mutable (int (length ps) + i) z; TypeHandler_Delete p s })
      [0..int (length qs) - 1] s = Some s' \<and> owns s' (ps @ rs @ cs) F
      \<and> (\<forall>p. p \<notin> set qs \<longrightarrow> os_objects s' p = os_objects s p)"
  proof (rule delete_all [of s qs _ F "\<lambda>i. RepeatedPtrField_Mutable (int (length ps) + i) z"])
    fix k assume "k < length qs"
    then show "RepeatedPtrField_Mutable (int (length ps) + int k) z = Some (qs ! k)"
      using Mutable_layout [OF assms(1), of "length ps + k"] by (simp add: nth_append)
  qed
  then obtain s' where s': "for_each (\<lambda>i s. do { p \<leftarrow> RepeatedPtrField_Mutable (int (length ps) + i) z; TypeHandler_Delete p s })
      [0..int (length qs) - 1] s = Some s'" "owns s' (ps @ rs @ cs) F"
    "\<forall>p. p \<notin> set qs \<longrightarrow> os_objects s' p = os_objects s p" by blast
  obtain z' where z': "RepeatedPtrField_ExtractSubrange (int (length ps)) (int (length qs)) z = Some (qs, z')"
    "rp_layout z' (ps @ rs) cs" using ExtractSubrange_layout [OF assms(1)] by blast
  have "RepeatedPtrField_DeleteSubrange (int (length ps)) (int (length qs)) (z, s) = Some (z', s')"
    using s'(1) z'(1) rp_layoutD(2) [OF assms(1)]
    by (simp add: RepeatedPtrField_DeleteSubrange_def RepeatedPtrField_size_def)
  moreover have "\<forall>p \<in> set (ps @ rs @ cs). os_objects s' p = os_objects s p"
    using s'(3) assms(2) by (auto simp: owns_def)
  ultimately show ?thesis using that z'(2) s'(2) by blast
qed


end
