(* ===== verification/RepeatedValues.thy ===== *)
theory RepeatedValues
  imports RepeatedPtrLaws
begin

text \<open>
  \<open>RepeatedPtrField\<close> as a list of values. \<open>view\<close> is what a client can tell of an object,
  \<open>tidy\<close> the invariant of the objects, \<open>fresh\<close> the view of a new one; \<open>F\<close> is the part of the
  store that the field does not own.
\<close>

definition object_looks :: "('e \<Rightarrow> 'v) \<Rightarrow> ('e \<Rightarrow> bool) \<Rightarrow> 'e object_store \<Rightarrow> object_ptr \<Rightarrow> 'v \<Rightarrow> bool" where
  "object_looks view tidy s p v \<longleftrightarrow> (\<exists>x. os_objects s p = Some x \<and> tidy x \<and> view x = v)"

definition field_holds ::
    "('e \<Rightarrow> 'v) \<Rightarrow> ('e \<Rightarrow> bool) \<Rightarrow> 'v \<Rightarrow> repeated_ptr \<Rightarrow> 'e object_store \<Rightarrow> object_ptr list \<Rightarrow> 'v list
      \<Rightarrow> (object_ptr \<rightharpoonup> 'e) \<Rightarrow> bool" where
  \<comment> \<open>the field holds \<open>vs\<close> in the objects \<open>ps\<close>, and owns nothing but these and cleared objects\<close>
  "field_holds view tidy fresh z s ps vs F \<longleftrightarrow> (\<exists>cs. rp_layout z ps cs \<and> owns s (ps @ cs) F
     \<and> list_all2 (object_looks view tidy s) ps vs \<and> (\<forall>c \<in> set cs. object_looks view tidy s c fresh))"

text \<open>
  What the field needs of its \<open>TypeHandler\<close>: \<open>Clear\<close> makes an object look like a new one, and \<open>Merge\<close> respects the
  view. A message keeps its cleared sub-messages, so its \<open>view\<close> is not the identity.
\<close>

locale type_handler =
  fixes th :: "'e type_handler" and view :: "'e \<Rightarrow> 'v" and tidy :: "'e \<Rightarrow> bool"
  assumes tidy_default: "tidy (th_default th)"
    and tidy_Clear: "tidy x \<Longrightarrow> tidy (th_Clear th x)"
    and view_Clear: "tidy x \<Longrightarrow> view (th_Clear th x) = view (th_default th)"
    and tidy_Merge: "tidy f \<Longrightarrow> tidy x \<Longrightarrow> tidy (th_Merge th f x)"
    and view_Merge: "tidy f \<Longrightarrow> tidy x \<Longrightarrow> tidy y \<Longrightarrow> view x = view y \<Longrightarrow> view (th_Merge th f x) = view (th_Merge th f y)"
begin

abbreviation looks :: "'e object_store \<Rightarrow> object_ptr \<Rightarrow> 'v \<Rightarrow> bool" where
  "looks \<equiv> object_looks view tidy"

abbreviation holds :: "repeated_ptr \<Rightarrow> 'e object_store \<Rightarrow> object_ptr list \<Rightarrow> 'v list \<Rightarrow> (object_ptr \<rightharpoonup> 'e) \<Rightarrow> bool" where
  "holds \<equiv> field_holds view tidy (view (th_default th))"

lemmas holds_def = field_holds_def [of view tidy "view (th_default th)"]

lemmas looks_def = object_looks_def [of view tidy]

lemma holds_new: "(\<forall>p \<in> dom (os_objects s). p < os_next s) \<Longrightarrow> holds RepeatedPtrField_new s [] [] (os_objects s)"
  using layout_new by (auto simp: holds_def owns_def restrict_map_def)

lemma looks_cong: "os_objects s' p = os_objects s p \<Longrightarrow> looks s' p v = looks s p v"
  by (simp add: looks_def)

lemma looks_all:
  assumes "list_all2 (looks s) ps vs" "\<And>p. p \<in> set ps \<Longrightarrow> os_objects s' p = os_objects s p"
  shows "list_all2 (looks s') ps vs"
proof (rule list.rel_mono_strong [OF assms(1)])
  fix p v assume "p \<in> set ps" "looks s p v"
  then show "looks s' p v" using assms(2) looks_cong by blast
qed

lemma holds_size: "holds z s ps vs F \<Longrightarrow> RepeatedPtrField_size z = int (length vs)"
  by (auto simp: holds_def RepeatedPtrField_size_def rp_layout_def dest: list_all2_lengthD)

lemma Get_holds:
  assumes "holds z s ps vs F" "k < length vs"
  obtains x where "RepeatedPtrField_Get (int k) (z, s) = Some x" "tidy x" "view x = vs ! k"
    "RepeatedPtrField_Mutable (int k) z = Some (ps ! k)" "os_objects s (ps ! k) = Some x"
proof -
  obtain cs where l: "rp_layout z ps cs" and v: "list_all2 (looks s) ps vs" using assms(1) by (auto simp: holds_def)
  have k: "k < length ps" using assms(2) v by (simp add: list_all2_lengthD)
  obtain x where x: "os_objects s (ps ! k) = Some x" "tidy x" "view x = vs ! k"
    using list_all2_nthD [OF v k] by (auto simp: looks_def)
  have "RepeatedPtrField_Get (int k) (z, s) = Some x"
    using ptr_at_layout [OF l, of k] k x(1) rp_layoutD(2) [OF l]
    by (simp add: RepeatedPtrField_Get_def RepeatedPtrField_size_def nth_append)
  then show ?thesis using that x Mutable_layout [OF l k] by blast
qed

lemma Reserve_holds:
  assumes "holds z s ps vs F" "n \<le> INT_MAX" "2 * rp_total_size z \<le> INT_MAX"
  obtains z' where "RepeatedPtrField_Reserve n z = Some z'" "holds z' s ps vs F" "n \<le> rp_total_size z'"
    "rp_total_size z' = rp_total_size z \<or> 2 * rp_total_size z \<le> rp_total_size z'"
proof -
  obtain cs where l: "rp_layout z ps cs" "owns s (ps @ cs) F" "list_all2 (looks s) ps vs"
    "\<forall>c \<in> set cs. looks s c (view (th_default th))" using assms(1) by (auto simp: holds_def)
  show ?thesis using Reserve_layout [OF l(1) assms(2,3)] l(2-) that unfolding holds_def by metis
qed

text \<open>\<open>Add\<close> gives an object that looks new, whether it is new or was cleared.\<close>

lemma Add_holds:
  assumes "holds z s ps vs F" "int (length ps) < rp_total_size z \<or> 2 * rp_total_size z < INT_MAX"
  obtains p z' s' where "RepeatedPtrField_Add th (z, s) = Some (p, z', s')"
    "holds z' s' (ps @ [p]) (vs @ [view (th_default th)]) F"
    "rp_total_size z' = rp_total_size z \<or> int (length ps) = rp_total_size z"
proof -
  obtain cs where l: "rp_layout z ps cs" "owns s (ps @ cs) F" "list_all2 (looks s) ps vs"
    and c: "\<forall>c \<in> set cs. looks s c (view (th_default th))" using assms(1) by (auto simp: holds_def)
  note b = rp_layoutD [OF l(1)]
  show ?thesis
  proof (cases cs)
    case (Cons c cs')
    have "ptr_at (int (length ps)) z = Some c" using ptr_at_layout [OF l(1), of "length ps"] Cons by simp
    then have "RepeatedPtrField_Add th (z, s) = Some (c, z\<lparr>rp_current_size := rp_current_size z + 1\<rparr>, s)"
      using b(2,3) Cons by (simp add: RepeatedPtrField_Add_def)
    moreover have "holds (z\<lparr>rp_current_size := rp_current_size z + 1\<rparr>) s (ps @ [c]) (vs @ [view (th_default th)]) F"
      using layout_reuse [of z ps c cs'] l c Cons unfolding holds_def
      by (intro exI [of _ cs']) (auto intro!: list_all2_appendI)
    ultimately show ?thesis using that by simp
  next
    case Nil
    have "\<exists>z1. (if rp_allocated_size z = rp_total_size z
        then do { n \<leftarrow> checked_int (rp_total_size z + 1); RepeatedPtrField_Reserve n z } else Some z) = Some z1
      \<and> rp_layout z1 ps [] \<and> int (length ps) < rp_total_size z1
      \<and> (rp_total_size z1 = rp_total_size z \<or> int (length ps) = rp_total_size z)"
    proof (cases "rp_allocated_size z = rp_total_size z")
      case True
      have "2 * rp_total_size z \<le> INT_MAX" "rp_total_size z + 1 \<le> INT_MAX" "0 \<le> rp_total_size z"
        using assms(2) b(1,3) True Nil by auto
      moreover obtain z1 where "RepeatedPtrField_Reserve (rp_total_size z + 1) z = Some z1" "rp_layout z1 ps []"
        "rp_total_size z + 1 \<le> rp_total_size z1"
        using Reserve_layout [OF l(1), of "rp_total_size z + 1"] Nil calculation by auto
      ultimately show ?thesis using True b Nil by (auto simp: checked_int_def)
    qed (use b l(1) Nil in auto)
    then obtain z1 where z1: "(if rp_allocated_size z = rp_total_size z
        then do { n \<leftarrow> checked_int (rp_total_size z + 1); RepeatedPtrField_Reserve n z } else Some z) = Some z1"
      "rp_layout z1 ps []" "int (length ps) < rp_total_size z1"
      "rp_total_size z1 = rp_total_size z \<or> int (length ps) = rp_total_size z" by blast
    obtain p s' where n: "TypeHandler_New th s = (p, s')" by (cases "TypeHandler_New th s")
    have o: "owns s' (p # ps) F" "os_objects s' = (os_objects s)(p \<mapsto> th_default th)" "p \<notin> dom (os_objects s)"
      using New_owns [of s ps F th] l(2) Nil n by simp_all
    let ?z = "z1\<lparr>rp_elements := (rp_elements z1)[length ps := Some p], rp_current_size := rp_current_size z1 + 1,
        rp_allocated_size := rp_allocated_size z1 + 1\<rparr>"
    have room: "length ps < length (rp_elements z1)" using rp_layoutD(1) [OF z1(2)] z1(3) by simp
    have "RepeatedPtrField_Add th (z, s) = Some (p, ?z, s')"
      using z1(1) b(2,3) Nil n room rp_layoutD(2,3) [OF z1(2)] by (simp add: RepeatedPtrField_Add_def put_slot_def)
    moreover have "holds ?z s' (ps @ [p]) (vs @ [view (th_default th)]) F"
      unfolding holds_def
    proof (intro exI [of _ "[]"] conjI list_all2_appendI)
      show "rp_layout ?z (ps @ [p]) []" using z1(2) room by (rule layout_append)
      show "owns s' ((ps @ [p]) @ []) F" using o(1) by (rule owns_mset) (use o(1) in \<open>auto simp: owns_def\<close>)
      show "list_all2 (looks s') ps vs"
        using l(3) o(2,3) l(2) by (elim looks_all) (auto simp: owns_def)
    qed (use o(2) tidy_default in \<open>auto simp: looks_def\<close>)
    ultimately show ?thesis using that z1(4) by simp
  qed
qed

lemma update_holds:
  assumes "holds z s ps vs F" "k < length vs" "\<And>x. tidy x \<Longrightarrow> view x = vs ! k \<Longrightarrow> tidy (f x) \<and> view (f x) = v"
  obtains s' where "object_update f (ps ! k) s = Some s'" "holds z s' ps (vs[k := v]) F"
proof -
  obtain cs where l: "rp_layout z ps cs" "owns s (ps @ cs) F" "list_all2 (looks s) ps vs"
    and c: "\<forall>c \<in> set cs. looks s c (view (th_default th))" using assms(1) by (auto simp: holds_def)
  have len: "length ps = length vs" using l(3) by (rule list_all2_lengthD)
  then have k: "k < length ps" using assms(2) by simp
  then have "ps ! k \<in> set (ps @ cs)" by simp
  then obtain x s' where s': "os_objects s (ps ! k) = Some x" "object_update f (ps ! k) s = Some s'" "owns s' (ps @ cs) F"
    "os_objects s' = (os_objects s)(ps ! k \<mapsto> f x)" using update_owns [OF l(2)] by metis
  have x: "tidy x" "view x = vs ! k" using list_all2_nthD [OF l(3) k] s'(1) by (auto simp: looks_def)
  have d: "distinct (ps @ cs)" using l(2) by (simp add: owns_def)
  have other: "looks s' p w" if "p \<noteq> ps ! k" "looks s p w" for p w
    using that s'(4) by (simp add: looks_def)
  have "list_all2 (looks s') ps (vs[k := v])"
  proof (rule list_all2_all_nthI)
    fix i assume i: "i < length ps"
    show "looks s' (ps ! i) (vs[k := v] ! i)"
    proof (cases "i = k")
      case True
      then show ?thesis using assms(2,3) x s'(4) by (simp add: looks_def)
    next
      case False
      then have "ps ! i \<noteq> ps ! k" using d i k by (simp add: nth_eq_iff_index_eq)
      then show ?thesis using other list_all2_nthD [OF l(3) i] False by simp
    qed
  qed (use len in simp)
  moreover have "\<forall>c \<in> set cs. looks s' c (view (th_default th))"
  proof
    fix c' assume c': "c' \<in> set cs"
    then have "c' \<noteq> ps ! k" using d nth_mem [OF k] by auto
    then show "looks s' c' (view (th_default th))" using other c c' by blast
  qed
  ultimately show ?thesis using that s'(2,3) l(1) unfolding holds_def by blast
qed

lemma RemoveLast_holds:
  assumes "holds z s (ps @ [p]) (vs @ [v]) F"
  obtains z' s' where "RepeatedPtrField_RemoveLast th (z, s) = Some (z', s')" "holds z' s' ps vs F"
proof -
  obtain s' where s': "object_update (th_Clear th) p s = Some s'"
    "holds z s' (ps @ [p]) (vs @ [view (th_default th)]) F"
  proof (rule update_holds [OF assms, of "length vs" "th_Clear th" "view (th_default th)"])
    have len: "length vs = length ps" using assms by (auto simp: holds_def dest: list_all2_lengthD)
    fix s' assume "object_update (th_Clear th) ((ps @ [p]) ! length vs) s = Some s'"
      "holds z s' (ps @ [p]) ((vs @ [v])[length vs := view (th_default th)]) F"
    then show thesis using that len by (simp add: list_update_append)
  qed (use tidy_Clear view_Clear in auto)
  obtain cs where l: "rp_layout z (ps @ [p]) cs" "owns s' ((ps @ [p]) @ cs) F"
    "list_all2 (looks s') (ps @ [p]) (vs @ [view (th_default th)])" "\<forall>c \<in> set cs. looks s' c (view (th_default th))"
    using s'(2) by (auto simp: holds_def)
  note b = rp_layoutD [OF l(1)]
  let ?z = "z\<lparr>rp_current_size := int (length ps)\<rparr>"
  have "ptr_at (int (length ps)) z = Some p" using ptr_at_layout [OF l(1), of "length ps"] by simp
  then have "RepeatedPtrField_RemoveLast th (z, s) = Some (?z, s')"
    using b(2) s'(1) by (simp add: RepeatedPtrField_RemoveLast_def Let_def)
  moreover have "length ps = length vs" using l(3) by (auto dest: list_all2_lengthD)
  then have "list_all2 (looks s') ps vs" "looks s' p (view (th_default th))"
    using l(3) by (simp_all add: list_all2_append)
  then have "holds ?z s' ps vs F"
    using layout_retire [OF l(1)] l(2,4) unfolding holds_def by (intro exI [of _ "p # cs"]) auto
  ultimately show ?thesis using that by blast
qed

lemma Clear_holds:
  assumes "holds z s ps vs F"
  obtains z' s' where "RepeatedPtrField_Clear th (z, s) = Some (z', s')" "holds z' s' [] [] F"
    "rp_total_size z' = rp_total_size z"
proof -
  obtain cs0 where l: "rp_layout z ps cs0" using assms by (auto simp: holds_def)
  have len: "length vs = length ps" using assms by (auto simp: holds_def dest: list_all2_lengthD)
  let ?n = "view (th_default th)" and ?f = "\<lambda>i s. do { p \<leftarrow> ptr_at i z; object_update (th_Clear th) p s }"
  let ?P = "\<lambda>i s. holds z s ps (replicate (nat i) (view (th_default th)) @ drop (nat i) vs) F"
  have "\<exists>s'. for_each ?f [0..int (length ps) - 1] s = Some s' \<and> ?P (int (length ps)) s'"
  proof (rule counted_loop [where P = ?P])
    fix i s1 assume i: "0 \<le> i" "i < int (length ps)" and P: "?P i s1"
    then obtain k where k: "i = int k" "k < length ps" using zero_le_imp_eq_int by auto
    obtain s2 where s2: "object_update (th_Clear th) (ps ! k) s1 = Some s2"
      "holds z s2 ps ((replicate (nat i) ?n @ drop (nat i) vs)[k := ?n]) F"
      by (rule update_holds [OF P, of k "th_Clear th" ?n]) (use k len tidy_Clear view_Clear in auto)
    have "drop k vs = vs ! k # drop (Suc k) vs" using k len by (simp add: Cons_nth_drop_Suc)
    then have "(replicate (nat i) ?n @ drop (nat i) vs)[k := ?n] = replicate (Suc k) ?n @ drop (Suc k) vs"
      using k by (simp add: list_update_append replicate_append_same flip: replicate_Suc)
    moreover have "?f i s1 = Some s2" using s2(1) k ptr_at_layout [OF l, of k] by (simp add: nth_append)
    ultimately show "\<exists>s'. ?f i s1 = Some s' \<and> ?P (i + 1) s'" using s2(2) k by (auto simp: nat_add_distrib)
  qed (use assms in auto)
  then obtain s' where s': "for_each ?f [0..int (length ps) - 1] s = Some s'" "holds z s' ps (replicate (length ps) ?n) F"
    using len by auto
  obtain cs where h: "rp_layout z ps cs" "owns s' (ps @ cs) F" "list_all2 (looks s') ps (replicate (length ps) ?n)"
    "\<forall>c \<in> set cs. looks s' c ?n" using s'(2) by (auto simp: holds_def)
  have "\<forall>p \<in> set ps. looks s' p ?n"
    using list_all2_nthD [OF h(3)] by (auto simp: in_set_conv_nth)
  then have "holds (z\<lparr>rp_current_size := 0\<rparr>) s' [] [] F"
    using layout_clear [OF h(1)] h(2,4) unfolding holds_def by (intro exI [of _ "ps @ cs"]) auto
  moreover have "RepeatedPtrField_Clear th (z, s) = Some (z\<lparr>rp_current_size := 0\<rparr>, s')"
    using s'(1) rp_layoutD(2) [OF l] by (simp add: RepeatedPtrField_Clear_def)
  ultimately show ?thesis using that by simp
qed

lemma MergeFrom_holds:
  assumes "holds z s ps vs F" "rp_layout other qs ds" "list_all2 (\<lambda>q f. F q = Some f \<and> tidy f) qs fs"
    and "int (length vs + length fs) \<le> INT_MAX" "2 * rp_total_size z \<le> INT_MAX"
  obtains z' s' ps' where "RepeatedPtrField_MergeFrom th other (z, s) = Some (z', s')"
    "holds z' s' ps' (vs @ map (\<lambda>f. view (th_Merge th f (th_default th))) fs) F"
proof -
  have len: "length ps = length vs" "length qs = length fs"
    using assms(1,3) by (auto simp: holds_def dest: list_all2_lengthD)
  let ?n = "int (length vs) + int (length fs)" and ?g = "\<lambda>f. view (th_Merge th f (th_default th))"
  obtain z1 where z1: "RepeatedPtrField_Reserve ?n z = Some z1" "holds z1 s ps vs F" "?n \<le> rp_total_size z1"
    using Reserve_holds [OF assms(1) _ assms(5), of ?n] assms(4) by auto
  let ?f = "\<lambda>i (z, s). do { from_object \<leftarrow> RepeatedPtrField_Get i (other, s);
      (p, z, s) \<leftarrow> RepeatedPtrField_Add th (z, s);
      s \<leftarrow> object_update (th_Merge th from_object) p s; Some (z, s) }"
  let ?P = "\<lambda>i (z, s). rp_total_size z = rp_total_size z1 \<and> (\<exists>ps. holds z s ps (vs @ map ?g (take (nat i) fs)) F)"
  have "\<exists>zs. for_each ?f [0..int (length fs) - 1] (z1, s) = Some zs \<and> ?P (int (length fs)) zs"
  proof (rule counted_loop [where P = ?P])
    fix i zs assume i: "0 \<le> i" "i < int (length fs)" and P: "?P i zs"
    then obtain k where k: "i = int k" "k < length fs" using zero_le_imp_eq_int by auto
    obtain z2 s2 ps2 where zs: "zs = (z2, s2)" "rp_total_size z2 = rp_total_size z1"
      "holds z2 s2 ps2 (vs @ map ?g (take k fs)) F" using P k by (cases zs) auto
    have len2: "length ps2 = length vs + k" using zs(3) k by (auto simp: holds_def dest!: list_all2_lengthD)
    have q: "F (qs ! k) = Some (fs ! k)" "tidy (fs ! k)" using list_all2_nthD2 [OF assms(3) k(2)] by simp_all
    have "os_objects s2 (qs ! k) = Some (fs ! k)" using zs(3) q(1) by (auto simp: holds_def intro: owns_elsewhere)
    then have get: "RepeatedPtrField_Get i (other, s2) = Some (fs ! k)"
      using ptr_at_layout [OF assms(2), of k] rp_layoutD(2) [OF assms(2)] k len(2)
      by (simp add: RepeatedPtrField_Get_def RepeatedPtrField_size_def nth_append)
    obtain p z3 s3 where a: "RepeatedPtrField_Add th (z2, s2) = Some (p, z3, s3)"
      "holds z3 s3 (ps2 @ [p]) ((vs @ map ?g (take k fs)) @ [view (th_default th)]) F" "rp_total_size z3 = rp_total_size z2"
    proof (rule Add_holds [OF zs(3)])
      show "int (length ps2) < rp_total_size z2 \<or> 2 * rp_total_size z2 < INT_MAX"
        using len2 k(2) zs(2) z1(3) by simp
    qed (use that len2 k(2) zs(2) z1(3) in auto)
    obtain s4 where s4: "object_update (th_Merge th (fs ! k)) p s3 = Some s4"
      "holds z3 s4 (ps2 @ [p]) ((vs @ map ?g (take k fs)) @ [?g (fs ! k)]) F"
    proof (rule update_holds [OF a(2), of "length vs + k" "th_Merge th (fs ! k)" "?g (fs ! k)"])
      fix x assume "tidy x" "view x = ((vs @ map ?g (take k fs)) @ [view (th_default th)]) ! (length vs + k)"
      then show "tidy (th_Merge th (fs ! k) x) \<and> view (th_Merge th (fs ! k) x) = ?g (fs ! k)"
        using k q(2) tidy_Merge view_Merge [of "fs ! k" x "th_default th"] tidy_default by (simp add: nth_append)
    next
      fix s4 assume "object_update (th_Merge th (fs ! k)) ((ps2 @ [p]) ! (length vs + k)) s3 = Some s4"
        "holds z3 s4 (ps2 @ [p]) (((vs @ map ?g (take k fs)) @ [view (th_default th)])[length vs + k := ?g (fs ! k)]) F"
      moreover have "(ps2 @ [p]) ! (length vs + k) = p" using len2 by (metis nth_append_length)
      ultimately show thesis using that k by (simp add: list_update_append)
    qed (use k in simp)
    have "?f i zs = Some (z3, s4)" using zs(1) get a(1) s4(1) by simp
    moreover have "?P (i + 1) (z3, s4)"
      using s4(2) a(3) zs(2) k by (auto simp: nat_add_distrib take_Suc_conv_app_nth)
    ultimately show "\<exists>zs'. ?f i zs = Some zs' \<and> ?P (i + 1) zs'" by blast
  qed (use z1(2) in auto)
  then obtain z' s' ps' where r: "for_each ?f [0..int (length fs) - 1] (z1, s) = Some (z', s')"
    "holds z' s' ps' (vs @ map ?g fs) F" by auto
  have "rp_current_size z = int (length vs)" using holds_size [OF assms(1)] by (simp add: RepeatedPtrField_size_def)
  then have "RepeatedPtrField_MergeFrom th other (z, s) = Some (z', s')"
    using r(1) z1(1) assms(4) rp_layoutD(2) [OF assms(2)] len(2)
    by (simp add: RepeatedPtrField_MergeFrom_def checked_int_def)
  then show ?thesis using that r(2) by blast
qed

lemma CopyFrom_holds:
  assumes "holds z s ps vs F" "rp_layout other qs ds" "list_all2 (\<lambda>q f. F q = Some f \<and> tidy f) qs fs"
    and "2 * rp_total_size z \<le> INT_MAX"
  obtains z' s' ps' where "RepeatedPtrField_CopyFrom th other (z, s) = Some (z', s')"
    "holds z' s' ps' (map (\<lambda>f. view (th_Merge th f (th_default th))) fs) F"
proof -
  obtain z1 s1 where z1: "RepeatedPtrField_Clear th (z, s) = Some (z1, s1)" "holds z1 s1 [] [] F"
    "rp_total_size z1 = rp_total_size z" using Clear_holds [OF assms(1)] by metis
  have "int (length fs) \<le> INT_MAX"
    using rp_layoutD(4,5) [OF assms(2)] list_all2_lengthD [OF assms(3)] by linarith
  then show ?thesis
    using MergeFrom_holds [OF z1(2) assms(2,3)] z1 assms(4) that by (auto simp: RepeatedPtrField_CopyFrom_def)
qed

lemma SwapElements_holds:
  assumes "holds z s ps vs F" "i < length vs" "j < length vs"
  obtains z' where "RepeatedPtrField_SwapElements (int i) (int j) z = Some z'"
    "holds z' s (ps[i := ps ! j, j := ps ! i]) (vs[i := vs ! j, j := vs ! i]) F"
proof -
  obtain cs where l: "rp_layout z ps cs" "owns s (ps @ cs) F" "list_all2 (looks s) ps vs"
    "\<forall>c \<in> set cs. looks s c (view (th_default th))" using assms(1) by (auto simp: holds_def)
  have ij: "i < length ps" "j < length ps" using assms(2,3) l(3) by (simp_all add: list_all2_lengthD)
  let ?ps = "ps[i := ps ! j, j := ps ! i]"
  obtain z' where z': "RepeatedPtrField_SwapElements (int i) (int j) z = Some z'" "rp_layout z' ?ps cs"
    using SwapElements_layout [OF l(1), of "int i" "int j"] ij by auto
  have "distinct (?ps @ cs)" "set (?ps @ cs) = set (ps @ cs)"
    using ij l(2) by (simp_all add: owns_def)
  then have "owns s (?ps @ cs) F" using owns_mset [OF l(2)] by blast
  moreover have "list_all2 (looks s) ?ps (vs[i := vs ! j, j := vs ! i])"
    using l(3) ij by (intro list_all2_update_cong) (auto intro: list_all2_nthD)
  ultimately show ?thesis using that z' l(4) unfolding holds_def by blast
qed

lemma DeleteSubrange_holds:
  assumes "holds z s (ps @ qs @ rs) vs F"
  obtains z' s' where "RepeatedPtrField_DeleteSubrange (int (length ps)) (int (length qs)) (z, s) = Some (z', s')"
    "holds z' s' (ps @ rs) (take (length ps) vs @ drop (length ps + length qs) vs) F"
proof -
  obtain cs where l: "rp_layout z (ps @ qs @ rs) cs" "owns s (ps @ qs @ rs @ cs) F" "list_all2 (looks s) (ps @ qs @ rs) vs"
    "\<forall>c \<in> set cs. looks s c (view (th_default th))" using assms by (auto simp: holds_def)
  obtain us ws where v: "vs = us @ ws" "list_all2 (looks s) ps us" "list_all2 (looks s) (qs @ rs) ws"
    using l(3) by (auto simp: list_all2_append1)
  then obtain ws1 ws2 where w: "ws = ws1 @ ws2" "list_all2 (looks s) qs ws1" "list_all2 (looks s) rs ws2"
    by (auto simp: list_all2_append1)
  obtain z' s' where d: "RepeatedPtrField_DeleteSubrange (int (length ps)) (int (length qs)) (z, s) = Some (z', s')"
    "rp_layout z' (ps @ rs) cs" "owns s' (ps @ rs @ cs) F"
    "\<forall>p \<in> set (ps @ rs @ cs). os_objects s' p = os_objects s p" by (rule DeleteSubrange_owns [OF l(1,2)])
  have "list_all2 (looks s') ps us" by (rule looks_all [OF v(2)]) (use d(4) in auto)
  moreover have "list_all2 (looks s') rs ws2" by (rule looks_all [OF w(3)]) (use d(4) in auto)
  moreover have "\<forall>c \<in> set cs. looks s' c (view (th_default th))"
  proof
    fix c assume "c \<in> set cs"
    then show "looks s' c (view (th_default th))" using l(4) d(4) looks_cong [of s' c s] by simp
  qed
  moreover have "take (length ps) vs @ drop (length ps + length qs) vs = us @ ws2"
    using v w list_all2_lengthD [OF v(2)] list_all2_lengthD [OF w(2)] by simp
  ultimately have "holds z' s' (ps @ rs) (take (length ps) vs @ drop (length ps + length qs) vs) F"
    using d(2,3) unfolding holds_def by (intro exI [of _ cs] conjI) (simp_all add: list_all2_appendI)
  then show ?thesis using that d(1) by blast
qed

text \<open>
  \<open>ReleaseLast\<close> and \<open>AddAllocated\<close> move an object between the field and the rest of the store.
  \<open>AddAllocated\<close> on a full array deletes a cleared object to make room.
\<close>

lemma ReleaseLast_holds:
  assumes "holds z s (ps @ [p]) (vs @ [v]) F"
  obtains z' where "RepeatedPtrField_ReleaseLast z = Some (p, z')" "holds z' s ps vs (F(p := os_objects s p))"
    "looks s p v"
proof -
  obtain cs where l: "rp_layout z (ps @ [p]) cs" "owns s ((ps @ [p]) @ cs) F" "list_all2 (looks s) (ps @ [p]) (vs @ [v])"
    "\<forall>c \<in> set cs. looks s c (view (th_default th))" using assms by (auto simp: holds_def)
  have "length ps = length vs" using l(3) by (auto dest: list_all2_lengthD)
  then have v: "list_all2 (looks s) ps vs" "looks s p v" using l(3) by (simp_all add: list_all2_append)
  let ?cs = "if cs = [] then [] else last cs # butlast cs"
  obtain z' where z': "RepeatedPtrField_ReleaseLast z = Some (p, z')" "rp_layout z' ps ?cs"
    by (rule ReleaseLast_layout [OF l(1)])
  have cs: "set ?cs = set cs" "distinct cs \<Longrightarrow> distinct ?cs"
    by (cases cs rule: rev_cases; auto)+
  have "owns s (p # ps @ ?cs) F"
    by (rule owns_mset [OF l(2)]) (use l(2) cs in \<open>auto simp: owns_def\<close>)
  then have "owns s (ps @ ?cs) (F(p := os_objects s p))" by (rule give_away)
  then have "holds z' s ps vs (F(p := os_objects s p))"
    using z'(2) v(1) l(4) cs(1) unfolding holds_def by (intro exI [of _ ?cs]) (auto split: if_splits)
  then show ?thesis using that z'(1) v(2) by blast
qed

lemma AddAllocated_holds:
  assumes "holds z s ps vs F" "F p = Some x" "tidy x" "int (length ps) < rp_total_size z \<or> 2 * rp_total_size z < INT_MAX"
  obtains z' s' where "RepeatedPtrField_AddAllocated p (z, s) = Some (z', s')"
    "holds z' s' (ps @ [p]) (vs @ [view x]) (F(p := None))"
proof -
  obtain cs where l: "rp_layout z ps cs" "owns s (ps @ cs) F" "list_all2 (looks s) ps vs"
    and c: "\<forall>c \<in> set cs. looks s c (view (th_default th))" using assms(1) by (auto simp: holds_def)
  note b = rp_layoutD [OF l(1)]
  let ?room = "(if rp_current_size z = rp_total_size z then
       do { n \<leftarrow> checked_int (rp_total_size z + 1); z \<leftarrow> RepeatedPtrField_Reserve n z;
            Some (z\<lparr>rp_allocated_size := rp_allocated_size z + 1\<rparr>, s) }
     else if rp_allocated_size z = rp_total_size z then
       do { c \<leftarrow> ptr_at (rp_current_size z) z; s \<leftarrow> TypeHandler_Delete c s; Some (z, s) }
     else if rp_current_size z < rp_allocated_size z then
       do { c \<leftarrow> slot (rp_elements z) (rp_current_size z);
            elements \<leftarrow> put_slot (rp_allocated_size z) c (rp_elements z);
            Some (z\<lparr>rp_elements := elements, rp_allocated_size := rp_allocated_size z + 1\<rparr>, s) }
     else Some (z\<lparr>rp_allocated_size := rp_allocated_size z + 1\<rparr>, s))"
  have "\<exists>z1 s1 ds. ?room = Some (z1, s1) \<and> owns s1 (ps @ ds) F \<and> set ds \<subseteq> set cs
    \<and> (\<forall>q \<in> set (ps @ ds). os_objects s1 q = os_objects s q) \<and> length ps < length (rp_elements z1)
    \<and> rp_current_size z1 = int (length ps)
    \<and> rp_layout (z1\<lparr>rp_elements := (rp_elements z1)[length ps := Some p], rp_current_size := int (length ps) + 1\<rparr>) (ps @ [p]) ds"
  proof -
    consider (full) "length ps = length (rp_elements z)"
      | (drop) "length ps < length (rp_elements z)" "length ps + length cs = length (rp_elements z)"
      | (space) "length ps + length cs < length (rp_elements z)" using b(4) by linarith
    then show ?thesis
    proof cases
      case full
      then have cs: "cs = []" using b(4) by simp
      have t: "rp_total_size z + 1 \<le> INT_MAX" "2 * rp_total_size z \<le> INT_MAX" "0 \<le> rp_total_size z"
        using assms(4) full b(1) by auto
      obtain z1 where z1: "RepeatedPtrField_Reserve (rp_total_size z + 1) z = Some z1" "rp_layout z1 ps []"
        "rp_total_size z + 1 \<le> rp_total_size z1"
        using Reserve_layout [OF l(1) t(1,2)] cs by auto
      let ?z = "z1\<lparr>rp_allocated_size := rp_allocated_size z1 + 1\<rparr>"
      have "?room = Some (?z, s)" using full b(1,2) t z1(1) by (simp add: checked_int_def)
      moreover have room: "length ps < length (rp_elements z1)"
        using z1(3) rp_layoutD(1) [OF z1(2)] full b(1) by simp
      moreover have "rp_layout (?z\<lparr>rp_elements := (rp_elements z1)[length ps := Some p], rp_current_size := int (length ps) + 1\<rparr>)
          (ps @ [p]) []"
        using layout_append [OF z1(2) room, of p] rp_layoutD(2) [OF z1(2)] by (simp add: rp_layout_def)
      ultimately show ?thesis using l(2) cs rp_layoutD(2) [OF z1(2)] by (intro exI [of _ ?z] exI [of _ s] exI [of _ "[]"]) auto
    next
      case drop
      then obtain d ds where cs: "cs = d # ds" by (cases cs) auto
      have "owns s (d # ps @ ds) F" by (rule owns_mset [OF l(2)]) (use l(2) cs in \<open>auto simp: owns_def\<close>)
      then obtain s1 where s1: "TypeHandler_Delete d s = Some s1" "owns s1 (ps @ ds) F" "os_objects s1 = (os_objects s)(d := None)"
        by (rule Delete_owns)
      have "ptr_at (int (length ps)) z = Some d" using ptr_at_layout [OF l(1), of "length ps"] cs by simp
      then have "?room = Some (z, s1)" using drop b(1-3) s1(1) cs by simp
      moreover have "rp_layout (z\<lparr>rp_elements := (rp_elements z)[length ps := Some p], rp_current_size := int (length ps) + 1\<rparr>)
          (ps @ [p]) ds" using b cs by (auto simp: rp_layout_def nth_append nth_list_update nth_Cons' split: if_splits)
      moreover have "\<forall>q \<in> set (ps @ ds). os_objects s1 q = os_objects s q"
        using s1(3) l(2) cs by (auto simp: owns_def)
      ultimately show ?thesis using s1(2) drop(1) b(2) cs by (intro exI [of _ z] exI [of _ s1] exI [of _ ds]) auto
    next
      case space
      let ?ds = "if cs = [] then [] else tl cs @ [hd cs]"
      let ?es = "if cs = [] then rp_elements z else (rp_elements z)[length ps + length cs := Some (hd cs)]"
      let ?z = "z\<lparr>rp_elements := ?es, rp_allocated_size := rp_allocated_size z + 1\<rparr>"
      have "rp_elements z ! length ps = Some (hd cs)" if "cs \<noteq> []"
        using b(6) [of "length ps"] that by (simp add: nth_append hd_conv_nth)
      then have "?room = Some (?z, s)"
        using space b(1-3) by (auto simp: slot_def put_slot_def nat_add_distrib)
      moreover have "rp_layout (?z\<lparr>rp_elements := ?es[length ps := Some p], rp_current_size := int (length ps) + 1\<rparr>) (ps @ [p]) ?ds"
        using b space by (cases cs) (auto simp: rp_layout_def nth_append nth_list_update nth_Cons' less_Suc_eq split: if_splits)
      moreover have "owns s (ps @ ?ds) F"
        by (rule owns_mset [OF l(2)]) (use l(2) in \<open>cases cs; auto simp: owns_def\<close>)+
      moreover have "set ?ds \<subseteq> set cs" by (cases cs) auto
      ultimately show ?thesis using space b(2) by (intro exI [of _ ?z] exI [of _ s] exI [of _ ?ds]) auto
    qed
  qed
  then obtain z1 s1 ds where r: "?room = Some (z1, s1)" "owns s1 (ps @ ds) F" "set ds \<subseteq> set cs"
    "\<forall>q \<in> set (ps @ ds). os_objects s1 q = os_objects s q" "length ps < length (rp_elements z1)"
    "rp_current_size z1 = int (length ps)"
    "rp_layout (z1\<lparr>rp_elements := (rp_elements z1)[length ps := Some p], rp_current_size := int (length ps) + 1\<rparr>) (ps @ [p]) ds"
    by blast
  let ?z = "z1\<lparr>rp_elements := (rp_elements z1)[length ps := Some p], rp_current_size := int (length ps) + 1\<rparr>"
  have "RepeatedPtrField_AddAllocated p (z, s) = Some (?z, s1)"
    using r(1,5,6) by (simp add: RepeatedPtrField_AddAllocated_def put_slot_def)
  moreover have "holds ?z s1 (ps @ [p]) (vs @ [view x]) (F(p := None))"
    unfolding holds_def
  proof (intro exI [of _ ds] conjI list_all2_appendI)
    have "owns s1 (p # ps @ ds) (F(p := None))" using r(2) assms(2) by (rule take_over)
    then show "owns s1 ((ps @ [p]) @ ds) (F(p := None))"
      by (rule owns_mset) (use \<open>owns s1 (p # ps @ ds) (F(p := None))\<close> in \<open>auto simp: owns_def\<close>)
    show "list_all2 (looks s1) ps vs" by (rule looks_all [OF l(3)]) (use r(4) in auto)
    show "\<forall>c \<in> set ds. looks s1 c (view (th_default th))"
    proof
      fix d assume "d \<in> set ds"
      then show "looks s1 d (view (th_default th))" using c r(3,4) looks_cong [of s1 d s] by auto
    qed
    have "os_objects s1 p = Some x" using owns_elsewhere [OF r(2) assms(2)] .
    then show "list_all2 (looks s1) [p] [view x]" using assms(3) by (simp add: looks_def)
  qed (rule r(7))
  ultimately show ?thesis using that by blast
qed

lemma Destroy_holds:
  assumes "holds z s ps vs F"
  obtains s' where "RepeatedPtrField_Destroy (z, s) = Some s'" "os_objects s' = F"
  using assms Destroy_owns unfolding holds_def by metis

end

end
