(* ===== verification/RepeatedParams.thy ===== *)
theory RepeatedParams
  imports MessageProps RepeatedValues
begin

text \<open>
  The repeated fields the messages have: \<open>mparams\<close> of \<open>TeecOperation\<close>, whose elements keep
  cleared sub-messages, and repeated strings. Both are interpretations of \<open>type_handler\<close>.
\<close>

named_theorems merge_fields

subsection \<open>Merging, field by field\<close>

lemma TeecValue_merge_fields [merge_fields]:
  "tv_a (TeecValue_MergeFrom f x) = (if tv_has_a f then tv_a f else tv_a x)"
  "tv_b (TeecValue_MergeFrom f x) = (if tv_has_b f then tv_b f else tv_b x)"
  "tv_mflag (TeecValue_MergeFrom f x) = (if tv_has_mflag f then tv_mflag f else tv_mflag x)"
  "tv_has_a (TeecValue_MergeFrom f x) \<longleftrightarrow> tv_has_a f \<or> tv_has_a x"
  "tv_has_b (TeecValue_MergeFrom f x) \<longleftrightarrow> tv_has_b f \<or> tv_has_b x"
  "tv_has_mflag (TeecValue_MergeFrom f x) \<longleftrightarrow> tv_has_mflag f \<or> tv_has_mflag x"
  "tv_unknown_fields (TeecValue_MergeFrom f x) = tv_unknown_fields x @ tv_unknown_fields f"
  by (simp_all add: TeecValue_copy_defs Let_def)

lemma TeecSharedMemory_merge_fields [merge_fields]:
  "ts_mbuffer (TeecSharedMemory_MergeFrom f x) = (if ts_has_mbuffer f then ts_mbuffer f else ts_mbuffer x)"
  "ts_mflag (TeecSharedMemory_MergeFrom f x) = (if ts_has_mflag f then ts_mflag f else ts_mflag x)"
  "ts_size (TeecSharedMemory_MergeFrom f x) = (if ts_has_size f then ts_size f else ts_size x)"
  "ts_mreturnsize (TeecSharedMemory_MergeFrom f x) = (if ts_has_mreturnsize f then ts_mreturnsize f else ts_mreturnsize x)"
  "ts_mid (TeecSharedMemory_MergeFrom f x) = (if ts_has_mid f then ts_mid f else ts_mid x)"
  "ts_has_mbuffer (TeecSharedMemory_MergeFrom f x) \<longleftrightarrow> ts_has_mbuffer f \<or> ts_has_mbuffer x"
  "ts_has_mflag (TeecSharedMemory_MergeFrom f x) \<longleftrightarrow> ts_has_mflag f \<or> ts_has_mflag x"
  "ts_has_size (TeecSharedMemory_MergeFrom f x) \<longleftrightarrow> ts_has_size f \<or> ts_has_size x"
  "ts_has_mreturnsize (TeecSharedMemory_MergeFrom f x) \<longleftrightarrow> ts_has_mreturnsize f \<or> ts_has_mreturnsize x"
  "ts_has_mid (TeecSharedMemory_MergeFrom f x) \<longleftrightarrow> ts_has_mid f \<or> ts_has_mid x"
  "ts_unknown_fields (TeecSharedMemory_MergeFrom f x) = ts_unknown_fields x @ ts_unknown_fields f"
  by (simp_all add: TeecSharedMemory_copy_defs Let_def)

lemma TeecSharedMemoryReference_merge_fields [merge_fields]:
  "tr_parent (TeecSharedMemoryReference_MergeFrom f x) = (if tr_has_parent f
     then Some (TeecSharedMemory_MergeFrom (TeecSharedMemoryReference_get_parent f) (TeecSharedMemoryReference_get_parent x))
     else tr_parent x)"
  "tr_moffset (TeecSharedMemoryReference_MergeFrom f x) = (if tr_has_moffset f then tr_moffset f else tr_moffset x)"
  "tr_mflag (TeecSharedMemoryReference_MergeFrom f x) = (if tr_has_mflag f then tr_mflag f else tr_mflag x)"
  "tr_has_parent (TeecSharedMemoryReference_MergeFrom f x) \<longleftrightarrow> tr_has_parent f \<or> tr_has_parent x"
  "tr_has_moffset (TeecSharedMemoryReference_MergeFrom f x) \<longleftrightarrow> tr_has_moffset f \<or> tr_has_moffset x"
  "tr_has_mflag (TeecSharedMemoryReference_MergeFrom f x) \<longleftrightarrow> tr_has_mflag f \<or> tr_has_mflag x"
  "tr_unknown_fields (TeecSharedMemoryReference_MergeFrom f x) = tr_unknown_fields x @ tr_unknown_fields f"
  by (simp_all add: TeecSharedMemoryReference_copy_defs Let_def split: option.split)

lemma TeecParameter_merge_fields [merge_fields]:
  "tp_type (TeecParameter_MergeFrom f x) = (if tp_has_type f then tp_type f else tp_type x)"
  "tp_placeholder (TeecParameter_MergeFrom f x) = (if tp_has_placeholder f then tp_placeholder f else tp_placeholder x)"
  "tp_teecsharedmemoryreference (TeecParameter_MergeFrom f x) = (if tp_has_teecsharedmemoryreference f
     then Some (TeecSharedMemoryReference_MergeFrom (TeecParameter_get_teecsharedmemoryreference f)
       (TeecParameter_get_teecsharedmemoryreference x)) else tp_teecsharedmemoryreference x)"
  "tp_teecvalue (TeecParameter_MergeFrom f x) = (if tp_has_teecvalue f
     then Some (TeecValue_MergeFrom (TeecParameter_get_teecvalue f) (TeecParameter_get_teecvalue x)) else tp_teecvalue x)"
  "tp_has_type (TeecParameter_MergeFrom f x) \<longleftrightarrow> tp_has_type f \<or> tp_has_type x"
  "tp_has_placeholder (TeecParameter_MergeFrom f x) \<longleftrightarrow> tp_has_placeholder f \<or> tp_has_placeholder x"
  "tp_has_teecsharedmemoryreference (TeecParameter_MergeFrom f x)
     \<longleftrightarrow> tp_has_teecsharedmemoryreference f \<or> tp_has_teecsharedmemoryreference x"
  "tp_has_teecvalue (TeecParameter_MergeFrom f x) \<longleftrightarrow> tp_has_teecvalue f \<or> tp_has_teecvalue x"
  "tp_unknown_fields (TeecParameter_MergeFrom f x) = tp_unknown_fields x @ tp_unknown_fields f"
  by (simp_all add: TeecParameter_copy_defs Let_def split: option.split)

subsection \<open>What a client can tell of a message\<close>

definition value_view :: "TeecValue \<Rightarrow> TeecValue" where
  "value_view x = TeecValue_MergeFrom x TeecValue_new"

definition memory_view :: "TeecSharedMemory \<Rightarrow> TeecSharedMemory" where
  "memory_view x = TeecSharedMemory_MergeFrom x TeecSharedMemory_new"

definition reference_view :: "TeecSharedMemoryReference \<Rightarrow> TeecSharedMemoryReference" where
  "reference_view x = TeecSharedMemoryReference_MergeFrom x TeecSharedMemoryReference_new"

definition parameter_view :: "TeecParameter \<Rightarrow> TeecParameter" where
  "parameter_view x = TeecParameter_MergeFrom x TeecParameter_new"

lemmas view_defs = value_view_def memory_view_def reference_view_def parameter_view_def

definition reference_tidy :: "TeecSharedMemoryReference \<Rightarrow> bool" where
  \<comment> \<open>a sub-message that is not set was cleared\<close>
  "reference_tidy x \<longleftrightarrow> (\<not> tr_has_parent x \<longrightarrow> memory_view (TeecSharedMemoryReference_get_parent x) = TeecSharedMemory_new)"

definition parameter_tidy :: "TeecParameter \<Rightarrow> bool" where
  "parameter_tidy x \<longleftrightarrow> reference_tidy (TeecParameter_get_teecsharedmemoryreference x)
     \<and> (\<not> tp_has_teecsharedmemoryreference x
          \<longrightarrow> reference_view (TeecParameter_get_teecsharedmemoryreference x) = TeecSharedMemoryReference_new)
     \<and> (\<not> tp_has_teecvalue x \<longrightarrow> value_view (TeecParameter_get_teecvalue x) = TeecValue_new)"

lemma value_view_merge: "value_view (TeecValue_MergeFrom f x) = TeecValue_MergeFrom f (value_view x)"
  by (rule TeecValue.equality) (simp_all add: view_defs merge_fields TeecValue_new_def)

lemma memory_view_merge: "memory_view (TeecSharedMemory_MergeFrom f x) = TeecSharedMemory_MergeFrom f (memory_view x)"
  by (rule TeecSharedMemory.equality) (simp_all add: view_defs merge_fields TeecSharedMemory_new_def)


lemma get_parent_merge [merge_fields]:
  "TeecSharedMemoryReference_get_parent (TeecSharedMemoryReference_MergeFrom f x) = (if tr_has_parent f
     then TeecSharedMemory_MergeFrom (TeecSharedMemoryReference_get_parent f) (TeecSharedMemoryReference_get_parent x)
     else TeecSharedMemoryReference_get_parent x)"
  by (simp add: TeecSharedMemoryReference_get_parent_def merge_fields)

lemma get_reference_merge [merge_fields]:
  "TeecParameter_get_teecsharedmemoryreference (TeecParameter_MergeFrom f x) = (if tp_has_teecsharedmemoryreference f
     then TeecSharedMemoryReference_MergeFrom (TeecParameter_get_teecsharedmemoryreference f)
       (TeecParameter_get_teecsharedmemoryreference x) else TeecParameter_get_teecsharedmemoryreference x)"
  by (simp add: TeecParameter_get_teecsharedmemoryreference_def merge_fields)

lemma get_value_merge [merge_fields]:
  "TeecParameter_get_teecvalue (TeecParameter_MergeFrom f x) = (if tp_has_teecvalue f
     then TeecValue_MergeFrom (TeecParameter_get_teecvalue f) (TeecParameter_get_teecvalue x)
     else TeecParameter_get_teecvalue x)"
  by (simp add: TeecParameter_get_teecvalue_def merge_fields)

lemma reference_view_parent:
  "reference_tidy x \<Longrightarrow> TeecSharedMemoryReference_get_parent (reference_view x)
     = memory_view (TeecSharedMemoryReference_get_parent x)"
  by (simp add: reference_tidy_def reference_view_def merge_fields memory_view_def)
    (simp add: TeecSharedMemoryReference_get_parent_def TeecSharedMemoryReference_new_def)

lemma reference_view_merge:
  assumes "reference_tidy x"
  shows "reference_view (TeecSharedMemoryReference_MergeFrom f x) = TeecSharedMemoryReference_MergeFrom f (reference_view x)"
proof (rule TeecSharedMemoryReference.equality)
  let ?m = "TeecSharedMemoryReference_MergeFrom f x"
  have new: "TeecSharedMemoryReference_get_parent TeecSharedMemoryReference_new = TeecSharedMemory_new"
    by (simp add: TeecSharedMemoryReference_get_parent_def TeecSharedMemoryReference_new_def)
  have v: "tr_parent (reference_view y) = (if tr_has_parent y
      then Some (memory_view (TeecSharedMemoryReference_get_parent y)) else None)" for y
    using new by (simp add: reference_view_def merge_fields memory_view_def)
      (simp add: TeecSharedMemoryReference_new_def)
  show "tr_parent (reference_view ?m) = tr_parent (TeecSharedMemoryReference_MergeFrom f (reference_view x))"
    using reference_view_parent [OF assms]
    by (simp add: v [of ?m] merge_fields memory_view_merge v [of x])
qed (simp_all add: reference_view_def merge_fields TeecSharedMemoryReference_new_def)

lemma parameter_view_parts:
  assumes "parameter_tidy x"
  shows "TeecParameter_get_teecsharedmemoryreference (parameter_view x)
      = reference_view (TeecParameter_get_teecsharedmemoryreference x)"
    "TeecParameter_get_teecvalue (parameter_view x) = value_view (TeecParameter_get_teecvalue x)"
  using assms
  by (simp_all add: parameter_tidy_def parameter_view_def merge_fields value_view_def reference_view_def)
    (simp_all add: TeecParameter_get_teecsharedmemoryreference_def TeecParameter_get_teecvalue_def TeecParameter_new_def)

lemma parameter_view_merge:
  assumes "parameter_tidy x"
  shows "parameter_view (TeecParameter_MergeFrom f x) = TeecParameter_MergeFrom f (parameter_view x)"
proof (rule TeecParameter.equality)
  let ?m = "TeecParameter_MergeFrom f x"
  have new: "TeecParameter_get_teecsharedmemoryreference TeecParameter_new = TeecSharedMemoryReference_new"
    "TeecParameter_get_teecvalue TeecParameter_new = TeecValue_new"
    by (simp_all add: TeecParameter_get_teecsharedmemoryreference_def TeecParameter_get_teecvalue_def TeecParameter_new_def)
  have v: "tp_teecsharedmemoryreference (parameter_view y) = (if tp_has_teecsharedmemoryreference y
      then Some (reference_view (TeecParameter_get_teecsharedmemoryreference y)) else None)"
    "tp_teecvalue (parameter_view y) = (if tp_has_teecvalue y
      then Some (value_view (TeecParameter_get_teecvalue y)) else None)" for y
    using new by (simp_all add: parameter_view_def merge_fields reference_view_def value_view_def)
      (simp_all add: TeecParameter_new_def)
  have r: "reference_tidy (TeecParameter_get_teecsharedmemoryreference x)" using assms by (simp add: parameter_tidy_def)
  show "tp_teecsharedmemoryreference (parameter_view ?m)
      = tp_teecsharedmemoryreference (TeecParameter_MergeFrom f (parameter_view x))"
    using parameter_view_parts [OF assms]
    by (simp add: v(1) [of ?m] merge_fields reference_view_merge [OF r] v(1) [of x])
  show "tp_teecvalue (parameter_view ?m) = tp_teecvalue (TeecParameter_MergeFrom f (parameter_view x))"
    using parameter_view_parts [OF assms]
    by (simp add: v(2) [of ?m] merge_fields value_view_merge v(2) [of x])
qed (simp_all add: parameter_view_def merge_fields TeecParameter_new_def)

subsection \<open>Clearing\<close>

lemma view_Clear:
  "value_view (TeecValue_Clear v) = TeecValue_new"
  "memory_view (TeecSharedMemory_Clear m) = TeecSharedMemory_new"
  "reference_view (TeecSharedMemoryReference_Clear r) = TeecSharedMemoryReference_new"
  "parameter_view (TeecParameter_Clear p) = TeecParameter_new"
  by (simp_all add: view_defs TeecValue_Clear_def TeecValue_copy_defs TeecSharedMemory_Clear_def TeecSharedMemory_copy_defs
      TeecSharedMemoryReference_Clear_def TeecSharedMemoryReference_copy_defs
      TeecParameter_Clear_def TeecParameter_copy_defs Let_def)

lemma view_new [simp]:
  "value_view TeecValue_new = TeecValue_new" "memory_view TeecSharedMemory_new = TeecSharedMemory_new"
  "reference_view TeecSharedMemoryReference_new = TeecSharedMemoryReference_new"
  "parameter_view TeecParameter_new = TeecParameter_new"
  by (simp_all add: view_defs TeecValue_copy_defs TeecSharedMemory_copy_defs TeecSharedMemoryReference_copy_defs
      TeecParameter_copy_defs Let_def)

lemma reference_tidy_Clear:
  assumes "reference_tidy x"
  shows "reference_tidy (TeecSharedMemoryReference_Clear x)"
  using assms view_Clear(2)
  by (auto simp: reference_tidy_def TeecSharedMemoryReference_Clear_def TeecSharedMemoryReference_get_parent_def
      Let_def split: option.splits)

lemma parameter_tidy_Clear:
  assumes "parameter_tidy x"
  shows "parameter_tidy (TeecParameter_Clear x)"
proof -
  have "reference_tidy (TeecParameter_get_teecsharedmemoryreference (TeecParameter_Clear x))"
    using assms reference_tidy_Clear
    by (auto simp: parameter_tidy_def TeecParameter_Clear_def TeecParameter_get_teecsharedmemoryreference_def Let_def
        split: option.splits)
  moreover have "reference_view (TeecParameter_get_teecsharedmemoryreference (TeecParameter_Clear x)) = TeecSharedMemoryReference_new"
    using assms view_Clear(3)
    by (auto simp: parameter_tidy_def TeecParameter_Clear_def TeecParameter_get_teecsharedmemoryreference_def Let_def
        split: option.splits)
  moreover have "value_view (TeecParameter_get_teecvalue (TeecParameter_Clear x)) = TeecValue_new"
    using assms view_Clear(1)
    by (auto simp: parameter_tidy_def TeecParameter_Clear_def TeecParameter_get_teecvalue_def Let_def
        split: option.splits)
  ultimately show ?thesis by (simp add: parameter_tidy_def)
qed

lemma parameter_tidy_merge:
  assumes "parameter_tidy x"
  shows "parameter_tidy (TeecParameter_MergeFrom f x)"
  using assms by (auto simp: parameter_tidy_def reference_tidy_def merge_fields)

subsection \<open>Interpretations\<close>

definition parameter_handler :: "(TeecParameter \<Rightarrow> int) \<Rightarrow> TeecParameter type_handler" where
  \<comment> \<open>\<^verbatim>\<open>GenericTypeHandler<TeecParameter>\<close>; the size is a matter of reflection\<close>
  "parameter_handler space = \<lparr>th_default = TeecParameter_new, th_Clear = TeecParameter_Clear,
     th_Merge = TeecParameter_MergeFrom, th_SpaceUsed = space\<rparr>"

definition string_handler :: "(byte list \<Rightarrow> int) \<Rightarrow> byte list type_handler" where
  \<comment> \<open>\<^verbatim>\<open>StringTypeHandler\<close>\<close>
  "string_handler space = \<lparr>th_default = [], th_Clear = (\<lambda>x. []), th_Merge = (\<lambda>from_string x. from_string),
     th_SpaceUsed = space\<rparr>"

lemma parameter_tidy_new: "parameter_tidy TeecParameter_new"
  by (simp add: parameter_tidy_def reference_tidy_def view_defs TeecParameter_get_teecsharedmemoryreference_def
      TeecParameter_get_teecvalue_def TeecParameter_new_def TeecSharedMemoryReference_get_parent_def
      TeecSharedMemoryReference_copy_defs TeecSharedMemory_copy_defs TeecValue_copy_defs Let_def)

lemma parameter_view_idem: "parameter_view (parameter_view x) = parameter_view x"
proof -
  have "parameter_view (TeecParameter_MergeFrom x TeecParameter_new) = TeecParameter_MergeFrom x (parameter_view TeecParameter_new)"
    using parameter_tidy_new by (rule parameter_view_merge)
  then show ?thesis by simp (simp add: parameter_view_def)
qed

interpretation parameters: type_handler "parameter_handler space" parameter_view parameter_tidy for space
  by unfold_locales (simp_all add: parameter_handler_def parameter_tidy_new parameter_tidy_Clear view_Clear
      parameter_tidy_merge parameter_view_merge)

interpretation strings: type_handler "string_handler space" "\<lambda>x. x" "\<lambda>x. True" for space
  by unfold_locales (simp_all add: string_handler_def)

end
