(* ===== verification/RepeatedProps.thy ===== *)
theory RepeatedProps
  imports RepeatedParams
begin

text \<open>
  Properties of the repeated fields, and what they mean for \<open>TeecOperation\<close>, whose model keeps
  \<open>mparams\<close> as a list.
\<close>

lemma parameter_handler_simps [simp]:
  "th_default (parameter_handler space) = TeecParameter_new"
  "th_Merge (parameter_handler space) = TeecParameter_MergeFrom"
  by (simp_all add: parameter_handler_def)

definition mparams_field :: "repeated_ptr \<Rightarrow> TeecParameter object_store \<Rightarrow> object_ptr list \<Rightarrow> TeecOperation
    \<Rightarrow> (object_ptr \<rightharpoonup> TeecParameter) \<Rightarrow> bool" where
  \<comment> \<open>the pointer array \<open>z\<close> is \<open>mparams_\<close> of the operation \<open>m\<close>\<close>
  "mparams_field z s ps m F \<longleftrightarrow>
     field_holds parameter_view parameter_tidy TeecParameter_new z s ps (map parameter_view (to_mparams m)) F"

subsection \<open>Properties\<close>

text \<open>
  C9: the pointer array of \<open>mparams_\<close>, with its cleared objects, implements the list of
  parameters of the message model: \<open>mparams(i)\<close> reads the element, \<open>add_mparams\<close> appends a
  fresh one even when it hands out an object that was cleared before, \<open>Clear\<close> and \<open>MergeFrom\<close> of
  the operation do to the field what they do to the list, and the destructor deletes each
  object it owns exactly once and no other.
\<close>
theorem mparams_field_implements_list:
  assumes "mparams_field z s ps m F" "2 * rp_total_size z < INT_MAX"
  shows "RepeatedPtrField_size z = TeecOperation_mparams_size m
     \<and> (i < length (to_mparams m) \<longrightarrow> (\<exists>x y. RepeatedPtrField_Get (int i) (z, s) = Some x
           \<and> TeecOperation_get_mparams m i = Some y \<and> parameter_view x = parameter_view y))
     \<and> (\<exists>p z' s'. RepeatedPtrField_Add (parameter_handler space) (z, s) = Some (p, z', s')
           \<and> mparams_field z' s' (ps @ [p]) (snd (TeecOperation_add_mparams m)) F)
     \<and> (\<exists>z' s'. RepeatedPtrField_Clear (parameter_handler space) (z, s) = Some (z', s')
           \<and> mparams_field z' s' [] (TeecOperation_Clear m) F)
     \<and> (rp_layout other qs ds \<and> list_all2 (\<lambda>q x. F q = Some x \<and> parameter_tidy x) qs (to_mparams from_msg)
           \<and> int (length (to_mparams m) + length (to_mparams from_msg)) \<le> INT_MAX
         \<longrightarrow> (\<exists>z' s' ps'. RepeatedPtrField_MergeFrom (parameter_handler space) other (z, s) = Some (z', s')
           \<and> mparams_field z' s' ps' (TeecOperation_MergeFrom from_msg m) F))
     \<and> (\<exists>s'. RepeatedPtrField_Destroy (z, s) = Some s' \<and> os_objects s' = F)"
proof (intro conjI impI)
  note h = assms(1) [unfolded mparams_field_def]
  show "RepeatedPtrField_size z = TeecOperation_mparams_size m"
    using parameters.holds_size [simplified, OF h] by (simp add: TeecOperation_mparams_size_def)
  show "\<exists>x y. RepeatedPtrField_Get (int i) (z, s) = Some x
      \<and> TeecOperation_get_mparams m i = Some y \<and> parameter_view x = parameter_view y" if "i < length (to_mparams m)"
    using parameters.Get_holds [simplified, OF h, of i] that by (auto simp: TeecOperation_get_mparams_def)
  show "\<exists>p z' s'. RepeatedPtrField_Add (parameter_handler space) (z, s) = Some (p, z', s')
      \<and> mparams_field z' s' (ps @ [p]) (snd (TeecOperation_add_mparams m)) F"
    using parameters.Add_holds [simplified, OF h, of space] assms(2)
    by (simp add: mparams_field_def TeecOperation_add_mparams_def) metis
  show "\<exists>z' s'. RepeatedPtrField_Clear (parameter_handler space) (z, s) = Some (z', s')
      \<and> mparams_field z' s' [] (TeecOperation_Clear m) F"
    using parameters.Clear_holds [simplified, OF h, of space]
    by (simp add: mparams_field_def TeecOperation_Clear_def) metis
  show "\<exists>s'. RepeatedPtrField_Destroy (z, s) = Some s' \<and> os_objects s' = F"
    using parameters.Destroy_holds [simplified, OF h] by blast
  assume a: "rp_layout other qs ds \<and> list_all2 (\<lambda>q x. F q = Some x \<and> parameter_tidy x) qs (to_mparams from_msg)
     \<and> int (length (to_mparams m) + length (to_mparams from_msg)) \<le> INT_MAX"
  have e: "map parameter_view (to_mparams (TeecOperation_MergeFrom from_msg m))
      = map parameter_view (to_mparams m) @ map (\<lambda>f. parameter_view (TeecParameter_MergeFrom f TeecParameter_new)) (to_mparams from_msg)"
    by (simp add: TeecOperation_MergeFrom_def TeecOperation_set_mstarted_def Let_def)
  obtain z' s' ps' where "RepeatedPtrField_MergeFrom (parameter_handler space) other (z, s) = Some (z', s')"
    "field_holds parameter_view parameter_tidy TeecParameter_new z' s' ps'
       (map parameter_view (to_mparams (TeecOperation_MergeFrom from_msg m))) F"
    unfolding e
    by (rule parameters.MergeFrom_holds [simplified, OF h, of other qs ds "to_mparams from_msg" space])
      (use a assms(2) in auto)
  then show "\<exists>z' s' ps'. RepeatedPtrField_MergeFrom (parameter_handler space) other (z, s) = Some (z', s')
      \<and> mparams_field z' s' ps' (TeecOperation_MergeFrom from_msg m) F"
    unfolding mparams_field_def by blast
qed



text \<open>A field that held two parameters, of which one was cleared, and a foreign object.\<close>

definition sample_store :: "TeecParameter object_store" where
  "sample_store = \<lparr>os_objects = [0 \<mapsto> TeecParameter_set_type 2 TeecParameter_new, 1 \<mapsto> TeecParameter_new,
     5 \<mapsto> TeecParameter_set_type 3 TeecParameter_new], os_next = 6\<rparr>"

definition sample_field :: repeated_ptr where
  "sample_field = \<lparr>rp_elements = [Some 0, Some 1, None, None], rp_current_size = 1, rp_allocated_size = 2, rp_total_size = 4\<rparr>"

definition sample_foreign :: "object_ptr \<rightharpoonup> TeecParameter" where
  "sample_foreign = [5 \<mapsto> TeecParameter_set_type 3 TeecParameter_new]"

definition sample_list :: TeecOperation where
  "sample_list = TeecOperation_new\<lparr>to_mparams := [TeecParameter_set_type 2 TeecParameter_new]\<rparr>"

lemma set_type_tidy: "parameter_tidy x \<Longrightarrow> parameter_tidy (TeecParameter_set_type v x)"
  by (simp add: parameter_tidy_def TeecParameter_set_type_def TeecParameter_get_teecsharedmemoryreference_def
      TeecParameter_get_teecvalue_def)

lemma sample_field_holds: "mparams_field sample_field sample_store [0] sample_list sample_foreign"
  unfolding mparams_field_def field_holds_def
proof (intro exI [of _ "[1]"] conjI)
  show "rp_layout sample_field [0] [1]"
    by (auto simp: rp_layout_def sample_field_def INT_MAX_def nth_Cons' less_Suc_eq)
  show "owns sample_store ([0] @ [1]) sample_foreign"
    by (auto simp: owns_def sample_store_def sample_foreign_def restrict_map_def fun_eq_iff)
qed (auto simp: object_looks_def sample_store_def sample_list_def set_type_tidy parameter_tidy_new)

lemma mparams_field_implements_list_witness:
  "\<exists>p z' s'. RepeatedPtrField_Add (parameter_handler (\<lambda>x. 0)) (sample_field, sample_store) = Some (p, z', s')
     \<and> mparams_field z' s' ([0] @ [p]) (snd (TeecOperation_add_mparams sample_list)) sample_foreign"
proof -
  have "2 * rp_total_size sample_field < INT_MAX" by (simp add: sample_field_def INT_MAX_def)
  then show ?thesis using mparams_field_implements_list [OF sample_field_holds, where space = "\<lambda>x. 0"] by fast
qed


text \<open>
  C32: a repeated field of a primitive type behaves as a list: \<open>Add\<close> appends (the array at least
  doubles when it grows, and keeps its elements), \<open>Get\<close> and \<open>Set\<close> are indexing, \<open>Resize\<close> pads or cuts,
  \<open>ExtractSubrange\<close> takes a range out and closes the gap, \<open>MergeFrom\<close> concatenates, and the
  constructor from iterators gives the same list for both kinds of iterator.
\<close>
theorem repeated_field_refines_list:
  assumes "rf_holds z xs" "2 * rf_total_size z < INT_MAX"
  shows "(\<exists>z'. RepeatedField_Add v z = Some z' \<and> rf_holds z' (xs @ [v])
          \<and> (rf_total_size z' = rf_total_size z \<or> 2 * rf_total_size z \<le> rf_total_size z'))
     \<and> (i < length xs \<longrightarrow> RepeatedField_Get (int i) z = Some (xs ! i)
          \<and> (\<exists>z'. RepeatedField_Set (int i) v z = Some z' \<and> rf_holds z' (xs[i := v])))
     \<and> (int n \<le> INT_MAX \<longrightarrow> (\<exists>z'. RepeatedField_Resize (int n) v z = Some z'
          \<and> rf_holds z' (take n xs @ replicate (n - length xs) v)))
     \<and> (i + n \<le> length xs \<longrightarrow> (\<exists>z'. RepeatedField_ExtractSubrange (int i) (int n) z = Some (take n (drop i xs), z')
          \<and> rf_holds z' (take i xs @ drop (i + n) xs)))
     \<and> (rf_holds other ys \<and> int (length xs + length ys) \<le> INT_MAX
          \<longrightarrow> (\<exists>z'. RepeatedField_MergeFrom other z = Some z' \<and> rf_holds z' (xs @ ys)))
     \<and> (2 * int (length ys) < INT_MAX div 2
          \<longrightarrow> (\<exists>z'. RepeatedField_from_range forward_iterator ys = Some z' \<and> rf_holds z' ys))"
proof (intro conjI impI)
  have room: "2 * rf_total_size z \<le> INT_MAX - 1" "2 * rf_total_size z \<le> INT_MAX" using assms(2) by auto
  show "\<exists>z'. RepeatedField_Add v z = Some z' \<and> rf_holds z' (xs @ [v])
      \<and> (rf_total_size z' = rf_total_size z \<or> 2 * rf_total_size z \<le> rf_total_size z')"
    using Add_slots [OF assms(1) room(1)] by metis
  show "RepeatedField_Get (int i) z = Some (xs ! i)" if "i < length xs"
    using Get_slots [OF assms(1), of "int i"] that by simp
  show "\<exists>z'. RepeatedField_Set (int i) v z = Some z' \<and> rf_holds z' (xs[i := v])" if "i < length xs"
    using Set_slots [OF assms(1), of "int i" v] that by auto
  show "\<exists>z'. RepeatedField_Resize (int n) v z = Some z' \<and> rf_holds z' (take n xs @ replicate (n - length xs) v)"
    if "int n \<le> INT_MAX" using Resize_slots [OF assms(1) _ that room(2), of v] by auto
  show "\<exists>z'. RepeatedField_ExtractSubrange (int i) (int n) z = Some (take n (drop i xs), z')
      \<and> rf_holds z' (take i xs @ drop (i + n) xs)" if "i + n \<le> length xs"
    using ExtractSubrange_slots [OF assms(1), of "int i" "int n"] that by auto
  show "\<exists>z'. RepeatedField_MergeFrom other z = Some z' \<and> rf_holds z' (xs @ ys)"
    if "rf_holds other ys \<and> int (length xs + length ys) \<le> INT_MAX"
    using MergeFrom_slots [OF assms(1) _ _ room(2)] that by metis
  show "\<exists>z'. RepeatedField_from_range forward_iterator ys = Some z' \<and> rf_holds z' ys"
    if "2 * int (length ys) < INT_MAX div 2" using from_range_slots [OF that] by blast
qed

lemma repeated_field_refines_list_witness:
  "\<exists>z'. RepeatedField_Add (7 :: nat) RepeatedField_new = Some z' \<and> rf_holds z' ([] @ [7])"
proof -
  have "2 * rf_total_size (RepeatedField_new :: nat repeated_field) < INT_MAX"
    by (simp add: RepeatedField_new_def INT_MAX_def)
  then show ?thesis using repeated_field_refines_list [OF rf_holds_new, of "7 :: nat"] by blast
qed

end
