(* ===== verification/Escape.thy ===== *)
theory Escape
  imports Prelude
begin

text \<open>
  C escapes of \<^verbatim>\<open>stubs/strutil.cc\<close>: \<open>CEscapeInternal\<close> and its callers, and
  \<open>UnescapeCEscapeSequences\<close>. A \<open>char\<close> is a byte; a C string is read up to its first zero byte.
\<close>

subsection \<open>Characters\<close>

definition isxdigit :: "byte \<Rightarrow> bool" where
  "isxdigit c \<longleftrightarrow> (0x30 \<le> c \<and> c \<le> 0x39) \<or> (0x61 \<le> c \<and> c \<le> 0x66) \<or> (0x41 \<le> c \<and> c \<le> 0x46)"

definition isprint :: "byte \<Rightarrow> bool" where
  "isprint c \<longleftrightarrow> c \<ge> 0x20 \<and> c \<le> 0x7E"

definition IS_OCTAL_DIGIT :: "byte \<Rightarrow> bool" where
  "IS_OCTAL_DIGIT c \<longleftrightarrow> c \<ge> 0x30 \<and> c \<le> 0x37"

definition hex_digit_to_int :: "byte \<Rightarrow> u32" where
  "hex_digit_to_int c = (let x = (ucast c :: u32); x = (if x > 0x39 then x + 9 else x) in x AND 0xF)"

definition c_string :: "byte list \<Rightarrow> byte list" where
  "c_string s = takeWhile (\<lambda>c. c \<noteq> 0) s"

subsection \<open>Unescaping\<close>

text \<open>The \<^verbatim>\<open>switch\<close> over the letters that stand for one character.\<close>

definition simple_escape :: "byte \<Rightarrow> byte option" where
  "simple_escape c =
     (if c = 0x61 then Some 7 else if c = 0x62 then Some 8 else if c = 0x66 then Some 12
      else if c = 0x6E then Some 10 else if c = 0x72 then Some 13 else if c = 0x74 then Some 9
      else if c = 0x76 then Some 11 else if c = 0x5C then Some 0x5C else if c = 0x3F then Some 0x3F
      else if c = 0x27 then Some 0x27 else if c = 0x22 then Some 0x22 else None)"

fun octal_more :: "byte \<Rightarrow> byte list \<Rightarrow> byte \<times> byte list" where
  \<comment> \<open>one more octal digit, if there is one; the arithmetic of \<open>char\<close> wraps\<close>
  "octal_more ch (d # p) = (if IS_OCTAL_DIGIT d then (ch * 8 + d - 0x30, p) else (ch, d # p))"
| "octal_more ch [] = (ch, [])"

fun hex_run :: "u32 \<Rightarrow> byte list \<Rightarrow> u32 \<times> byte list" where
  \<comment> \<open>arbitrarily many hex digits\<close>
  "hex_run ch (d # p) = (if isxdigit d then hex_run (push_bit 4 ch + hex_digit_to_int d) p else (ch, d # p))"
| "hex_run ch [] = (ch, [])"

lemma octal_more_shorter: "(ch', q) = octal_more ch p \<Longrightarrow> length q \<le> length p"
  by (cases p) (auto split: if_splits)

lemma hex_run_shorter: "(ch', q) = hex_run ch p \<Longrightarrow> length q \<le> length p"
  by (induction ch p rule: hex_run.induct) (auto split: if_splits intro: le_SucI)

text \<open>
  The list is what \<open>p\<close> points to, up to the zero byte; the result is what is stored through
  \<open>d\<close>, for separate buffers.
\<close>

function UnescapeCEscapeSequences :: "byte list \<Rightarrow> byte list" where
  "UnescapeCEscapeSequences [] = []"
| "UnescapeCEscapeSequences (c # p) =
     (if c \<noteq> 0x5C then c # UnescapeCEscapeSequences p
      else case p of
        [] \<Rightarrow> []
      | e # p \<Rightarrow>
          (case simple_escape e of
             Some x \<Rightarrow> x # UnescapeCEscapeSequences p
           | None \<Rightarrow>
               if IS_OCTAL_DIGIT e then
                 let (ch, p) = octal_more (e - 0x30) p;
                     (ch, p) = octal_more ch p
                 in ch # UnescapeCEscapeSequences p
               else if e = 0x78 \<or> e = 0x58 then
                 (case p of
                    [] \<Rightarrow> UnescapeCEscapeSequences []
                  | h # q \<Rightarrow>
                      if \<not> isxdigit h then UnescapeCEscapeSequences p
                      else let (ch, p) = hex_run 0 p in ucast ch # UnescapeCEscapeSequences p)
               else UnescapeCEscapeSequences p))"
  by pat_completeness auto

termination
proof (relation "measure length", simp_all del: octal_more.simps hex_run.simps, goal_cases)
  case (1 c p e q r ch1 p1 s ch2 p2)
  then show ?case using octal_more_shorter [of ch1 p1] octal_more_shorter [of ch2 p2] by fastforce
next
  case (2 c p e q h t r ch p1)
  then show ?case using hex_run_shorter [of ch p1 0 "h # t"] by auto
qed

definition UnescapeCEscapeString :: "byte list \<Rightarrow> byte list option" where
  \<comment> \<open>the destination has \<open>src.size() + 1\<close> bytes, the terminating zero included\<close>
  "UnescapeCEscapeString src =
     (let d = UnescapeCEscapeSequences (c_string src) in if length d + 1 \<le> length src + 1 then Some d else None)"

subsection \<open>Escaping\<close>

definition hex_char :: "byte \<Rightarrow> byte" where
  "hex_char d = (if d < 10 then 0x30 + d else 0x61 + (d - 10))"

definition sprintf_x02 :: "byte \<Rightarrow> byte list" where
  \<comment> \<open>\<^verbatim>\<open>sprintf\<close> of \<^verbatim>\<open>"\\x%02x"\<close>, with the zero byte it stores\<close>
  "sprintf_x02 c = [0x5C, 0x78, hex_char (drop_bit 4 c), hex_char (c AND 0xF), 0]"

definition sprintf_o03 :: "byte \<Rightarrow> byte list" where
  \<comment> \<open>\<^verbatim>\<open>sprintf\<close> of \<^verbatim>\<open>"\\%03o"\<close>\<close>
  "sprintf_o03 c = [0x5C, 0x30 + drop_bit 6 c, 0x30 + (drop_bit 3 c AND 7), 0x30 + (c AND 7), 0]"

text \<open>
  \<open>dest\<close> is what was stored so far, \<open>used\<close> its length. \<open>None\<close> is a store outside the
  \<open>dest_len\<close> bytes, \<open>Some None\<close> the result \<open>-1\<close>.
\<close>

definition store_at_end :: "byte list \<Rightarrow> int \<Rightarrow> byte list \<Rightarrow> byte list option" where
  "store_at_end dest dest_len bs = (if int (length dest) + int (length bs) \<le> dest_len then Some (dest @ bs) else None)"

definition two_letter_escape :: "byte \<Rightarrow> byte option" where
  "two_letter_escape c =
     (if c = 10 then Some 0x6E else if c = 13 then Some 0x72 else if c = 9 then Some 0x74
      else if c = 0x22 then Some 0x22 else if c = 0x27 then Some 0x27 else if c = 0x5C then Some 0x5C else None)"

definition needs_escape :: "bool \<Rightarrow> bool \<Rightarrow> byte \<Rightarrow> bool" where
  \<comment> \<open>a hex digit behind \<^verbatim>\<open>\xNN\<close> would be read as part of the number\<close>
  "needs_escape utf8_safe last_hex_escape c \<longleftrightarrow>
     (\<not> utf8_safe \<or> c < 0x80) \<and> (\<not> isprint c \<or> last_hex_escape \<and> isxdigit c)"

fun CEscape_loop :: "bool \<Rightarrow> bool \<Rightarrow> int \<Rightarrow> byte list \<Rightarrow> bool \<Rightarrow> byte list \<Rightarrow> byte list option option" where
  "CEscape_loop use_hex utf8_safe dest_len [] last_hex_escape dest = Some (Some dest)"
| "CEscape_loop use_hex utf8_safe dest_len (c # src) last_hex_escape dest =
     (if dest_len - int (length dest) < 2 then Some None
      else case two_letter_escape c of
        Some e \<Rightarrow>
          do { dest \<leftarrow> store_at_end dest dest_len [0x5C, e];
               CEscape_loop use_hex utf8_safe dest_len src False dest }
      | None \<Rightarrow>
          if needs_escape utf8_safe last_hex_escape c then
            if dest_len - int (length dest) < 4 then Some None
            else do { dest \<leftarrow> store_at_end dest dest_len (if use_hex then sprintf_x02 c else sprintf_o03 c);
                      CEscape_loop use_hex utf8_safe dest_len src use_hex (butlast dest) }
          else
            do { dest \<leftarrow> store_at_end dest dest_len [c];
                 CEscape_loop use_hex utf8_safe dest_len src False dest })"

definition CEscapeInternal :: "byte list \<Rightarrow> int \<Rightarrow> bool \<Rightarrow> bool \<Rightarrow> byte list option option" where
  "CEscapeInternal src dest_len use_hex utf8_safe =
     do { r \<leftarrow> CEscape_loop use_hex utf8_safe dest_len src False [];
          case r of
            None \<Rightarrow> Some None
          | Some dest \<Rightarrow>
              if dest_len - int (length dest) < 1 then Some None
              else do { stored \<leftarrow> store_at_end dest dest_len [0]; Some (Some dest) } }"

definition CEscapeString :: "byte list \<Rightarrow> int \<Rightarrow> byte list option option" where
  "CEscapeString src dest_len = CEscapeInternal src dest_len False False"

text \<open>The callers that return a string; \<open>None\<close> also covers the failed \<^verbatim>\<open>GOOGLE_DCHECK\<close>.\<close>

definition CEscape :: "byte list \<Rightarrow> byte list option" where
  "CEscape src =
     do { dest_length \<leftarrow> (if int (length src) * 4 + 1 \<le> INT_MAX then Some (int (length src) * 4 + 1) else None);
          r \<leftarrow> CEscapeInternal src dest_length False False; r }"

definition Utf8SafeCEscape :: "byte list \<Rightarrow> byte list option" where
  "Utf8SafeCEscape src =
     do { dest_length \<leftarrow> (if int (length src) * 4 + 1 \<le> INT_MAX then Some (int (length src) * 4 + 1) else None);
          r \<leftarrow> CEscapeInternal src dest_length False True; r }"

definition CHexEscape :: "byte list \<Rightarrow> byte list option" where
  "CHexEscape src =
     do { dest_length \<leftarrow> (if int (length src) * 4 + 1 \<le> INT_MAX then Some (int (length src) * 4 + 1) else None);
          r \<leftarrow> CEscapeInternal src dest_length True False; r }"

lemma escape_examples:
  "CEscape [10, 1, 0x37] = Some [0x5C, 0x6E, 0x5C, 0x30, 0x30, 0x31, 0x37]"
  "CHexEscape [1, 0x37] = Some [0x5C, 0x78, 0x30, 0x31, 0x5C, 0x78, 0x33, 0x37]"
  "UnescapeCEscapeSequences [0x5C, 0x78, 0x30, 0x31, 0x5C, 0x78, 0x33, 0x37] = [1, 0x37]"
  "CEscapeString [1] 4 = None"
  by code_simp+

end
