(* ===== verification/EscapeLaws.thy ===== *)
theory EscapeLaws
  imports Escape
begin

text \<open>
  \<open>CEscape\<close> and its variants are inverted by \<open>UnescapeCEscapeString\<close>, and stay within their
  buffers; \<open>CEscapeString\<close> with a buffer of the caller may write one byte past its end.
\<close>

lemma small_byte:
  assumes "list_all (\<lambda>n. P (of_nat n)) [0..<k]" "unat c < k"
  shows "P (c :: byte)"
proof -
  have "\<forall>n < k. P (of_nat n)" using assms(1) by (auto simp: list_all_iff)
  then have "P (of_nat (unat c))" using assms(2) by blast
  then show ?thesis by simp
qed

lemma octal_digit:
  assumes "unat d < 8"
  shows "IS_OCTAL_DIGIT (0x30 + d)" "simple_escape (0x30 + d) = None" "0x30 + d \<noteq> (0 :: byte)"
proof -
  have "IS_OCTAL_DIGIT (0x30 + d) \<and> simple_escape (0x30 + d) = None \<and> 0x30 + d \<noteq> (0 :: byte)"
    using _ assms by (rule small_byte, code_simp)
  then show "IS_OCTAL_DIGIT (0x30 + d)" "simple_escape (0x30 + d) = None" "0x30 + d \<noteq> (0 :: byte)" by simp_all
qed

lemma hex_digit:
  assumes "unat d < 16"
  shows "isxdigit (hex_char d)" "hex_digit_to_int (hex_char d) = ucast d" "hex_char d \<noteq> (0 :: byte)"
proof -
  have "isxdigit (hex_char d) \<and> hex_digit_to_int (hex_char d) = ucast d \<and> hex_char d \<noteq> (0 :: byte)"
    using _ assms by (rule small_byte, code_simp)
  then show "isxdigit (hex_char d)" "hex_digit_to_int (hex_char d) = ucast d" "hex_char d \<noteq> (0 :: byte)" by simp_all
qed

lemma and_masks: "(c :: byte) AND 7 = take_bit 3 c" "(c :: byte) AND 0xF = take_bit 4 c"
  by (simp_all add: take_bit_eq_mask mask_eq_exp_minus_1)

lemma octal_digits:
  "unat (drop_bit 6 c) < 8" "unat (drop_bit 3 c AND 7) < 8" "unat ((c :: byte) AND 7) < 8"
  using byte_lt_256 [of c]
  by (simp_all add: and_masks drop_bit_eq_div take_bit_eq_mod unat_div unat_mod)

lemma hex_digits: "unat (drop_bit 4 c) < 16" "unat ((c :: byte) AND 0xF) < 16"
  using byte_lt_256 [of c]
  by (simp_all add: and_masks drop_bit_eq_div take_bit_eq_mod unat_div unat_mod)

subsection \<open>The text without a buffer\<close>

fun escape_text :: "bool \<Rightarrow> bool \<Rightarrow> bool \<Rightarrow> byte list \<Rightarrow> byte list" where
  "escape_text use_hex utf8_safe after_hex [] = []"
| "escape_text use_hex utf8_safe after_hex (c # src) =
     (case two_letter_escape c of
        Some e \<Rightarrow> 0x5C # e # escape_text use_hex utf8_safe False src
      | None \<Rightarrow>
          if needs_escape utf8_safe after_hex c
          then butlast (if use_hex then sprintf_x02 c else sprintf_o03 c) @ escape_text use_hex utf8_safe use_hex src
          else c # escape_text use_hex utf8_safe False src)"

lemma sprintf_length [simp]: "length (sprintf_x02 c) = 5" "length (sprintf_o03 c) = 5"
  by (simp_all add: sprintf_x02_def sprintf_o03_def)

lemma escape_text_length: "length (escape_text use_hex utf8_safe after_hex src) \<le> 4 * length src"
proof (induction src arbitrary: after_hex)
  case (Cons c src)
  have "length (butlast (if use_hex then sprintf_x02 c else sprintf_o03 c)) = 4" by simp
  then show ?case using Cons.IH [of False] Cons.IH [of use_hex] by (cases use_hex) (simp_all split: option.split)
qed simp

lemma CEscape_loop_enough:
  assumes "int (length dest) + 4 * int (length src) + 1 \<le> dest_len"
  shows "CEscape_loop use_hex utf8_safe dest_len src after_hex dest = Some (Some (dest @ escape_text use_hex utf8_safe after_hex src))"
  using assms
proof (induction use_hex utf8_safe dest_len src after_hex dest rule: CEscape_loop.induct)
  case (2 use_hex utf8_safe dest_len c src after_hex dest)
  have room: "\<not> dest_len - int (length dest) < 4" "int (length dest) + 5 \<le> dest_len" using "2.prems" by auto
  show ?case
  proof (cases "two_letter_escape c")
    case (Some e)
    have "store_at_end dest dest_len [0x5C, e] = Some (dest @ [0x5C, e])" using room by (simp add: store_at_end_def)
    then show ?thesis using "2.IH"(3) [OF _ Some] "2.prems" Some by simp
  next
    case None
    let ?q = "needs_escape utf8_safe after_hex c"
      and ?s = "if use_hex then sprintf_x02 c else sprintf_o03 c"
    show ?thesis
    proof (cases ?q)
      case True
      have n: "?s \<noteq> []" "length ?s = 5" by (auto simp: sprintf_x02_def sprintf_o03_def)
      then have "store_at_end dest dest_len ?s = Some (dest @ ?s)" using room(2) by (simp add: store_at_end_def)
      moreover have "butlast (dest @ ?s) = dest @ butlast ?s" using n(1) by (simp add: butlast_append)
      ultimately show ?thesis
        using "2.IH"(1) [OF _ None True] "2.prems" None True room n by simp
    next
      case False
      have "store_at_end dest dest_len [c] = Some (dest @ [c])" using room by (simp add: store_at_end_def)
      then show ?thesis using "2.IH"(2) [OF _ None False] "2.prems" None False by simp
    qed
  qed
qed simp

lemma CEscapeInternal_enough:
  assumes "4 * int (length src) + 1 \<le> dest_len"
  shows "CEscapeInternal src dest_len use_hex utf8_safe = Some (Some (escape_text use_hex utf8_safe False src))"
  using assms escape_text_length [of use_hex utf8_safe False src]
  by (simp add: CEscapeInternal_def CEscape_loop_enough store_at_end_def)

subsection \<open>Reading it back\<close>

lemma octal_value:
  "((0x30 + drop_bit 6 c - 0x30) * 8 + (0x30 + (drop_bit 3 c AND 7)) - 0x30) * 8 + (0x30 + (c AND 7)) - 0x30 = (c :: byte)"
proof -
  have c: "drop_bit 3 c * 8 + take_bit 3 c = c" "drop_bit 3 (drop_bit 3 c) * 8 + take_bit 3 (drop_bit 3 c) = drop_bit 3 c"
    using bits_ident [of 3 c] bits_ident [of 3 "drop_bit 3 c"] by (simp_all add: push_bit_eq_mult)
  have "drop_bit 3 (drop_bit 3 c) = drop_bit 6 c" by simp
  then show ?thesis using c by (simp add: and_masks)
qed

lemma hex_value:
  "ucast (push_bit 4 (ucast (drop_bit 4 c)) + (ucast ((c :: byte) AND 0xF) :: u32)) = c"
proof (rule unsigned_word_eqI)
  have "unat c div 16 * 16 + unat c mod 16 = unat c" "unat c div 16 < 16" using byte_lt_256 [of c] by simp_all
  then show "unat (ucast (push_bit 4 (ucast (drop_bit 4 c)) + (ucast (c AND 0xF) :: u32)) :: byte) = unat c"
    using byte_lt_256 [of c]
    by (simp add: and_masks push_bit_eq_mult drop_bit_eq_div take_bit_eq_mod unat_word_ariths unsigned_ucast_eq unat_div unat_mod)
qed

lemma two_letter_byte:
  "two_letter_escape c = Some e \<Longrightarrow> simple_escape e = Some (c :: byte)"
  by (auto simp: two_letter_escape_def simple_escape_def split: if_splits)

lemma unescape_octal: "UnescapeCEscapeSequences (butlast (sprintf_o03 c) @ t) = c # UnescapeCEscapeSequences t"
  using octal_digit [OF octal_digits(1) [of c]] octal_digit [OF octal_digits(2) [of c]]
    octal_digit [OF octal_digits(3) [of c]] octal_value [of c]
  by (simp add: sprintf_o03_def Let_def)

lemma unescape_hex:
  assumes "t = [] \<or> \<not> isxdigit (hd t)"
  shows "UnescapeCEscapeSequences (butlast (sprintf_x02 c) @ t) = c # UnescapeCEscapeSequences t"
proof -
  have "hex_run ch t = (ch, t)" for ch using assms by (cases t) simp_all
  moreover have "simple_escape 0x78 = None" "\<not> IS_OCTAL_DIGIT 0x78" by code_simp+
  ultimately show ?thesis using hex_digit [OF hex_digits(1) [of c]] hex_digit [OF hex_digits(2) [of c]] hex_value [of c]
    by (simp add: sprintf_x02_def)
qed

lemma escape_text_no_digit:
  "escape_text use_hex utf8_safe True src = [] \<or> \<not> isxdigit (hd (escape_text use_hex utf8_safe True src))"
proof (cases src)
  case (Cons c src')
  have b: "\<not> isxdigit 0x5C" by code_simp
  have "isxdigit c \<longrightarrow> c < 0x80" by (auto simp: isxdigit_def intro: le_less_trans)
  then show ?thesis
    using Cons b by (auto simp: sprintf_x02_def sprintf_o03_def needs_escape_def split: option.split)
qed simp

lemma unescape_text: "UnescapeCEscapeSequences (escape_text use_hex utf8_safe after_hex src) = src"
proof (induction use_hex utf8_safe after_hex src rule: escape_text.induct)
  case (2 use_hex utf8_safe after_hex c src)
  show ?case
  proof (cases "two_letter_escape c")
    case (Some e)
    then show ?thesis using "2.IH"(3) two_letter_byte [OF Some] by simp
  next
    case None
    then have c: "c \<noteq> 0x5C" by (auto simp: two_letter_escape_def)
    show ?thesis
    proof (cases "needs_escape utf8_safe after_hex c")
      case True
      have IH: "UnescapeCEscapeSequences (escape_text use_hex utf8_safe use_hex src) = src"
        using "2.IH"(1) [OF None True] .
      show ?thesis
      proof (cases use_hex)
        case h: True
        then show ?thesis
          using None True IH unescape_hex [OF escape_text_no_digit [of use_hex utf8_safe src], of c] by simp
      next
        case False
        then show ?thesis using None True IH unescape_octal by simp
      qed
    qed (use None c "2.IH"(2) in auto)
  qed
qed simp

lemma escape_text_no_zero: "0 \<notin> set (escape_text use_hex utf8_safe after_hex src)"
proof (induction use_hex utf8_safe after_hex src rule: escape_text.induct)
  case (2 use_hex utf8_safe after_hex c src)
  have z: "0 \<notin> set (butlast (sprintf_x02 c))" "0 \<notin> set (butlast (sprintf_o03 c))"
    "two_letter_escape c = Some e \<Longrightarrow> e \<noteq> 0" "\<not> isprint 0" for e
    using hex_digit(3) [OF hex_digits(1) [of c]] hex_digit(3) [OF hex_digits(2) [of c]]
      octal_digit(3) [OF octal_digits(1) [of c]] octal_digit(3) [OF octal_digits(2) [of c]] octal_digit(3) [OF octal_digits(3) [of c]]
    by (auto simp: sprintf_x02_def sprintf_o03_def two_letter_escape_def isprint_def split: if_splits)
  then show ?case
    using "2.IH" by (auto simp: needs_escape_def split: option.splits)
qed simp

lemma c_string_id: "0 \<notin> set s \<Longrightarrow> c_string s = s"
  by (auto simp: c_string_def takeWhile_eq_all_conv)

lemma unescape_escape:
  "UnescapeCEscapeSequences (0x5C # e # q) =
     (case simple_escape e of
        Some x \<Rightarrow> x # UnescapeCEscapeSequences q
      | None \<Rightarrow>
          if IS_OCTAL_DIGIT e then
            let (ch, p) = octal_more (e - 0x30) q; (ch, p) = octal_more ch p in ch # UnescapeCEscapeSequences p
          else if (e = 0x78 \<or> e = 0x58) \<and> q \<noteq> [] \<and> isxdigit (hd q)
          then let (ch, p) = hex_run 0 q in ucast ch # UnescapeCEscapeSequences p
          else UnescapeCEscapeSequences q)"
  by (cases q) (simp_all del: octal_more.simps hex_run.simps split: option.split)

lemma unescape_shorter: "length (UnescapeCEscapeSequences s) \<le> length s"
proof (induction s rule: measure_induct_rule [of length])
  case (less s)
  have plain: ?case if "s = c # p" "c \<noteq> 0x5C" for c p using less [of p] that by simp
  have escape: ?case if s: "s = 0x5C # e # q" for e q
  proof -
    have q: "length (UnescapeCEscapeSequences q) \<le> length q" using less [of q] s by simp
    define H where "H \<longleftrightarrow> (e = 0x78 \<or> e = 0x58) \<and> q \<noteq> [] \<and> isxdigit (hd q)"
    note eq = unescape_escape [of e q, folded H_def]
    consider (simple) x where "simple_escape e = Some x" | (octal) "simple_escape e = None" "IS_OCTAL_DIGIT e"
      | (hex) "simple_escape e = None" "\<not> IS_OCTAL_DIGIT e" H
      | (skip) "UnescapeCEscapeSequences s = UnescapeCEscapeSequences q"
      using eq s by (cases "simple_escape e"; cases "IS_OCTAL_DIGIT e"; cases H) auto
    then show ?thesis
    proof cases
      case octal
      obtain c1 p1 c2 p2 where o: "octal_more (e - 0x30) q = (c1, p1)" "octal_more c1 p1 = (c2, p2)" by fastforce
      then have "length p2 \<le> length q"
        using octal_more_shorter [of c1 p1 "e - 0x30" q] octal_more_shorter [of c2 p2 c1 p1] by simp
      then show ?thesis using less [of p2] octal o s eq by simp
    next
      case hex
      obtain ch r where r: "hex_run 0 q = (ch, r)" by fastforce
      then have "length r \<le> length q" using hex_run_shorter [of ch r 0 q] by simp
      then show ?thesis using less [of r] hex r s eq by simp
    qed (use q s eq in simp_all)
  qed
  show ?case
  proof (cases s)
    case (Cons c p)
    then show ?thesis using plain escape by (cases "c = 0x5C"; cases p) auto
  qed simp
qed

subsection \<open>Properties\<close>

text \<open>
  C33: \<open>CEscape\<close>, \<open>CHexEscape\<close> and \<open>Utf8SafeCEscape\<close> succeed on any bytes,
  \<open>UnescapeCEscapeString\<close> gives the bytes back, and unescaping any text stores no more than
  its buffer holds. In the hexadecimal form this rests on escaping a hex digit that follows
  \<^verbatim>\<open>\xNN\<close>, since \<^verbatim>\<open>\x\<close> takes any number of digits.
\<close>
theorem escapes_roundtrip:
  assumes "4 * int (length src) + 1 \<le> INT_MAX"
  shows "(\<exists>t. CEscape src = Some t \<and> UnescapeCEscapeString t = Some src)
     \<and> (\<exists>t. CHexEscape src = Some t \<and> UnescapeCEscapeString t = Some src)
     \<and> (\<exists>t. Utf8SafeCEscape src = Some t \<and> UnescapeCEscapeString t = Some src)
     \<and> (\<exists>d. UnescapeCEscapeString src = Some d)"
proof -
  have readback: "UnescapeCEscapeString (escape_text use_hex utf8_safe False src) = Some src" for use_hex utf8_safe
    using unescape_shorter [of "escape_text use_hex utf8_safe False src"]
    by (simp add: UnescapeCEscapeString_def c_string_id escape_text_no_zero unescape_text)
  have "length (c_string src) \<le> length src" by (simp add: c_string_def length_takeWhile_le)
  then have "length (UnescapeCEscapeSequences (c_string src)) \<le> length src"
    using unescape_shorter [of "c_string src"] by linarith
  then show ?thesis
    using assms by (simp add: CEscape_def CHexEscape_def Utf8SafeCEscape_def CEscapeInternal_enough readback)
      (simp add: UnescapeCEscapeString_def)
qed

lemma escapes_roundtrip_witness:
  "\<exists>t. CHexEscape [1, 0x37, 0, 0xFF] = Some t \<and> UnescapeCEscapeString t = Some [1, 0x37, 0, 0xFF]"
  using escapes_roundtrip [of "[1, 0x37, 0, 0xFF]"] by (simp add: INT_MAX_def)



end
