(* ===== verification/Decimal.thy ===== *)
theory Decimal
  imports Prelude
begin

text \<open>
  Numbers and text in \<^verbatim>\<open>stubs/strutil.cc\<close>: the conversions of integers to decimal and
  hexadecimal, and the parsers \<open>safe_int\<close>. Integers of a C type are \<open>int\<close> with the range of the
  type checked where the code could leave it; \<open>None\<close> is an overflow or a store outside the buffer.
\<close>

definition in_range :: "int \<Rightarrow> int \<Rightarrow> int \<Rightarrow> int option" where
  "in_range lo hi n = (if lo \<le> n \<and> n \<le> hi then Some n else None)"

subsection \<open>From the right end of a buffer\<close>

text \<open>The pointer \<open>p\<close> as an index, with the bytes stored above it.\<close>

type_synonym left_writer = "int \<times> byte list"

definition put_left :: "byte \<Rightarrow> left_writer \<Rightarrow> left_writer option" where
  \<comment> \<open>\<^verbatim>\<open>*p-- = b\<close>\<close>
  "put_left b = (\<lambda>(p, stored). if 0 \<le> p then Some (p - 1, b # stored) else None)"

definition digit_char :: "int \<Rightarrow> byte" where
  "digit_char d = of_int (0x30 + d)"

function digits_left :: "int \<Rightarrow> left_writer \<Rightarrow> left_writer option" where
  \<comment> \<open>\<^verbatim>\<open>do { *p-- = '0' + i % 10; i /= 10; } while (i > 0);\<close> for \<open>i >= 0\<close>\<close>
  "digits_left i w =
     do { w \<leftarrow> put_left (digit_char (i mod 10)) w;
          if i div 10 > 0 then digits_left (i div 10) w else Some w }"
  by pat_completeness auto
termination by (relation "measure (\<lambda>(i, w). nat i)") auto

definition FastInt32ToBuffer :: "int \<Rightarrow> byte list option" where
  "FastInt32ToBuffer i =
     do { let w = (10, []);
          if i \<ge> 0 then do { (p, stored) \<leftarrow> digits_left i w; Some stored }
          else if i > - 10 then
            do { i \<leftarrow> in_range (- (2 ^ 31)) (2 ^ 31 - 1) (- i);
                 w \<leftarrow> put_left (digit_char i) w;
                 (p, stored) \<leftarrow> put_left 0x2D w;
                 Some stored }
          else
            do { i \<leftarrow> in_range (- (2 ^ 31)) (2 ^ 31 - 1) (i + 10);
                 i \<leftarrow> in_range (- (2 ^ 31)) (2 ^ 31 - 1) (- i);
                 w \<leftarrow> put_left (digit_char (i mod 10)) w;
                 w \<leftarrow> digits_left (i div 10 + 1) w;
                 (p, stored) \<leftarrow> put_left 0x2D w;
                 Some stored } }"

definition FastInt64ToBuffer :: "int \<Rightarrow> byte list option" where
  "FastInt64ToBuffer i =
     do { let w = (20, []);
          if i \<ge> 0 then do { (p, stored) \<leftarrow> digits_left i w; Some stored }
          else if i > - 10 then
            do { i \<leftarrow> in_range (- (2 ^ 63)) (2 ^ 63 - 1) (- i);
                 w \<leftarrow> put_left (digit_char i) w;
                 (p, stored) \<leftarrow> put_left 0x2D w;
                 Some stored }
          else
            do { i \<leftarrow> in_range (- (2 ^ 63)) (2 ^ 63 - 1) (i + 10);
                 i \<leftarrow> in_range (- (2 ^ 63)) (2 ^ 63 - 1) (- i);
                 w \<leftarrow> put_left (digit_char (i mod 10)) w;
                 w \<leftarrow> digits_left (i div 10 + 1) w;
                 (p, stored) \<leftarrow> put_left 0x2D w;
                 Some stored } }"

definition hexdigits :: "byte list" where
  "hexdigits = [0x30, 0x31, 0x32, 0x33, 0x34, 0x35, 0x36, 0x37, 0x38, 0x39, 0x61, 0x62, 0x63, 0x64, 0x65, 0x66]"

function hex_left :: "int \<Rightarrow> left_writer \<Rightarrow> left_writer option" where
  "hex_left i w =
     do { d \<leftarrow> mem_at hexdigits (nat (i mod 16));
          w \<leftarrow> put_left d w;
          if i div 16 > 0 then hex_left (i div 16) w else Some w }"
  by pat_completeness auto
termination by (relation "measure (\<lambda>(i, w). nat i)") auto

definition FastHexToBuffer :: "int \<Rightarrow> byte list option" where
  \<comment> \<open>\<open>None\<close> also for the failed \<^verbatim>\<open>GOOGLE_CHECK\<close> on a negative number\<close>
  "FastHexToBuffer i =
     (if i \<ge> 0 then do { (p, stored) \<leftarrow> hex_left i (20, []); Some stored } else None)"

fun InternalFastHex_loop :: "nat \<Rightarrow> u64 \<Rightarrow> byte list \<Rightarrow> byte list option" where
  "InternalFastHex_loop 0 v stored = Some stored"
| "InternalFastHex_loop (Suc i) v stored =
     do { d \<leftarrow> mem_at hexdigits (unat ((ucast v :: u32) AND 0xF));
          InternalFastHex_loop i (drop_bit 4 v) (d # stored) }"

definition InternalFastHexToBuffer :: "u64 \<Rightarrow> nat \<Rightarrow> byte list option" where
  "InternalFastHexToBuffer v num_byte = InternalFastHex_loop num_byte v []"

definition FastHex64ToBuffer :: "u64 \<Rightarrow> byte list option" where
  "FastHex64ToBuffer v = InternalFastHexToBuffer v 16"

definition FastHex32ToBuffer :: "u32 \<Rightarrow> byte list option" where
  "FastHex32ToBuffer v = InternalFastHexToBuffer (ucast v) 8"

function ToHex_loop :: "u64 \<Rightarrow> left_writer \<Rightarrow> left_writer option" where
  "ToHex_loop num w =
     (if num \<noteq> 0 then
        do { d \<leftarrow> mem_at hexdigits (unat (num AND 0xF));
             w \<leftarrow> put_left d w;
             ToHex_loop (drop_bit 4 num) w }
      else Some w)"
  by pat_completeness auto
termination
proof (relation "measure (\<lambda>(num, w). unat num)", goal_cases)
  case (2 num w)
  then have "0 < unat num" by (simp add: unat_gt_0)
  then show ?case by (simp add: drop_bit_eq_div unat_div)
qed simp

definition ToHex :: "u64 \<Rightarrow> byte list option" where
  "ToHex num = (if num = 0 then Some [0x30] else do { (p, stored) \<leftarrow> ToHex_loop num (15, []); Some stored })"

definition PlaceNum :: "left_writer \<Rightarrow> int \<Rightarrow> byte \<Rightarrow> left_writer option" where
  "PlaceNum p num prev_sep =
     do { p \<leftarrow> put_left (digit_char (num mod 10)) p;
          p \<leftarrow> put_left (digit_char (num div 10)) p;
          put_left prev_sep p }"


subsection \<open>To the left end of a buffer\<close>

text \<open>
  These routines write forward; \<open>out\<close> is what was stored so far. The \<^verbatim>\<open>goto\<close> labels of
  \<open>FastUInt32ToBufferLeft\<close> are functions of the state at the label.
\<close>

definition two_ASCII_digits :: "byte list list" where
  "two_ASCII_digits = [
   [0x30, 0x30], [0x30, 0x31], [0x30, 0x32], [0x30, 0x33], [0x30, 0x34],
   [0x30, 0x35], [0x30, 0x36], [0x30, 0x37], [0x30, 0x38], [0x30, 0x39],
   [0x31, 0x30], [0x31, 0x31], [0x31, 0x32], [0x31, 0x33], [0x31, 0x34],
   [0x31, 0x35], [0x31, 0x36], [0x31, 0x37], [0x31, 0x38], [0x31, 0x39],
   [0x32, 0x30], [0x32, 0x31], [0x32, 0x32], [0x32, 0x33], [0x32, 0x34],
   [0x32, 0x35], [0x32, 0x36], [0x32, 0x37], [0x32, 0x38], [0x32, 0x39],
   [0x33, 0x30], [0x33, 0x31], [0x33, 0x32], [0x33, 0x33], [0x33, 0x34],
   [0x33, 0x35], [0x33, 0x36], [0x33, 0x37], [0x33, 0x38], [0x33, 0x39],
   [0x34, 0x30], [0x34, 0x31], [0x34, 0x32], [0x34, 0x33], [0x34, 0x34],
   [0x34, 0x35], [0x34, 0x36], [0x34, 0x37], [0x34, 0x38], [0x34, 0x39],
   [0x35, 0x30], [0x35, 0x31], [0x35, 0x32], [0x35, 0x33], [0x35, 0x34],
   [0x35, 0x35], [0x35, 0x36], [0x35, 0x37], [0x35, 0x38], [0x35, 0x39],
   [0x36, 0x30], [0x36, 0x31], [0x36, 0x32], [0x36, 0x33], [0x36, 0x34],
   [0x36, 0x35], [0x36, 0x36], [0x36, 0x37], [0x36, 0x38], [0x36, 0x39],
   [0x37, 0x30], [0x37, 0x31], [0x37, 0x32], [0x37, 0x33], [0x37, 0x34],
   [0x37, 0x35], [0x37, 0x36], [0x37, 0x37], [0x37, 0x38], [0x37, 0x39],
   [0x38, 0x30], [0x38, 0x31], [0x38, 0x32], [0x38, 0x33], [0x38, 0x34],
   [0x38, 0x35], [0x38, 0x36], [0x38, 0x37], [0x38, 0x38], [0x38, 0x39],
   [0x39, 0x30], [0x39, 0x31], [0x39, 0x32], [0x39, 0x33], [0x39, 0x34],
   [0x39, 0x35], [0x39, 0x36], [0x39, 0x37], [0x39, 0x38], [0x39, 0x39]]"

definition put_two :: "u32 \<Rightarrow> byte list \<Rightarrow> byte list option" where
  "put_two digits out = (if unat digits < length two_ASCII_digits then Some (out @ two_ASCII_digits ! unat digits) else None)"

definition put_one :: "u32 \<Rightarrow> byte list \<Rightarrow> byte list" where
  \<comment> \<open>\<^verbatim>\<open>*buffer++ = '0' + digits\<close>\<close>
  "put_one digits out = out @ [0x30 + ucast digits]"

definition lt100 :: "u32 \<Rightarrow> byte list \<Rightarrow> byte list option" where
  "lt100 u out = put_two u out"

definition sublt100 :: "u32 \<Rightarrow> u32 \<Rightarrow> byte list \<Rightarrow> byte list option" where
  "sublt100 digits u out = lt100 (u - digits * 100) out"

definition lt10_000 :: "u32 \<Rightarrow> byte list \<Rightarrow> byte list option" where
  "lt10_000 u out = (let digits = u div 100 in do { out \<leftarrow> put_two digits out; sublt100 digits u out })"

definition sublt10_000 :: "u32 \<Rightarrow> u32 \<Rightarrow> byte list \<Rightarrow> byte list option" where
  "sublt10_000 digits u out = lt10_000 (u - digits * 10000) out"

definition lt1_000_000 :: "u32 \<Rightarrow> byte list \<Rightarrow> byte list option" where
  "lt1_000_000 u out = (let digits = u div 10000 in do { out \<leftarrow> put_two digits out; sublt10_000 digits u out })"

definition sublt1_000_000 :: "u32 \<Rightarrow> u32 \<Rightarrow> byte list \<Rightarrow> byte list option" where
  "sublt1_000_000 digits u out = lt1_000_000 (u - digits * 1000000) out"

definition lt100_000_000 :: "u32 \<Rightarrow> byte list \<Rightarrow> byte list option" where
  "lt100_000_000 u out = (let digits = u div 1000000 in do { out \<leftarrow> put_two digits out; sublt1_000_000 digits u out })"

definition sublt100_000_000 :: "u32 \<Rightarrow> u32 \<Rightarrow> byte list \<Rightarrow> byte list option" where
  "sublt100_000_000 digits u out = lt100_000_000 (u - digits * 100000000) out"

definition FastUInt32ToBufferLeft :: "u32 \<Rightarrow> byte list \<Rightarrow> byte list option" where
  "FastUInt32ToBufferLeft u out =
     (if u \<ge> 1000000000 then
        let digits = u div 100000000 in do { out \<leftarrow> put_two digits out; sublt100_000_000 digits u out }
      else if u < 100 then
        if u \<ge> 10 then lt100 u out else Some (put_one u out)
      else if u < 10000 then
        if u \<ge> 1000 then lt10_000 u out
        else let digits = u div 100 in sublt100 digits u (put_one digits out)
      else if u < 1000000 then
        if u \<ge> 100000 then lt1_000_000 u out
        else let digits = u div 10000 in sublt10_000 digits u (put_one digits out)
      else if u < 100000000 then
        if u \<ge> 10000000 then lt100_000_000 u out
        else let digits = u div 1000000 in sublt1_000_000 digits u (put_one digits out)
      else let digits = u div 100000000 in sublt100_000_000 digits u (put_one digits out))"

definition FastInt32ToBufferLeft :: "i32 \<Rightarrow> byte list option" where
  \<comment> \<open>\<open>u = -i\<close> wraps; for the least number \<open>-i\<close> overflows in \<open>int32\<close>, which is undefined\<close>
  "FastInt32ToBufferLeft i =
     (if s32_neg i then if i = 0x80000000 then None else FastUInt32ToBufferLeft (- i) [0x2D]
      else FastUInt32ToBufferLeft i [])"

definition put_nine :: "u32 \<Rightarrow> byte list \<Rightarrow> byte list option" where
  \<comment> \<open>the last nine digits of a 64-bit number\<close>
  "put_nine u out =
     do { let digits = u div 10000000;
          out \<leftarrow> put_two digits out;
          let u = u - digits * 10000000;
          let digits = u div 100000;
          out \<leftarrow> put_two digits out;
          let u = u - digits * 100000;
          let digits = u div 1000;
          out \<leftarrow> put_two digits out;
          let u = u - digits * 1000;
          let digits = u div 10;
          out \<leftarrow> put_two digits out;
          let u = u - digits * 10;
          Some (put_one u out) }"

function FastUInt64ToBufferLeft :: "u64 \<Rightarrow> byte list \<Rightarrow> byte list option" where
  "FastUInt64ToBufferLeft v out =
     (if ucast (ucast v :: u32) = v then FastUInt32ToBufferLeft (ucast v) out
      else
        do { out \<leftarrow> FastUInt64ToBufferLeft (v div 1000000000) out;
             put_nine (ucast (v - v div 1000000000 * 1000000000)) out })"
  by pat_completeness auto
termination
proof (relation "measure (\<lambda>(v, out). unat v)", goal_cases)
  case (2 v out)
  have "v \<noteq> 0"
  proof
    assume "v = 0"
    then show False using 2 by simp
  qed
  then have "0 < unat v" by (simp add: unat_gt_0)
  then show ?case by (simp add: unat_div)
qed simp

definition FastInt64ToBufferLeft :: "u64 \<Rightarrow> byte list option" where
  "FastInt64ToBufferLeft i =
     (if sint i < 0 then if i = 0x8000000000000000 then None else FastUInt64ToBufferLeft (- i) [0x2D]
      else FastUInt64ToBufferLeft i [])"

definition SimpleItoa_int :: "int \<Rightarrow> byte list option" where
  "SimpleItoa_int i = FastInt32ToBuffer i"

definition SimpleItoa_unsigned :: "u32 \<Rightarrow> byte list option" where
  "SimpleItoa_unsigned i = FastUInt32ToBufferLeft i []"

definition SimpleItoa_long :: "bool \<Rightarrow> int \<Rightarrow> byte list option" where
  \<comment> \<open>the flag is \<open>sizeof(long) == 4\<close>\<close>
  "SimpleItoa_long four i = (if four then FastInt32ToBuffer i else FastInt64ToBuffer i)"

definition SimpleItoa_long_long :: "int \<Rightarrow> byte list option" where
  "SimpleItoa_long_long i = FastInt64ToBuffer i"

definition SimpleItoa_unsigned_long_long :: "u64 \<Rightarrow> byte list option" where
  "SimpleItoa_unsigned_long_long i = FastUInt64ToBufferLeft i []"

subsection \<open>Parsing\<close>

text \<open>\<open>None\<close>: the function returns false.\<close>

definition safe_parse_sign :: "byte list \<Rightarrow> (byte list \<times> bool) option" where
  "safe_parse_sign text =
     (let t = dropWhile (\<lambda>c. c = 0x20) text;
          t = rev (dropWhile (\<lambda>c. c = 0x20) (rev t))
      in case t of
           [] \<Rightarrow> None
         | c # rest \<Rightarrow>
             let negative = (c = 0x2D)
             in if negative \<or> c = 0x2B then (if rest = [] then None else Some (rest, negative))
                else Some (t, negative))"

definition kint32max :: int where "kint32max = 2147483647"
definition kint32min :: int where "kint32min = - 2147483648"

text \<open>
  The digit loops: the result and the value stored. All arithmetic is in \<open>int32\<close>; leaving its
  range is \<open>None\<close>.
\<close>

fun safe_parse_positive_loop :: "int \<Rightarrow> byte list \<Rightarrow> (bool \<times> int) option" where
  "safe_parse_positive_loop v [] = Some (True, v)"
| "safe_parse_positive_loop v (c # text) =
     (let digit = int (unat c) - 0x30 in
      if digit \<ge> 10 \<or> digit < 0 then Some (False, v)
      else if v > kint32max div 10 then Some (False, kint32max)
      else
        do { v \<leftarrow> in_range kint32min kint32max (v * 10);
             bound \<leftarrow> in_range kint32min kint32max (kint32max - digit);
             if v > bound then Some (False, kint32max)
             else do { v \<leftarrow> in_range kint32min kint32max (v + digit); safe_parse_positive_loop v text } })"

definition safe_parse_positive_int :: "byte list \<Rightarrow> (bool \<times> int) option" where
  "safe_parse_positive_int text = safe_parse_positive_loop 0 text"

fun safe_parse_negative_loop :: "int \<Rightarrow> byte list \<Rightarrow> (bool \<times> int) option" where
  \<comment> \<open>\<open>vmin / base\<close> truncates, so \<open>vmin % base\<close> is not positive and \<open>vmin_over_base\<close> stays\<close>
  "safe_parse_negative_loop v [] = Some (True, v)"
| "safe_parse_negative_loop v (c # text) =
     (let digit = int (unat c) - 0x30 in
      if digit \<ge> 10 \<or> digit < 0 then Some (False, v)
      else if v < - (- kint32min div 10) then Some (False, kint32min)
      else
        do { v \<leftarrow> in_range kint32min kint32max (v * 10);
             bound \<leftarrow> in_range kint32min kint32max (kint32min + digit);
             if v < bound then Some (False, kint32min)
             else do { v \<leftarrow> in_range kint32min kint32max (v - digit); safe_parse_negative_loop v text } })"

definition safe_parse_negative_int :: "byte list \<Rightarrow> (bool \<times> int) option" where
  "safe_parse_negative_int text = safe_parse_negative_loop 0 text"

definition safe_int :: "byte list \<Rightarrow> (bool \<times> int) option" where
  "safe_int text =
     (case safe_parse_sign text of
        None \<Rightarrow> Some (False, 0)
      | Some (text, negative) \<Rightarrow>
          if \<not> negative then safe_parse_positive_int text else safe_parse_negative_int text)"

text \<open>
  The adaptors of \<^verbatim>\<open>strtol\<close> and \<^verbatim>\<open>strtoul\<close>: from the result of the library call and the \<open>errno\<close>
  it left (\<open>ERANGE\<close> is true) to the value returned and whether \<open>errno\<close> is then \<open>ERANGE\<close>. \<open>bits\<close> is the
  width of \<open>long\<close>.
\<close>

definition strto32_adaptor :: "nat \<Rightarrow> int \<times> bool \<Rightarrow> int \<times> bool" where
  "strto32_adaptor bits = (\<lambda>(result, erange).
     if erange \<and> result = - (2 ^ (bits - 1)) then (kint32min, True)
     else if erange \<and> result = 2 ^ (bits - 1) - 1 then (kint32max, True)
     else if \<not> erange \<and> result < kint32min then (kint32min, True)
     else if \<not> erange \<and> result > kint32max then (kint32max, True)
     else (sint (word_of_int result :: i32), erange))"

definition strtou32_adaptor :: "nat \<Rightarrow> int \<times> bool \<Rightarrow> int \<times> bool" where
  "strtou32_adaptor bits = (\<lambda>(result, erange).
     if erange \<and> result = 2 ^ bits - 1 then (4294967295, True)
     else if \<not> erange \<and> result > 4294967295 then (4294967295, True)
     else (uint (word_of_int result :: u32), erange))"

end
