(* ===== verification/Strings.thy ===== *)
theory Strings
  imports Escape Decimal
begin

text \<open>
  Searching, splitting and joining of strings in \<^verbatim>\<open>stubs/strutil.{h,cc}\<close> and the substitution of
  arguments in \<^verbatim>\<open>stubs/substitute.{h,cc}\<close>. A \<^verbatim>\<open>std::string\<close> is a list of bytes, a \<^verbatim>\<open>const char*\<close> the
  bytes before its zero byte.
\<close>

subsection \<open>The members of \<^verbatim>\<open>std::string\<close> that are used\<close>

fun find_at :: "(byte list \<Rightarrow> bool) \<Rightarrow> byte list \<Rightarrow> nat option" where
  \<comment> \<open>the first position whose rest of the text satisfies \<open>P\<close>\<close>
  "find_at P [] = (if P [] then Some 0 else None)"
| "find_at P (c # s) = (if P (c # s) then Some 0 else map_option Suc (find_at P s))"

definition find_from :: "(byte list \<Rightarrow> bool) \<Rightarrow> byte list \<Rightarrow> nat \<Rightarrow> nat option" where
  "find_from P s pos = (if pos \<le> length s then map_option ((+) pos) (find_at P (drop pos s)) else None)"

definition string_find :: "byte list \<Rightarrow> byte list \<Rightarrow> nat \<Rightarrow> nat option" where
  "string_find s sub pos = find_from (\<lambda>t. take (length sub) t = sub) s pos"

definition find_first_of :: "byte list \<Rightarrow> byte list \<Rightarrow> nat \<Rightarrow> nat option" where
  "find_first_of s delim pos = find_from (\<lambda>t. t \<noteq> [] \<and> hd t \<in> set delim) s pos"

definition find_first_not_of :: "byte list \<Rightarrow> byte list \<Rightarrow> nat \<Rightarrow> nat option" where
  "find_first_not_of s delim pos = find_from (\<lambda>t. t \<noteq> [] \<and> hd t \<notin> set delim) s pos"

definition substr :: "byte list \<Rightarrow> nat \<Rightarrow> nat \<Rightarrow> byte list" where
  "substr s pos n = take n (drop pos s)"

definition strpbrk :: "byte list \<Rightarrow> nat \<Rightarrow> byte list \<Rightarrow> nat option" where
  \<comment> \<open>from the position \<open>pos\<close> of a C string\<close>
  "strpbrk s pos accept = map_option ((+) pos) (find_first_of (c_string (drop pos s)) accept 0)"

lemma find_at_Some:
  "find_at P s = Some i \<Longrightarrow> i \<le> length s \<and> P (drop i s) \<and> (\<forall>j < i. \<not> P (drop j s))"
proof (induction s arbitrary: i)
  case (Cons c s)
  show ?case
  proof (cases "P (c # s)")
    case False
    then obtain j where "find_at P s = Some j" "i = Suc j" using Cons.prems by auto
    then show ?thesis using Cons.IH [of j] False by (auto simp: less_Suc_eq_0_disj)
  qed (use Cons.prems in simp)
qed (simp split: if_splits)

lemma find_at_None: "find_at P s = None \<Longrightarrow> i \<le> length s \<Longrightarrow> \<not> P (drop i s)"
proof (induction s arbitrary: i)
  case (Cons c s)
  then show ?case by (cases i) (auto split: if_splits)
qed (simp split: if_splits)

lemma find_from_Some:
  assumes "find_from P s pos = Some i"
  shows "pos \<le> i" "i \<le> length s" "P (drop i s)" "pos \<le> j \<Longrightarrow> j < i \<Longrightarrow> \<not> P (drop j s)"
proof -
  obtain n where n: "find_at P (drop pos s) = Some n" "i = pos + n" "pos \<le> length s"
    using assms by (auto simp: find_from_def split: if_splits)
  note f = find_at_Some [OF n(1)]
  show "pos \<le> i" "i \<le> length s" "P (drop i s)" using f n by (auto simp: add.commute)
  show "\<not> P (drop j s)" if "pos \<le> j" "j < i"
  proof -
    have "j - pos < n" "drop (j - pos) (drop pos s) = drop j s" using that n(2) by auto
    then show ?thesis using f by metis
  qed
qed

lemma find_from_None:
  assumes "find_from P s pos = None" "pos \<le> i" "i \<le> length s"
  shows "\<not> P (drop i s)"
proof -
  have "find_at P (drop pos s) = None" using assms by (auto simp: find_from_def split: if_splits)
  from find_at_None [OF this, of "i - pos"] show ?thesis using assms(2,3) by simp
qed

subsection \<open>Prefixes, suffixes and letters\<close>

definition HasPrefixString :: "byte list \<Rightarrow> byte list \<Rightarrow> bool" where
  "HasPrefixString str prefix \<longleftrightarrow> length str \<ge> length prefix \<and> substr str 0 (length prefix) = prefix"

definition StripPrefixString :: "byte list \<Rightarrow> byte list \<Rightarrow> byte list" where
  "StripPrefixString str prefix = (if HasPrefixString str prefix then drop (length prefix) str else str)"

definition HasSuffixString :: "byte list \<Rightarrow> byte list \<Rightarrow> bool" where
  "HasSuffixString str suffix \<longleftrightarrow>
     length str \<ge> length suffix \<and> substr str (length str - length suffix) (length suffix) = suffix"

definition StripSuffixString :: "byte list \<Rightarrow> byte list \<Rightarrow> byte list" where
  "StripSuffixString str suffix =
     (if HasSuffixString str suffix then substr str 0 (length str - length suffix) else str)"

definition ascii_isalnum :: "byte \<Rightarrow> bool" where
  "ascii_isalnum c \<longleftrightarrow> (0x61 \<le> c \<and> c \<le> 0x7A) \<or> (0x41 \<le> c \<and> c \<le> 0x5A) \<or> (0x30 \<le> c \<and> c \<le> 0x39)"

definition ascii_isdigit :: "byte \<Rightarrow> bool" where
  "ascii_isdigit c \<longleftrightarrow> 0x30 \<le> c \<and> c \<le> 0x39"

definition LowerString :: "byte list \<Rightarrow> byte list" where
  "LowerString s = map (\<lambda>c. if 0x41 \<le> c \<and> c \<le> 0x5A then c + 0x20 else c) s"

definition UpperString :: "byte list \<Rightarrow> byte list" where
  "UpperString s = map (\<lambda>c. if 0x61 \<le> c \<and> c \<le> 0x7A then c - 0x20 else c) s"

definition ToUpper :: "byte list \<Rightarrow> byte list" where
  "ToUpper s = UpperString s"

subsection \<open>Replacing\<close>

function StripString_loop :: "byte list \<Rightarrow> byte \<Rightarrow> byte list \<Rightarrow> nat option \<Rightarrow> byte list" where
  "StripString_loop remove replacewith s None = s"
| "StripString_loop remove replacewith s (Some i) =
     (if i < length s then
        let s = s[i := replacewith] in StripString_loop remove replacewith s (strpbrk s (i + 1) remove)
      else s)"
  by pat_completeness auto
termination
  by (relation "measure (\<lambda>(r, w, s, i). case i of None \<Rightarrow> 0 | Some i \<Rightarrow> Suc (length s) - i)")
    (auto simp: strpbrk_def split: option.splits)

definition StripString :: "byte list \<Rightarrow> byte list \<Rightarrow> byte \<Rightarrow> byte list" where
  "StripString s remove replacewith = StripString_loop remove replacewith s (strpbrk s 0 remove)"

function StringReplace_loop :: "byte list \<Rightarrow> byte list \<Rightarrow> byte list \<Rightarrow> bool \<Rightarrow> nat \<Rightarrow> byte list \<Rightarrow> nat \<times> byte list" where
  \<comment> \<open>the \<^verbatim>\<open>do\<close> loop, for a pattern that is not empty: \<open>start_pos\<close> and \<open>res\<close> when it ends\<close>
  "StringReplace_loop s oldsub newsub replace_all start_pos res =
     (case string_find s oldsub start_pos of
        None \<Rightarrow> (start_pos, res)
      | Some pos \<Rightarrow>
          if oldsub = [] then (start_pos, res)
          else
            let res = res @ substr s start_pos (pos - start_pos);
                res = res @ newsub;
                start_pos = pos + length oldsub
            in if replace_all then StringReplace_loop s oldsub newsub replace_all start_pos res
               else (start_pos, res))"
  by pat_completeness auto
termination
proof (relation "measure (\<lambda>(s, old, new, all, start, res). Suc (length s) - start)", simp, goal_cases)
  case (1 s old new all start res pos x xa xb)
  then have "start \<le> pos" "pos \<le> length s" using find_from_Some(1,2) [of _ s start pos] by (auto simp: string_find_def)
  moreover have "0 < length old" using 1 by simp
  ultimately have "Suc (length s) - (pos + length old) < Suc (length s) - start" by linarith
  then show ?case using 1 by simp
qed

definition StringReplace_append :: "byte list \<Rightarrow> byte list \<Rightarrow> byte list \<Rightarrow> bool \<Rightarrow> byte list \<Rightarrow> byte list" where
  "StringReplace_append s oldsub newsub replace_all res =
     (if oldsub = [] then res @ s
      else let (start_pos, res) = StringReplace_loop s oldsub newsub replace_all 0 res
           in res @ substr s start_pos (length s - start_pos))"

definition StringReplace :: "byte list \<Rightarrow> byte list \<Rightarrow> byte list \<Rightarrow> bool \<Rightarrow> byte list" where
  "StringReplace s oldsub newsub replace_all = StringReplace_append s oldsub newsub replace_all []"

subsection \<open>Splitting and joining\<close>

fun while_not :: "byte \<Rightarrow> byte list \<Rightarrow> byte list \<times> byte list" where
  \<comment> \<open>\<^verbatim>\<open>while (++p != end && *p != c)\<close>, from behind \<open>start\<close>: the bytes passed and the rest\<close>
  "while_not c [] = ([], [])"
| "while_not c (d # p) = (if d \<noteq> c then let (word, rest) = while_not c p in (d # word, rest) else ([], d # p))"

lemma while_not_shorter: "(word, rest) = while_not c p \<Longrightarrow> length rest \<le> length p"
  by (induction c p arbitrary: word rest rule: while_not.induct) (auto split: prod.splits if_splits intro: le_SucI)

function split_single :: "byte \<Rightarrow> byte list \<Rightarrow> byte list list" where
  \<comment> \<open>the optimised path for a delimiter of one character\<close>
  "split_single c [] = []"
| "split_single c (d # p) =
     (if d = c then split_single c p
      else let (word, rest) = while_not c p in (d # word) # split_single c rest)"
  by pat_completeness auto
termination by (relation "measure (length \<circ> snd)") (auto dest!: while_not_shorter)

function split_any :: "byte list \<Rightarrow> byte list \<Rightarrow> nat option \<Rightarrow> byte list list" where
  \<comment> \<open>the loop over \<open>begin_index\<close>\<close>
  "split_any full delim None = []"
| "split_any full delim (Some begin_index) =
     (case find_first_of full delim begin_index of
        None \<Rightarrow> [drop begin_index full]
      | Some end_index \<Rightarrow>
          substr full begin_index (end_index - begin_index) #
          split_any full delim (find_first_not_of full delim end_index))"
  by pat_completeness auto
termination
proof (relation "measure (\<lambda>(full, delim, b). case b of None \<Rightarrow> 0 | Some b \<Rightarrow> Suc (length full) - b)", simp, goal_cases)
  case (1 full delim b e)
  show ?case
  proof (cases "find_first_not_of full delim e")
    case (Some b')
    note f = find_from_Some [OF 1 [unfolded find_first_of_def]]
      and n = find_from_Some [OF Some [unfolded find_first_not_of_def]]
    have "b' \<noteq> e" using f(3) n(3) by auto
    moreover have "b' < length full" using n(3) by (metis drop_all not_le)
    ultimately show ?thesis using f(1) n(1) Some by simp
  next
    case None
    then show ?thesis
      using find_from_Some [OF 1 [unfolded find_first_of_def]] by simp
  qed
qed

definition SplitStringUsing :: "byte list \<Rightarrow> byte list \<Rightarrow> byte list list" where
  "SplitStringUsing full delim =
     (if length delim = 1 then split_single (delim ! 0) full
      else split_any full delim (find_first_not_of full delim 0))"

function SplitStringToIteratorAllowEmpty :: "byte list \<Rightarrow> byte list \<Rightarrow> int \<Rightarrow> int \<Rightarrow> nat \<Rightarrow> byte list list" where
  \<comment> \<open>the \<^verbatim>\<open>for\<close> loop with its counter \<open>i\<close>\<close>
  "SplitStringToIteratorAllowEmpty full delim pieces i begin_index =
     (if i < pieces - 1 \<or> pieces = 0 then
        case find_first_of full delim begin_index of
          None \<Rightarrow> [drop begin_index full]
        | Some end_index \<Rightarrow>
            substr full begin_index (end_index - begin_index) #
            SplitStringToIteratorAllowEmpty full delim pieces (i + 1) (end_index + 1)
      else [drop begin_index full])"
  by pat_completeness auto
termination
proof (relation "measure (\<lambda>(full, delim, pieces, i, b). Suc (length full) - b)", simp, goal_cases)
  case (1 full delim pieces i b e)
  then show ?case using find_from_Some(1,2) [of _ full b e] unfolding find_first_of_def by fastforce
qed

definition SplitStringAllowEmpty :: "byte list \<Rightarrow> byte list \<Rightarrow> byte list list" where
  "SplitStringAllowEmpty full delim = SplitStringToIteratorAllowEmpty full delim 0 0 0"

definition Split :: "byte list \<Rightarrow> byte list \<Rightarrow> bool \<Rightarrow> byte list list" where
  "Split full delim skip_empty =
     (if skip_empty then SplitStringUsing full delim else SplitStringAllowEmpty full delim)"

fun join_from :: "bool \<Rightarrow> byte list list \<Rightarrow> byte list \<Rightarrow> byte list \<Rightarrow> byte list" where
  \<comment> \<open>the second loop; the first argument is \<^verbatim>\<open>iter == start\<close>\<close>
  "join_from first [] delim result = result"
| "join_from first (component # components) delim result =
     (let result = (if \<not> first then result @ delim else result)
      in join_from False components delim (result @ component))"

definition JoinStrings :: "byte list list \<Rightarrow> byte list \<Rightarrow> byte list" where
  "JoinStrings components delim = join_from True components delim []"

subsection \<open>Substituting\<close>

type_synonym SubstituteArg = "byte list option" \<comment> \<open>\<open>None\<close> is an argument that was not given, of size \<open>- 1\<close>\<close>

definition SubstituteArg_string :: "byte list \<Rightarrow> SubstituteArg" where
  "SubstituteArg_string value = Some value"

definition SubstituteArg_char :: "byte \<Rightarrow> SubstituteArg" where
  "SubstituteArg_char value = Some [value]"

definition SubstituteArg_int :: "int \<Rightarrow> SubstituteArg option" where
  "SubstituteArg_int value = map_option Some (FastInt32ToBuffer value)"

definition SubstituteArg_bool :: "bool \<Rightarrow> SubstituteArg" where
  "SubstituteArg_bool value = Some (if value then [0x74, 0x72, 0x75, 0x65] else [0x66, 0x61, 0x6C, 0x73, 0x65])"

fun CountSubstituteArgs :: "SubstituteArg list \<Rightarrow> int" where
  "CountSubstituteArgs [] = 0"
| "CountSubstituteArgs (arg # args_array) = (if arg \<noteq> None then 1 + CountSubstituteArgs args_array else 0)"

text \<open>
  The first pass: the size of the result, \<open>Some None\<close> for a wrong format (which is logged), \<open>None\<close> if
  the size leaves \<open>int\<close>.
\<close>

fun substitute_size :: "SubstituteArg list \<Rightarrow> int \<Rightarrow> byte list \<Rightarrow> int option option" where
  "substitute_size args_array size_so_far [] = Some (Some size_so_far)"
| "substitute_size args_array size_so_far [c] =
     (if c = 0x24 then Some None
      else do { n \<leftarrow> in_range 0 INT_MAX (size_so_far + 1); Some (Some n) })"
| "substitute_size args_array size_so_far (c # d # format) =
     (if c = 0x24 then
        if ascii_isdigit d then
          case args_array ! unat (d - 0x30) of
            None \<Rightarrow> Some None
          | Some text \<Rightarrow>
              do { n \<leftarrow> in_range 0 INT_MAX (size_so_far + int (length text)); substitute_size args_array n format }
        else if d = 0x24 then
          do { n \<leftarrow> in_range 0 INT_MAX (size_so_far + 1); substitute_size args_array n format }
        else Some None
      else do { n \<leftarrow> in_range 0 INT_MAX (size_so_far + 1); substitute_size args_array n (d # format) })"

text \<open>The second pass writes through \<open>target\<close>; \<open>limit\<close> is the size that the output was given.\<close>

fun substitute_build :: "SubstituteArg list \<Rightarrow> int \<Rightarrow> byte list \<Rightarrow> byte list \<Rightarrow> byte list option" where
  "substitute_build args_array limit target [] = Some target"
| "substitute_build args_array limit target [c] =
     (if c = 0x24 then Some target else store_at_end target limit [c])"
| "substitute_build args_array limit target (c # d # format) =
     (if c = 0x24 then
        if ascii_isdigit d then
          do { text \<leftarrow> args_array ! unat (d - 0x30);
               target \<leftarrow> store_at_end target limit text;
               substitute_build args_array limit target format }
        else if d = 0x24 then
          do { target \<leftarrow> store_at_end target limit [0x24]; substitute_build args_array limit target format }
        else substitute_build args_array limit target (d # format)
      else do { target \<leftarrow> store_at_end target limit [c]; substitute_build args_array limit target (d # format) })"

definition SubstituteAndAppend :: "byte list \<Rightarrow> byte list \<Rightarrow> SubstituteArg list \<Rightarrow> byte list option" where
  \<comment> \<open>for the array of ten arguments\<close>
  "SubstituteAndAppend output format args_array =
     do { n \<leftarrow> substitute_size args_array 0 format;
          case n of
            None \<Rightarrow> Some output
          | Some n \<Rightarrow>
              if n = 0 then Some output
              else do { let limit = int (length output) + n;
                        target \<leftarrow> substitute_build args_array limit output format;
                        if int (length target) = limit then Some target else None } }"

definition Substitute :: "byte list \<Rightarrow> SubstituteArg list \<Rightarrow> byte list option" where
  "Substitute format args_array = SubstituteAndAppend [] format args_array"

end
