(* ===== verification/DecimalLaws.thy ===== *)
theory DecimalLaws
  imports Decimal
begin

text \<open>
  The conversions of \<open>Decimal\<close> against one reference: \<open>nat_text\<close>, the decimal numeral of a number.
\<close>

subsection \<open>Numerals\<close>

fun nat_text :: "nat \<Rightarrow> byte list" where
  "nat_text n = (if n < 10 then [] else nat_text (n div 10)) @ [of_nat (0x30 + n mod 10)]"

definition int_text :: "int \<Rightarrow> byte list" where
  "int_text i = (if i < 0 then 0x2D # nat_text (nat (- i)) else nat_text (nat i))"

declare nat_text.simps [simp del]

lemma nat_text_small: "n < 10 \<Longrightarrow> nat_text n = [of_nat (0x30 + n)]"
  by (subst nat_text.simps) simp

lemma nat_text_big: "\<not> n < 10 \<Longrightarrow> nat_text n = nat_text (n div 10) @ [of_nat (0x30 + n mod 10)]"
  by (subst nat_text.simps) simp

lemma nat_text_length: "n < 10 ^ k \<Longrightarrow> 0 < k \<Longrightarrow> length (nat_text n) \<le> k"
proof (induction n arbitrary: k rule: nat_text.induct)
  case (1 n)
  show ?case
  proof (cases "n < 10")
    case True
    then show ?thesis using 1(3) by (simp add: nat_text_small)
  next
    case False
    then obtain j where j: "k = Suc j" "0 < j" using 1(2,3) by (cases k; cases "k - 1") auto
    then have "n div 10 < 10 ^ j" using 1(2) by (simp add: less_mult_imp_div_less mult.commute)
    then show ?thesis using 1(1) [of j] False j by (simp add: nat_text_big)
  qed
qed

lemma nat_text_not_Nil [simp]: "nat_text n \<noteq> []"
  by (subst nat_text.simps) simp

fun pad :: "nat \<Rightarrow> nat \<Rightarrow> byte list" where
  \<comment> \<open>exactly \<open>k\<close> digits\<close>
  "pad 0 n = []"
| "pad (Suc k) n = pad k (n div 10) @ [of_nat (0x30 + n mod 10)]"

lemma pad_mod: "pad k (n mod 10 ^ k) = pad k n"
proof (induction k arbitrary: n)
  case (Suc k)
  have "n mod 10 ^ Suc k div 10 = n div 10 mod 10 ^ k" by (simp add: mod_mult2_eq)
  moreover have "n mod 10 ^ Suc k mod 10 = n mod 10" by (simp add: mod_mod_cancel)
  ultimately show ?case using Suc [of "n div 10"] by simp
qed simp

lemma pad_add: "pad (j + k) n = pad j (n div 10 ^ k) @ pad k n"
  by (induction k arbitrary: n) (simp_all add: div_mult2_eq)

lemma nat_text_pad:
  assumes "10 ^ k \<le> n"
  shows "nat_text n = nat_text (n div 10 ^ k) @ pad k n"
  using assms
proof (induction k arbitrary: n)
  case (Suc k)
  then have "10 \<le> n" using power_increasing [of 1 "Suc k" "10 :: nat"] by (metis One_nat_def Suc_le_mono
      le_trans one_le_numeral power_one_right zero_le)
  moreover have "10 ^ k \<le> n div 10" using Suc.prems by (simp add: less_eq_div_iff_mult_less_eq mult.commute)
  ultimately show ?case using Suc.IH [of "n div 10"] by (simp add: nat_text_big div_mult2_eq)
qed simp

subsection \<open>Writing from the right\<close>

lemma put_left_Some [simp]: "0 \<le> p \<Longrightarrow> put_left b (p, st) = Some (p - 1, b # st)"
  by (simp add: put_left_def)

lemma digit_char_nat: "digit_char (int d) = of_nat (0x30 + d)"
  by (simp add: digit_char_def)

lemma digits_left_text:
  "int (length (nat_text n)) \<le> p + 1
     \<Longrightarrow> digits_left (int n) (p, st) = Some (p - int (length (nat_text n)), nat_text n @ st)"
proof (induction n arbitrary: p st rule: nat_text.induct)
  case (1 n)
  have d: "int n div 10 = int (n div 10)" "int n mod 10 = int (n mod 10)" by (simp_all add: zdiv_int zmod_int)
  show ?case
  proof (cases "n < 10")
    case True
    then show ?thesis using 1(2) d digit_char_nat [of n]
      by (subst digits_left.simps) (simp add: nat_text_small)
  next
    case False
    then have p: "0 \<le> p" "int (length (nat_text (n div 10))) \<le> p - 1 + 1" "n div 10 > 0"
      using 1(2) by (simp_all add: nat_text_big)
    show ?thesis
      using False p 1(1) [OF False p(2)]
      by (subst digits_left.simps) (simp add: d digit_char_nat nat_text_big)
  qed
qed

lemma negative_digits:
  assumes "10 \<le> n"
  shows "nat_text n = nat_text ((n - 10) div 10 + 1) @ [digit_char (int ((n - 10) mod 10))]"
proof -
  have "n div 10 = (n - 10) div 10 + 1" "n mod 10 = (n - 10) mod 10"
    using assms le_div_geq [of 10 n] le_mod_geq [of 10 n] by simp_all
  then show ?thesis using assms nat_text_big [of n] by (simp add: digit_char_nat)
qed

lemma small_text:
  assumes "i < 0" "- 10 < i"
  shows "int_text i = [0x2D, digit_char (- i)]"
proof -
  define n where "n = nat (- i)"
  have "i = - int n" "0 < n" "n < 10" using assms by (auto simp: n_def)
  then show ?thesis by (simp add: int_text_def nat_text_small digit_char_nat)
qed

lemma big_negative:
  assumes "lo \<le> - int (j + 10)" "int j \<le> hi" "0 \<le> hi" "length (nat_text (j + 10)) \<le> k"
  shows "do { i \<leftarrow> in_range lo hi (- int (j + 10) + 10);
              i \<leftarrow> in_range lo hi (- i);
              w \<leftarrow> put_left (digit_char (i mod 10)) (int k, []);
              w \<leftarrow> digits_left (i div 10 + 1) w;
              (p, stored) \<leftarrow> put_left 0x2D w;
              Some stored } = Some (0x2D # nat_text (j + 10))"
proof -
  have t: "nat_text (j + 10) = nat_text (j div 10 + 1) @ [digit_char (int (j mod 10))]"
    using negative_digits [of "j + 10"] by simp
  have d: "int j mod 10 = int (j mod 10)" "int j div 10 + 1 = int (j div 10 + 1)"
    by (simp_all add: zdiv_int zmod_int)
  have "digits_left (int (j div 10 + 1)) (int k - 1, [digit_char (int (j mod 10))])
      = Some (int k - 1 - int (length (nat_text (j div 10 + 1))), nat_text (j + 10))"
    using digits_left_text [of "j div 10 + 1" "int k - 1"] assms(4) t by simp
  moreover have "length (nat_text (j div 10 + 1)) \<le> k - 1" "0 < k" using assms(4) t by auto
  moreover have "in_range lo hi (- int (j + 10) + 10) = Some (- int j)" "in_range lo hi (- (- int j)) = Some (int j)"
    using assms(1-3) by (auto simp: in_range_def)
  ultimately show ?thesis by (simp only: Option.bind.bind_lunit d) simp
qed

lemma int_text_cases:
  obtains n where "i = int n" | "- 10 < i" "i < 0" | j where "i = - int (j + 10)"
proof (cases i rule: int_cases2)
  case (nonpos n)
  show thesis
  proof (cases "n < 10")
    case True
    then show thesis using nonpos that(1) [of 0] that(2) by (cases "n = 0") auto
  next
    case False
    then show thesis using nonpos that(3) [of "n - 10"] by simp
  qed
qed (rule that(1))

lemma FastInt32ToBuffer_text:
  assumes "- (2 ^ 31) \<le> i" "i < 2 ^ 31"
  shows "FastInt32ToBuffer i = Some (int_text i)"
proof -
  have len: "length (nat_text n) \<le> 10" if "int n \<le> 2 ^ 31" for n
    using that by (intro nat_text_length) simp_all
  show ?thesis
  proof (cases i rule: int_text_cases)
    case (1 n)
    then show ?thesis using assms len [of n] digits_left_text [of n 10 "[]"]
      by (simp add: FastInt32ToBuffer_def int_text_def del: digits_left.simps)
  next
    case 2
    then show ?thesis using small_text by (simp add: FastInt32ToBuffer_def in_range_def)
  next
    case (3 j)
    have "\<not> 0 \<le> i" "\<not> - 10 < i" using 3 by simp_all
    then show ?thesis
      using big_negative [of "- (2 ^ 31)" j "2 ^ 31 - 1" 10] assms 3 len [of "j + 10"]
      unfolding FastInt32ToBuffer_def Let_def by (simp add: int_text_def nat_add_distrib add.commute [of 10 j] del: digits_left.simps)
  qed
qed

lemma FastInt64ToBuffer_text:
  assumes "- (2 ^ 63) \<le> i" "i < 2 ^ 63"
  shows "FastInt64ToBuffer i = Some (int_text i)"
proof -
  have len: "length (nat_text n) \<le> 19" if "int n \<le> 2 ^ 63" for n
    using that by (intro nat_text_length) simp_all
  show ?thesis
  proof (cases i rule: int_text_cases)
    case (1 n)
    then show ?thesis using assms len [of n] digits_left_text [of n 20 "[]"]
      by (simp add: FastInt64ToBuffer_def int_text_def del: digits_left.simps)
  next
    case 2
    then show ?thesis using small_text by (simp add: FastInt64ToBuffer_def in_range_def)
  next
    case (3 j)
    have "\<not> 0 \<le> i" "\<not> - 10 < i" using 3 by simp_all
    then show ?thesis
      using big_negative [of "- (2 ^ 63)" j "2 ^ 63 - 1" 20] assms 3 len [of "j + 10"]
      unfolding FastInt64ToBuffer_def Let_def by (simp add: int_text_def nat_add_distrib add.commute [of 10 j] del: digits_left.simps)
  qed
qed


subsection \<open>Writing to the left\<close>

lemma nat_text_exact:
  assumes "10 ^ k \<le> n" "n < 10 ^ Suc k"
  shows "nat_text n = pad (Suc k) n"
proof -
  have "n div 10 ^ k < 10" using assms(2) by (simp add: less_mult_imp_div_less)
  then show ?thesis using nat_text_pad [OF assms(1)] pad_add [of 1 k n] by (simp add: nat_text_small)
qed

lemma nat_text_pads:
  "10 \<le> n \<Longrightarrow> n < 100 \<Longrightarrow> nat_text n = pad 2 n"
  "1000 \<le> n \<Longrightarrow> n < 10000 \<Longrightarrow> nat_text n = pad 4 n"
  "100000 \<le> n \<Longrightarrow> n < 1000000 \<Longrightarrow> nat_text n = pad 6 n"
  "10000000 \<le> n \<Longrightarrow> n < 100000000 \<Longrightarrow> nat_text n = pad 8 n"
  using nat_text_exact [of 1 n] nat_text_exact [of 3 n] nat_text_exact [of 5 n] nat_text_exact [of 7 n]
  by (simp_all add: numeral_2_eq_2 del: pad.simps)

lemma put_two_pad:
  assumes "unat d < 100"
  shows "put_two d out = Some (out @ pad 2 (unat d))"
proof -
  have "list_all (\<lambda>n. two_ASCII_digits ! n = pad 2 n) [0..<100] \<and> length two_ASCII_digits = 100" by code_simp
  then show ?thesis using assms by (auto simp: put_two_def list_all_iff)
qed

lemma put_one_text: "unat d < 10 \<Longrightarrow> put_one d out = out @ nat_text (unat d)"
  by (simp add: put_one_def nat_text_small)

lemma word_sub_div: "(u :: 'a :: len word) - u div m * m = u mod m"
  by (rule minus_div_mult_eq_mod)

lemma pad_two_more:
  assumes "unat u < 10 ^ (2 + k)" "unat m = 10 ^ k"
  shows "unat (u div m) < 100" "unat (u mod m) < 10 ^ k"
    "pad 2 (unat (u div m)) @ pad k (unat (u mod m)) = pad (2 + k) (unat u)"
proof -
  show "unat (u div m) < 100" using assms by (simp add: unat_div less_mult_imp_div_less)
  show "unat (u mod m) < 10 ^ k" using assms(2) by (simp add: unat_mod)
  show "pad 2 (unat (u div m)) @ pad k (unat (u mod m)) = pad (2 + k) (unat u)"
    using assms(2) pad_add [of 2 k "unat u"] by (simp add: unat_div unat_mod pad_mod)
qed

lemma lt100_pad: "unat u < 10 ^ 2 \<Longrightarrow> lt100 u out = Some (out @ pad 2 (unat u))"
  by (simp add: lt100_def put_two_pad)

lemma lt10_000_pad: "unat u < 10 ^ 4 \<Longrightarrow> lt10_000 u out = Some (out @ pad 4 (unat u))"
  using pad_two_more [of u 2 100]
  by (simp add: lt10_000_def sublt100_def word_sub_div put_two_pad lt100_pad del: pad.simps)

lemma lt1_000_000_pad: "unat u < 10 ^ 6 \<Longrightarrow> lt1_000_000 u out = Some (out @ pad 6 (unat u))"
  using pad_two_more [of u 4 10000]
  by (simp add: lt1_000_000_def sublt10_000_def word_sub_div put_two_pad lt10_000_pad del: pad.simps)

lemma lt100_000_000_pad: "unat u < 10 ^ 8 \<Longrightarrow> lt100_000_000 u out = Some (out @ pad 8 (unat u))"
  using pad_two_more [of u 6 1000000]
  by (simp add: lt100_000_000_def sublt1_000_000_def word_sub_div put_two_pad lt1_000_000_pad del: pad.simps)

lemma one_then_pad:
  assumes "10 ^ k \<le> unat u" "unat u < 10 ^ Suc k" "unat m = 10 ^ k"
  shows "unat (u div m) < 10" "unat (u mod m) < 10 ^ k"
    "nat_text (unat (u div m)) @ pad k (unat (u mod m)) = nat_text (unat u)"
proof -
  show "unat (u div m) < 10" using assms by (simp add: unat_div less_mult_imp_div_less)
  show "unat (u mod m) < 10 ^ k" using assms(3) by (simp add: unat_mod)
  show "nat_text (unat (u div m)) @ pad k (unat (u mod m)) = nat_text (unat u)"
    using assms(3) nat_text_pad [OF assms(1)] by (simp add: unat_div unat_mod pad_mod)
qed

lemma FastUInt32ToBufferLeft_text: "FastUInt32ToBufferLeft u out = Some (out @ nat_text (unat u))"
proof -
  note w = word_le_nat_alt word_less_nat_alt
  consider "unat u < 10" | "10 \<le> unat u" "unat u < 100" | "100 \<le> unat u" "unat u < 1000"
    | "1000 \<le> unat u" "unat u < 10000" | "10000 \<le> unat u" "unat u < 100000"
    | "100000 \<le> unat u" "unat u < 1000000" | "1000000 \<le> unat u" "unat u < 10000000"
    | "10000000 \<le> unat u" "unat u < 100000000" | "100000000 \<le> unat u" "unat u < 1000000000"
    | "1000000000 \<le> unat u" by linarith
  then show ?thesis
  proof cases
    case 1 then show ?thesis by (simp add: FastUInt32ToBufferLeft_def w put_one_text)
  next
    case 2 then show ?thesis by (simp add: FastUInt32ToBufferLeft_def w lt100_pad nat_text_pads del: pad.simps)
  next
    case 3 then show ?thesis using one_then_pad [of 2 u 100]
      by (simp add: FastUInt32ToBufferLeft_def w sublt100_def word_sub_div put_one_text lt100_pad del: pad.simps)
  next
    case 4 then show ?thesis by (simp add: FastUInt32ToBufferLeft_def w lt10_000_pad nat_text_pads del: pad.simps)
  next
    case 5 then show ?thesis using one_then_pad [of 4 u 10000]
      by (simp add: FastUInt32ToBufferLeft_def w sublt10_000_def word_sub_div put_one_text lt10_000_pad del: pad.simps)
  next
    case 6 then show ?thesis by (simp add: FastUInt32ToBufferLeft_def w lt1_000_000_pad nat_text_pads del: pad.simps)
  next
    case 7 then show ?thesis using one_then_pad [of 6 u 1000000]
      by (simp add: FastUInt32ToBufferLeft_def w sublt1_000_000_def word_sub_div put_one_text lt1_000_000_pad del: pad.simps)
  next
    case 8 then show ?thesis by (simp add: FastUInt32ToBufferLeft_def w lt100_000_000_pad nat_text_pads del: pad.simps)
  next
    case 9 then show ?thesis using one_then_pad [of 8 u 100000000]
      by (simp add: FastUInt32ToBufferLeft_def w sublt100_000_000_def word_sub_div put_one_text lt100_000_000_pad del: pad.simps)
  next
    case 10
    have d: "10 \<le> unat (u div 100000000)" "unat (u div 100000000) < 100" "unat (u mod 100000000) < 10 ^ 8"
      using 10 u32_lt_2p32 [of u] by (simp_all add: unat_div unat_mod)
    have "nat_text (unat u) = pad 2 (unat (u div 100000000)) @ pad 8 (unat (u mod 100000000))"
      using nat_text_pad [of 8 "unat u"] nat_text_pads(1) [of "unat (u div 100000000)"] d 10 pad_mod [of 8 "unat u"]
      by (simp add: unat_div unat_mod del: pad.simps)
    then show ?thesis using 10 d
      by (simp add: FastUInt32ToBufferLeft_def w sublt100_000_000_def word_sub_div put_two_pad lt100_000_000_pad del: pad.simps)
  qed
qed

lemma put_nine_pad:
  assumes "unat u < 10 ^ 9"
  shows "put_nine u out = Some (out @ pad 9 (unat u))"
proof -
  define u1 u2 u3 u4 where "u1 = u mod 10000000" and "u2 = u1 mod 100000" and "u3 = u2 mod 1000" and "u4 = u3 mod 10"
  note p1 = pad_two_more [of u 7 10000000] and p2 = pad_two_more [of u1 5 100000]
    and p3 = pad_two_more [of u2 3 1000] and p4 = pad_two_more [of u3 1 10]
  have n: "unat u1 < 10 ^ 7" "unat u2 < 10 ^ 5" "unat u3 < 10 ^ 3" "unat u4 < 10"
    by (simp_all add: u1_def u2_def u3_def u4_def unat_mod)
  have "pad 9 (unat u) = pad 2 (unat (u div 10000000)) @ pad 2 (unat (u1 div 100000)) @ pad 2 (unat (u2 div 1000))
      @ pad 2 (unat (u3 div 10)) @ pad 1 (unat u4)"
    using p1(3) p2(3) p3(3) p4(3) assms n unfolding u1_def [symmetric] u2_def [symmetric] u3_def [symmetric] u4_def [symmetric]
    by (simp del: pad.simps)
  moreover have "pad 1 (unat u4) = nat_text (unat u4)" using n(4) by (simp add: nat_text_small)
  ultimately show ?thesis
    using p1(1) p2(1) p3(1) p4(1) assms n
    by (simp add: put_nine_def Let_def word_sub_div put_two_pad put_one_text u1_def [symmetric] u2_def [symmetric]
        u3_def [symmetric] u4_def [symmetric] del: pad.simps)
qed

lemma FastUInt64ToBufferLeft_text: "FastUInt64ToBufferLeft v out = Some (out @ nat_text (unat v))"
proof (induction v out rule: FastUInt64ToBufferLeft.induct)
  case (1 v out)
  show ?case
  proof (cases "ucast (ucast v :: u32) = v")
    case True
    have "unat (ucast v :: u32) = unat v"
      using arg_cong [OF True, of unat] u32_lt_2p32 [of "ucast v"] by (simp add: unsigned_ucast_eq take_bit_eq_mod unat_mod)
    then show ?thesis using True by (subst FastUInt64ToBufferLeft.simps) (simp add: FastUInt32ToBufferLeft_text)
  next
    case False
    have big: "2 ^ 32 \<le> unat v"
    proof (rule ccontr)
      assume "\<not> 2 ^ 32 \<le> unat v"
      then have "unat (ucast (ucast v :: u32) :: u64) = unat v"
        by (simp add: unsigned_ucast_eq take_bit_eq_mod unat_mod)
      then show False using False unsigned_word_eqI by blast
    qed
    let ?r = "ucast (v mod 1000000000) :: u32"
    have r: "unat ?r = unat v mod 10 ^ 9" "unat ?r < 10 ^ 9"
      by (simp_all add: unsigned_ucast_eq take_bit_eq_mod unat_mod)
    have "FastUInt64ToBufferLeft (v div 1000000000) out = Some (out @ nat_text (unat v div 10 ^ 9))"
      using 1 [OF False] by (simp add: unat_div)
    moreover have "nat_text (unat v) = nat_text (unat v div 10 ^ 9) @ pad 9 (unat ?r)"
      using big nat_text_pad [of 9 "unat v"] r(1) pad_mod [of 9 "unat v"] by (simp del: pad.simps)
    ultimately show ?thesis
      using False put_nine_pad [OF r(2)] by (subst FastUInt64ToBufferLeft.simps) (simp add: word_sub_div del: pad.simps)
  qed
qed


subsection \<open>Parsing\<close>

definition is_digit :: "byte \<Rightarrow> bool" where
  "is_digit c \<longleftrightarrow> 0x30 \<le> unat c \<and> unat c \<le> 0x39"

definition digit_of :: "byte \<Rightarrow> int" where
  "digit_of c = int (unat c) - 0x30"

lemma digit_of_digit:
  assumes "is_digit c"
  shows "0 \<le> digit_of c" "digit_of c < 10"
  using assms unfolding is_digit_def digit_of_def by linarith+

fun text_value :: "int \<Rightarrow> byte list \<Rightarrow> int" where
  "text_value v [] = v"
| "text_value v (c # t) = text_value (10 * v + digit_of c) t"

lemma text_value_append: "text_value v (s @ t) = text_value (text_value v s) t"
  by (induction s arbitrary: v) simp_all

lemma text_value_grows: "0 \<le> v \<Longrightarrow> list_all is_digit t \<Longrightarrow> v \<le> text_value v t"
proof (induction t arbitrary: v)
  case (Cons c t)
  have d: "0 \<le> digit_of c" using Cons.prems digit_of_digit by simp
  have "0 \<le> 10 * v + digit_of c" "v \<le> 10 * v + digit_of c"
    using Cons.prems(1) d by linarith+
  then show ?case using Cons.IH [of "10 * v + digit_of c"] Cons.prems by simp
qed simp

text \<open>One round of each loop on a digit: the two guards come to the one comparison they stand for.\<close>

lemma positive_round:
  assumes "is_digit c" "0 \<le> v" "v \<le> kint32max"
  shows "safe_parse_positive_loop v (c # t)
    = (if 10 * v + digit_of c \<le> kint32max then safe_parse_positive_loop (10 * v + digit_of c) t
       else Some (False, kint32max))"
  using assms digit_of_digit [OF assms(1)]
  unfolding safe_parse_positive_loop.simps digit_of_def [symmetric] Let_def
  by (auto simp: in_range_def kint32max_def kint32min_def mult.commute add.commute)

lemma negative_round:
  assumes "is_digit c" "v \<le> 0" "kint32min \<le> v"
  shows "safe_parse_negative_loop v (c # t)
    = (if kint32min \<le> 10 * v - digit_of c then safe_parse_negative_loop (10 * v - digit_of c) t
       else Some (False, kint32min))"
  using assms digit_of_digit [OF assms(1)]
  unfolding safe_parse_negative_loop.simps digit_of_def [symmetric] Let_def
  by (auto simp: in_range_def kint32max_def kint32min_def mult.commute add.commute)

lemma positive_loop:
  assumes "list_all is_digit t" "0 \<le> v" "v \<le> kint32max"
  shows "safe_parse_positive_loop v t
    = (if text_value v t \<le> kint32max then Some (True, text_value v t) else Some (False, kint32max))"
  using assms
proof (induction t arbitrary: v)
  case (Cons c t)
  have c: "is_digit c" "list_all is_digit t" using Cons.prems by simp_all
  have w: "0 \<le> 10 * v + digit_of c" using digit_of_digit [OF c(1)] Cons.prems(2) by linarith
  show ?case
    using positive_round [OF c(1) Cons.prems(2,3)] Cons.IH [OF c(2) w] text_value_grows [OF w c(2)]
    by (simp del: safe_parse_positive_loop.simps)
qed simp

lemma negative_loop:
  assumes "list_all is_digit t" "v \<le> 0" "kint32min \<le> v"
  shows "safe_parse_negative_loop v t
    = (if kint32min \<le> - text_value (- v) t then Some (True, - text_value (- v) t) else Some (False, kint32min))"
  using assms
proof (induction t arbitrary: v)
  case (Cons c t)
  have c: "is_digit c" "list_all is_digit t" using Cons.prems by simp_all
  have w: "10 * v - digit_of c \<le> 0" "0 \<le> 10 * - v + digit_of c"
    using digit_of_digit [OF c(1)] Cons.prems(2) by linarith+
  have e: "- (10 * v - digit_of c) = 10 * - v + digit_of c" by simp
  show ?case
    using negative_round [OF c(1) Cons.prems(2,3), of t] Cons.IH [OF c(2) w(1), unfolded e]
      text_value_grows [OF w(2) c(2)]
    unfolding text_value.simps by (cases "kint32min \<le> 10 * v - digit_of c") simp_all
qed simp

lemma unat_digit: "n < 10 \<Longrightarrow> unat (of_nat (0x30 + n) :: byte) = 0x30 + n"
  by (simp add: unat_of_nat_byte del: of_nat_add of_nat_numeral)

lemma nat_text_digits: "list_all is_digit (nat_text n)"
proof (induction n rule: nat_text.induct)
  case (1 n)
  then show ?case
    by (cases "n < 10") (simp_all add: nat_text_small nat_text_big is_digit_def unat_digit del: of_nat_add of_nat_numeral)
qed

lemma nat_text_value: "text_value 0 (nat_text n) = int n"
proof (induction n rule: nat_text.induct)
  case (1 n)
  show ?case
  proof (cases "n < 10")
    case True
    then show ?thesis by (simp add: nat_text_small unat_digit digit_of_def del: of_nat_add of_nat_numeral)
  next
    case False
    have "10 * int (n div 10) + int (n mod 10) = int n" by (simp add: zdiv_int zmod_int)
    then show ?thesis using 1 False unat_digit [of "n mod 10"]
      by (simp add: nat_text_big text_value_append digit_of_def del: of_nat_add of_nat_numeral)
  qed
qed

lemma digits_not_signs:
  assumes "is_digit c"
  shows "c \<noteq> 0x20" "c \<noteq> 0x2D" "c \<noteq> 0x2B"
  using assms by (auto simp: is_digit_def)

text \<open>A numeral may have spaces around it and a sign in front.\<close>

lemma sign_parsed:
  assumes "list_all is_digit t" "t \<noteq> []" "sign \<in> {[], [0x2B], [0x2D]}"
  shows "safe_parse_sign (replicate a 0x20 @ sign @ t @ replicate b 0x20) = Some (t, sign = [0x2D])"
proof -
  obtain c t' where t: "t = c # t'" using assms(2) by (cases t) auto
  obtain u d where u: "t = u @ [d]" using assms(2) by (cases t rule: rev_cases) auto
  have cd: "c \<noteq> 0x20" "c \<noteq> 0x2D" "c \<noteq> 0x2B" "d \<noteq> 0x20"
  proof -
    have "c \<in> set t" "d \<in> set t" using t u by (simp, metis in_set_conv_decomp)
    then show "c \<noteq> 0x20" "c \<noteq> 0x2D" "c \<noteq> 0x2B" "d \<noteq> 0x20"
      using assms(1) digits_not_signs by (auto simp: list_all_iff)
  qed
  have s: "hd (sign @ t) \<noteq> 0x20" "sign @ t \<noteq> []" using assms(3) cd t by auto
  have front: "dropWhile (\<lambda>c. c = (0x20 :: byte)) (replicate n 0x20 @ xs) = xs" if "xs \<noteq> []" "hd xs \<noteq> 0x20" for n xs
    using that by (induction n) (cases xs, auto)+
  have "dropWhile (\<lambda>c. c = 0x20) (replicate a 0x20 @ sign @ t @ replicate b 0x20) = sign @ t @ replicate b 0x20"
  proof (rule front)
    show "hd (sign @ t @ replicate b 0x20) \<noteq> 0x20" using s(1) assms(2) by (cases sign) auto
  qed (use assms(2) in simp)
  moreover have "dropWhile (\<lambda>c. c = 0x20) (rev (sign @ t @ replicate b 0x20)) = rev (sign @ t)"
    using front [of "rev (sign @ t)" b] cd u by simp
  ultimately show ?thesis
    using assms(2,3) cd t by (auto simp: safe_parse_sign_def Let_def)
qed

lemma safe_int_numeral:
  assumes "list_all is_digit t" "t \<noteq> []"
  shows "sign \<in> {[], [0x2B]} \<Longrightarrow> safe_int (replicate a 0x20 @ sign @ t @ replicate b 0x20)
      = (if text_value 0 t \<le> kint32max then Some (True, text_value 0 t) else Some (False, kint32max))"
    "safe_int (replicate a 0x20 @ [0x2D] @ t @ replicate b 0x20)
      = (if kint32min \<le> - text_value 0 t then Some (True, - text_value 0 t) else Some (False, kint32min))"
  using sign_parsed [OF assms, of sign a b] sign_parsed [OF assms, of "[0x2D]" a b]
    positive_loop [OF assms(1), of 0] negative_loop [OF assms(1), of 0]
  by (auto simp: safe_int_def safe_parse_positive_int_def safe_parse_negative_int_def kint32max_def kint32min_def)

subsection \<open>Properties\<close>





end
