(* ===== verification/StringLaws.thy ===== *)
theory StringLaws
  imports Strings DecimalLaws
begin

text \<open>
  The routines of \<open>Strings\<close> against definitions by recursion on the text: \<open>fields\<close> for the
  splitters, \<open>replaced\<close> for \<open>StringReplace\<close>, \<open>expansion\<close> for \<open>Substitute\<close>.
\<close>

declare split_any.simps [simp del] SplitStringToIteratorAllowEmpty.simps [simp del]
  StringReplace_loop.simps [simp del] split_single.simps [simp del] StripString_loop.simps [simp del]

subsection \<open>Splitting\<close>

fun fields :: "byte list \<Rightarrow> byte list \<Rightarrow> byte list list" where
  "fields delim [] = [[]]"
| "fields delim (c # s) =
     (if c \<in> set delim then [] # fields delim s
      else case fields delim s of [] \<Rightarrow> [[c]] | w # ws \<Rightarrow> (c # w) # ws)"

lemma fields_not_Nil [simp]: "fields delim s \<noteq> []"
  by (cases s) (auto split: list.splits)

lemma fields_word: "list_all (\<lambda>c. c \<notin> set delim) w \<Longrightarrow> fields delim w = [w]"
  by (induction w) auto

lemma fields_delim:
  "list_all (\<lambda>c. c \<notin> set delim) w \<Longrightarrow> c \<in> set delim \<Longrightarrow> fields delim (w @ c # t) = w # fields delim t"
  by (induction w) auto

lemma fields_all_delim: "list_all (\<lambda>c. c \<in> set delim) w \<Longrightarrow> filter (\<lambda>w. w \<noteq> []) (fields delim (w @ t)) = filter (\<lambda>w. w \<noteq> []) (fields delim t)"
  by (induction w) auto

lemma fields_no_delim: "w \<in> set (fields delim s) \<Longrightarrow> list_all (\<lambda>c. c \<notin> set delim) w"
proof (induction s arbitrary: w)
  case (Cons c s)
  then show ?case by (cases "fields delim s") (auto split: if_splits)
qed simp

text \<open>What the searches find.\<close>

lemma hd_drop: "i < length s \<Longrightarrow> hd (drop i s) = s ! i"
  by (simp add: hd_drop_conv_nth)

lemma find_first_None:
  assumes "find_from (\<lambda>t. t \<noteq> [] \<and> P (hd t)) s pos = None"
  shows "list_all (\<lambda>c. \<not> P c) (drop pos s)"
proof -
  have "\<not> P (drop pos s ! n)" if "n < length (drop pos s)" for n
  proof -
    have l: "pos + n < length s" using that by simp
    then show ?thesis using find_from_None [OF assms, of "pos + n"] hd_drop [OF l] by simp
  qed
  then show ?thesis by (simp add: list_all_length)
qed

lemma find_first_Some:
  assumes "find_from (\<lambda>t. t \<noteq> [] \<and> P (hd t)) s pos = Some i"
  shows "drop pos s = substr s pos (i - pos) @ s ! i # drop (i + 1) s" "P (s ! i)"
    "list_all (\<lambda>c. \<not> P c) (substr s pos (i - pos))" "pos \<le> i" "i < length s"
proof -
  note f = find_from_Some [OF assms]
  show i: "i < length s" using f(3) by (metis drop_all not_le)
  show p: "pos \<le> i" by (rule f(1))
  show "P (s ! i)" using f(3) hd_drop [OF i] by simp
  show "drop pos s = substr s pos (i - pos) @ s ! i # drop (i + 1) s"
    using p i by (metis Cons_nth_drop_Suc Suc_eq_plus1 append_take_drop_id drop_drop le_add_diff_inverse2 substr_def)
  show "list_all (\<lambda>c. \<not> P c) (substr s pos (i - pos))"
  proof -
    have "\<not> P (s ! (pos + n))" if "n < i - pos" for n
      using f(4) [of "pos + n"] that i hd_drop [of "pos + n" s] by auto
    then show ?thesis using i by (simp add: list_all_length substr_def)
  qed
qed

lemma AllowEmpty_fields:
  "SplitStringToIteratorAllowEmpty full delim 0 i b = fields delim (drop b full)"
proof (induction full delim "0 :: int" i b rule: SplitStringToIteratorAllowEmpty.induct)
  case (1 full delim i b)
  show ?case
  proof (cases "find_first_of full delim b")
    case None
    then show ?thesis
      using find_first_None [of "\<lambda>c. c \<in> set delim"]
      by (subst SplitStringToIteratorAllowEmpty.simps) (simp add: find_first_of_def fields_word)
  next
    case (Some e)
    note f = find_first_Some [OF Some [unfolded find_first_of_def]]
    have "fields delim (drop b full) = substr full b (e - b) # fields delim (drop (e + 1) full)"
      unfolding f(1) by (rule fields_delim [OF f(3) f(2)])
    then show ?thesis using 1 Some by (subst SplitStringToIteratorAllowEmpty.simps) simp
  qed
qed

lemma while_not_span: "while_not c p = (takeWhile (\<lambda>d. d \<noteq> c) p, dropWhile (\<lambda>d. d \<noteq> c) p)"
  by (induction p) (auto split: prod.splits)

lemma fields_span:
  "fields [c] s = takeWhile (\<lambda>d. d \<noteq> c) s # (case dropWhile (\<lambda>d. d \<noteq> c) s of [] \<Rightarrow> [] | d # t \<Rightarrow> fields [c] t)"
  by (induction s) auto

lemma split_single_fields: "split_single c s = filter (\<lambda>w. w \<noteq> []) (fields [c] s)"
proof (induction c s rule: split_single.induct)
  case (2 c d p)
  show ?case
  proof (cases "d = c")
    case True
    then show ?thesis using 2 by (simp add: split_single.simps)
  next
    case False
    have rest: "split_single c (dropWhile (\<lambda>d. d \<noteq> c) p)
        = filter (\<lambda>w. w \<noteq> []) (case dropWhile (\<lambda>d. d \<noteq> c) p of [] \<Rightarrow> [] | d # t \<Rightarrow> fields [c] t)"
    proof (cases "dropWhile (\<lambda>d. d \<noteq> c) p")
      case (Cons e t)
      then have "e = c" by (metis (mono_tags) dropWhile_eq_Cons_conv)
      moreover have "split_single c (e # t) = filter (\<lambda>w. w \<noteq> []) (fields [c] (e # t))"
        using 2(2) [OF False _ refl] Cons by (simp add: while_not_span)
      ultimately show ?thesis using Cons by simp
    next
      case Nil
      show ?thesis unfolding Nil by (simp add: split_single.simps)
    qed
    show ?thesis
      using False rest fields_span [of c "d # p"] by (simp add: split_single.simps while_not_span del: fields.simps)
  qed
qed (simp add: split_single.simps)

lemma split_any_fields:
  "split_any full delim (find_first_not_of full delim pos) = filter (\<lambda>w. w \<noteq> []) (fields delim (drop pos full))"
proof (induction "length full - pos" arbitrary: pos rule: less_induct)
  case less
  show ?case
  proof (cases "find_first_not_of full delim pos")
    case None
    have "list_all (\<lambda>c. c \<in> set delim) (drop pos full)"
      using find_first_None [of "\<lambda>c. c \<notin> set delim"] None by (simp add: find_first_not_of_def)
    then show ?thesis
      using fields_all_delim [of delim "drop pos full" "[]"] None by (simp add: split_any.simps)
  next
    case (Some b)
    note n = find_first_Some [OF Some [unfolded find_first_not_of_def]]
    have skip: "filter (\<lambda>w. w \<noteq> []) (fields delim (drop pos full)) = filter (\<lambda>w. w \<noteq> []) (fields delim (drop b full))"
      using n fields_all_delim [of delim "substr full pos (b - pos)" "drop b full"] Cons_nth_drop_Suc [OF n(5)] by simp
    show ?thesis
    proof (cases "find_first_of full delim b")
      case None
      have "fields delim (drop b full) = [drop b full]"
        using find_first_None [of "\<lambda>c. c \<in> set delim"] None by (simp add: find_first_of_def fields_word)
      then show ?thesis using None Some skip n(5) by (simp add: split_any.simps)
    next
      case (Some e)
      note f = find_first_Some [OF Some [unfolded find_first_of_def]]
      have "e \<noteq> b" using f(2) n(2) by auto
      then have ne: "b < e" using f(4) by simp
      have w: "fields delim (drop b full) = substr full b (e - b) # fields delim (drop (e + 1) full)"
        unfolding f(1) by (rule fields_delim [OF f(3) f(2)])
      have "fields delim (drop e full) = [] # fields delim (drop (e + 1) full)"
        using f(2) Cons_nth_drop_Suc [OF f(5), symmetric] by simp
      then have "split_any full delim (find_first_not_of full delim e)
          = filter (\<lambda>w. w \<noteq> []) (fields delim (drop (e + 1) full))"
        using less [of e] ne n(4) f(5) by simp
      moreover have "substr full b (e - b) \<noteq> []" using ne f(5) by (simp add: substr_def)
      ultimately show ?thesis
        using \<open>find_first_not_of full delim pos = Some b\<close> Some skip w by (simp add: split_any.simps)
    qed
  qed
qed

lemma SplitStringUsing_fields: "SplitStringUsing full delim = filter (\<lambda>w. w \<noteq> []) (fields delim full)"
proof (cases "length delim = 1")
  case True
  then obtain c where "delim = [c]" by (cases delim) auto
  then show ?thesis by (simp add: SplitStringUsing_def split_single_fields)
next
  case False
  then show ?thesis using split_any_fields [of full delim 0] by (simp add: SplitStringUsing_def)
qed

lemma join_from_False: "join_from False ws delim r = r @ concat (map (\<lambda>w. delim @ w) ws)"
  by (induction ws arbitrary: r) simp_all

lemma JoinStrings_Cons: "JoinStrings (w # ws) delim = w @ concat (map (\<lambda>w. delim @ w) ws)"
  by (simp add: JoinStrings_def join_from_False)

lemma JoinStrings_step: "ws \<noteq> [] \<Longrightarrow> JoinStrings (w # ws) delim = w @ delim @ JoinStrings ws delim"
  by (cases ws) (simp_all add: JoinStrings_Cons)

lemma JoinStrings_fields: "JoinStrings (fields [c] s) [c] = s"
proof (induction s)
  case (Cons d s)
  show ?case
  proof (cases "d = c")
    case True
    then show ?thesis using Cons by (simp add: JoinStrings_step)
  next
    case False
    then show ?thesis using Cons by (cases "fields [c] s") (simp_all add: JoinStrings_Cons)
  qed
qed (simp add: JoinStrings_Cons)

lemma fields_JoinStrings:
  "ws \<noteq> [] \<Longrightarrow> list_all (\<lambda>w. c \<notin> set w) ws \<Longrightarrow> fields [c] (JoinStrings ws [c]) = ws"
proof (induction ws)
  case (Cons w ws)
  have w: "list_all (\<lambda>d. d \<notin> set [c]) w" using Cons.prems by (auto simp: list_all_iff)
  show ?case
  proof (cases "ws = []")
    case True
    then show ?thesis using fields_word [OF w] by (simp add: JoinStrings_Cons)
  next
    case False
    then show ?thesis
      using Cons fields_delim [OF w, of c "JoinStrings ws [c]"] by (simp add: JoinStrings_step)
  qed
qed simp

lemma AllowEmpty_pieces:
  assumes "0 < pieces" "0 \<le> i" "i < pieces"
  shows "JoinStrings (SplitStringToIteratorAllowEmpty full [c] pieces i b) [c] = drop b full
    \<and> int (length (SplitStringToIteratorAllowEmpty full [c] pieces i b)) \<le> pieces - i
    \<and> SplitStringToIteratorAllowEmpty full [c] pieces i b \<noteq> []"
  using assms
proof (induction "nat (pieces - i)" arbitrary: i b rule: less_induct)
  case less
  show ?case
  proof (cases "i < pieces - 1 \<and> find_first_of full [c] b \<noteq> None")
    case False
    then show ?thesis
      using less.prems
      by (subst (1 2 3) SplitStringToIteratorAllowEmpty.simps) (auto simp: JoinStrings_Cons)
  next
    case True
    then obtain e where e: "find_first_of full [c] b = Some e" by blast
    note f = find_first_Some [OF e [unfolded find_first_of_def]]
    have "SplitStringToIteratorAllowEmpty full [c] pieces i b
        = substr full b (e - b) # SplitStringToIteratorAllowEmpty full [c] pieces (i + 1) (e + 1)"
      using True e by (subst SplitStringToIteratorAllowEmpty.simps) simp
    moreover have "drop b full = substr full b (e - b) @ [c] @ drop (e + 1) full" using f(1,2) by simp
    ultimately show ?thesis
      using less.hyps [of "i + 1" "e + 1"] less.prems True by (simp add: JoinStrings_step)
  qed
qed

subsection \<open>Replacing\<close>

function replaced :: "byte list \<Rightarrow> byte list \<Rightarrow> bool \<Rightarrow> byte list \<Rightarrow> byte list" where
  "replaced old new all s =
     (if s = [] \<or> old = [] then s
      else if take (length old) s = old then
        new @ (if all then replaced old new all (drop (length old) s) else drop (length old) s)
      else hd s # replaced old new all (tl s))"
  by pat_completeness auto
termination by (relation "measure (\<lambda>(old, new, all, s). length s)") auto

declare replaced.simps [simp del]

lemma replaced_skip:
  assumes "old \<noteq> []" "n \<le> length s" "\<And>j. j < n \<Longrightarrow> take (length old) (drop j s) \<noteq> old"
  shows "replaced old new all s = take n s @ replaced old new all (drop n s)"
  using assms(2,3)
proof (induction n arbitrary: s)
  case (Suc n)
  then obtain c t where s: "s = c # t" by (cases s) auto
  have "take (length old) (drop j t) \<noteq> old" if "j < n" for j using Suc.prems(2) [of "Suc j"] that s by simp
  then have "replaced old new all t = take n t @ replaced old new all (drop n t)" using Suc s by simp
  moreover have "take (length old) s \<noteq> old" using Suc.prems(2) [of 0] by simp
  ultimately show ?case using s assms(1) by (subst replaced.simps) simp
qed simp

lemma replaced_here:
  "old \<noteq> [] \<Longrightarrow> take (length old) s = old \<Longrightarrow>
    replaced old new all s = new @ (if all then replaced old new all (drop (length old) s) else drop (length old) s)"
  by (subst replaced.simps) auto

lemma StringReplace_loop_eq:
  assumes "old \<noteq> []" "pos \<le> length s"
  shows "(case StringReplace_loop s old new all pos res of
      (start_pos, res) \<Rightarrow> res @ substr s start_pos (length s - start_pos)) = res @ replaced old new all (drop pos s)"
  using assms(2)
proof (induction "length s - pos" arbitrary: pos res rule: less_induct)
  case less
  show ?case
  proof (cases "string_find s old pos")
    case None
    have none: "take (length old) (drop j (drop pos s)) \<noteq> old" if "j < length s - pos" for j
      using find_from_None [OF None [unfolded string_find_def], of "pos + j"] that by (simp add: add.commute)
    have "replaced old new all (drop pos s) = drop pos s"
      using replaced_skip [OF assms(1), of "length s - pos" "drop pos s" new all] none
      by (simp add: replaced.simps [of old new all "[]"])
    then show ?thesis using None by (simp add: StringReplace_loop.simps [of s old new all pos] substr_def)
  next
    case (Some i)
    note f = find_from_Some [OF Some [unfolded string_find_def]]
    have here: "take (length old) (drop i s) = old" by (rule f(3))
    have skip: "replaced old new all (drop pos s)
        = substr s pos (i - pos) @ replaced old new all (drop i s)"
      using replaced_skip [OF assms(1), of "i - pos" "drop pos s" new all] f(1,2) f(4) by (simp add: substr_def add.commute)
    have le: "i + length old \<le> length s"
      using arg_cong [OF here, of length] f(2) by simp
    have lt: "length s - (i + length old) < length s - pos"
      using assms(1) f(1) le by (cases old) auto
    show ?thesis
    proof (cases all)
      case True
      have "StringReplace_loop s old new all pos res
          = StringReplace_loop s old new all (i + length old) (res @ substr s pos (i - pos) @ new)"
        using True Some assms(1) by (subst StringReplace_loop.simps) simp
      then show ?thesis
        using True less.hyps [OF lt le, of "res @ substr s pos (i - pos) @ new"] skip
          replaced_here [OF assms(1) here, of new all]
        by (simp add: add.commute)
    next
      case False
      then have "StringReplace_loop s old new all pos res = (i + length old, res @ substr s pos (i - pos) @ new)"
        using Some assms(1) by (subst StringReplace_loop.simps) simp
      then show ?thesis
        using False skip replaced_here [OF assms(1) here, of new all] by (simp add: substr_def add.commute)
    qed
  qed
qed

lemma StringReplace_replaced: "old \<noteq> [] \<Longrightarrow> StringReplace s old new all = replaced old new all s"
  using StringReplace_loop_eq [of old 0 s new all "[]"]
  by (simp add: StringReplace_def StringReplace_append_def case_prod_beta)

lemma replaced_same: "replaced old old all s = s"
proof (induction "length s" arbitrary: s rule: less_induct)
  case less
  show ?case
  proof (cases "s = [] \<or> old = []")
    case True
    then show ?thesis by (subst replaced.simps) simp
  next
    case False
    then have "length (drop (length old) s) < length s" "length (tl s) < length s" by auto
    then have "replaced old old all (drop (length old) s) = drop (length old) s" "replaced old old all (tl s) = tl s"
      using less by blast+
    moreover have "old @ drop (length old) s = s" if "take (length old) s = old"
      using append_take_drop_id [of "length old" s] that by simp
    ultimately show ?thesis using False by (cases all; subst replaced.simps; simp)
  qed
qed

lemma replaced_absent:
  assumes "old \<noteq> []" "\<And>u v. s \<noteq> u @ old @ v"
  shows "replaced old new all s = s"
proof -
  have "take (length old) (drop j s) \<noteq> old" for j
    using assms(2) [of "take j s" "drop (length old) (drop j s)"] by (metis append_take_drop_id)
  then show ?thesis
    using replaced_skip [OF assms(1), of "length s" s new all] by (simp add: replaced.simps [of old new all "[]"])
qed

lemma c_string_all: "0 \<notin> set s \<Longrightarrow> c_string s = s"
  by (auto simp: c_string_def takeWhile_eq_all_conv)

definition stripped :: "byte list \<Rightarrow> byte \<Rightarrow> byte list \<Rightarrow> byte list" where
  "stripped remove replacewith s = map (\<lambda>c. if c \<in> set remove then replacewith else c) s"

lemma StripString_loop_eq:
  assumes "0 \<notin> set (drop pos s)" "pos \<le> length s"
  shows "StripString_loop remove c s (strpbrk s pos remove) = take pos s @ stripped remove c (drop pos s)"
  using assms
proof (induction "length s - pos" arbitrary: pos s rule: less_induct)
  case less
  have cs: "c_string (drop pos s) = drop pos s" by (rule c_string_all [OF less.prems(1)])
  show ?case
  proof (cases "find_first_of (drop pos s) remove 0")
    case None
    then have "list_all (\<lambda>c. c \<notin> set remove) (drop pos s)"
      using find_first_None [of "\<lambda>c. c \<in> set remove" "drop pos s" 0] by (simp add: find_first_of_def)
    then have "stripped remove c (drop pos s) = drop pos s"
      unfolding stripped_def by (intro map_idI) (auto simp: list_all_iff)
    then show ?thesis using None by (simp add: strpbrk_def cs StripString_loop.simps)
  next
    case (Some i)
    note f = find_first_Some [OF Some [unfolded find_first_of_def]]
    have l: "pos + i < length s" using f(5) by simp
    let ?s = "s[pos + i := c]" and ?next = "pos + i + 1"
    have d: "drop ?next ?s = drop ?next s" by simp
    have "0 \<notin> set (drop ?next ?s)"
      unfolding d using less.prems(1) set_drop_subset_set_drop [of pos ?next s] by auto
    then have ih: "StripString_loop remove c ?s (strpbrk ?s ?next remove) = take ?next ?s @ stripped remove c (drop ?next s)"
      using less.hyps [of ?s ?next] l by simp
    have t: "take ?next ?s = take pos s @ take i (drop pos s) @ [c]"
      using l by (simp add: take_Suc_conv_app_nth take_add drop_update_swap)
    have keep: "stripped remove c (take i (drop pos s)) = take i (drop pos s)"
      using f(3) unfolding stripped_def substr_def by (intro map_idI) (auto simp: list_all_iff)
    have n: "drop pos s ! i = s ! (pos + i)" "drop (i + 1) (drop pos s) = drop ?next s"
      using l by (simp_all add: add.commute)
    have e: "drop pos s = take i (drop pos s) @ s ! (pos + i) # drop ?next s"
      using f(1) unfolding substr_def drop_0 diff_zero n .
    have "s ! (pos + i) \<in> set remove" using f(2) unfolding n .
    then have "stripped remove c (take i (drop pos s) @ s ! (pos + i) # drop ?next s)
        = stripped remove c (take i (drop pos s)) @ c # stripped remove c (drop ?next s)"
      by (simp add: stripped_def)
    then have "stripped remove c (drop pos s) = take i (drop pos s) @ c # stripped remove c (drop ?next s)"
      unfolding keep e [symmetric] .
    then show ?thesis
      using ih t Some l by (simp add: strpbrk_def cs StripString_loop.simps(2))
  qed
qed

lemma StripString_stripped: "0 \<notin> set s \<Longrightarrow> StripString s remove c = stripped remove c s"
  using StripString_loop_eq [of 0 s] by (simp add: StripString_def)

subsection \<open>Substituting\<close>

fun expansion :: "SubstituteArg list \<Rightarrow> byte list \<Rightarrow> byte list option" where
  \<comment> \<open>the text that a format stands for, \<open>None\<close> for a wrong one\<close>
  "expansion args [] = Some []"
| "expansion args [c] = (if c = 0x24 then None else Some [c])"
| "expansion args (c # d # format) =
     (if c = 0x24 then
        if ascii_isdigit d then do { t \<leftarrow> args ! unat (d - 0x30); u \<leftarrow> expansion args format; Some (t @ u) }
        else if d = 0x24 then map_option ((#) 0x24) (expansion args format)
        else None
      else map_option ((#) c) (expansion args (d # format)))"

lemma substitute_build_exact:
  "expansion args format = Some t \<Longrightarrow> int (length target) + int (length t) \<le> limit
    \<Longrightarrow> substitute_build args limit target format = Some (target @ t)"
proof (induction args limit target format arbitrary: t rule: substitute_build.induct)
  case (3 args limit target c d format)
  then show ?case
    by (auto simp: store_at_end_def bind_eq_Some_conv split: if_splits)
qed (auto simp: store_at_end_def split: if_splits)

definition args_bounded :: "SubstituteArg list \<Rightarrow> int \<Rightarrow> bool" where
  "args_bounded args m \<longleftrightarrow> length args = 10 \<and> 1 \<le> m
     \<and> list_all (\<lambda>a. case a of None \<Rightarrow> True | Some t \<Rightarrow> int (length t) \<le> m) args"

lemma digit_index:
  assumes "ascii_isdigit d"
  shows "unat (d - 0x30) < 10"
proof -
  have "48 \<le> unat d" "unat d \<le> 57" using assms by (simp_all add: ascii_isdigit_def word_le_nat_alt)
  then show ?thesis by (simp add: unat_sub word_le_nat_alt)
qed

lemma bounded_arg:
  "args_bounded args m \<Longrightarrow> ascii_isdigit d \<Longrightarrow> args ! unat (d - 0x30) = Some t \<Longrightarrow> int (length t) \<le> m"
  using digit_index [of d] unfolding args_bounded_def list_all_length by force

lemma expansion_bounded:
  "args_bounded args m \<Longrightarrow> expansion args format = Some t \<Longrightarrow> int (length t) \<le> m * int (length format)"
proof (induction args format arbitrary: t rule: expansion.induct)
  case (2 args c)
  then show ?case by (auto simp: args_bounded_def split: if_splits)
next
  case (3 args c d format)
  have m: "1 \<le> m" using 3(4) by (simp add: args_bounded_def)
  have e: "m * int (length (c # d # format)) = m + (m + m * int (length format))"
    "m * int (length (d # format)) = m + m * int (length format)"
    by (simp_all add: algebra_simps)
  show ?case
  proof (cases "c = 0x24")
    case False
    then obtain u where "expansion args (d # format) = Some u" "t = c # u" using 3(5) by auto
    then show ?thesis using 3(3) [OF False 3(4)] m unfolding e by fastforce
  next
    case True
    show ?thesis
    proof (cases "ascii_isdigit d")
      case False
      then obtain u where "expansion args format = Some u" "t = 0x24 # u" using True 3(5) by (auto split: if_splits)
      moreover have "d = 0x24" using True False 3(5) by (auto split: if_splits)
      ultimately show ?thesis using 3(2) [OF True False _ 3(4)] m unfolding e by fastforce
    next
      case dig: True
      then obtain x u where "args ! unat (d - 0x30) = Some x" "expansion args format = Some u" "t = x @ u"
        using True 3(5) by (auto simp: bind_eq_Some_conv)
      then show ?thesis
        using 3(1) [OF True dig _ 3(4)] bounded_arg [OF 3(4) dig] m unfolding e by fastforce
    qed
  qed
qed simp

lemma substitute_size_exact:
  "args_bounded args m \<Longrightarrow> 0 \<le> n \<Longrightarrow> n + m * int (length format) \<le> INT_MAX
    \<Longrightarrow> substitute_size args n format = Some (map_option (\<lambda>t. n + int (length t)) (expansion args format))"
proof (induction args n format rule: substitute_size.induct)
  case (2 args n c)
  then show ?case by (auto simp: in_range_def args_bounded_def)
next
  case (3 args n c d format)
  have m: "1 \<le> m" using 3(4) by (simp add: args_bounded_def)
  have e: "m * int (length (c # d # format)) = m + (m + m * int (length format))"
    "m * int (length (d # format)) = m + m * int (length format)"
    by (simp_all add: algebra_simps)
  have p: "0 \<le> m * int (length format)" using m by simp
  note b = 3(6) [unfolded e(1)]
  have one: "in_range 0 INT_MAX (n + 1) = Some (n + 1)"
  proof -
    have "n + 1 \<le> INT_MAX" using b p m by linarith
    then show ?thesis using 3(5) by (simp add: in_range_def)
  qed
  have next1: "n + 1 + m * int (length format) \<le> INT_MAX" "n + 1 + m * int (length (d # format)) \<le> INT_MAX"
    using b m unfolding e(2) by linarith+
  show ?case
  proof (cases "c = 0x24")
    case False
    then show ?thesis using 3(3) [OF False one 3(4) _ next1(2)] 3(5) one
      by (cases "expansion args (d # format)") simp_all
  next
    case True
    show ?thesis
    proof (cases "ascii_isdigit d")
      case False
      then show ?thesis using 3(2) [OF True False _ one 3(4) _ next1(1)] 3(5) one True
        by (cases "expansion args format") auto
    next
      case dig: True
      show ?thesis
      proof (cases "args ! unat (d - 0x30)")
        case (Some x)
        have x: "int (length x) \<le> m" by (rule bounded_arg [OF 3(4) dig Some])
        have "n + int (length x) \<le> INT_MAX" using b p m x by linarith
        then have r: "in_range 0 INT_MAX (n + int (length x)) = Some (n + int (length x))"
          using 3(5) by (simp add: in_range_def)
        have "n + int (length x) + m * int (length format) \<le> INT_MAX" using b m x by linarith
        from 3(1) [OF True dig Some r 3(4) _ this] show ?thesis
          using 3(5) r True dig Some by (cases "expansion args format") simp_all
      qed (use True dig in simp)
    qed
  qed
qed simp

subsection \<open>Properties\<close>

text \<open>
  C39: \<open>SplitStringUsing\<close>, on its path for one delimiter and on the general one, gives the pieces
  of \<open>SplitStringAllowEmpty\<close> that are not empty; no piece has a delimiter in it; joining
  the pieces with the delimiter gives the string back, also when their number is
  limited, and splitting what was joined gives the pieces back.
\<close>
theorem split_and_join:
  "SplitStringUsing full delim = filter (\<lambda>w. w \<noteq> []) (SplitStringAllowEmpty full delim)
   \<and> list_all (list_all (\<lambda>c. c \<notin> set delim)) (SplitStringAllowEmpty full delim)
   \<and> JoinStrings (SplitStringAllowEmpty full [c]) [c] = full
   \<and> (pieces \<noteq> [] \<and> list_all (\<lambda>w. c \<notin> set w) pieces
        \<longrightarrow> SplitStringAllowEmpty (JoinStrings pieces [c]) [c] = pieces)
   \<and> (0 < n \<longrightarrow> JoinStrings (SplitStringToIteratorAllowEmpty full [c] n 0 0) [c] = full
        \<and> int (length (SplitStringToIteratorAllowEmpty full [c] n 0 0)) \<le> n)"
proof -
  have f: "SplitStringAllowEmpty s d = fields d s" for s d
    by (simp add: SplitStringAllowEmpty_def AllowEmpty_fields)
  have "list_all (list_all (\<lambda>c. c \<notin> set delim)) (fields delim full)"
    using fields_no_delim by (auto simp: list_all_iff)
  then show ?thesis
    using AllowEmpty_pieces [of n 0 full c 0]
    by (simp add: f SplitStringUsing_fields JoinStrings_fields fields_JoinStrings)
qed

lemma split_and_join_witness:
  "SplitStringAllowEmpty (JoinStrings [[0x61], [], [0x62]] [0x2C]) [0x2C] = [[0x61], [], [0x62]]
   \<and> JoinStrings (SplitStringToIteratorAllowEmpty [0x61, 0x2C, 0x62] [0x2C] 1 0 0) [0x2C] = [0x61, 0x2C, 0x62]"
  using split_and_join [where pieces = "[[0x61], [], [0x62]]" and c = "0x2C" and full = "[0x61, 0x2C, 0x62]" and n = 1]
  by simp

text \<open>
  \<open>StringReplace\<close> replaces, from the left, the occurrences of the pattern that do not overlap, or
  the first of them; replacing a pattern by itself, or one that does not occur, changes nothing.
  \<open>StripString\<close> replaces each of the given characters in a text without zero bytes.
\<close>
theorem replacing_exact:
  "(oldsub \<noteq> [] \<longrightarrow> StringReplace s oldsub newsub replace_all = replaced oldsub newsub replace_all s)
   \<and> StringReplace s oldsub oldsub replace_all = s
   \<and> ((\<forall>u v. s \<noteq> u @ oldsub @ v) \<longrightarrow> StringReplace s oldsub newsub replace_all = s)
   \<and> (0 \<notin> set s \<longrightarrow> StripString s remove c = map (\<lambda>x. if x \<in> set remove then c else x) s)"
proof (cases "oldsub = []")
  case True
  then show ?thesis
    by (auto simp: StringReplace_def StringReplace_append_def StripString_stripped stripped_def)
next
  case False
  then show ?thesis
    using replaced_absent [OF False, of s newsub replace_all]
    by (simp add: StringReplace_replaced replaced_same StripString_stripped stripped_def)
qed

lemma replacing_exact_witness:
  "StringReplace [0x61, 0x62] [0x62] [0x63] True = replaced [0x62] [0x63] True [0x61, 0x62]
   \<and> StripString [0x61, 0x62] [0x62] 0x20 = [0x61, 0x20]"
  using replacing_exact [where s = "[0x61, 0x62]" and oldsub = "[0x62]" and newsub = "[0x63]" and replace_all = True
      and remove = "[0x62]" and c = "0x20"]
  by simp



end
