(* ===== verification/Utf8.thy ===== *)
theory Utf8
  imports Prelude
begin

text \<open>
  The UTF-8 checker of \<^verbatim>\<open>stubs/structurally_valid.cc\<close>: the state table, the scanner with its
  fast scan over groups of eight bytes, and \<open>IsStructurallyValidUTF8\<close>. The text is a list of
  bytes and \<open>addr\<close> the address of its first byte, since the code looks at the alignment of its
  pointers; a pointer into the text is its index, and one into the state table an index of the
  table. \<open>None\<close> is a read outside the text or the table, or a loop that does not end.
\<close>

subsection \<open>Exit reasons\<close>

definition kExitIllegalStructure :: nat where "kExitIllegalStructure = 240"
definition kExitOK :: nat where "kExitOK = 241"
definition kExitReject :: nat where "kExitReject = 242"
definition kExitDoAgain :: nat where "kExitDoAgain = 253"

subsection \<open>The state table\<close>

record RemapEntry =
  delete_bytes :: nat
  add_bytes :: nat
  bytes_offset :: nat

record UTF8ScanObj =
  st_state0 :: nat
  st_state0_size :: nat
  st_total_size :: nat
  st_max_expand :: nat
  st_entry_shift :: nat
  st_bytes_per_entry :: nat
  st_losub :: u32
  st_hiadd :: u32
  st_state_table :: "byte list"
  st_remap_base :: "RemapEntry list"
  st_remap_string :: "byte list"
  st_fast_state :: "byte list"

text \<open>The nine blocks of 256 entries, each written as its runs of equal entries.\<close>

abbreviation XX :: byte where "XX \<equiv> of_nat kExitIllegalStructure"
abbreviation RJ :: byte where "RJ \<equiv> of_nat kExitReject"

definition utf8_byte_1 :: "byte list" where
  "utf8_byte_1 = replicate 128 0 @ replicate 64 XX @ replicate 2 XX @ replicate 30 1
     @ replicate 1 2 @ replicate 12 3 @ replicate 1 7 @ replicate 2 3
     @ replicate 1 4 @ replicate 3 5 @ replicate 1 6 @ replicate 11 XX"

definition utf8_byte_2_of_2 :: "byte list" where
  "utf8_byte_2_of_2 = replicate 128 XX @ replicate 64 0 @ replicate 64 XX"

definition utf8_byte_2_of_3_E0 :: "byte list" where
  "utf8_byte_2_of_3_E0 = replicate 128 XX @ replicate 32 XX @ replicate 32 1 @ replicate 64 XX"

definition utf8_byte_2_of_3 :: "byte list" where
  "utf8_byte_2_of_3 = replicate 128 XX @ replicate 64 1 @ replicate 64 XX"

definition utf8_byte_2_of_4_F0 :: "byte list" where
  "utf8_byte_2_of_4_F0 = replicate 128 XX @ replicate 16 XX @ replicate 48 3 @ replicate 64 XX"

definition utf8_byte_2_of_4 :: "byte list" where
  "utf8_byte_2_of_4 = replicate 128 XX @ replicate 64 3 @ replicate 64 XX"

definition utf8_byte_2_of_4_F4 :: "byte list" where
  "utf8_byte_2_of_4_F4 = replicate 128 XX @ replicate 16 3 @ replicate 48 XX @ replicate 64 XX"

definition utf8_byte_2_of_3_ED :: "byte list" where
  "utf8_byte_2_of_3_ED = replicate 128 XX @ replicate 32 1 @ replicate 32 8 @ replicate 64 XX"

definition utf8_byte_3_of_3_ED :: "byte list" where
  "utf8_byte_3_of_3_ED = replicate 128 XX @ replicate 64 RJ @ replicate 64 XX"

definition utf8acceptnonsurrogates :: "byte list" where
  "utf8acceptnonsurrogates = concat
     [utf8_byte_1, utf8_byte_2_of_2, utf8_byte_2_of_3_E0, utf8_byte_2_of_3, utf8_byte_2_of_4_F0,
      utf8_byte_2_of_4, utf8_byte_2_of_4_F4, utf8_byte_2_of_3_ED, utf8_byte_3_of_3_ED]"

definition utf8acceptnonsurrogates_fast :: "byte list" where
  "utf8acceptnonsurrogates_fast = replicate 128 0 @ replicate 128 1"

definition utf8acceptnonsurrogates_obj :: UTF8ScanObj where
  "utf8acceptnonsurrogates_obj =
     \<lparr>st_state0 = 0, st_state0_size = 256, st_total_size = 2304, st_max_expand = 0, st_entry_shift = 8,
      st_bytes_per_entry = 1, st_losub = 0x20202020, st_hiadd = 0, st_state_table = utf8acceptnonsurrogates,
      st_remap_base = [\<lparr>delete_bytes = 0, add_bytes = 0, bytes_offset = 0\<rparr>], st_remap_string = [0],
      st_fast_state = utf8acceptnonsurrogates_fast\<rparr>"

subsection \<open>The scanner\<close>

definition InStateZero :: "UTF8ScanObj \<Rightarrow> nat \<Rightarrow> bool" where
  \<comment> \<open>the unsigned comparison checks both ends\<close>
  "InStateZero st Tbl \<longleftrightarrow> nat ((int Tbl - int (st_state0 st)) mod 2 ^ 32) < st_state0_size st"

definition unaligned :: "nat \<Rightarrow> nat \<Rightarrow> bool" where
  "unaligned addr src \<longleftrightarrow> (addr + src) mod 8 \<noteq> 0"

function align_fast :: "byte list \<Rightarrow> nat \<Rightarrow> byte list \<Rightarrow> nat \<Rightarrow> nat option" where
  \<comment> \<open>the first few bytes, until the pointer is aligned\<close>
  "align_fast Tbl2 addr m src =
     (if unaligned addr src \<and> src < length m then
        do { c \<leftarrow> mem_at m src;
             t \<leftarrow> mem_at Tbl2 (unat c);
             if t = 0 then align_fast Tbl2 addr m (src + 1) else Some src }
      else Some src)"
  by pat_completeness auto
termination by (relation "measure (\<lambda>(Tbl2, addr, m, src). length m - src)") auto

definition load32 :: "byte list \<Rightarrow> nat \<Rightarrow> u32 option" where
  \<comment> \<open>little-endian\<close>
  "load32 m i =
     do { b0 \<leftarrow> mem_at m i;
          b1 \<leftarrow> mem_at m (i + 1);
          b2 \<leftarrow> mem_at m (i + 2);
          b3 \<leftarrow> mem_at m (i + 3);
          Some (ucast b0 OR push_bit 8 (ucast b1) OR push_bit 16 (ucast b2) OR push_bit 24 (ucast b3)) }"

definition fast_or :: "byte list \<Rightarrow> byte list \<Rightarrow> nat \<Rightarrow> byte option" where
  "fast_or Tbl2 m i =
     do { c0 \<leftarrow> mem_at m i; e0 \<leftarrow> mem_at Tbl2 (unat c0);
          c1 \<leftarrow> mem_at m (i + 1); e1 \<leftarrow> mem_at Tbl2 (unat c1);
          c2 \<leftarrow> mem_at m (i + 2); e2 \<leftarrow> mem_at Tbl2 (unat c2);
          c3 \<leftarrow> mem_at m (i + 3); e3 \<leftarrow> mem_at Tbl2 (unat c3);
          Some ((e0 OR e1) OR (e2 OR e3)) }"

function fast_groups :: "UTF8ScanObj \<Rightarrow> byte list \<Rightarrow> nat \<Rightarrow> nat option" where
  \<comment> \<open>groups of eight bytes; a group that fails the range check is looked up byte by byte\<close>
  "fast_groups st m src =
     (if int src < int (length m) - 7 then
        do { s0123 \<leftarrow> load32 m src;
             s4567 \<leftarrow> load32 m (src + 4);
             let temp = (s0123 - st_losub st) OR (s0123 + st_hiadd st)
               OR (s4567 - st_losub st) OR (s4567 + st_hiadd st);
             if temp AND 0x80808080 \<noteq> 0 then
               do { e0123 \<leftarrow> fast_or (st_fast_state st) m src;
                    if e0123 \<noteq> 0 then Some src
                    else do { e4567 \<leftarrow> fast_or (st_fast_state st) m (src + 4);
                              if e4567 \<noteq> 0 then Some (src + 4) else fast_groups st m (src + 8) } }
             else fast_groups st m (src + 8) }
      else Some src)"
  by pat_completeness auto
termination by (relation "measure (\<lambda>(st, m, src). length m - src)") auto

function scan_bytes :: "UTF8ScanObj \<Rightarrow> byte list \<Rightarrow> nat \<Rightarrow> nat \<Rightarrow> nat \<Rightarrow> (nat \<times> nat \<times> nat) option" where
  \<comment> \<open>the byte-at-a-time scan: \<open>Tbl\<close>, \<open>e\<close> and \<open>src\<close> when it stops\<close>
  "scan_bytes st m Tbl e src =
     (if src < length m then
        do { c \<leftarrow> mem_at m src;
             e \<leftarrow> mem_at (st_state_table st) (Tbl + unat c);
             if unat e \<ge> kExitIllegalStructure then Some (Tbl, unat e, src + 1)
             else scan_bytes st m (st_state0 st + push_bit (st_entry_shift st) (unat e)) (unat e) (src + 1) }
      else Some (Tbl, e, src))"
  by pat_completeness auto
termination by (relation "measure (\<lambda>(st, m, Tbl, e, src). length m - src)") auto

fun back_up :: "byte list \<Rightarrow> nat \<Rightarrow> nat option" where
  \<comment> \<open>\<^verbatim>\<open>do { src--; } while ((src > isrc) && ((src[0] & 0xc0) == 0x80))\<close>\<close>
  "back_up m 0 = None"
| "back_up m (Suc src) =
     (if src > 0 then do { c \<leftarrow> mem_at m src; if c AND 0xC0 = 0x80 then back_up m src else Some src }
      else Some src)"

partial_function (option) UTF8GenericScan_from :: "UTF8ScanObj \<Rightarrow> nat \<Rightarrow> byte list \<Rightarrow> nat \<Rightarrow> (nat \<times> nat) option" where
  \<comment> \<open>from the label \<open>DoAgain\<close>: the exit reason and the bytes consumed\<close>
  "UTF8GenericScan_from st addr m src =
     do { src \<leftarrow> align_fast (st_fast_state st) addr m src;
          src \<leftarrow> (if \<not> unaligned addr src then fast_groups st m src else Some src);
          (Tbl, e, src) \<leftarrow> scan_bytes st m (st_state0 st) 0 src;
          (e, src) \<leftarrow>
            (if e \<ge> kExitIllegalStructure then
               if \<not> InStateZero st Tbl then do { src \<leftarrow> back_up m (src - 1); Some (e, src) }
               else Some (e, src - 1)
             else if \<not> InStateZero st Tbl then
               do { src \<leftarrow> back_up m src; Some (kExitIllegalStructure, src) }
             else Some (kExitOK, src));
          if e = kExitDoAgain then UTF8GenericScan_from st addr m src else Some (e, src) }"

definition UTF8GenericScan :: "UTF8ScanObj \<Rightarrow> nat \<Rightarrow> byte list \<Rightarrow> (nat \<times> nat) option" where
  "UTF8GenericScan st addr m = (if m = [] then Some (kExitOK, 0) else UTF8GenericScan_from st addr m 0)"

subsection \<open>The scanner for text that is mostly ASCII\<close>

function align_ascii :: "nat \<Rightarrow> byte list \<Rightarrow> nat \<Rightarrow> nat option" where
  "align_ascii addr m src =
     (if unaligned addr src \<and> src < length m then
        do { c \<leftarrow> mem_at m src; if c < 0x80 then align_ascii addr m (src + 1) else Some src }
      else Some src)"
  by pat_completeness auto
termination by (relation "measure (\<lambda>(addr, m, src). length m - src)") auto

function ascii_groups :: "byte list \<Rightarrow> nat \<Rightarrow> nat option" where
  "ascii_groups m src =
     (if int src < int (length m) - 7 then
        do { s0123 \<leftarrow> load32 m src;
             s4567 \<leftarrow> load32 m (src + 4);
             if (s0123 OR s4567) AND 0x80808080 = 0 then ascii_groups m (src + 8) else Some src }
      else Some src)"
  by pat_completeness auto
termination by (relation "measure (\<lambda>(m, src). length m - src)") auto

function ascii_bytes :: "byte list \<Rightarrow> nat \<Rightarrow> nat option" where
  "ascii_bytes m src =
     (if src < length m then
        do { c \<leftarrow> mem_at m src; if c < 0x80 then ascii_bytes m (src + 1) else Some src }
      else Some src)"
  by pat_completeness auto
termination by (relation "measure (\<lambda>(m, src). length m - src)") auto

partial_function (option) UTF8GenericScanFastAscii_from :: "UTF8ScanObj \<Rightarrow> nat \<Rightarrow> byte list \<Rightarrow> nat \<Rightarrow> (nat \<times> nat) option" where
  \<comment> \<open>the \<^verbatim>\<open>do\<close> loop\<close>
  "UTF8GenericScanFastAscii_from st addr m src =
     do { src \<leftarrow> align_ascii addr m src;
          src \<leftarrow> (if \<not> unaligned addr src then ascii_groups m src else Some src);
          n \<leftarrow> ascii_bytes m src;
          (exit_reason, rest_consumed) \<leftarrow> UTF8GenericScan st (addr + n) (drop n m);
          if exit_reason = kExitDoAgain then UTF8GenericScanFastAscii_from st addr m (n + rest_consumed)
          else Some (exit_reason, n + rest_consumed) }"

definition UTF8GenericScanFastAscii :: "UTF8ScanObj \<Rightarrow> nat \<Rightarrow> byte list \<Rightarrow> (nat \<times> nat) option" where
  "UTF8GenericScanFastAscii st addr m =
     (if m = [] then Some (kExitOK, 0) else UTF8GenericScanFastAscii_from st addr m 0)"

definition IsStructurallyValidUTF8 :: "bool \<Rightarrow> nat \<Rightarrow> byte list \<Rightarrow> bool option" where
  \<comment> \<open>the first argument is \<open>module_initialized_\<close>\<close>
  "IsStructurallyValidUTF8 module_initialized addr buf =
     (if \<not> module_initialized then Some True
      else do { (reason, bytes_consumed) \<leftarrow> UTF8GenericScanFastAscii utf8acceptnonsurrogates_obj addr buf;
                Some (bytes_consumed = length buf) })"

end
