(* ===== verification/Utf8Laws.thy ===== *)
theory Utf8Laws
  imports Utf8
begin

text \<open>
  The scanner of \<open>Utf8\<close> against the definition of UTF-8: the state table as a transition function,
  one character of the text as a run of it, and the fast scans, which only skip ASCII.
\<close>

declare align_fast.simps [simp del] fast_groups.simps [simp del] scan_bytes.simps [simp del]
  align_ascii.simps [simp del] ascii_groups.simps [simp del] ascii_bytes.simps [simp del]

subsection \<open>The state table\<close>

definition utf8_step :: "nat \<Rightarrow> nat \<Rightarrow> nat" where
  "utf8_step q c =
     (if q = 0 then
        if c < 0x80 then 0 else if c < 0xC2 then 240 else if c < 0xE0 then 1 else if c = 0xE0 then 2
        else if c = 0xED then 7 else if c < 0xF0 then 3 else if c = 0xF0 then 4 else if c < 0xF4 then 5
        else if c = 0xF4 then 6 else 240
      else if c < 0x80 \<or> 0xC0 \<le> c then 240
      else if q = 1 then 0
      else if q = 2 then if c < 0xA0 then 240 else 1
      else if q = 3 then 1
      else if q = 4 then if c < 0x90 then 240 else 3
      else if q = 5 then 3
      else if q = 6 then if c < 0x90 then 3 else 240
      else if q = 7 then if c < 0xA0 then 1 else 8
      else 242)"

lemma utf8_step_range: "utf8_step q c < 9 \<or> utf8_step q c = 240 \<or> utf8_step q c = 242"
  by (simp add: utf8_step_def)

lemma utf8_step_0: "utf8_step q c = 0 \<longleftrightarrow> (q = 0 \<and> c < 0x80) \<or> (q = 1 \<and> 0x80 \<le> c \<and> c < 0xC0)"
  by (simp add: utf8_step_def)

lemma utf8_step_continues:
  "0 < q \<Longrightarrow> utf8_step q c < 240 \<Longrightarrow> 0x80 \<le> c \<and> c < 0xC0"
  by (simp add: utf8_step_def split: if_splits)

lemma utf8_step_leads:
  "utf8_step 0 c < 240 \<Longrightarrow> utf8_step 0 c \<noteq> 0 \<Longrightarrow> 0xC0 \<le> c"
  by (simp add: utf8_step_def split: if_splits)

lemma nth_concat_blocks:
  assumes "list_all (\<lambda>b. length b = n) bs" "q < length bs" "c < n"
  shows "concat bs ! (n * q + c) = bs ! q ! c"
  using assms
proof (induction bs arbitrary: q)
  case (Cons b bs)
  show ?case
  proof (cases q)
    case (Suc r)
    have "n * q + c = length b + (n * r + c)" using Cons.prems Suc by simp
    then show ?thesis using Cons.IH [of r] Cons.prems Suc by (simp only: concat.simps nth_append_length_plus) simp
  qed (use Cons.prems in \<open>simp add: nth_append\<close>)
qed simp

lemmas utf8_blocks = utf8_byte_1_def utf8_byte_2_of_2_def utf8_byte_2_of_3_E0_def utf8_byte_2_of_3_def
  utf8_byte_2_of_4_F0_def utf8_byte_2_of_4_def utf8_byte_2_of_4_F4_def utf8_byte_2_of_3_ED_def utf8_byte_3_of_3_ED_def

lemmas exit_codes = kExitIllegalStructure_def kExitOK_def kExitReject_def kExitDoAgain_def

lemma utf8_byte_1_nth: "c < 256 \<Longrightarrow> utf8_byte_1 ! c = of_nat (utf8_step 0 c)"
  by (auto simp: utf8_byte_1_def utf8_step_def nth_append exit_codes)

lemma utf8_later_nth:
  assumes "c < 256"
  shows "utf8_byte_2_of_2 ! c = of_nat (utf8_step 1 c)"
    "utf8_byte_2_of_3_E0 ! c = of_nat (utf8_step 2 c)"
    "utf8_byte_2_of_3 ! c = of_nat (utf8_step 3 c)"
    "utf8_byte_2_of_4_F0 ! c = of_nat (utf8_step 4 c)"
    "utf8_byte_2_of_4 ! c = of_nat (utf8_step 5 c)"
    "utf8_byte_2_of_4_F4 ! c = of_nat (utf8_step 6 c)"
    "utf8_byte_2_of_3_ED ! c = of_nat (utf8_step 7 c)"
    "utf8_byte_3_of_3_ED ! c = of_nat (utf8_step 8 c)"
  using assms by (auto simp: utf8_blocks utf8_step_def nth_append exit_codes)

lemma state_table_entry:
  assumes "q < 9"
  shows "mem_at utf8acceptnonsurrogates (256 * q + unat (c :: byte)) = Some (of_nat (utf8_step q (unat c)))"
proof -
  let ?bs = "[utf8_byte_1, utf8_byte_2_of_2, utf8_byte_2_of_3_E0, utf8_byte_2_of_3, utf8_byte_2_of_4_F0,
      utf8_byte_2_of_4, utf8_byte_2_of_4_F4, utf8_byte_2_of_3_ED, utf8_byte_3_of_3_ED]"
  have b: "list_all (\<lambda>b. length b = 256) ?bs" by (simp add: utf8_blocks)
  have c: "unat c < 256" by (rule byte_lt_256)
  have "length utf8acceptnonsurrogates = 2304" by (simp add: utf8acceptnonsurrogates_def utf8_blocks)
  moreover have "?bs ! q ! unat c = of_nat (utf8_step q (unat c))"
    using assms utf8_byte_1_nth [OF c] utf8_later_nth [OF c]
    by (auto simp: less_Suc_eq numeral_eq_Suc)
  ultimately show ?thesis
    using nth_concat_blocks [OF b _ c, of q] assms c by (simp add: mem_at_def utf8acceptnonsurrogates_def)
qed

lemma unat_step: "unat (of_nat (utf8_step q c) :: byte) = utf8_step q c"
  using utf8_step_range [of q c] by (auto simp: unat_of_nat_byte)

abbreviation "utf8 \<equiv> utf8acceptnonsurrogates_obj"

lemma scan_step:
  assumes "q < 9" "src < length m"
  shows "scan_bytes utf8 m (256 * q) e src
    = (let e = utf8_step q (unat (m ! src)) in
       if 240 \<le> e then Some (256 * q, e, src + 1) else scan_bytes utf8 m (256 * e) e (src + 1))"
  using assms state_table_entry [OF assms(1), of "m ! src"]
  by (subst scan_bytes.simps)
    (simp add: mem_at_def [of m] utf8acceptnonsurrogates_obj_def unat_step Let_def exit_codes push_bit_eq_mult mult.commute)

lemma scan_end: "length m \<le> src \<Longrightarrow> scan_bytes st m Tbl e src = Some (Tbl, e, src)"
  by (subst scan_bytes.simps) simp

lemma state_zero: "q < 9 \<Longrightarrow> InStateZero utf8 (256 * q) \<longleftrightarrow> q = 0"
  by (auto simp: InStateZero_def utf8acceptnonsurrogates_obj_def)


subsection \<open>One character\<close>

fun char_tail :: "nat \<Rightarrow> byte list \<Rightarrow> nat option" where
  \<comment> \<open>how many bytes complete a character in the state \<open>q\<close>\<close>
  "char_tail q [] = (if q = 0 then Some 0 else None)"
| "char_tail q (c # s) =
     (if q = 0 then Some 0 else if 240 \<le> utf8_step q (unat c) then None
      else map_option Suc (char_tail (utf8_step q (unat c)) s))"

fun char_len :: "byte list \<Rightarrow> nat option" where
  \<comment> \<open>the length of the character at the front\<close>
  "char_len [] = None"
| "char_len (c # s) =
     (if 240 \<le> utf8_step 0 (unat c) then None else map_option Suc (char_tail (utf8_step 0 (unat c)) s))"

lemma char_tail_le: "char_tail q s = Some k \<Longrightarrow> k \<le> length s"
  by (induction q s arbitrary: k rule: char_tail.induct) (auto split: if_splits)

lemma char_len_le: "char_len s = Some k \<Longrightarrow> 0 < k \<and> k \<le> length s"
  by (cases s) (auto split: if_splits dest: char_tail_le)

lemma char_tail_local: "char_tail q s = Some k \<Longrightarrow> char_tail q (take k s @ t) = Some k"
  by (induction q s arbitrary: k rule: char_tail.induct) (auto split: if_splits, (cases t, auto)+)

lemma char_len_local: "char_len s = Some k \<Longrightarrow> char_len (take k s @ t) = Some k"
  by (cases s) (auto split: if_splits dest: char_tail_local)

function utf8_prefix :: "byte list \<Rightarrow> nat" where
  \<comment> \<open>the length of the characters at the front\<close>
  "utf8_prefix s = (case char_len s of None \<Rightarrow> 0 | Some k \<Rightarrow> k + utf8_prefix (drop k s))"
  by pat_completeness auto
termination by (relation "measure length") (auto dest: char_len_le)

declare utf8_prefix.simps [simp del]

lemma utf8_prefix_le: "utf8_prefix s \<le> length s"
proof (induction s rule: utf8_prefix.induct)
  case (1 s)
  show ?case
  proof (cases "char_len s")
    case (Some k)
    then have "utf8_prefix s = k + utf8_prefix (drop k s)" by (subst utf8_prefix.simps) simp
    then show ?thesis using 1 [OF Some] char_len_le [OF Some] unfolding length_drop by linarith
  qed (simp add: utf8_prefix.simps [of s])
qed

subsection \<open>A run of the scanner over one character\<close>

lemma byte_and_0xC0: "(c :: byte) AND 0xC0 = 0x80 \<longleftrightarrow> 0x80 \<le> unat c \<and> unat c < 0xC0"
proof -
  have e: "c AND 0xC0 = push_bit 6 (drop_bit 6 c)"
  proof (rule bit_word_eqI)
    fix n
    assume "n < LENGTH(8)"
    then have "n < 8" by simp
    then have "n = 0 \<or> n = 1 \<or> n = 2 \<or> n = 3 \<or> n = 4 \<or> n = 5 \<or> n = 6 \<or> n = 7" by linarith
    then show "bit (c AND 0xC0) n = bit (push_bit 6 (drop_bit 6 c)) n"
      by (auto simp: bit_simps)
  qed
  have "unat (push_bit 6 (drop_bit 6 c)) = unat c div 64 * 64"
    using byte_lt_256 [of c] by (simp add: push_bit_eq_mult unat_word_ariths unat_drop_bit)
  moreover have "c AND 0xC0 = 0x80 \<longleftrightarrow> unat (c AND 0xC0) = unat (0x80 :: byte)"
    by (simp only: word_unat_eq_iff)
  ultimately have "c AND 0xC0 = 0x80 \<longleftrightarrow> unat c div 64 * 64 = 128"
    unfolding e by simp
  also have "\<dots> \<longleftrightarrow> unat c div 64 = 2" by linarith
  also have "\<dots> \<longleftrightarrow> 0x80 \<le> unat c \<and> unat c < 0xC0" by linarith
  finally show ?thesis .
qed

definition continues :: "byte list \<Rightarrow> nat \<Rightarrow> nat \<Rightarrow> bool" where
  "continues m a b \<longleftrightarrow> (\<forall>i. a \<le> i \<and> i < b \<longrightarrow> 0x80 \<le> unat (m ! i) \<and> unat (m ! i) < 0xC0)"

lemma continues_empty [simp]: "b \<le> a \<Longrightarrow> continues m a b"
  by (simp add: continues_def)

lemma continues_first:
  assumes "0x80 \<le> unat (m ! a)" "unat (m ! a) < 0xC0" "continues m (Suc a) b"
  shows "continues m a b"
  using assms unfolding continues_def by (metis Suc_leI le_neq_implies_less)

lemma back_up_start:
  assumes "start < src" "src \<le> length m" "0xC0 \<le> unat (m ! start)" "continues m (Suc start) src"
  shows "back_up m src = Some start"
  using assms
proof (induction src)
  case (Suc src)
  show ?case
  proof (cases "src = start")
    case True
    then show ?thesis using Suc.prems by (simp add: mem_at_def byte_and_0xC0)
  next
    case False
    then have "start < src" using Suc.prems(1) by simp
    moreover have "continues m (Suc start) src" using Suc.prems(4) by (simp add: continues_def)
    moreover have "0x80 \<le> unat (m ! src)" "unat (m ! src) < 0xC0"
      using Suc.prems(4) \<open>start < src\<close> by (simp_all add: continues_def)
    ultimately show ?thesis using Suc by (simp add: mem_at_def byte_and_0xC0)
  qed
qed simp

lemma scan_tail_complete:
  assumes "char_tail q (drop src m) = Some k" "0 < q" "q < 9" "src \<le> length m"
  shows "scan_bytes utf8 m (256 * q) e src = scan_bytes utf8 m 0 0 (src + k)"
  using assms
proof (induction k arbitrary: q src e)
  case 0
  then show ?case by (cases "drop src m") (auto split: if_splits)
next
  case (Suc k)
  then have l: "src < length m" by (cases "src < length m") simp_all
  let ?e = "utf8_step q (unat (m ! src))"
  have t: "?e < 240" "char_tail ?e (drop (Suc src) m) = Some k"
    using Suc.prems(1,2) Cons_nth_drop_Suc [OF l, symmetric] by (auto split: if_splits)
  then have "?e < 9" using utf8_step_range [of q "unat (m ! src)"] by auto
  show ?case
  proof (cases "?e = 0")
    case True
    then have "k = 0" using t(2) by (cases "drop (Suc src) m") simp_all
    then show ?thesis using True scan_step [OF Suc.prems(3) l, of e] by simp
  next
    case False
    then show ?thesis
      using Suc.IH [OF t(2) _ \<open>?e < 9\<close>, of ?e] scan_step [OF Suc.prems(3) l, of e] t(1) l
      by (simp add: Let_def)
  qed
qed

definition scan_breaks :: "byte list \<Rightarrow> nat \<Rightarrow> nat \<Rightarrow> nat \<times> nat \<times> nat \<Rightarrow> bool" where
  \<comment> \<open>the scan stops inside a character, at a wrong byte or at the end\<close>
  "scan_breaks m q src = (\<lambda>(Tbl, e, n).
     (\<exists>q'. 0 < q' \<and> q' < 9 \<and> Tbl = 256 * q') \<and> src \<le> n \<and> n \<le> length m
     \<and> ((e = 240 \<or> e = 242) \<and> src < n \<and> continues m src (n - 1) \<or> e < 240 \<and> n = length m \<and> continues m src n))"

lemma scan_breaks_step:
  assumes "scan_breaks m q' (Suc src) r" "0x80 \<le> unat (m ! src)" "unat (m ! src) < 0xC0"
  shows "scan_breaks m q src r"
proof -
  obtain Tbl e n where r: "r = (Tbl, e, n)" by (cases r)
  have "continues m (Suc src) b \<Longrightarrow> continues m src b" for b by (rule continues_first [OF assms(2,3)])
  then show ?thesis using assms(1) by (auto simp: scan_breaks_def r)
qed

lemma scan_tail_broken:
  assumes "char_tail q (drop src m) = None" "0 < q" "q < 9" "src \<le> length m"
  shows "\<exists>r. scan_bytes utf8 m (256 * q) q src = Some r \<and> scan_breaks m q src r"
  using assms
proof (induction "length m - src" arbitrary: q src)
  case 0
  then show ?case using scan_end [of m src utf8 "256 * q" q] by (auto simp: scan_breaks_def)
next
  case (Suc k)
  then have l: "src < length m" by simp
  let ?e = "utf8_step q (unat (m ! src))"
  show ?case
  proof (cases "?e < 240")
    case False
    then have "?e = 240 \<or> ?e = 242" using utf8_step_range [of q "unat (m ! src)"] by auto
    then show ?thesis
      using scan_step [OF Suc.prems(3) l, of q] Suc.prems(2,3) l by (auto simp: Let_def scan_breaks_def)
  next
    case True
    then have e9: "?e < 9" using utf8_step_range [of q "unat (m ! src)"] by auto
    have t: "char_tail ?e (drop (Suc src) m) = None"
      using Suc.prems(1,2) True Cons_nth_drop_Suc [OF l, symmetric] by (auto split: if_splits)
    then have e0: "0 < ?e" by (cases "drop (Suc src) m") (auto split: if_splits)
    have "k = length m - Suc src" using Suc.hyps(2) by simp
    then obtain r where "scan_bytes utf8 m (256 * ?e) ?e (Suc src) = Some r" "scan_breaks m ?e (Suc src) r"
      using Suc.hyps(1) [OF _ t e0 e9] l by auto
    moreover have "scan_bytes utf8 m (256 * q) q src = scan_bytes utf8 m (256 * ?e) ?e (Suc src)"
      using scan_step [OF Suc.prems(3) l, of q] True by (simp add: Let_def)
    ultimately show ?thesis
      using scan_breaks_step utf8_step_continues [OF Suc.prems(2) True] by metis
  qed
qed

subsection \<open>The scan from the initial state\<close>

definition stop :: "byte list \<Rightarrow> nat \<times> nat \<times> nat \<Rightarrow> (nat \<times> nat) option" where
  \<comment> \<open>the exit of \<open>UTF8GenericScan\<close>\<close>
  "stop m = (\<lambda>(Tbl, e, src).
     if e \<ge> kExitIllegalStructure then
       if \<not> InStateZero utf8 Tbl then do { src \<leftarrow> back_up m (src - 1); Some (e, src) }
       else Some (e, src - 1)
     else if \<not> InStateZero utf8 Tbl then
       do { src \<leftarrow> back_up m src; Some (kExitIllegalStructure, src) }
     else Some (kExitOK, src))"

lemma stop_broken:
  assumes "scan_breaks m q (Suc src) r" "0xC0 \<le> unat (m ! src)"
  shows "\<exists>e. stop m r = Some (e, src) \<and> (e = 240 \<or> e = 242)"
proof -
  obtain q' e n where r: "r = (256 * q', e, n)" "0 < q'" "q' < 9" "Suc src \<le> n" "n \<le> length m"
    "(e = 240 \<or> e = 242) \<and> Suc src < n \<and> continues m (Suc src) (n - 1)
     \<or> e < 240 \<and> n = length m \<and> continues m (Suc src) n"
    using assms(1) by (cases r) (auto simp: scan_breaks_def)
  have z: "\<not> InStateZero utf8 (256 * q')" using state_zero [OF r(3)] r(2) by simp
  show ?thesis
  proof (cases "e < 240")
    case True
    then have "back_up m n = Some src" using r assms(2) by (intro back_up_start) auto
    then show ?thesis using True z by (simp add: stop_def r(1) exit_codes)
  next
    case False
    then have "back_up m (n - 1) = Some src" using r assms(2) by (intro back_up_start) auto
    then show ?thesis using False z r(6) by (simp add: stop_def r(1) exit_codes)
  qed
qed

definition scan_result :: "byte list \<Rightarrow> nat \<times> nat \<Rightarrow> bool" where
  "scan_result m = (\<lambda>(e, n). n = utf8_prefix m \<and> (if n = length m then e = 241 else e = 240 \<or> e = 242))"

lemma utf8_prefix_Some: "char_len s = Some k \<Longrightarrow> utf8_prefix s = k + utf8_prefix (drop k s)"
  by (subst utf8_prefix.simps) simp

lemma utf8_prefix_None: "char_len s = None \<Longrightarrow> utf8_prefix s = 0"
  by (subst utf8_prefix.simps) simp

lemma scan_from_zero:
  assumes "src \<le> length m"
  shows "\<exists>r e n. scan_bytes utf8 m 0 0 src = Some r \<and> stop m r = Some (e, src + n) \<and> scan_result (drop src m) (e, n)"
  using assms
proof (induction "length m - src" arbitrary: src rule: less_induct)
  case less
  show ?case
  proof (cases "src = length m")
    case True
    then show ?thesis
      using scan_end [of m src utf8 0 0] state_zero [of 0]
      by (simp add: stop_def exit_codes scan_result_def utf8_prefix_None)
  next
    case False
    then have l: "src < length m" using less.prems by simp
    note d = Cons_nth_drop_Suc [OF l, symmetric]
    let ?e = "utf8_step 0 (unat (m ! src))"
    have s: "scan_bytes utf8 m 0 0 src
        = (if 240 \<le> ?e then Some (0, ?e, src + 1) else scan_bytes utf8 m (256 * ?e) ?e (Suc src))"
      using scan_step [OF _ l, of 0 0] by (simp add: Let_def)
    show ?thesis
    proof (cases "char_len (drop src m)")
      case (Some k)
      then have k: "0 < k" "src + k \<le> length m" using char_len_le [OF Some] l by auto
      have t: "?e < 240" "char_tail ?e (drop (Suc src) m) = Some (k - 1)"
        using Some d by (auto split: if_splits)
      have "scan_bytes utf8 m 0 0 src = scan_bytes utf8 m 0 0 (src + k)"
      proof (cases "?e = 0")
        case True
        then have "k = 1" using t(2) k(1) by (cases "drop (Suc src) m") auto
        then show ?thesis using s True by simp
      next
        case False
        then show ?thesis
          using s t(1) k(1) scan_tail_complete [OF t(2), of ?e] utf8_step_range [of 0 "unat (m ! src)"] l by auto
      qed
      moreover obtain r e n where "scan_bytes utf8 m 0 0 (src + k) = Some r" "stop m r = Some (e, src + k + n)"
        "scan_result (drop (src + k) m) (e, n)"
        using less.hyps [of "src + k"] k l by fastforce
      ultimately show ?thesis
        using utf8_prefix_Some [OF Some] k
        by (intro exI [of _ r] exI [of _ e] exI [of _ "k + n"])
          (auto simp: scan_result_def add.commute [of k] add.assoc split: if_splits)
    next
      case None
      note p = utf8_prefix_None [OF None]
      have ne: "length (drop src m) \<noteq> 0" using l by simp
      show ?thesis
      proof (cases "?e < 240")
        case False
        then have "?e = 240 \<or> ?e = 242" using utf8_step_range [of 0 "unat (m ! src)"] by auto
        then show ?thesis
          using s False state_zero [of 0] p ne by (auto simp: stop_def exit_codes scan_result_def)
      next
        case True
        have t: "char_tail ?e (drop (Suc src) m) = None" using None d True by auto
        then have e0: "0 < ?e" by (cases "drop (Suc src) m") (auto split: if_splits)
        have e9: "?e < 9" using utf8_step_range [of 0 "unat (m ! src)"] True by auto
        obtain r where "scan_bytes utf8 m (256 * ?e) ?e (Suc src) = Some r" "scan_breaks m ?e (Suc src) r"
          using scan_tail_broken [OF t e0 e9] l by auto
        then show ?thesis
          using s True stop_broken [of m ?e src r] utf8_step_leads [OF True] e0 p ne
          by (auto simp: scan_result_def)
      qed
    qed
  qed
qed

subsection \<open>The fast scans\<close>

definition ascii :: "byte list \<Rightarrow> nat \<Rightarrow> nat \<Rightarrow> bool" where
  "ascii m a b \<longleftrightarrow> a \<le> b \<and> b \<le> length m \<and> (\<forall>i. a \<le> i \<and> i < b \<longrightarrow> unat (m ! i) < 0x80)"

lemma ascii_refl: "a \<le> length m \<Longrightarrow> ascii m a a"
  by (simp add: ascii_def)

lemma ascii_trans: "ascii m a b \<Longrightarrow> ascii m b c \<Longrightarrow> ascii m a c"
  unfolding ascii_def by (meson le_trans not_le)

lemma ascii_one: "src < length m \<Longrightarrow> unat (m ! src) < 0x80 \<Longrightarrow> ascii m src (src + 1)"
  by (auto simp: ascii_def less_Suc_eq)

lemma ascii_prefix:
  assumes "ascii m a b"
  shows "utf8_prefix (drop a m) = (b - a) + utf8_prefix (drop b m)"
  using assms
proof (induction "b - a" arbitrary: a)
  case 0
  then show ?case by (simp add: ascii_def)
next
  case (Suc k)
  then have l: "a < b" "a < length m" "unat (m ! a) < 0x80" by (auto simp: ascii_def)
  have "char_len (drop a m) = Some 1"
    using Cons_nth_drop_Suc [OF l(2), symmetric] l(3) by (cases "drop (Suc a) m") (simp_all add: utf8_step_def)
  then have "utf8_prefix (drop a m) = 1 + utf8_prefix (drop (Suc a) m)"
    by (simp add: utf8_prefix_Some)
  moreover have "ascii m (Suc a) b" using Suc.prems l(1) by (auto simp: ascii_def)
  ultimately show ?case using Suc.hyps(1) [of "Suc a"] Suc.hyps(2) l(1) by simp
qed

lemma fast_entry: "mem_at utf8acceptnonsurrogates_fast (unat (c :: byte)) = Some (if unat c < 0x80 then 0 else 1)"
  using byte_lt_256 [of c] by (simp add: mem_at_def utf8acceptnonsurrogates_fast_def nth_append)

lemma align_fast_ascii:
  assumes "src \<le> length m"
  shows "\<exists>n. align_fast (st_fast_state utf8) addr m src = Some n \<and> ascii m src n"
  using assms
proof (induction "length m - src" arbitrary: src rule: less_induct)
  case less
  show ?case
  proof (cases "unaligned addr src \<and> src < length m \<and> unat (m ! src) < 0x80")
    case True
    then obtain n where "align_fast (st_fast_state utf8) addr m (src + 1) = Some n" "ascii m (src + 1) n"
      using less.hyps [of "src + 1"] by fastforce
    then show ?thesis
      using True ascii_trans [OF ascii_one]
      by (subst align_fast.simps) (simp add: mem_at_def [of m] fast_entry utf8acceptnonsurrogates_obj_def)
  next
    case False
    then show ?thesis
      using less.prems ascii_refl
      by (subst align_fast.simps) (auto simp: mem_at_def [of m] fast_entry utf8acceptnonsurrogates_obj_def)
  qed
qed

lemma align_ascii_ascii:
  assumes "src \<le> length m"
  shows "\<exists>n. align_ascii addr m src = Some n \<and> ascii m src n"
  using assms
proof (induction "length m - src" arbitrary: src rule: less_induct)
  case less
  show ?case
  proof (cases "unaligned addr src \<and> src < length m \<and> unat (m ! src) < 0x80")
    case True
    then obtain n where "align_ascii addr m (src + 1) = Some n" "ascii m (src + 1) n"
      using less.hyps [of "src + 1"] by fastforce
    then show ?thesis
      using True ascii_trans [OF ascii_one]
      by (subst align_ascii.simps) (simp add: mem_at_def [of m] byte_less_0x80)
  next
    case False
    then show ?thesis
      using less.prems ascii_refl by (subst align_ascii.simps) (auto simp: mem_at_def [of m] byte_less_0x80)
  qed
qed

lemma ascii_bytes_ascii:
  assumes "src \<le> length m"
  shows "\<exists>n. ascii_bytes m src = Some n \<and> ascii m src n"
  using assms
proof (induction "length m - src" arbitrary: src rule: less_induct)
  case less
  show ?case
  proof (cases "src < length m \<and> unat (m ! src) < 0x80")
    case True
    then obtain n where "ascii_bytes m (src + 1) = Some n" "ascii m (src + 1) n"
      using less.hyps [of "src + 1"] by fastforce
    then show ?thesis
      using True ascii_trans [OF ascii_one] by (subst ascii_bytes.simps) (simp add: mem_at_def [of m] byte_less_0x80)
  next
    case False
    then show ?thesis
      using less.prems ascii_refl by (subst ascii_bytes.simps) (auto simp: mem_at_def [of m] byte_less_0x80)
  qed
qed

text \<open>The range check on a word never passes a byte that is not ASCII.\<close>

definition four_bytes :: "byte list \<Rightarrow> nat \<Rightarrow> u32" where
  "four_bytes m i = ucast (m ! i) OR push_bit 8 (ucast (m ! (i + 1)))
     OR push_bit 16 (ucast (m ! (i + 2))) OR push_bit 24 (ucast (m ! (i + 3)))"

lemma load32_Some: "i + 3 < length m \<Longrightarrow> load32 m i = Some (four_bytes m i)"
  by (simp add: load32_def four_bytes_def mem_at_def)

lemma high_bits:
  "four_bytes m i AND 0x80808080 = 0 \<longleftrightarrow> (\<forall>j < 4. unat (m ! (i + j)) < 0x80)"
proof -
  have b: "unat (c :: byte) < 0x80 \<longleftrightarrow> \<not> bit c 7" for c
  proof -
    have "\<not> bit c 7 \<longleftrightarrow> even (unat c div 128)"
      using bit_iff_odd [of "unat c" 7] by (simp add: bit_unsigned_iff)
    moreover have "unat c div 128 < 2" using byte_lt_256 [of c] by (simp add: less_mult_imp_div_less)
    ultimately have "\<not> bit c 7 \<longleftrightarrow> unat c div 128 = 0" by (auto simp: less_2_cases_iff)
    then show ?thesis by (simp add: div_eq_0_iff)
  qed
  have f: "(w :: u32) AND 0x80808080 = 0 \<longleftrightarrow> \<not> bit w 7 \<and> \<not> bit w 15 \<and> \<not> bit w 23 \<and> \<not> bit w 31" for w
  proof
    assume "w AND 0x80808080 = 0"
    then have "\<not> bit (w AND 0x80808080) n" for n by simp
    from this [of 7] this [of 15] this [of 23] this [of 31]
    show "\<not> bit w 7 \<and> \<not> bit w 15 \<and> \<not> bit w 23 \<and> \<not> bit w 31" by (simp add: bit_simps)
  next
    assume a: "\<not> bit w 7 \<and> \<not> bit w 15 \<and> \<not> bit w 23 \<and> \<not> bit w 31"
    have m: "0x80808080 = (push_bit 7 1 OR push_bit 15 1 OR push_bit 23 1 OR push_bit 31 1 :: u32)" by simp
    have "n = 7 \<or> n = 15 \<or> n = 23 \<or> n = 31" if "bit (0x80808080 :: u32) n" for n
      using that unfolding m bit_or_iff bit_push_bit_iff bit_1_iff by linarith
    then show "w AND 0x80808080 = 0"
      using a by (intro bit_word_eqI) (auto simp: bit_and_iff)
  qed
  have out: "\<not> bit (c :: byte) 15" "\<not> bit (c :: byte) 23" "\<not> bit (c :: byte) 31" for c
    using bit_imp_le_length [of c] by fastforce+
  have "bit (four_bytes m i) 7 = bit (m ! i) 7" "bit (four_bytes m i) 15 = bit (m ! (i + 1)) 7"
    "bit (four_bytes m i) 23 = bit (m ! (i + 2)) 7" "bit (four_bytes m i) 31 = bit (m ! (i + 3)) 7"
    using out by (simp_all add: four_bytes_def bit_simps)
  moreover have "(\<forall>j < 4. P j) \<longleftrightarrow> P 0 \<and> P 1 \<and> P 2 \<and> P (3 :: nat)" for P
    by (auto simp: less_Suc_eq numeral_eq_Suc)
  ultimately show ?thesis unfolding f b by simp
qed

lemma fast_or_Some:
  assumes "i + 3 < length m"
  shows "\<exists>e. fast_or (st_fast_state utf8) m i = Some e \<and> (e = 0 \<longleftrightarrow> (\<forall>j < 4. unat (m ! (i + j)) < 0x80))"
proof -
  have "(\<forall>j < 4. P j) \<longleftrightarrow> P 0 \<and> P 1 \<and> P 2 \<and> P (3 :: nat)" for P
    by (auto simp: less_Suc_eq numeral_eq_Suc)
  then show ?thesis
    using assms by (auto simp: fast_or_def mem_at_def [of m] fast_entry utf8acceptnonsurrogates_obj_def)
qed

lemma ascii_four: "src + 3 < length m \<Longrightarrow> (\<forall>j < 4. unat (m ! (src + j)) < 0x80) \<Longrightarrow> ascii m src (src + 4)"
  unfolding ascii_def by (auto simp: less_eq_Suc_le [symmetric] dest: spec [where x = "i - src" for i] le_Suc_ex)

lemma ascii_eight:
  assumes "src + 7 < length m" "\<forall>j < 4. unat (m ! (src + j)) < 0x80" "\<forall>j < 4. unat (m ! (src + 4 + j)) < 0x80"
  shows "ascii m src (src + 8)"
proof -
  have e: "src + 4 + 4 = src + 8" by simp
  show ?thesis using ascii_trans [OF ascii_four ascii_four [of "src + 4" m, unfolded e]] assms by simp
qed

lemma fast_groups_ascii:
  assumes "src \<le> length m"
  shows "\<exists>n. fast_groups utf8 m src = Some n \<and> ascii m src n"
  using assms
proof (induction "length m - src" arbitrary: src rule: less_induct)
  case less
  show ?case
  proof (cases "src + 7 < length m")
    case False
    then show ?thesis using less.prems ascii_refl by (subst fast_groups.simps) auto
  next
    case True
    let ?lo = "four_bytes m src" and ?hi = "four_bytes m (src + 4)"
    have w: "load32 m src = Some ?lo" "load32 m (src + 4) = Some ?hi" using True by (auto intro: load32_Some)
    obtain e0 where e0: "fast_or (st_fast_state utf8) m src = Some e0" "e0 = 0 \<longleftrightarrow> (\<forall>j < 4. unat (m ! (src + j)) < 0x80)"
      using fast_or_Some [of src m] True by auto
    obtain e4 where e4: "fast_or (st_fast_state utf8) m (src + 4) = Some e4"
      "e4 = 0 \<longleftrightarrow> (\<forall>j < 4. unat (m ! (src + 4 + j)) < 0x80)"
      using fast_or_Some [of "src + 4" m] True by auto
    have g: "ascii m src (src + 4)" if "e0 = 0" using that e0(2) ascii_four [of src m] True by simp
    have h: "ascii m src (src + 8)" if "e0 = 0" "e4 = 0"
      using ascii_eight [OF True] that e0(2) e4(2) by simp
    obtain n where n: "fast_groups utf8 m (src + 8) = Some n" "ascii m (src + 8) n"
      using less.hyps [of "src + 8"] True by fastforce
    let ?temp = "(?lo - st_losub utf8) OR (?lo + st_hiadd utf8) OR (?hi - st_losub utf8) OR (?hi + st_hiadd utf8)"
    have t: "e0 = 0 \<and> e4 = 0" if "?temp AND 0x80808080 = 0"
    proof -
      have "?lo AND 0x80808080 = 0" "?hi AND 0x80808080 = 0"
        using that by (simp_all add: utf8acceptnonsurrogates_obj_def bit.conj_disj_distrib2 or_eq_0_iff)
      then show ?thesis using high_bits [of m src] high_bits [of m "src + 4"] e0(2) e4(2) by simp
    qed
    show ?thesis
    proof (cases "e0 = 0 \<and> e4 = 0")
      case True
      then have "fast_groups utf8 m src = fast_groups utf8 m (src + 8)"
        using \<open>src + 7 < length m\<close> w e0(1) e4(1) by (subst fast_groups.simps) simp
      then show ?thesis using n ascii_trans [OF h] True by auto
    next
      case False
      then have "?temp AND 0x80808080 \<noteq> 0" using t by auto
      then have "fast_groups utf8 m src = (if e0 = 0 then Some (src + 4) else Some src)"
        using \<open>src + 7 < length m\<close> w e0(1) e4(1) False by (subst fast_groups.simps) (auto simp: Let_def)
      then show ?thesis using g ascii_refl less.prems by auto
    qed
  qed
qed

lemma ascii_groups_ascii:
  assumes "src \<le> length m"
  shows "\<exists>n. ascii_groups m src = Some n \<and> ascii m src n"
  using assms
proof (induction "length m - src" arbitrary: src rule: less_induct)
  case less
  show ?case
  proof (cases "src + 7 < length m \<and> (four_bytes m src OR four_bytes m (src + 4)) AND 0x80808080 = 0")
    case True
    then have "four_bytes m src AND 0x80808080 = 0" "four_bytes m (src + 4) AND 0x80808080 = 0"
      by (simp_all add: bit.conj_disj_distrib2 or_eq_0_iff)
    then have "ascii m src (src + 8)"
      using True high_bits [of m src] high_bits [of m "src + 4"] by (intro ascii_eight) auto
    moreover obtain n where "ascii_groups m (src + 8) = Some n" "ascii m (src + 8) n"
      using less.hyps [of "src + 8"] True by fastforce
    moreover have "ascii_groups m src = ascii_groups m (src + 8)"
      using True load32_Some [of src m] load32_Some [of "src + 4" m] by (subst ascii_groups.simps) simp
    ultimately show ?thesis using ascii_trans by metis
  next
    case False
    then show ?thesis
      using less.prems ascii_refl load32_Some [of src m] load32_Some [of "src + 4" m]
      by (subst ascii_groups.simps) auto
  qed
qed

subsection \<open>The whole scan\<close>

lemma scan_result_ascii:
  assumes "ascii m 0 b" "scan_result (drop b m) (e, n)"
  shows "scan_result m (e, b + n)"
  using assms ascii_prefix [OF assms(1)] by (auto simp: scan_result_def ascii_def split: if_splits)

lemma utf8_state0: "st_state0 utf8 = 0"
  by (simp add: utf8acceptnonsurrogates_obj_def)

lemma UTF8GenericScan_result:
  "\<exists>r. UTF8GenericScan utf8 addr m = Some r \<and> scan_result m r"
proof (cases "m = []")
  case True
  then show ?thesis by (simp add: UTF8GenericScan_def scan_result_def utf8_prefix_None exit_codes)
next
  case False
  obtain a where a: "align_fast (st_fast_state utf8) addr m 0 = Some a" "ascii m 0 a"
    using align_fast_ascii [of 0 m addr] by auto
  have la: "a \<le> length m" using a(2) by (simp add: ascii_def)
  obtain b where b: "(if \<not> unaligned addr a then fast_groups utf8 m a else Some a) = Some b" "ascii m a b"
    using fast_groups_ascii [of a m] ascii_refl [of a m] la by (cases "unaligned addr a") auto
  obtain r e n where r: "scan_bytes utf8 m 0 0 b = Some r" "stop m r = Some (e, b + n)" "scan_result (drop b m) (e, n)"
    using scan_from_zero [of b m] b(2) by (auto simp: ascii_def)
  have e: "e \<noteq> kExitDoAgain" using r(3) by (auto simp: scan_result_def exit_codes split: if_splits)
  have "UTF8GenericScan utf8 addr m = Some (e, b + n)"
    using False a(1) b(1) r(1,2) e
    by (cases r; cases "unaligned addr a")
      (simp_all add: UTF8GenericScan_def UTF8GenericScan_from.simps [of _ _ _ 0] stop_def utf8_state0)
  then show ?thesis using scan_result_ascii [OF ascii_trans [OF a(2) b(2)] r(3)] by blast
qed

lemma UTF8GenericScanFastAscii_result:
  "\<exists>r. UTF8GenericScanFastAscii utf8 addr m = Some r \<and> scan_result m r"
proof (cases "m = []")
  case True
  then show ?thesis by (simp add: UTF8GenericScanFastAscii_def scan_result_def utf8_prefix_None exit_codes)
next
  case False
  obtain a where a: "align_ascii addr m 0 = Some a" "ascii m 0 a"
    using align_ascii_ascii [of 0 m addr] by auto
  have la: "a \<le> length m" using a(2) by (simp add: ascii_def)
  obtain b where b: "(if \<not> unaligned addr a then ascii_groups m a else Some a) = Some b" "ascii m a b"
    using ascii_groups_ascii [of a m] ascii_refl [of a m] la by (cases "unaligned addr a") auto
  obtain c where c: "ascii_bytes m b = Some c" "ascii m b c"
    using ascii_bytes_ascii [of b m] b(2) by (auto simp: ascii_def)
  obtain e n where r: "UTF8GenericScan utf8 (addr + c) (drop c m) = Some (e, n)" "scan_result (drop c m) (e, n)"
    using UTF8GenericScan_result [of "addr + c" "drop c m"] by auto
  have e: "e \<noteq> kExitDoAgain" using r(2) by (auto simp: scan_result_def exit_codes split: if_splits)
  have "UTF8GenericScanFastAscii utf8 addr m = Some (e, c + n)"
    using False a(1) b(1) c(1) r(1) e
    by (simp add: UTF8GenericScanFastAscii_def UTF8GenericScanFastAscii_from.simps [of _ _ _ 0])
  then show ?thesis
    using scan_result_ascii [OF ascii_trans [OF ascii_trans [OF a(2) b(2)] c(2)] r(2)] by blast
qed

subsection \<open>What UTF-8 is\<close>

definition scalar_value :: "nat \<Rightarrow> bool" where
  \<comment> \<open>a code point that is not a surrogate\<close>
  "scalar_value cp \<longleftrightarrow> cp < 0x110000 \<and> \<not> (0xD800 \<le> cp \<and> cp < 0xE000)"

definition utf8_encode :: "nat \<Rightarrow> byte list" where
  "utf8_encode cp =
     (if cp < 0x80 then [of_nat cp]
      else if cp < 0x800 then [of_nat (0xC0 + cp div 64), of_nat (0x80 + cp mod 64)]
      else if cp < 0x10000 then
        [of_nat (0xE0 + cp div 4096), of_nat (0x80 + cp div 64 mod 64), of_nat (0x80 + cp mod 64)]
      else
        [of_nat (0xF0 + cp div 262144), of_nat (0x80 + cp div 4096 mod 64), of_nat (0x80 + cp div 64 mod 64),
         of_nat (0x80 + cp mod 64)])"

definition well_formed_utf8 :: "byte list \<Rightarrow> bool" where
  "well_formed_utf8 s \<longleftrightarrow> (\<exists>cps. list_all scalar_value cps \<and> s = concat (map utf8_encode cps))"

lemma base_64:
  fixes x c :: nat
  assumes "c < 64"
  shows "(64 * x + c) div 64 = x" "(64 * x + c) mod 64 = c"
  using assms by simp_all

lemma utf8_encode_2:
  "2 \<le> a \<Longrightarrow> a < 32 \<Longrightarrow> c < 64 \<Longrightarrow> utf8_encode (64 * a + c) = [of_nat (0xC0 + a), of_nat (0x80 + c)]"
  using base_64 [of c a] by (simp add: utf8_encode_def del: of_nat_add of_nat_numeral)

lemma utf8_encode_3:
  assumes "a < 16" "b < 64" "c < 64" "0x800 \<le> 64 * (64 * a + b) + c"
  shows "utf8_encode (64 * (64 * a + b) + c) = [of_nat (0xE0 + a), of_nat (0x80 + b), of_nat (0x80 + c)]"
proof -
  define cp where "cp = 64 * (64 * a + b) + c"
  have "cp div 64 = 64 * a + b" "cp mod 64 = c" unfolding cp_def using base_64 [OF assms(3)] by blast+
  moreover have "cp div 4096 = cp div 64 div 64" by (simp add: div_mult2_eq [symmetric])
  moreover have "64 * a + b \<le> 1023" using assms(1,2) by linarith
  then have "cp < 0x10000" using assms(3) unfolding cp_def by simp
  moreover have "0x800 \<le> cp" using assms(4) unfolding cp_def by linarith
  ultimately show ?thesis
    using base_64 [OF assms(2), of a] unfolding cp_def [symmetric]
    by (simp add: utf8_encode_def del: of_nat_add of_nat_numeral)
qed

lemma utf8_encode_4:
  assumes "a < 5" "b < 64" "c < 64" "d < 64" "0x10000 \<le> 64 * (64 * (64 * a + b) + c) + d"
  shows "utf8_encode (64 * (64 * (64 * a + b) + c) + d)
    = [of_nat (0xF0 + a), of_nat (0x80 + b), of_nat (0x80 + c), of_nat (0x80 + d)]"
proof -
  define cp where "cp = 64 * (64 * (64 * a + b) + c) + d"
  have "cp div 64 = 64 * (64 * a + b) + c" "cp mod 64 = d" unfolding cp_def using base_64 [OF assms(4)] by blast+
  moreover have "cp div 4096 = cp div 64 div 64" "cp div 262144 = cp div 64 div 64 div 64"
    by (simp_all add: div_mult2_eq [symmetric])
  moreover have "0x10000 \<le> cp" using assms unfolding cp_def by linarith
  ultimately show ?thesis
    using base_64 [OF assms(3), of "64 * a + b"] base_64 [OF assms(2), of a] unfolding cp_def [symmetric]
    by (simp add: utf8_encode_def del: of_nat_add of_nat_numeral)
qed

text \<open>Every code point is one of these sums.\<close>

lemma utf8_encode_cases:
  assumes "scalar_value cp"
  obtains "cp < 0x80"
  | a c where "cp = 64 * a + c" "2 \<le> a" "a < 32" "c < 64"
  | a b c where "cp = 64 * (64 * a + b) + c" "a < 16" "b < 64" "c < 64" "0x20 \<le> 64 * a + b" "a = 13 \<longrightarrow> b < 32"
  | a b c d where "cp = 64 * (64 * (64 * a + b) + c) + d" "a < 5" "b < 64" "c < 64" "d < 64" "0x10 \<le> 64 * a + b" "a = 4 \<longrightarrow> b < 16"
proof -
  define c1 c2 c3 where c: "c1 = cp div 64" "c2 = c1 div 64" "c3 = c2 div 64"
  have e: "cp = 64 * c1 + cp mod 64" "c1 = 64 * c2 + c1 mod 64" "c2 = 64 * c3 + c2 mod 64"
    by (simp_all add: c)
  have l: "cp mod 64 < 64" "c1 mod 64 < 64" "c2 mod 64 < 64" by simp_all
  consider "cp < 0x80" | "0x80 \<le> cp" "cp < 0x800" | "0x800 \<le> cp" "cp < 0x10000" | "0x10000 \<le> cp" by linarith
  then show thesis
  proof cases
    case 2
    then have "2 \<le> c1" "c1 < 32" using e(1) l(1) by linarith+
    then show thesis using that(2) [OF e(1)] l(1) by blast
  next
    case 3
    have "c2 < 16" "0x20 \<le> 64 * c2 + c1 mod 64" "c2 = 13 \<longrightarrow> c1 mod 64 < 32"
      using 3 e(1,2) l assms unfolding scalar_value_def by linarith+
    then show thesis using that(3) [of c2 "c1 mod 64" "cp mod 64"] e l by metis
  next
    case 4
    have "c3 < 5" "0x10 \<le> 64 * c3 + c2 mod 64" "c3 = 4 \<longrightarrow> c2 mod 64 < 16"
      using 4 e l assms unfolding scalar_value_def by linarith+
    then show thesis using that(4) [of c3 "c2 mod 64" "c1 mod 64" "cp mod 64"] e l by metis
  qed (use that(1) in simp)
qed

lemma unat_code: "n < 256 \<Longrightarrow> unat (of_nat n :: byte) = n"
  by (simp add: unat_of_nat_byte)

text \<open>The state table accepts exactly the encodings.\<close>

lemma char_len_encode:
  assumes "scalar_value cp"
  shows "char_len (utf8_encode cp) = Some (length (utf8_encode cp))"
  using assms
proof (cases rule: utf8_encode_cases)
  case 1
  then show ?thesis by (simp add: utf8_encode_def unat_code utf8_step_def)
next
  case (2 a c)
  then show ?thesis
    by (simp add: utf8_encode_2 unat_code utf8_step_def del: of_nat_add of_nat_numeral)
next
  case (3 a b c)
  have s1: "utf8_step 0 (0xE0 + a) = (if a = 0 then 2 else if a = 13 then 7 else 3)"
    using 3(2) by (simp add: utf8_step_def)
  have s2: "utf8_step (if a = 0 then 2 else if a = 13 then 7 else 3) (0x80 + b) = 1"
    using 3 by (auto simp: utf8_step_def)
  have s3: "utf8_step 1 (0x80 + c) = 0" using 3 by (simp add: utf8_step_def)
  have "utf8_encode cp = [of_nat (0xE0 + a), of_nat (0x80 + b), of_nat (0x80 + c)]"
    unfolding 3(1) by (rule utf8_encode_3) (use 3 in auto)
  then show ?thesis using 3(2-4) s1 s2 s3 by (simp add: unat_code del: of_nat_add of_nat_numeral)
next
  case (4 a b c d)
  have s1: "utf8_step 0 (0xF0 + a) = (if a = 0 then 4 else if a = 4 then 6 else 5)"
    using 4(2) by (simp add: utf8_step_def)
  have s2: "utf8_step (if a = 0 then 4 else if a = 4 then 6 else 5) (0x80 + b) = 3"
    using 4 by (auto simp: utf8_step_def)
  have s3: "utf8_step 3 (0x80 + c) = 1" using 4 by (simp add: utf8_step_def)
  have s4: "utf8_step 1 (0x80 + d) = 0" using 4 by (simp add: utf8_step_def)
  have "utf8_encode cp = [of_nat (0xF0 + a), of_nat (0x80 + b), of_nat (0x80 + c), of_nat (0x80 + d)]"
    unfolding 4(1) by (rule utf8_encode_4) (use 4 in auto)
  then show ?thesis using 4(2-5) s1 s2 s3 s4 by (simp add: unat_code del: of_nat_add of_nat_numeral)
qed

lemma char_tail_Suc:
  assumes "char_tail q s = Some k" "0 < q"
  shows "\<exists>b t j. s = of_nat (0x80 + b) # t \<and> b < 64 \<and> k = Suc j \<and> char_tail (utf8_step q (0x80 + b)) t = Some j
    \<and> utf8_step q (0x80 + b) < 240"
proof (cases s)
  case (Cons c t)
  then have c: "utf8_step q (unat c) < 240" using assms by (auto split: if_splits)
  then have "0x80 \<le> unat c" "unat c < 0xC0" using utf8_step_continues [OF assms(2)] by auto
  then obtain b where b: "unat c = 0x80 + b" "b < 64" using that [of "unat c - 0x80"] by simp
  then have "c = of_nat (0x80 + b)" unfolding b(1) [symmetric] by simp
  moreover obtain j where "k = Suc j" "char_tail (utf8_step q (0x80 + b)) t = Some j"
    using assms Cons b(1) c by (auto split: if_splits)
  ultimately show ?thesis using Cons b c by metis
qed (use assms in simp)

lemma char_len_decode:
  assumes "char_len s = Some k"
  shows "\<exists>cp. scalar_value cp \<and> take k s = utf8_encode cp"
proof -
  obtain c t where s: "s = c # t" using assms by (cases s) auto
  let ?e = "utf8_step 0 (unat c)"
  obtain j where j: "k = Suc j" "char_tail ?e t = Some j" "?e < 240" using assms s by (auto split: if_splits)
  have c: "of_nat (unat c) = c" by simp
  have l: "unat c < 256" by (rule byte_lt_256)
  have classes: "unat c < 0x80 \<and> ?e = 0 \<or> 0xC2 \<le> unat c \<and> unat c < 0xE0 \<and> ?e = 1
      \<or> 0xE0 \<le> unat c \<and> unat c < 0xF0 \<and> ?e = (if unat c = 0xE0 then 2 else if unat c = 0xED then 7 else 3)
      \<or> 0xF0 \<le> unat c \<and> unat c < 0xF5 \<and> ?e = (if unat c = 0xF0 then 4 else if unat c = 0xF4 then 6 else 5)"
    using j(3) by (auto simp: utf8_step_def split: if_splits)
  have zero: "char_tail 0 u = Some 0" for u by (cases u) simp_all
  consider (one) "unat c < 0x80" "?e = 0" | (two) "0xC2 \<le> unat c" "unat c < 0xE0" "?e = 1"
    | (three) "0xE0 \<le> unat c" "unat c < 0xF0" "?e = (if unat c = 0xE0 then 2 else if unat c = 0xED then 7 else 3)"
    | (four) "0xF0 \<le> unat c" "unat c < 0xF5" "?e = (if unat c = 0xF0 then 4 else if unat c = 0xF4 then 6 else 5)"
    using classes by argo
  then show ?thesis
  proof cases
    case one
    then have "j = 0" using j(2) zero [of t] by simp
    then show ?thesis using one s j(1) c by (intro exI [of _ "unat c"]) (simp add: scalar_value_def utf8_encode_def)
  next
    case two
    obtain a where a: "unat c = 0xC0 + a" "2 \<le> a" "a < 32" using two that [of "unat c - 0xC0"] by simp
    obtain x u i where x: "t = of_nat (0x80 + x) # u" "x < 64" "j = Suc i" "char_tail (utf8_step 1 (0x80 + x)) u = Some i"
      using char_tail_Suc [OF j(2) [unfolded two(3)] zero_less_one] by (elim exE conjE) (rule that)
    have "i = 0" using x(2,4) zero [of u] by (simp add: utf8_step_def)
    then have "take k s = [of_nat (0xC0 + a), of_nat (0x80 + x)]" using s j(1) x c a(1) by (simp del: of_nat_add of_nat_numeral)
    then show ?thesis
      using utf8_encode_2 [OF a(2,3) x(2)] a x(2) by (intro exI [of _ "64 * a + x"]) (simp add: scalar_value_def)
  next
    case three
    let ?q = "if unat c = 0xE0 then 2 else if unat c = 0xED then 7 else 3 :: nat"
    have pos: "0 < ?q" by simp
    obtain a where a: "unat c = 0xE0 + a" "a < 16" using three that [of "unat c - 0xE0"] by simp
    obtain x u i where x: "t = of_nat (0x80 + x) # u" "x < 64" "j = Suc i" "char_tail (utf8_step ?q (0x80 + x)) u = Some i"
      "utf8_step ?q (0x80 + x) < 240"
      using char_tail_Suc [OF j(2) [unfolded three(3)] pos] by (elim exE conjE) (rule that)
    have q: "utf8_step ?q (0x80 + x) = (if a = 13 \<and> 32 \<le> x then 8 else 1)" "a = 0 \<longrightarrow> 32 \<le> x"
      using x(2,5) a by (auto simp: utf8_step_def split: if_splits)
    have pos2: "0 < (if a = 13 \<and> 32 \<le> x then 8 else 1 :: nat)" by simp
    obtain y v h where y: "u = of_nat (0x80 + y) # v" "y < 64" "i = Suc h"
      "char_tail (utf8_step (if a = 13 \<and> 32 \<le> x then 8 else 1) (0x80 + y)) v = Some h"
      "utf8_step (if a = 13 \<and> 32 \<le> x then 8 else 1) (0x80 + y) < 240"
      using char_tail_Suc [OF x(4) [unfolded q(1)] pos2] by (elim exE conjE) (rule that)
    have n: "\<not> (a = 13 \<and> 32 \<le> x)" using y(2,5) by (auto simp: utf8_step_def)
    then have "utf8_step (if a = 13 \<and> 32 \<le> x then 8 else 1) (0x80 + y) = 0"
      using y(2) by (simp add: utf8_step_def)
    then have "h = 0" using y(4) zero [of v] by simp
    then have "take k s = [of_nat (0xE0 + a), of_nat (0x80 + x), of_nat (0x80 + y)]"
      using s j(1) x y c a(1) by (simp del: of_nat_add of_nat_numeral)
    moreover have "0x800 \<le> 64 * (64 * a + x) + y" using q(2) by (cases "a = 0") auto
    moreover have "scalar_value (64 * (64 * a + x) + y)"
      using n a(2) x(2) y(2) unfolding scalar_value_def by (cases "a < 13"; cases "a = 13") auto
    ultimately show ?thesis using utf8_encode_3 [OF a(2) x(2) y(2)] by metis
  next
    case four
    let ?q = "if unat c = 0xF0 then 4 else if unat c = 0xF4 then 6 else 5 :: nat"
    have pos: "0 < ?q" by simp
    obtain a where a: "unat c = 0xF0 + a" "a < 5" using four that [of "unat c - 0xF0"] by simp
    obtain x u i where x: "t = of_nat (0x80 + x) # u" "x < 64" "j = Suc i" "char_tail (utf8_step ?q (0x80 + x)) u = Some i"
      "utf8_step ?q (0x80 + x) < 240"
      using char_tail_Suc [OF j(2) [unfolded four(3)] pos] by (elim exE conjE) (rule that)
    have q: "utf8_step ?q (0x80 + x) = 3" "a = 0 \<longrightarrow> 16 \<le> x" "a = 4 \<longrightarrow> x < 16"
      using x(2,5) a by (auto simp: utf8_step_def split: if_splits)
    obtain y v h where y: "u = of_nat (0x80 + y) # v" "y < 64" "i = Suc h" "char_tail (utf8_step 3 (0x80 + y)) v = Some h"
      using char_tail_Suc [OF x(4) [unfolded q(1)] zero_less_numeral] by (elim exE conjE) (rule that)
    have y1: "utf8_step 3 (0x80 + y) = 1" using y(2) by (simp add: utf8_step_def)
    obtain z w g where z: "v = of_nat (0x80 + z) # w" "z < 64" "h = Suc g" "char_tail (utf8_step 1 (0x80 + z)) w = Some g"
      using char_tail_Suc [OF y(4) [unfolded y1] zero_less_one] by (elim exE conjE) (rule that)
    have "g = 0" using z(2,4) zero [of w] by (simp add: utf8_step_def)
    then have "take k s = [of_nat (0xF0 + a), of_nat (0x80 + x), of_nat (0x80 + y), of_nat (0x80 + z)]"
      using s j(1) x y z c a(1) by (simp del: of_nat_add of_nat_numeral)
    moreover have "0x10000 \<le> 64 * (64 * (64 * a + x) + y) + z" using q(2) by (cases "a = 0") auto
    moreover have "scalar_value (64 * (64 * (64 * a + x) + y) + z)"
      using q(3) a(2) x(2) y(2) z(2) calculation(2) unfolding scalar_value_def by (cases "a = 4") auto
    ultimately show ?thesis using utf8_encode_4 [OF a(2) x(2) y(2) z(2)] by metis
  qed
qed

subsection \<open>Well-formed prefixes\<close>

lemma well_formed_append:
  "well_formed_utf8 s \<Longrightarrow> well_formed_utf8 t \<Longrightarrow> well_formed_utf8 (s @ t)"
  unfolding well_formed_utf8_def
  by (metis concat_append list_all_append map_append)

lemma well_formed_Nil: "well_formed_utf8 []"
  unfolding well_formed_utf8_def by (intro exI [of _ "[]"]) simp

lemma well_formed_encode: "scalar_value cp \<Longrightarrow> well_formed_utf8 (utf8_encode cp)"
  unfolding well_formed_utf8_def by (intro exI [of _ "[cp]"]) simp

lemma utf8_prefix_well_formed: "well_formed_utf8 (take (utf8_prefix s) s)"
proof (induction s rule: utf8_prefix.induct)
  case (1 s)
  show ?case
  proof (cases "char_len s")
    case None
    then show ?thesis by (simp add: utf8_prefix_None well_formed_Nil)
  next
    case (Some k)
    obtain cp where "scalar_value cp" "take k s = utf8_encode cp" using char_len_decode [OF Some] by blast
    then have "well_formed_utf8 (take k s @ take (utf8_prefix (drop k s)) (drop k s))"
      using 1 [OF Some] by (metis well_formed_append well_formed_encode)
    then show ?thesis by (simp add: utf8_prefix_Some [OF Some] take_add)
  qed
qed

lemma utf8_prefix_encodings:
  "list_all scalar_value cps \<Longrightarrow>
    utf8_prefix (concat (map utf8_encode cps) @ t) = length (concat (map utf8_encode cps)) + utf8_prefix t"
proof (induction cps)
  case (Cons cp cps)
  let ?e = "utf8_encode cp" and ?r = "concat (map utf8_encode cps) @ t"
  have "char_len ?e = Some (length ?e)" using Cons.prems by (intro char_len_encode) simp
  then have "char_len (?e @ ?r) = Some (length ?e)" using char_len_local [of ?e "length ?e" ?r] by simp
  then show ?case using Cons by (simp add: utf8_prefix_Some)
qed simp

lemma utf8_prefix_longest:
  assumes "well_formed_utf8 (take n s)" "n \<le> length s"
  shows "n \<le> utf8_prefix s"
proof -
  obtain cps where "list_all scalar_value cps" "take n s = concat (map utf8_encode cps)"
    using assms(1) unfolding well_formed_utf8_def by blast
  then have "utf8_prefix (take n s @ drop n s) = length (take n s) + utf8_prefix (drop n s)"
    using utf8_prefix_encodings by metis
  then show ?thesis using assms(2) by simp
qed

lemma well_formed_prefix: "well_formed_utf8 s \<longleftrightarrow> utf8_prefix s = length s"
  using utf8_prefix_longest [of "length s" s] utf8_prefix_le [of s] utf8_prefix_well_formed [of s] by auto

subsection \<open>Properties\<close>

text \<open>
  C37: the table-driven UTF-8 scanners read inside the text only, return for every text at every
  address, and consume exactly the longest prefix that is a sequence of encoded code points
  (no surrogates, no overlong forms, nothing above U+10FFFF); they report success exactly when that
  is the whole text. So \<open>IsStructurallyValidUTF8\<close>, once its module is initialised, decides whether the
  text is well-formed UTF-8, whatever its alignment and however much of it the groups of
  eight bytes skip.
\<close>
theorem utf8_scan_exact:
  "(\<exists>reason n. UTF8GenericScan utf8acceptnonsurrogates_obj addr buf = Some (reason, n)
     \<and> n \<le> length buf \<and> well_formed_utf8 (take n buf)
     \<and> (\<forall>k. n < k \<and> k \<le> length buf \<longrightarrow> \<not> well_formed_utf8 (take k buf))
     \<and> (reason = kExitOK \<longleftrightarrow> n = length buf))
   \<and> (\<exists>reason n. UTF8GenericScanFastAscii utf8acceptnonsurrogates_obj addr buf = Some (reason, n)
     \<and> n \<le> length buf \<and> well_formed_utf8 (take n buf)
     \<and> (\<forall>k. n < k \<and> k \<le> length buf \<longrightarrow> \<not> well_formed_utf8 (take k buf))
     \<and> (reason = kExitOK \<longleftrightarrow> n = length buf))
   \<and> IsStructurallyValidUTF8 module_initialized addr buf = Some (\<not> module_initialized \<or> well_formed_utf8 buf)"
proof -
  have spec: "n \<le> length buf \<and> well_formed_utf8 (take n buf)
      \<and> (\<forall>k. n < k \<and> k \<le> length buf \<longrightarrow> \<not> well_formed_utf8 (take k buf))
      \<and> (reason = kExitOK \<longleftrightarrow> n = length buf)" if r: "scan_result buf (reason, n)" for reason n
  proof -
    have n: "n = utf8_prefix buf" "reason = kExitOK \<longleftrightarrow> n = length buf"
      using r by (auto simp: scan_result_def exit_codes split: if_splits)
    then show ?thesis
      using utf8_prefix_le [of buf] utf8_prefix_well_formed [of buf] utf8_prefix_longest [of _ buf]
      by (metis not_le)
  qed
  obtain r1 n1 where g: "UTF8GenericScan utf8 addr buf = Some (r1, n1)" "scan_result buf (r1, n1)"
    using UTF8GenericScan_result [of addr buf] by auto
  obtain r2 n2 where f: "UTF8GenericScanFastAscii utf8 addr buf = Some (r2, n2)" "scan_result buf (r2, n2)"
    using UTF8GenericScanFastAscii_result [of addr buf] by auto
  have "IsStructurallyValidUTF8 module_initialized addr buf = Some (\<not> module_initialized \<or> well_formed_utf8 buf)"
    using f by (simp add: IsStructurallyValidUTF8_def well_formed_prefix scan_result_def)
  then show ?thesis using g f spec by blast
qed

lemma utf8_scan_exact_witness:
  "IsStructurallyValidUTF8 True 3 [0x41, 0xC3, 0xA9] = Some True
   \<and> IsStructurallyValidUTF8 True 3 [0xED, 0xA0, 0x80] = Some False"
proof -
  have "well_formed_utf8 [0x41, 0xC3, 0xA9]"
    unfolding well_formed_utf8_def
    by (intro exI [of _ "[0x41, 0xE9]"]) (simp add: scalar_value_def utf8_encode_def)
  moreover have "\<not> well_formed_utf8 [0xED, 0xA0, 0x80]"
    by (simp add: well_formed_prefix utf8_prefix_None utf8_step_def)
  ultimately show ?thesis
    using utf8_scan_exact [of 3 "[0x41, 0xC3, 0xA9]" True] utf8_scan_exact [of 3 "[0xED, 0xA0, 0x80]" True] by simp
qed

end
