(* ===== verification/LiteSkip.thy ===== *)
theory LiteSkip
  imports SkipFields OutputProps
begin

text \<open>
  The lite runtime of \<^verbatim>\<open>wire_format_lite.cc\<close> skips unknown fields without a field set:
  \<open>SkipField\<close> and \<open>SkipMessage\<close> that only read, and those that copy what they skip to a
  \<open>CodedOutputStream\<close>, with the classes \<open>FieldSkipper\<close> and \<open>CodedOutputStreamFieldSkipper\<close> around them.
  The first argument is fuel, as in \<open>WireFormat\<close>.
\<close>

fun WireFormatLite_SkipField :: "nat \<Rightarrow> u32 \<Rightarrow> coded_input \<Rightarrow> (bool \<times> coded_input) option"
  and WireFormatLite_SkipMessage :: "nat \<Rightarrow> coded_input \<Rightarrow> (bool \<times> coded_input) option" where
  "WireFormatLite_SkipField 0 tag s = None"
| "WireFormatLite_SkipField (Suc fuel) tag s =
    (if GetTagWireType tag = WIRETYPE_VARINT then
       do { (r, s) \<leftarrow> ReadVarint64 s; Some (r \<noteq> None, s) }
     else if GetTagWireType tag = WIRETYPE_FIXED64 then
       do { (r, s) \<leftarrow> ReadLittleEndian64 s; Some (r \<noteq> None, s) }
     else if GetTagWireType tag = WIRETYPE_LENGTH_DELIMITED then
       do { (r, s) \<leftarrow> ReadVarint32 s;
            case r of
              None \<Rightarrow> Some (False, s)
            | Some len \<Rightarrow> Skip (sint len) s }
     else if GetTagWireType tag = WIRETYPE_START_GROUP then
       (let (ok, s) = IncrementRecursionDepth s
        in if \<not> ok then Some (False, s) else
           do { (ok, s) \<leftarrow> WireFormatLite_SkipMessage fuel s;
                if \<not> ok then Some (False, s) else
                let s = DecrementRecursionDepth s
                in if \<not> LastTagWas (MakeTag (GetTagFieldNumber tag) WIRETYPE_END_GROUP) s then Some (False, s)
                   else Some (True, s) })
     else if GetTagWireType tag = WIRETYPE_END_GROUP then Some (False, s)
     else if GetTagWireType tag = WIRETYPE_FIXED32 then
       do { (r, s) \<leftarrow> ReadLittleEndian32 s; Some (r \<noteq> None, s) }
     else Some (False, s))"
| "WireFormatLite_SkipMessage 0 s = None"
| "WireFormatLite_SkipMessage (Suc fuel) s =
     do { (tag, s) \<leftarrow> ReadTag s;
          if tag = 0 then Some (True, s)
          else if GetTagWireType tag = WIRETYPE_END_GROUP then Some (True, s)
          else do { (ok, s) \<leftarrow> WireFormatLite_SkipField fuel tag s;
                    if \<not> ok then Some (False, s) else WireFormatLite_SkipMessage fuel s } }"

fun WireFormatLite_SkipField_copy :: "nat \<Rightarrow> u32 \<Rightarrow> 'z zero_copy_output_ops \<Rightarrow> coded_input \<Rightarrow> 'z coded_output
      \<Rightarrow> ((bool \<times> coded_input) \<times> 'z coded_output) option"
  and WireFormatLite_SkipMessage_copy :: "nat \<Rightarrow> 'z zero_copy_output_ops \<Rightarrow> coded_input \<Rightarrow> 'z coded_output
      \<Rightarrow> ((bool \<times> coded_input) \<times> 'z coded_output) option" where
  "WireFormatLite_SkipField_copy 0 tag ops s c = None"
| "WireFormatLite_SkipField_copy (Suc fuel) tag ops s c =
    (if GetTagWireType tag = WIRETYPE_VARINT then
       do { (r, s) \<leftarrow> ReadVarint64 s;
            case r of
              None \<Rightarrow> Some ((False, s), c)
            | Some v \<Rightarrow> do { c \<leftarrow> WriteVarint32 ops tag c; c \<leftarrow> WriteVarint64 ops v c; Some ((True, s), c) } }
     else if GetTagWireType tag = WIRETYPE_FIXED64 then
       do { (r, s) \<leftarrow> ReadLittleEndian64 s;
            case r of
              None \<Rightarrow> Some ((False, s), c)
            | Some v \<Rightarrow> do { c \<leftarrow> WriteVarint32 ops tag c; c \<leftarrow> WriteLittleEndian64 ops v c; Some ((True, s), c) } }
     else if GetTagWireType tag = WIRETYPE_LENGTH_DELIMITED then
       do { (r, s) \<leftarrow> ReadVarint32 s;
            case r of
              None \<Rightarrow> Some ((False, s), c)
            | Some len \<Rightarrow>
                do { c \<leftarrow> WriteVarint32 ops tag c;
                     c \<leftarrow> WriteVarint32 ops len c;
                     ((temp, ok), s) \<leftarrow> ReadString [] (sint len) s;
                     if \<not> ok then Some ((False, s), c)
                     else do { c \<leftarrow> WriteString ops temp c; Some ((True, s), c) } } }
     else if GetTagWireType tag = WIRETYPE_START_GROUP then
       do { c \<leftarrow> WriteVarint32 ops tag c;
            let (ok, s) = IncrementRecursionDepth s
            in if \<not> ok then Some ((False, s), c) else
               do { ((ok, s), c) \<leftarrow> WireFormatLite_SkipMessage_copy fuel ops s c;
                    if \<not> ok then Some ((False, s), c) else
                    let s = DecrementRecursionDepth s
                    in if \<not> LastTagWas (MakeTag (GetTagFieldNumber tag) WIRETYPE_END_GROUP) s then Some ((False, s), c)
                       else Some ((True, s), c) } }
     else if GetTagWireType tag = WIRETYPE_END_GROUP then Some ((False, s), c)
     else if GetTagWireType tag = WIRETYPE_FIXED32 then
       do { (r, s) \<leftarrow> ReadLittleEndian32 s;
            case r of
              None \<Rightarrow> Some ((False, s), c)
            | Some v \<Rightarrow> do { c \<leftarrow> WriteVarint32 ops tag c; c \<leftarrow> WriteLittleEndian32 ops v c; Some ((True, s), c) } }
     else Some ((False, s), c))"
| "WireFormatLite_SkipMessage_copy 0 ops s c = None"
| "WireFormatLite_SkipMessage_copy (Suc fuel) ops s c =
     do { (tag, s) \<leftarrow> ReadTag s;
          if tag = 0 then Some ((True, s), c)
          else if GetTagWireType tag = WIRETYPE_END_GROUP then
            do { c \<leftarrow> WriteVarint32 ops tag c; Some ((True, s), c) }
          else do { ((ok, s), c) \<leftarrow> WireFormatLite_SkipField_copy fuel tag ops s c;
                    if \<not> ok then Some ((False, s), c) else WireFormatLite_SkipMessage_copy fuel ops s c } }"

subsection \<open>The skipper classes\<close>

text \<open>The virtual methods; \<open>'c\<close> is the state behind them.\<close>

record 'c field_skipper =
  fs_SkipField :: "nat \<Rightarrow> u32 \<Rightarrow> coded_input \<Rightarrow> 'c \<Rightarrow> ((bool \<times> coded_input) \<times> 'c) option"
  fs_SkipMessage :: "nat \<Rightarrow> coded_input \<Rightarrow> 'c \<Rightarrow> ((bool \<times> coded_input) \<times> 'c) option"
  fs_SkipUnknownEnum :: "i32 \<Rightarrow> i32 \<Rightarrow> 'c \<Rightarrow> 'c option"

definition FieldSkipper :: "unit field_skipper" where
  "FieldSkipper =
     \<lparr>fs_SkipField = (\<lambda>fuel tag s u. map_option (\<lambda>r. (r, u)) (WireFormatLite_SkipField fuel tag s)),
      fs_SkipMessage = (\<lambda>fuel s u. map_option (\<lambda>r. (r, u)) (WireFormatLite_SkipMessage fuel s)),
      fs_SkipUnknownEnum = (\<lambda>field_number value u. Some u)\<rparr>"

definition CodedOutputStreamFieldSkipper :: "'z zero_copy_output_ops \<Rightarrow> 'z coded_output field_skipper" where
  \<comment> \<open>the \<open>int\<close> value is converted to \<open>uint64\<close>, with its sign\<close>
  "CodedOutputStreamFieldSkipper ops =
     \<lparr>fs_SkipField = (\<lambda>fuel tag s c. WireFormatLite_SkipField_copy fuel tag ops s c),
      fs_SkipMessage = (\<lambda>fuel s c. WireFormatLite_SkipMessage_copy fuel ops s c),
      fs_SkipUnknownEnum = (\<lambda>field_number value c.
        do { c \<leftarrow> WriteVarint32 ops field_number c; WriteVarint64 ops (scast value) c })\<rparr>"

subsection \<open>Skipping without a field set\<close>

abbreviation forget :: "((bool \<times> 'u) \<times> coded_input) option \<Rightarrow> (bool \<times> coded_input) option" where
  "forget \<equiv> map_option (\<lambda>((ok, u), s). (ok, s))"

lemma forget_bind: "forget (do { (x, s) \<leftarrow> r; f x s }) = do { (x, s) \<leftarrow> r; forget (f x s) }"
  by (cases r) auto

lemma skip_keeps_None:
  "(\<forall>tag s ok u s'. SkipField fuel tag None s = Some ((ok, u), s') \<longrightarrow> u = None)
   \<and> (\<forall>s ok u s'. SkipMessage fuel None s = Some ((ok, u), s') \<longrightarrow> u = None)"
proof (induction fuel)
  case (Suc fuel)
  then have f: "SkipField fuel tag None s = Some ((ok, u), s') \<Longrightarrow> u = None"
    and m: "SkipMessage fuel None s = Some ((ok, u), s') \<Longrightarrow> u = None" for tag s ok u s' by blast+
  have "u = None" if "SkipField (Suc fuel) tag None s = Some ((ok, u), s')" for tag s ok u s'
    using that by (auto simp: Let_def bind_eq_Some_conv split: if_splits option.splits prod.splits)
  moreover have "u = None" if "SkipMessage (Suc fuel) None s = Some ((ok, u), s')" for s ok u s'
    using that by (auto simp: Let_def bind_eq_Some_conv split: if_splits option.splits prod.splits dest: f m)
  ultimately show ?case by blast
qed simp

lemma lite_skip_None:
  "(\<forall>tag s. WireFormatLite_SkipField fuel tag s = forget (SkipField fuel tag None s))
   \<and> (\<forall>s. WireFormatLite_SkipMessage fuel s = forget (SkipMessage fuel None s))"
proof (induction fuel)
  case (Suc fuel)
  then have f: "WireFormatLite_SkipField fuel tag s = forget (SkipField fuel tag None s)"
    and m: "WireFormatLite_SkipMessage fuel s = forget (SkipMessage fuel None s)" for tag s by blast+
  have "WireFormatLite_SkipField (Suc fuel) tag s = forget (SkipField (Suc fuel) tag None s)" for tag s
  proof (cases "GetTagWireType tag = WIRETYPE_START_GROUP")
    case True
    obtain ok s1 where "IncrementRecursionDepth s = (ok, s1)" by (cases "IncrementRecursionDepth s")
    then show ?thesis
      using True m [of s1] by (cases "SkipMessage fuel None s1") (auto simp: wire_types Let_def)
  next
    case False
    then show ?thesis by (auto simp: Let_def option.case_eq_if forget_bind split: bind_splits)
  qed
  moreover have "WireFormatLite_SkipMessage (Suc fuel) s = forget (SkipMessage (Suc fuel) None s)" for s
  proof (cases "ReadTag s")
    case (Some r)
    obtain tag s1 where r: "r = (tag, s1)" by (cases r)
    show ?thesis
    proof (cases "SkipField fuel tag None s1")
      case (Some q)
      obtain ok u s2 where q: "q = ((ok, u), s2)" by (cases q) auto
      then have "u = None" using skip_keeps_None [of fuel] Some by blast
      then show ?thesis using Some q r \<open>ReadTag s = Some r\<close> f m by simp
    qed (use r Some f in simp)
  qed simp
  ultimately show ?case by blast
qed simp

subsection \<open>Copying what is skipped\<close>

lemma MakeTag_parts: "MakeTag (GetTagFieldNumber tag) (GetTagWireType tag) = tag"
proof -
  have "tag AND 7 = take_bit 3 tag" by (simp add: take_bit_eq_mask mask_eq_exp_minus_1)
  then have "MakeTag (GetTagFieldNumber tag) (GetTagWireType tag) = push_bit 3 (drop_bit 3 tag) OR take_bit 3 tag"
    by (simp add: MakeTag_def GetTagFieldNumber_def GetTagWireType_def kTagTypeBits_def)
  also have "\<dots> = tag" by (rule bit_word_eqI) (auto simp: bit_simps)
  finally show ?thesis .
qed

lemma tag_bytes: "GetTagWireType tag = t \<Longrightarrow> WriteVarint32ToArray tag = WriteTagToArray_wf (GetTagFieldNumber tag) t"
  using MakeTag_parts [of tag] by (auto simp: WriteTagToArray_wf_def WriteTagToArray_WriteVarint32ToArray)

definition end_tag :: "coded_input \<Rightarrow> byte list" where
  \<comment> \<open>the end-group tag that ended a message\<close>
  "end_tag s = (if ci_last_tag s = 0 then [] else WriteVarint32ToArray (ci_last_tag s))"

context zero_copy_output
begin

definition copied :: "unknown_field_set \<Rightarrow> byte list \<Rightarrow> 'z coded_output \<Rightarrow> bool \<times> unknown_field_set option
    \<Rightarrow> coded_input \<Rightarrow> ((bool \<times> coded_input) \<times> 'z coded_output) option \<Rightarrow> bool" where
  \<comment> \<open>a copying routine against the one that stores the fields behind \<open>u\<close>\<close>
  "copied u ending c = (\<lambda>(ok, u') s' r.
     \<exists>c' bs. r = Some ((ok, s'), c') \<and> sent bs c c'
       \<and> (ok \<longrightarrow> (\<exists>v. u' = Some (u @ v) \<and> bs = SerializeUnknownFieldsToArray v @ ending)))"

lemma copied_nothing: "valid c \<Longrightarrow> copied u ending c (False, u') s' (Some ((False, s'), c))"
  unfolding copied_def using sent_refl by auto

lemma copied_failed: "sent bs c c' \<Longrightarrow> copied u ending c (False, u') s' (Some ((False, s'), c'))"
  unfolding copied_def by auto

lemma copied_ok:
  "sent bs c c' \<Longrightarrow> bs = SerializeUnknownFieldsToArray v @ ending
    \<Longrightarrow> copied u ending c (True, Some (u @ v)) s' (Some ((True, s'), c'))"
  unfolding copied_def by auto

lemma copied_value:
  assumes "valid c" "does a f" "does b g" "a @ b = SerializeUnknownFieldsToArray [x]"
  shows "copied u [] c (True, Some (u @ [x])) s' (do { c \<leftarrow> f c; c \<leftarrow> g c; Some ((True, s'), c) })"
proof -
  obtain c' where c': "do { c \<leftarrow> f c; g c } = Some c'" "sent (a @ b) c c'"
    using does_use [OF does_bind [OF assms(2,3)] assms(1)] by blast
  then have "do { c \<leftarrow> f c; c \<leftarrow> g c; Some ((True, s'), c) } = Some ((True, s'), c')"
    by (auto simp: bind_eq_Some_conv)
  then show ?thesis using copied_ok [OF c'(2), of "[x]" "[]"] assms(4) by simp
qed

lemma copied_trans:
  assumes "sent bs c c1" "bs = SerializeUnknownFieldsToArray v" "copied (u @ v) ending c1 r s' p"
  shows "copied u ending c r s' p"
proof -
  obtain ok u' where r: "r = (ok, u')" by (cases r)
  obtain c2 bs2 where c2: "p = Some ((ok, s'), c2)" "sent bs2 c1 c2"
    "ok \<longrightarrow> (\<exists>w. u' = Some ((u @ v) @ w) \<and> bs2 = SerializeUnknownFieldsToArray w @ ending)"
    using assms(3) unfolding copied_def r by auto
  have "ok \<longrightarrow> (\<exists>w. u' = Some (u @ w) \<and> bs @ bs2 = SerializeUnknownFieldsToArray w @ ending)"
    using c2(3) assms(2) SerializeUnknownFieldsToArray_append by (metis append.assoc)
  then show ?thesis using c2(1) sent_trans [OF assms(1) c2(2)] unfolding copied_def r by auto
qed

end

lemma ReadString_ok:
  assumes "ci_inv s" "ReadString [] (sint (len :: u32)) s = Some ((bytes, True), s')"
  shows "of_nat (length bytes) = len" "length bytes < 2 ^ 31"
proof -
  have n: "0 \<le> sint len" using assms(2) ReadString_neg [of "sint len" "[]" s] by (cases "sint len < 0") auto
  then have "bytes = take (nat (sint len)) (avail s)" "sint len \<le> int (length (avail s))"
    using ReadString_avail [OF assms(1) n, of "[]"] assms(2) by auto
  then have l: "length bytes = nat (sint len)" using n by simp
  have "word_of_int (int (nat (sint len))) = len" using n by simp
  then show "of_nat (length bytes) = len" using l by (metis word_of_nat_eq_iff of_int_of_nat_eq)
  have "sint len < 2 ^ 31" using sint_lt [of len] by simp
  then show "length bytes < 2 ^ 31" using l n by (simp add: nat_less_iff)
qed

context zero_copy_output
begin

lemma copy_field_step:
  assumes "ready s" "valid c" "SkipField (Suc fuel) tag (Some u) s = Some ((ok, u'), s')"
    and group: "\<And>c r g s'. ready (deeper s) \<Longrightarrow> valid c \<Longrightarrow> SkipMessage fuel (Some []) (deeper s) = Some ((r, g), s')
      \<Longrightarrow> copied [] (end_tag s') c (r, g) s' (WireFormatLite_SkipMessage_copy fuel ops (deeper s) c)"
  shows "copied u [] c (ok, u') s' (WireFormatLite_SkipField_copy (Suc fuel) tag ops s c)"
proof -
  let ?n = "GetTagFieldNumber tag"
  note inv = ready_inv [OF assms(1)]
  consider (varint) "GetTagWireType tag = WIRETYPE_VARINT" | (fixed64) "GetTagWireType tag = WIRETYPE_FIXED64"
    | (bytes) "GetTagWireType tag = WIRETYPE_LENGTH_DELIMITED" | (group) "GetTagWireType tag = WIRETYPE_START_GROUP"
    | (fixed32) "GetTagWireType tag = WIRETYPE_FIXED32"
    | (other) "GetTagWireType tag \<noteq> WIRETYPE_VARINT" "GetTagWireType tag \<noteq> WIRETYPE_FIXED64"
      "GetTagWireType tag \<noteq> WIRETYPE_LENGTH_DELIMITED" "GetTagWireType tag \<noteq> WIRETYPE_START_GROUP"
      "GetTagWireType tag \<noteq> WIRETYPE_FIXED32" by blast
  then show ?thesis
  proof cases
    case varint
    obtain r s1 where r: "ReadVarint64 s = Some (r, s1)"
      using assms(3) varint by (cases "ReadVarint64 s") (auto simp: Let_def)
    show ?thesis
    proof (cases r)
      case None
      then show ?thesis using assms(2,3) varint r by (auto simp: Let_def intro: copied_nothing)
    next
      case (Some v)
      have "WriteVarint32ToArray tag @ WriteVarint64ToArray v = SerializeUnknownFieldsToArray [Unknown_Varint ?n v]"
        using tag_bytes [OF varint] by (simp add: WriteInt64ToArray_def WriteInt64NoTagToArray_def)
      from copied_value [OF assms(2) WriteVarint32_does WriteVarint64_does this, of u s1]
      show ?thesis using assms(3) varint r Some by (auto simp: Let_def AddVarint_def)
    qed
  next
    case fixed64
    obtain r s1 where r: "ReadLittleEndian64 s = Some (r, s1)"
      using assms(3) fixed64 by (cases "ReadLittleEndian64 s") (auto simp: Let_def wire_types)
    show ?thesis
    proof (cases r)
      case None
      then show ?thesis using assms(2,3) fixed64 r by (auto simp: Let_def wire_types intro: copied_nothing)
    next
      case (Some v)
      have "WriteVarint32ToArray tag @ WriteLittleEndian64ToArray v = SerializeUnknownFieldsToArray [Unknown_Fixed64 ?n v]"
        using tag_bytes [OF fixed64] by (simp add: WriteFixed64ToArray_def WriteFixed64NoTagToArray_def)
      from copied_value [OF assms(2) WriteVarint32_does WriteLittleEndian64_does this, of u s1]
      show ?thesis using assms(3) fixed64 r Some by (auto simp: Let_def AddFixed64_def wire_types)
    qed
  next
    case fixed32
    obtain r s1 where r: "ReadLittleEndian32 s = Some (r, s1)"
      using assms(3) fixed32 by (cases "ReadLittleEndian32 s") (auto simp: Let_def wire_types)
    show ?thesis
    proof (cases r)
      case None
      then show ?thesis using assms(2,3) fixed32 r by (auto simp: Let_def wire_types intro: copied_nothing)
    next
      case (Some v)
      have "WriteVarint32ToArray tag @ WriteLittleEndian32ToArray v = SerializeUnknownFieldsToArray [Unknown_Fixed32 ?n v]"
        using tag_bytes [OF fixed32] by (simp add: WriteFixed32ToArray_def WriteFixed32NoTagToArray_def)
      from copied_value [OF assms(2) WriteVarint32_does WriteLittleEndian32_does this, of u s1]
      show ?thesis using assms(3) fixed32 r Some by (auto simp: Let_def AddFixed32_def wire_types)
    qed
  next
    case other
    then show ?thesis using assms(2,3) by (auto simp: Let_def intro: copied_nothing split: if_splits)
  next
    case bytes
    obtain r s1 where r: "ReadVarint32 s = Some (r, s1)"
      using assms(3) bytes by (cases "ReadVarint32 s") (auto simp: Let_def wire_types)
    have inv1: "ci_inv s1"
      using ReadVarint32_read [OF inv] unfolding r by (cases rule: varint_read_cases) (auto intro: adv_inv ci_frame_inv)
    show ?thesis
    proof (cases r)
      case None
      then show ?thesis using assms(2,3) bytes r by (auto simp: Let_def wire_types intro: copied_nothing)
    next
      case (Some len)
      obtain temp ok1 s2 where t: "ReadString [] (sint len) s1 = Some ((temp, ok1), s2)"
        using ReadString_safe [OF inv1] by metis
      obtain c1 where c1: "do { c \<leftarrow> WriteVarint32 ops tag c; WriteVarint32 ops len c } = Some c1"
        "sent (WriteVarint32ToArray tag @ WriteVarint32ToArray len) c c1"
        using does_use [OF does_bind [OF WriteVarint32_does WriteVarint32_does] assms(2)] by blast
      have step: "WireFormatLite_SkipField_copy (Suc fuel) tag ops s c
          = (if \<not> ok1 then Some ((False, s2), c1) else do { c \<leftarrow> WriteString ops temp c1; Some ((True, s2), c) })"
        using bytes r Some t c1(1) by (auto simp: wire_types bind_eq_Some_conv)
      have res: "ok = ok1" "u' = Some (u @ [Unknown_LengthDelimited ?n temp])" "s' = s2"
        using assms(3) bytes r Some t by (auto simp: wire_types Let_def AddLengthDelimited_def)
      show ?thesis
      proof (cases ok1)
        case True
        have "ReadString [] (sint len) s1 = Some ((temp, True), s2)" using t True by simp
        note l = ReadString_ok [OF inv1 this]
        obtain c2 where c2: "WriteString ops temp c1 = Some c2" "sent temp c1 c2"
          using does_use [OF WriteString_does [OF l(2)] sent_valid [OF c1(2)]] by blast
        have "(WriteVarint32ToArray tag @ WriteVarint32ToArray len) @ temp
            = SerializeUnknownFieldsToArray [Unknown_LengthDelimited ?n temp]"
          using tag_bytes [OF bytes] l(1)
          by (simp add: WriteBytesToArray_def WriteStringWithSizeToArray_def WriteStringToArray_def WriteRawToArray_def)
        then show ?thesis
          using step res True c2(1) copied_ok [OF sent_trans [OF c1(2) c2(2)], of "[Unknown_LengthDelimited ?n temp]" "[]"]
          by simp
      qed (use step res c1(2) copied_failed in simp)
    qed
  next
    case group
    obtain c1 where c1: "WriteVarint32 ops tag c = Some c1" "sent (WriteVarint32ToArray tag) c c1"
      using does_use [OF WriteVarint32_does assms(2)] by blast
    show ?thesis
    proof (cases "ci_recursion_depth s < ci_recursion_limit s")
      case False
      then show ?thesis
        using assms(3) group c1 copied_failed [OF c1(2)] by (auto simp: Let_def wire_types IncrementRecursionDepth_eq)
    next
      case True
      obtain ok1 g s1 where m: "SkipMessage fuel (Some []) (deeper s) = Some ((ok1, g), s1)"
        using assms(3) group True by (cases "SkipMessage fuel (Some []) (deeper s)") (auto simp: Let_def wire_types IncrementRecursionDepth_eq)
      obtain c2 bs where c2: "WireFormatLite_SkipMessage_copy fuel ops (deeper s) c1 = Some ((ok1, s1), c2)" "sent bs c1 c2"
        "ok1 \<longrightarrow> (\<exists>v. g = Some v \<and> bs = SerializeUnknownFieldsToArray v @ end_tag s1)"
        using assms(4) [OF _ sent_valid [OF c1(2)] m] assms(1) unfolding copied_def by auto
      note s = sent_trans [OF c1(2) c2(2)]
      show ?thesis
      proof (cases "ok1 \<and> LastTagWas (MakeTag ?n WIRETYPE_END_GROUP) (DecrementRecursionDepth s1)")
        case False
        then show ?thesis
          using assms(3) group True m c1(1) c2(1) copied_failed [OF s]
          by (auto simp: Let_def wire_types IncrementRecursionDepth_eq)
      next
        case t: True
        obtain v where v: "g = Some v" "bs = SerializeUnknownFieldsToArray v @ end_tag s1" using t c2(3) by blast
        have last: "ci_last_tag s1 = MakeTag ?n WIRETYPE_END_GROUP" using t by (simp add: LastTagWas_def)
        moreover have "MakeTag ?n WIRETYPE_END_GROUP \<noteq> 0" using GetTagWireType_MakeTag [of WIRETYPE_END_GROUP ?n]
          by (auto simp: wire_types GetTagWireType_def)
        ultimately have e: "end_tag s1 = WriteTagToArray_wf ?n WIRETYPE_END_GROUP"
          by (simp add: end_tag_def WriteTagToArray_wf_def WriteTagToArray_WriteVarint32ToArray)
        have "WriteVarint32ToArray tag @ bs = SerializeUnknownFieldsToArray [Unknown_Group ?n v]"
          using tag_bytes [OF group] v(2) e by simp
        then show ?thesis
          using assms(3) group True m c1(1) c2(1) t v(1) copied_ok [OF s, of "[Unknown_Group ?n v]" "[]"]
          by (auto simp: Let_def wire_types IncrementRecursionDepth_eq AddGroup_def)
      qed
    qed
  qed
qed

lemma copy_skips:
  "(\<forall>tag s c u ok u' s'. ready s \<and> valid c \<and> 2 * length (avail s) + 2 \<le> fuel
      \<and> SkipField fuel tag (Some u) s = Some ((ok, u'), s')
      \<longrightarrow> copied u [] c (ok, u') s' (WireFormatLite_SkipField_copy fuel tag ops s c))
   \<and> (\<forall>s c u ok u' s'. ready s \<and> valid c \<and> 2 * length (avail s) + 1 \<le> fuel
      \<and> SkipMessage fuel (Some u) s = Some ((ok, u'), s')
      \<longrightarrow> copied u (end_tag s') c (ok, u') s' (WireFormatLite_SkipMessage_copy fuel ops s c))"
proof (induction fuel)
  case (Suc fuel)
  then have f: "ready s \<Longrightarrow> valid c \<Longrightarrow> 2 * length (avail s) + 2 \<le> fuel
        \<Longrightarrow> SkipField fuel tag (Some u) s = Some ((ok, u'), s')
        \<Longrightarrow> copied u [] c (ok, u') s' (WireFormatLite_SkipField_copy fuel tag ops s c)"
    and m: "ready s \<Longrightarrow> valid c \<Longrightarrow> 2 * length (avail s) + 1 \<le> fuel
        \<Longrightarrow> SkipMessage fuel (Some u) s = Some ((ok, u'), s')
        \<Longrightarrow> copied u (end_tag s') c (ok, u') s' (WireFormatLite_SkipMessage_copy fuel ops s c)"
    for tag s c u ok u' s' by blast+
  have "copied u [] c (ok, u') s' (WireFormatLite_SkipField_copy (Suc fuel) tag ops s c)"
    if "ready s" "valid c" "2 * length (avail s) + 2 \<le> Suc fuel" "SkipField (Suc fuel) tag (Some u) s = Some ((ok, u'), s')"
    for tag s c u ok u' s'
    by (rule copy_field_step [OF that(1,2,4)]) (rule m, use that(3) in simp_all)
  moreover have "copied u (end_tag s') c (ok, u') s' (WireFormatLite_SkipMessage_copy (Suc fuel) ops s c)"
    if s: "ready s" "valid c" "2 * length (avail s) + 1 \<le> Suc fuel" "SkipMessage (Suc fuel) (Some u) s = Some ((ok, u'), s')"
    for s c u ok u' s'
    using ReadTag_read [OF ready_inv [OF s(1)]]
  proof (cases rule: tag_read_cases)
    case (failed t)
    then have "ci_last_tag t = 0" using ReadTag_last_tag by blast
    then show ?thesis
      using s(2,4) failed(1) copied_ok [OF sent_refl [OF s(2)], of "[]" "end_tag t"] by (auto simp: end_tag_def)
  next
    case (read v n t)
    have last: "ci_last_tag t = of_nat v" using ReadTag_last_tag [OF read(2)] .
    show ?thesis
    proof (cases "of_nat v = (0 :: u32) \<or> GetTagWireType (of_nat v) = WIRETYPE_END_GROUP")
      case True
      show ?thesis
      proof (cases "of_nat v = (0 :: u32)")
        case True
        then show ?thesis
          using s(2,4) read(2) last copied_ok [OF sent_refl [OF s(2)], of "[]" "end_tag t"] by (auto simp: end_tag_def)
      next
        case False
        obtain c1 where c1: "WriteVarint32 ops (of_nat v) c = Some c1" "sent (WriteVarint32ToArray (of_nat v)) c c1"
          using does_use [OF WriteVarint32_does s(2)] by blast
        then show ?thesis
          using s(4) read(2) last True False copied_ok [OF c1(2), of "[]" "end_tag t" u t]
          by (auto simp: end_tag_def)
      qed
    next
      case False
      note t = adv_ready [OF s(1) read(3)]
      have bound: "2 * length (avail t) + 2 \<le> fuel" using s(3) read(5) by simp
      obtain ok1 u1 s1 where q: "SkipField fuel (of_nat v) (Some u) t = Some ((ok1, u1), s1)" "ok1 \<longrightarrow> ci_frame t s1"
        using SkipField_safe [OF t bound, of "of_nat v" "Some u"] unfolding safe_result_def by auto
      obtain c1 bs where c1: "WireFormatLite_SkipField_copy fuel (of_nat v) ops t c = Some ((ok1, s1), c1)" "sent bs c c1"
        "ok1 \<longrightarrow> (\<exists>w. u1 = Some (u @ w) \<and> bs = SerializeUnknownFieldsToArray w)"
        using f [OF t s(2) bound q(1)] unfolding copied_def by auto
      show ?thesis
      proof (cases ok1)
        case ok: True
        then obtain w where w: "u1 = Some (u @ w)" "bs = SerializeUnknownFieldsToArray w" using c1(3) by blast
        have fr: "ci_frame t s1" using q(2) ok by simp
        have "SkipMessage fuel (Some (u @ w)) s1 = Some ((ok, u'), s')"
          using s(4) read(2) False q(1) ok w(1) by simp
        then have "copied (u @ w) (end_tag s') c1 (ok, u') s' (WireFormatLite_SkipMessage_copy fuel ops s1 c1)"
          using m [OF ci_frame_ready [OF t fr] sent_valid [OF c1(2)]] ci_frame_length [OF fr] bound by simp
        from copied_trans [OF c1(2) w(2) this] show ?thesis
          using read(2) False c1(1) ok by simp
      next
        case nok: False
        then show ?thesis
          using s(4) read(2) False q(1) c1(1) copied_failed [OF c1(2)] by auto
      qed
    qed
  qed
  ultimately show ?case by blast
qed simp

end

subsection \<open>Properties\<close>

text \<open>
  C38: the lite runtime and the full one agree on what an unknown message is. Skipping without a
  field set is skipping with one that is dropped, state for state. The copying skipper, writing to a
  string, fails exactly where the storing one does and leaves the input in the same state. On
  success it appends the bytes that \<open>SerializeUnknownFieldsToArray\<close> gives for the fields stored,
  followed by the end-group tag if one ended the message: tags and lengths come out in their
  shortest form, whatever form they had. The output fails only for lack of room.
\<close>
theorem lite_skipping_agrees:
  assumes "ready s" "2 * length (avail s) + 1 \<le> fuel"
    and "string_lends z (length (so_target z)) 0"
  shows "\<exists>ok s' c c' z'.
      WireFormatLite_SkipMessage fuel s = map_option (\<lambda>((ok, _), s'). (ok, s')) (SkipMessage fuel None s)
    \<and> CodedOutputStream_new string_output_ops z = Some c
    \<and> WireFormatLite_SkipMessage_copy fuel string_output_ops s c = Some ((ok, s'), c')
    \<and> CodedOutputStream_delete string_output_ops c' = Some z'
    \<and> (\<exists>u. SkipMessage fuel (Some []) s = Some ((ok, u), s')
         \<and> (ok \<longrightarrow> (\<exists>fs. u = Some fs
              \<and> (\<not> co_had_error c' \<longrightarrow> so_target z' = so_target z @ SerializeUnknownFieldsToArray fs @ end_tag s')
              \<and> (length (so_target z) + length (SerializeUnknownFieldsToArray fs @ end_tag s') \<le> 2 ^ 30
                   \<longrightarrow> \<not> co_had_error c'))))"
proof -
  obtain ok u s' where u: "SkipMessage fuel (Some []) s = Some ((ok, u), s')"
    using SkipMessage_safe [OF assms(1,2), of "Some []"] unfolding safe_result_def by auto
  obtain c where c: "CodedOutputStream_new string_output_ops z = Some c" "string_out.valid c" "\<not> co_had_error c"
      "string_room z \<le> co_room string_room c" "co_sent so_target c = so_target z"
    using string_out.new_valid [OF assms(3)] by blast
  have "string_out.copied [] (end_tag s') c (ok, u) s' (WireFormatLite_SkipMessage_copy fuel string_output_ops s c)"
    using string_out.copy_skips [of fuel] assms(1,2) c(2) u by blast
  then obtain c' bs where c': "WireFormatLite_SkipMessage_copy fuel string_output_ops s c = Some ((ok, s'), c')"
      "string_out.sent bs c c'"
      "ok \<longrightarrow> (\<exists>fs. u = Some fs \<and> bs = SerializeUnknownFieldsToArray fs @ end_tag s')"
    unfolding string_out.copied_def by auto
  obtain z' where z': "CodedOutputStream_delete string_output_ops c' = Some z'" "so_target z' = co_sent so_target c'"
    using string_out.delete_valid [OF string_out.sent_valid [OF c'(2)]] by blast
  have "2 ^ 30 - int (length (so_target z)) \<le> string_room z" by (simp add: string_room_def INT_MAX_def)
  then have "\<not> co_had_error c' \<longrightarrow> so_target z' = so_target z @ bs"
    and "length (so_target z) + length bs \<le> 2 ^ 30 \<longrightarrow> \<not> co_had_error c'"
    using c'(2) c(3-5) z'(2) by (auto simp: sends_def)
  then show ?thesis using u c(1) c'(1,3) z'(1) lite_skip_None [of fuel] by blast
qed

definition sample_group :: "byte list" where
  \<comment> \<open>a group holding a varint field, each tag and the value in a form one byte longer than needed\<close>
  "sample_group = [0x8B, 0, 0x90, 0, 0x85, 0, 0x8C, 0]"

lemma sample_group_stored:
  "map_option (\<lambda>((ok, u), s'). (ok, u, ci_last_tag s')) (SkipMessage 20 (Some []) (CodedInputStream_flat sample_group))
     = Some (True, Some [Unknown_Group 1 [Unknown_Varint 2 5]], 0)"
  by code_simp

lemma lite_skipping_agrees_witness:
  "\<exists>s' c c' z'.
      CodedOutputStream_new string_output_ops sample_string = Some c
    \<and> WireFormatLite_SkipMessage_copy 20 string_output_ops (CodedInputStream_flat sample_group) c = Some ((True, s'), c')
    \<and> CodedOutputStream_delete string_output_ops c' = Some z'
    \<and> so_target z' = [1, 2, 3, 0x0B, 0x10, 5, 0x0C]"
proof -
  let ?s = "CodedInputStream_flat sample_group"
  have l: "int (length sample_group) \<le> kDefaultTotalBytesLimit" by (simp add: sample_group_def kDefaultTotalBytesLimit_def)
  note flat = CodedInputStream_flat_inv [OF l]
  have "ready ?s" using flat(1) by (simp only: ready_def) (simp add: CodedInputStream_flat_def Let_def kDefaultTotalBytesLimit_def sample_group_def)
  moreover have "2 * length (avail ?s) + 1 \<le> 20" using flat(2) by (simp add: sample_group_def)
  moreover have "string_lends sample_string (length (so_target sample_string)) 0"
    by (simp add: sample_string_def string_lends_def INT_MAX_def)
  ultimately obtain ok s' c c' z' u where c:
      "CodedOutputStream_new string_output_ops sample_string = Some c"
      "WireFormatLite_SkipMessage_copy 20 string_output_ops ?s c = Some ((ok, s'), c')"
      "CodedOutputStream_delete string_output_ops c' = Some z'" "SkipMessage 20 (Some []) ?s = Some ((ok, u), s')"
      "ok \<longrightarrow> (\<exists>fs. u = Some fs
         \<and> (\<not> co_had_error c' \<longrightarrow>
              so_target z' = so_target sample_string @ SerializeUnknownFieldsToArray fs @ end_tag s')
         \<and> (length (so_target sample_string) + length (SerializeUnknownFieldsToArray fs @ end_tag s') \<le> 2 ^ 30
              \<longrightarrow> \<not> co_had_error c'))"
    using lite_skipping_agrees [of ?s 20 sample_string] by blast
  have u: "ok" "u = Some [Unknown_Group 1 [Unknown_Varint 2 5]]" "end_tag s' = []"
    using sample_group_stored unfolding c(4) by (auto simp: end_tag_def)
  have bytes: "SerializeUnknownFieldsToArray [Unknown_Group 1 [Unknown_Varint 2 5]] @ end_tag s' = [0x0B, 0x10, 5, 0x0C]"
    unfolding u(3) append_Nil2 by code_simp
  have "so_target z' = so_target sample_string @ [0x0B, 0x10, 5, 0x0C]"
    using c(5) u(1,2) unfolding bytes [symmetric] by (simp add: sample_string_def bytes del: length_append SerializeUnknownFieldsToArray.simps)
  then show ?thesis using c(1-3) u(1) by (simp add: sample_string_def)
qed

subsection \<open>Unknown enum values\<close>

text \<open>
  \<open>CodedOutputStreamFieldSkipper::SkipUnknownEnum\<close> sends the field number where the tag belongs:
  what it writes for a field is not that field's encoding, whatever its number, since the tag of
  a field above 0 is eight times its number.
\<close>

context zero_copy_output
begin

lemma skip_unknown_enum_sends:
  "does (WriteVarint32ToArray n @ WriteVarint64ToArray (scast v)) (fs_SkipUnknownEnum (CodedOutputStreamFieldSkipper ops) n v)"
  unfolding CodedOutputStreamFieldSkipper_def by (simp add: does_bind [OF WriteVarint32_does WriteVarint64_does])

end

lemma skipped_enum_is_no_field:
  assumes "n \<noteq> 0"
  shows "WriteVarint32ToArray n @ bs \<noteq> SerializeUnknownFieldsToArray [Unknown_Varint n v]"
proof
  assume eq: "WriteVarint32ToArray n @ bs = SerializeUnknownFieldsToArray [Unknown_Varint n v]"
  have "SerializeUnknownFieldsToArray [Unknown_Varint n v] = WriteVarint32ToArray (MakeTag n WIRETYPE_VARINT) @ WriteVarint64ToArray v"
    by (simp add: WriteInt64ToArray_def WriteInt64NoTagToArray_def WriteTagToArray_wf_def WriteTagToArray_WriteVarint32ToArray)
  with eq have "n = MakeTag n WIRETYPE_VARINT"
    using ReadVarint32FromArray_write [of n bs] ReadVarint32FromArray_write [of "MakeTag n WIRETYPE_VARINT" "WriteVarint64ToArray v"] by simp
  also have "\<dots> = n * 8" by (simp add: MakeTag_def kTagTypeBits_def wire_types push_bit_eq_mult)
  finally have "n * 7 = 0" by (simp add: algebra_simps)
  then have "n * 7 * 0xB6DB6DB7 = 0" by (simp only: mult_zero_left)
  moreover have "n * 7 * 0xB6DB6DB7 = n * (7 * 0xB6DB6DB7)" by (rule mult.assoc)
  moreover have "(7 :: u32) * 0xB6DB6DB7 = 1" by simp
  ultimately show False using assms by (simp only: mult_1_right)
qed

text \<open>
  So when an unknown enum value is skipped into a string and nothing fails, the string does not
  hold the field's encoding, which the reader of an old message would need to find it again.
\<close>
theorem skipped_enum_loses_its_tag:
  assumes "string_lends z (length (so_target z)) 0" "n \<noteq> 0"
  shows "\<exists>c c' z'. CodedOutputStream_new string_output_ops z = Some c
    \<and> fs_SkipUnknownEnum (CodedOutputStreamFieldSkipper string_output_ops) n v c = Some c'
    \<and> CodedOutputStream_delete string_output_ops c' = Some z'
    \<and> (\<not> co_had_error c' \<longrightarrow>
         so_target z' = so_target z @ WriteVarint32ToArray n @ WriteVarint64ToArray (scast v)
       \<and> so_target z' \<noteq> so_target z @ SerializeUnknownFieldsToArray [Unknown_Varint n (scast v)])"
proof -
  obtain c where c: "CodedOutputStream_new string_output_ops z = Some c" "string_out.valid c"
      "co_sent so_target c = so_target z"
    using string_out.new_valid [OF assms(1)] by blast
  obtain c' where c': "fs_SkipUnknownEnum (CodedOutputStreamFieldSkipper string_output_ops) n v c = Some c'"
      "string_out.sent (WriteVarint32ToArray n @ WriteVarint64ToArray (scast v)) c c'"
    using string_out.does_use [OF string_out.skip_unknown_enum_sends c(2)] by blast
  obtain z' where "CodedOutputStream_delete string_output_ops c' = Some z'" "so_target z' = co_sent so_target c'"
    using string_out.delete_valid [OF string_out.sent_valid [OF c'(2)]] by blast
  then show ?thesis
    using c(1,3) c' skipped_enum_is_no_field [OF assms(2)]
    by (auto simp: sends_def simp del: SerializeUnknownFieldsToArray.simps)
qed

end
